(* ===== verification/Kernel_Prelude.thy ===== *)
theory Kernel_Prelude
  imports Main "HOL-Library.Word" "HOL-Library.Monad_Syntax" "HOL-Library.Signed_Division"
begin

unbundle bit_operations_syntax

section \<open>Types, memory objects and shared lemmas\<close>

text \<open>
  The vocabulary every component of the model uses.

  The kernel is 32-bit i686 C. Its fixed-width integers are words (\<open>u8\<close>, \<open>u16\<close>,
  \<open>u32\<close>); a pointer or a \<open>size_t\<close> is a \<open>u32\<close>; a C \<open>int\<close> is an \<^typ>\<open>int\<close>, and
  every place where the source converts between the two reads the word with \<^const>\<open>uint\<close>,
  \<^const>\<open>unat\<close> or \<^const>\<open>sint\<close>, or truncates with \<open>to_int\<close>. Plain \<open>char\<close> is signed
  on this target, so a comparison of characters compares \<^const>\<open>sint\<close>.

  A pointer to the elements of an array object is the list of the elements from the pointer
  to the end of the object. Reading or writing outside the object is \<^const>\<open>None\<close>: the
  functions that follow pointers live in the option monad, and a theorem that a call returns
  \<^const>\<open>Some\<close> includes that every access was in bounds.
\<close>

type_synonym u8 = "8 word"
type_synonym u16 = "16 word"
type_synonym u32 = "32 word"

text \<open>Two's complement truncation to a C \<open>int\<close>.\<close>

definition to_int :: "int \<Rightarrow> int" where
  "to_int x = sint (word_of_int x :: u32)"

text \<open>A read and a write of one element of an array object.\<close>

definition rd :: "'a list \<Rightarrow> nat \<Rightarrow> 'a option" where
  "rd xs i = (if i < length xs then Some (xs ! i) else None)"

definition wr :: "'a list \<Rightarrow> nat \<Rightarrow> 'a \<Rightarrow> 'a list option" where
  "wr xs i v = (if i < length xs then Some (xs[i := v]) else None)"

text \<open>The same with an index that is a C \<open>int\<close>.\<close>

definition rdi :: "'a list \<Rightarrow> int \<Rightarrow> 'a option" where
  "rdi xs i = (if i < 0 then None else rd xs (nat i))"

definition wri :: "'a list \<Rightarrow> int \<Rightarrow> 'a \<Rightarrow> 'a list option" where
  "wri xs i v = (if i < 0 then None else wr xs (nat i) v)"

text \<open>\<open>n\<close> consecutive elements of an object, and the same elements overwritten.\<close>

definition rd_bytes :: "'a list \<Rightarrow> nat \<Rightarrow> nat \<Rightarrow> 'a list option" where
  "rd_bytes xs i n = (if i + n \<le> length xs then Some (take n (drop i xs)) else None)"

definition wr_bytes :: "'a list \<Rightarrow> nat \<Rightarrow> 'a list \<Rightarrow> 'a list option" where
  "wr_bytes xs i vs =
     (if i + length vs \<le> length xs
      then Some (take i xs @ vs @ drop (i + length vs) xs) else None)"

named_theorems kernel_consts \<open>values of the configuration constants\<close>
named_theorems obj_simps \<open>accesses to array objects\<close>

subsection \<open>Object accesses\<close>

lemma rd_Some [obj_simps]: "i < length xs \<Longrightarrow> rd xs i = Some (xs ! i)"
  by (simp add: rd_def)

lemma rd_eq_Some_iff: "rd xs i = Some v \<longleftrightarrow> i < length xs \<and> v = xs ! i"
  by (auto simp: rd_def)

lemma wr_Some [obj_simps]: "i < length xs \<Longrightarrow> wr xs i v = Some (xs[i := v])"
  by (simp add: wr_def)

lemma wr_eq_Some_iff: "wr xs i v = Some ys \<longleftrightarrow> i < length xs \<and> ys = xs[i := v]"
  by (auto simp: wr_def)

lemma rd_bytes_Some [obj_simps]:
  "i + n \<le> length xs \<Longrightarrow> rd_bytes xs i n = Some (take n (drop i xs))"
  by (simp add: rd_bytes_def)

lemma rd_bytes_eq_Some_iff:
  "rd_bytes xs i n = Some ys \<longleftrightarrow> i + n \<le> length xs \<and> ys = take n (drop i xs)"
  by (auto simp: rd_bytes_def)

lemma length_rd_bytes: "rd_bytes xs i n = Some ys \<Longrightarrow> length ys = n"
  by (auto simp: rd_bytes_eq_Some_iff)

lemma wr_bytes_Some [obj_simps]:
  "i + length vs \<le> length xs \<Longrightarrow>
   wr_bytes xs i vs = Some (take i xs @ vs @ drop (i + length vs) xs)"
  by (simp add: wr_bytes_def)

lemma length_wr_bytes: "wr_bytes xs i vs = Some ys \<Longrightarrow> length ys = length xs"
  by (auto simp: wr_bytes_def split: if_splits)

lemma rd_wr_bytes: "wr_bytes xs i vs = Some ys \<Longrightarrow> rd_bytes ys i (length vs) = Some vs"
  by (auto simp: wr_bytes_def rd_bytes_def split: if_splits)

subsection \<open>Lists\<close>

lemma take_drop_split: "i + n \<le> length xs \<Longrightarrow> xs = take i xs @ take n (drop i xs) @ drop (i + n) xs"
  by (metis add.commute append_take_drop_id drop_drop)

lemma list_update_append_here: "(ys @ x # zs)[length ys := v] = ys @ v # zs"
  by simp

lemma nth_list_update_if: "i < length xs \<Longrightarrow> xs[i := v] ! j = (if j = i then v else xs ! j)"
  by (cases "j = i") auto

lemma length_takeWhile_less_iff: "length (takeWhile P xs) < length xs \<longleftrightarrow> (\<exists>x \<in> set xs. \<not> P x)"
  by (induction xs) auto

lemma take_length_takeWhile: "take (length (takeWhile P xs)) xs = takeWhile P xs"
  by (metis takeWhile_eq_take)

subsection \<open>Words\<close>

lemma unat_mod_eq: "unat (w mod v) = unat w mod unat v"
  by (simp add: unat_mod)

lemma unat_less_power: "unat (w :: 'a::len word) < 2 ^ LENGTH('a)"
  by (rule unsigned_less)

lemma word_eq_unatI: "unat v = unat w \<Longrightarrow> v = w"
  by (rule word_unat_eq_iff [THEN iffD2])

lemma sint_u8_range: "- 128 \<le> sint (c :: u8) \<and> sint c \<le> 127"
  using sint_range_size [of c] by (simp add: word_size)

lemma to_int_id: "- (2 ^ 31) \<le> x \<Longrightarrow> x < 2 ^ 31 \<Longrightarrow> to_int x = x"
  unfolding to_int_def
  by (subst sint_sbintrunc') (simp add: signed_take_bit_int_eq_self_iff)

lemma uint_of_int_u32: "0 \<le> k \<Longrightarrow> k < 2 ^ 32 \<Longrightarrow> uint (word_of_int k :: u32) = k"
  by (simp add: uint_word_of_int)

lemma word_of_int_eq_iff_u32:
  "0 \<le> k \<Longrightarrow> k < 2 ^ 32 \<Longrightarrow> word_of_int k = (w :: u32) \<longleftrightarrow> k = uint w"
  using uint_of_int_u32 [of k] by (metis word_of_int_uint)

lemma sint_eq_uint_u32: "uint (w :: u32) < 2 ^ 31 \<Longrightarrow> sint w = uint w"
  by (simp add: sint_uint signed_take_bit_int_eq_self_iff order_trans [OF _ uint_ge_0])


lemma nth_splice:
  "r + k \<le> length xs \<Longrightarrow> k \<le> length ys \<Longrightarrow> j < length xs \<Longrightarrow>
   (take r xs @ take k ys @ drop (r + k) xs) ! j = (if r \<le> j \<and> j < r + k then ys ! (j - r) else xs ! j)"
  by (auto simp: nth_append min_def)

subsection \<open>Sixteen-bit words in byte objects\<close>

text \<open>The two bytes of a 16-bit word in memory order.\<close>

definition word_bytes :: "u16 \<Rightarrow> u8 list" where
  "word_bytes w = [ucast w, ucast (drop_bit 8 w)]"

definition bytes_word :: "u8 \<Rightarrow> u8 \<Rightarrow> u16" where
  "bytes_word lo hi = ucast lo OR push_bit 8 (ucast hi)"

lemma bytes_word_bytes [simp]: "word_bytes (bytes_word lo hi) = [lo, hi]"
proof -
  have "ucast (bytes_word lo hi) = lo"
    by (rule bit_word_eqI) (auto simp: bytes_word_def bit_simps)
  moreover have "ucast (drop_bit 8 (bytes_word lo hi)) = hi"
    by (rule bit_word_eqI) (auto simp: bytes_word_def bit_simps dest: bit_imp_le_length)
  ultimately show ?thesis by (simp add: word_bytes_def)
qed

lemma length_word_bytes [simp]: "length (word_bytes w) = 2"
  by (simp add: word_bytes_def)

definition rd16 :: "u8 list \<Rightarrow> nat \<Rightarrow> u16 option" where
  "rd16 xs i = do { lo \<leftarrow> rd xs i; hi \<leftarrow> rd xs (i + 1); Some (bytes_word lo hi) }"

definition wr16 :: "u8 list \<Rightarrow> nat \<Rightarrow> u16 \<Rightarrow> u8 list option" where
  "wr16 xs i w = wr_bytes xs i (word_bytes w)"

lemma rd16_Some [obj_simps]: "i + 1 < length xs \<Longrightarrow> rd16 xs i = Some (bytes_word (xs ! i) (xs ! (i + 1)))"
  by (simp add: rd16_def rd_def)

lemma bytes_word_of_bytes [simp]: "bytes_word (ucast w) (ucast (drop_bit 8 w)) = w"
  by (rule bit_word_eqI) (auto simp: bytes_word_def bit_simps)

lemma unat_bytes_word: "unat (bytes_word lo hi) = unat lo + 256 * unat hi"
proof -
  have "bytes_word lo hi = ucast lo + push_bit 8 (ucast hi)"
    unfolding bytes_word_def
    by (rule disjunctive_add_eq_or [symmetric]) (auto simp: bit_eq_iff bit_simps dest: bit_imp_le_length)
  moreover have "unat (push_bit 8 (ucast hi :: u16)) = 256 * unat hi"
    using unat_less_power [of hi] by (simp add: push_bit_eq_mult unat_word_ariths unsigned_ucast_eq take_bit_eq_mod)
  moreover have "unat (ucast lo :: u16) = unat lo"
    using unat_less_power [of lo] by (simp add: unsigned_ucast_eq take_bit_eq_mod)
  ultimately show ?thesis
    using unat_less_power [of lo] unat_less_power [of hi] by (simp add: unat_word_ariths)
qed

end
