(* ===== verification/Kernel_Config.thy ===== *)
theory Kernel_Config
  imports Kernel_Prelude
begin

section \<open>Configuration constants and status codes\<close>

text \<open>
  The constants of \<^verbatim>\<open>src/src/config.h\<close> and the status codes of
  \<^verbatim>\<open>src/src/status.h\<close> under their source names. Functions of the kernel return the
  negated code on failure, as an \<^typ>\<open>int\<close>.
\<close>

subsection \<open>Sizes and addresses\<close>

definition TOYOS_TOTAL_INTERRUPTS :: int where
  [kernel_consts]: "TOYOS_TOTAL_INTERRUPTS = 512"

definition TOYOS_HEAP_SIZE_BYTES :: u32 where
  [kernel_consts]: "TOYOS_HEAP_SIZE_BYTES = 104857600"

definition TOYOS_HEAP_BLOCK_SIZE :: u32 where
  [kernel_consts]: "TOYOS_HEAP_BLOCK_SIZE = 4096"

definition TOYOS_HEAP_ADDRESS :: u32 where
  [kernel_consts]: "TOYOS_HEAP_ADDRESS = 0x01000000"

definition TOYOS_SECTOR_SIZE :: int where
  [kernel_consts]: "TOYOS_SECTOR_SIZE = 512"

definition TOYOS_MAX_FILESYSTEMS :: nat where
  [kernel_consts]: "TOYOS_MAX_FILESYSTEMS = 12"

definition TOYOS_MAX_FILE_DESCRIPTORS :: nat where
  [kernel_consts]: "TOYOS_MAX_FILE_DESCRIPTORS = 512"

definition TOYOS_MAX_PATH :: nat where
  [kernel_consts]: "TOYOS_MAX_PATH = 108"

definition TOYOS_PROGRAM_VIRTUAL_ADDRESS :: u32 where
  [kernel_consts]: "TOYOS_PROGRAM_VIRTUAL_ADDRESS = 0x400000"

definition TOYOS_PROGRAM_VIRTUAL_STACK_ADDRESS_START :: u32 where
  [kernel_consts]: "TOYOS_PROGRAM_VIRTUAL_STACK_ADDRESS_START = 0x3ff000"

definition TOYOS_USER_PROGRAM_STACK_SIZE :: u32 where
  [kernel_consts]: "TOYOS_USER_PROGRAM_STACK_SIZE = 1024 * 16"

definition TOYOS_PROGRAM_VIRTUAL_STACK_ADDRESS_END :: u32 where
  [kernel_consts]: "TOYOS_PROGRAM_VIRTUAL_STACK_ADDRESS_END =
     TOYOS_PROGRAM_VIRTUAL_STACK_ADDRESS_START - TOYOS_USER_PROGRAM_STACK_SIZE"

definition TOYOS_MAX_PROGRAM_ALLOCATIONS :: nat where
  [kernel_consts]: "TOYOS_MAX_PROGRAM_ALLOCATIONS = 1024"

definition TOYOS_MAX_PROCESSES :: nat where
  [kernel_consts]: "TOYOS_MAX_PROCESSES = 12"

definition TOYOS_MAX_SYSCALLS :: int where
  [kernel_consts]: "TOYOS_MAX_SYSCALLS = 1024"

definition TOYOS_KEYBOARD_BUFFER_SIZE :: nat where
  [kernel_consts]: "TOYOS_KEYBOARD_BUFFER_SIZE = 1024"

subsection \<open>Status codes\<close>

definition OK :: int where [kernel_consts]: "OK = 0"

definition EINVARG :: int where [kernel_consts]: "EINVARG = 1"

definition ENOMEM :: int where [kernel_consts]: "ENOMEM = 2"

definition EIO :: int where [kernel_consts]: "EIO = 3"

definition EBADPATH :: int where [kernel_consts]: "EBADPATH = 4"

definition ENOFILEMEM :: int where [kernel_consts]: "ENOFILEMEM = 5"

definition EFSNOTUS :: int where [kernel_consts]: "EFSNOTUS = 6"

definition ERDONLY :: int where [kernel_consts]: "ERDONLY = 7"

definition EISTKN :: int where [kernel_consts]: "EISTKN = 8"

definition EINFORMAT :: int where [kernel_consts]: "EINFORMAT = 9"

definition EBUSY :: int where [kernel_consts]: "EBUSY = 10"

end
