(* ===== verification/C_String.thy ===== *)
theory C_String
  imports Kernel_Config
begin

section \<open>Memory and string routines\<close>

text \<open>
  \<^verbatim>\<open>src/src/memory/memory.c\<close> and \<^verbatim>\<open>src/src/stdlib/string.c\<close>. A \<open>char *\<close> is the list of
  the bytes from the pointer to the end of its object, and a routine that runs past the object
  is \<^const>\<open>None\<close>. Source and destination are different objects.
\<close>

subsection \<open>Blocks of memory\<close>

fun memset_loop :: "u8 list \<Rightarrow> nat \<Rightarrow> u8 \<Rightarrow> nat \<Rightarrow> u8 list option" where
  "memset_loop p i c 0 = Some p"
| "memset_loop p i c (Suc n) = do { p' \<leftarrow> wr p i c; memset_loop p' (Suc i) c n }"

definition memset :: "u8 list \<Rightarrow> int \<Rightarrow> u32 \<Rightarrow> u8 list option" where
  "memset ptr c sz = memset_loop ptr 0 (word_of_int c) (unat sz)"

text \<open>\<open>while (count-- > 0)\<close> with the two running pointers; \<open>c1\<close>, \<open>c2\<close> are signed chars.\<close>

fun memcmp_loop :: "u8 list \<Rightarrow> u8 list \<Rightarrow> nat \<Rightarrow> int option" where
  "memcmp_loop c1 c2 0 = Some 0"
| "memcmp_loop (a # c1) (b # c2) (Suc count) =
     (if a \<noteq> b then Some (if sint a < sint b then -1 else 1) else memcmp_loop c1 c2 count)"
| "memcmp_loop _ _ (Suc count) = None"

definition memcmp :: "u8 list \<Rightarrow> u8 list \<Rightarrow> int \<Rightarrow> int option" where
  "memcmp s1 s2 count = memcmp_loop s1 s2 (nat count)"

fun memcpy_loop :: "u8 list \<Rightarrow> u8 list \<Rightarrow> nat \<Rightarrow> nat \<Rightarrow> u8 list option" where
  "memcpy_loop d s i 0 = Some d"
| "memcpy_loop d s i (Suc n) =
     do { c \<leftarrow> rd s i; d' \<leftarrow> wr d i c; memcpy_loop d' s (Suc i) n }"

definition memcpy :: "u8 list \<Rightarrow> u8 list \<Rightarrow> int \<Rightarrow> u8 list option" where
  "memcpy dest src len = memcpy_loop dest src 0 (nat len)"

subsection \<open>Characters\<close>

definition tolower :: "u8 \<Rightarrow> u8" where
  "tolower s1 = (if sint s1 \<ge> 65 \<and> sint s1 \<le> 90 then s1 + 32 else s1)"

definition is_digit :: "u8 \<Rightarrow> bool" where
  "is_digit c \<longleftrightarrow> sint c \<ge> 48 \<and> sint c \<le> 57"

definition ctoi :: "u8 \<Rightarrow> int" where
  "ctoi c = sint c - 48"

subsection \<open>Strings\<close>

fun strcpy_loop :: "u8 list \<Rightarrow> nat \<Rightarrow> u8 list \<Rightarrow> u8 list option" where
  "strcpy_loop dest i [] = None"
| "strcpy_loop dest i (c # src) =
     (if c \<noteq> 0 then do { dest' \<leftarrow> wr dest i c; strcpy_loop dest' (Suc i) src }
      else wr dest i 0)"

definition strcpy :: "u8 list \<Rightarrow> u8 list \<Rightarrow> u8 list option" where
  "strcpy dest src = strcpy_loop dest 0 src"

fun strlen_loop :: "int \<Rightarrow> u8 list \<Rightarrow> int option" where
  "strlen_loop i [] = None"
| "strlen_loop i (c # ptr) = (if c \<noteq> 0 then strlen_loop (i + 1) ptr else Some i)"

definition strlen :: "u8 list \<Rightarrow> int option" where
  "strlen ptr = strlen_loop 0 ptr"

text \<open>The first loop of \<open>strcat\<close> finds the end of \<open>dest\<close>, the second copies.\<close>

fun strcat_end :: "u8 list \<Rightarrow> nat \<Rightarrow> nat option" where
  "strcat_end [] i = None"
| "strcat_end (c # dest) i = (if c \<noteq> 0 then strcat_end dest (Suc i) else Some i)"

fun strcat_loop :: "u8 list \<Rightarrow> nat \<Rightarrow> u8 list \<Rightarrow> (u8 list \<times> int) option" where
  "strcat_loop dest i [] = None"
| "strcat_loop dest i (c # src) =
     (if c \<noteq> 0 then do { dest' \<leftarrow> wr dest i c; strcat_loop dest' (Suc i) src }
      else do { dest' \<leftarrow> wr dest i 0; Some (dest', int i) })"

definition strcat :: "u8 list \<Rightarrow> u8 list \<Rightarrow> (u8 list \<times> int) option" where
  "strcat dest src = do { i \<leftarrow> strcat_end dest 0; strcat_loop dest i src }"

function strncpy_loop :: "u8 list \<Rightarrow> u8 list \<Rightarrow> nat \<Rightarrow> int \<Rightarrow> u8 list option" where
  "strncpy_loop dest src i n =
     (if int i < n - 1
      then do { c \<leftarrow> rd src i;
                (if c = 0 then wr dest i 0
                 else do { dest' \<leftarrow> wr dest i c; strncpy_loop dest' src (Suc i) n }) }
      else wr dest i 0)"
  by pat_completeness auto
termination
  by (relation "measure (\<lambda>(dest, src, i, n). nat n - i)") auto

definition strncpy :: "u8 list \<Rightarrow> u8 list \<Rightarrow> int \<Rightarrow> u8 list option" where
  "strncpy dest src n = strncpy_loop dest src 0 n"

fun strnlen_loop :: "u8 list \<Rightarrow> nat \<Rightarrow> nat \<Rightarrow> int option" where
  "strnlen_loop ptr i 0 = Some (int i)"
| "strnlen_loop ptr i (Suc n) =
     do { c \<leftarrow> rd ptr i; if c = 0 then Some (int i) else strnlen_loop ptr (Suc i) n }"

definition strnlen :: "u8 list \<Rightarrow> int \<Rightarrow> int option" where
  "strnlen ptr n = strnlen_loop ptr 0 (nat n)"

fun strnlen_terminator_loop :: "u8 list \<Rightarrow> nat \<Rightarrow> nat \<Rightarrow> int \<Rightarrow> u8 \<Rightarrow> int option" where
  "strnlen_terminator_loop str i 0 m terminator = Some m"
| "strnlen_terminator_loop str i (Suc n) m terminator =
     do { c \<leftarrow> rd str i;
          if c = 0 \<or> c = terminator then Some (int i)
          else strnlen_terminator_loop str (Suc i) n m terminator }"

definition strnlen_terminator :: "u8 list \<Rightarrow> int \<Rightarrow> u8 \<Rightarrow> int option" where
  "strnlen_terminator str m terminator = strnlen_terminator_loop str 0 (nat m) m terminator"

fun istrncmp_loop :: "u8 list \<Rightarrow> u8 list \<Rightarrow> nat \<Rightarrow> int option" where
  "istrncmp_loop s1 s2 0 = Some 0"
| "istrncmp_loop (u1 # s1) (u2 # s2) (Suc n) =
     (if u1 \<noteq> u2 \<and> tolower u1 \<noteq> tolower u2 then Some (-1)
      else if u1 = 0 then Some 0
      else istrncmp_loop s1 s2 n)"
| "istrncmp_loop _ _ (Suc n) = None"

definition istrncmp :: "u8 list \<Rightarrow> u8 list \<Rightarrow> int \<Rightarrow> int option" where
  "istrncmp s1 s2 n = istrncmp_loop s1 s2 (nat n)"

text \<open>The arguments of \<open>strncmp\<close> may be NULL (\<^const>\<open>None\<close>), which it checks.\<close>

fun strncmp_loop :: "u8 list \<Rightarrow> u8 list \<Rightarrow> nat \<Rightarrow> int option" where
  "strncmp_loop s1 s2 0 = Some 0"
| "strncmp_loop (a # s1) (b # s2) (Suc n) =
     (if a \<noteq> b then Some (-2) else if a = 0 then Some 0 else strncmp_loop s1 s2 n)"
| "strncmp_loop _ _ (Suc n) = None"

definition strncmp :: "u8 list option \<Rightarrow> u8 list option \<Rightarrow> int \<Rightarrow> int option" where
  "strncmp str1 str2 n =
     (if n = 0 then Some (-1)
      else case (str1, str2) of
             (Some s1, Some s2) \<Rightarrow> strncmp_loop s1 s2 (nat n)
           | _ \<Rightarrow> Some (-1))"

subsection \<open>Numbers\<close>

text \<open>
  \<open>itoa\<close> fills a static 12-byte buffer from the end. It works on the negated value, so that the
  smallest \<open>int\<close> needs no special case; \<open>%\<close> and \<open>/\<close> truncate towards zero. The result is the
  suffix of the buffer at the returned pointer.
\<close>

function itoa_loop :: "u8 list \<Rightarrow> nat \<Rightarrow> int \<Rightarrow> (u8 list \<times> nat) option" where
  "itoa_loop text loc i =
     (if i = 0 then Some (text, loc)
      else if loc = 0 then None
      else do { text' \<leftarrow> wr text (loc - 1) (word_of_int (48 - i smod 10));
                itoa_loop text' (loc - 1) (i sdiv 10) })"
  by pat_completeness auto
termination
  by (relation "measure (\<lambda>(text, loc, i). nat \<bar>i\<bar>)")
    (auto simp: signed_divide_int_def abs_mult sgn_if)

definition itoa :: "int \<Rightarrow> u8 list option" where
  "itoa i =
     do { let neg = \<not> (i \<ge> 0);
          let i = (if i \<ge> 0 then - i else i);
          (text, loc) \<leftarrow> itoa_loop (replicate 12 0) 11 i;
          (text, loc) \<leftarrow> (if loc = 11
                         then do { text \<leftarrow> wr text 10 48; Some (text, 10) }
                         else Some (text, loc));
          (text, loc) \<leftarrow> (if neg
                         then (if loc = 0 then None
                               else do { text \<leftarrow> wr text (loc - 1) 45; Some (text, loc - 1) })
                         else Some (text, loc));
          Some (drop loc text) }"

definition hex_digits :: "u8 list" where
  "hex_digits = [48, 49, 50, 51, 52, 53, 54, 55, 56, 57, 65, 66, 67, 68, 69, 70]"

function itoa_hex_loop :: "u8 list \<Rightarrow> nat \<Rightarrow> u32 \<Rightarrow> (u8 list \<times> nat) option" where
  "itoa_hex_loop text loc i =
     (if i = 0 then Some (text, loc)
      else if loc = 0 then None
      else do { text' \<leftarrow> wr text (loc - 1) (hex_digits ! unat (i mod 16));
                itoa_hex_loop text' (loc - 1) (i div 16) })"
  by pat_completeness auto
termination
  by (relation "measure (\<lambda>(text, loc, i). unat i)")
    (auto simp: unat_div intro!: div_less_dividend simp: unat_gt_0)

definition itoa_hex :: "u32 \<Rightarrow> u8 list option" where
  "itoa_hex i =
     (if i = 0 then do { text \<leftarrow> wr (replicate 12 0) 10 48; Some (drop 10 text) }
      else do { (text, loc) \<leftarrow> itoa_hex_loop (replicate 12 0) 11 i; Some (drop loc text) })"


subsection \<open>Specification vocabulary\<close>

text \<open>The characters of a string up to its terminator, and the numbers strings denote.\<close>

definition c_str :: "u8 list \<Rightarrow> u8 list" where
  "c_str p = takeWhile (\<lambda>c. c \<noteq> 0) p"

text \<open>
  The small letters of the capital ones, as a table of the ASCII codes of the two alphabets; every
  other character stands for itself.
\<close>

definition ascii :: "string \<Rightarrow> u8 list" where
  "ascii cs = map (\<lambda>c. of_nat (of_char c)) cs"

definition to_lower_case :: "u8 \<Rightarrow> u8" where
  "to_lower_case c =
     (case map_of (zip (ascii ''ABCDEFGHIJKLMNOPQRSTUVWXYZ'') (ascii ''abcdefghijklmnopqrstuvwxyz'')) c of
        None \<Rightarrow> c | Some l \<Rightarrow> l)"

fun dec_value :: "int \<Rightarrow> u8 list \<Rightarrow> int" where
  "dec_value acc [] = acc"
| "dec_value acc (c # cs) = (if is_digit c then dec_value (acc * 10 + ctoi c) cs else acc)"

definition dec_string_value :: "u8 list \<Rightarrow> int" where
  "dec_string_value s =
     (case s of [] \<Rightarrow> 0 | c # cs \<Rightarrow> if c = 45 then - dec_value 0 cs else dec_value 0 s)"

fun dec_digits :: "nat \<Rightarrow> u8 list" where
  "dec_digits n = (if n = 0 then [] else dec_digits (n div 10) @ [word_of_nat (48 + n mod 10)])"

declare dec_digits.simps [simp del] strncpy_loop.simps [simp del] itoa_loop.simps [simp del]
  itoa_hex_loop.simps [simp del]

fun hex_value :: "nat \<Rightarrow> u8 list \<Rightarrow> nat" where
  "hex_value acc [] = acc"
| "hex_value acc (c # cs) =
     (if c = 0 then acc
      else hex_value (acc * 16 + (if unat c < 65 then unat c - 48 else unat c - 55)) cs)"

fun hex_string :: "nat \<Rightarrow> u8 list" where
  "hex_string n = (if n = 0 then [] else hex_string (n div 16) @ [hex_digits ! (n mod 16)])"

declare hex_string.simps [simp del]

subsection \<open>Blocks of memory: lemmas\<close>

lemma c_str_Nil [simp]: "c_str [] = []"
  and c_str_Cons [simp]: "c_str (c # p) = (if c \<noteq> 0 then c # c_str p else [])"
  by (simp_all add: c_str_def)

lemma c_str_no_nul: "0 \<notin> set (c_str p)"
  by (auto simp: c_str_def dest: set_takeWhileD)

lemma length_c_str: "0 \<in> set p \<Longrightarrow> length (c_str p) < length p"
  by (auto simp: c_str_def length_takeWhile_less_iff)

lemma length_c_str_le: "length (c_str p) \<le> length p"
  by (simp add: c_str_def length_takeWhile_le)

lemma take_drop_step:
  "i < length d \<Longrightarrow> take (Suc i) (d[i := v]) = take i d @ [v]"
  by (simp add: take_Suc_conv_app_nth)

lemma drop_step: "drop (Suc i + n) (d[i := v]) = drop (Suc i + n) d"
  by simp

lemma memcpy_loop_eq:
  "i + n \<le> length d \<Longrightarrow> i + n \<le> length s \<Longrightarrow>
   memcpy_loop d s i n = Some (take i d @ take n (drop i s) @ drop (i + n) d)"
proof (induction n arbitrary: d i)
  case 0
  then show ?case by simp
next
  case (Suc n)
  then have IH: "memcpy_loop (d[i := s ! i]) s (Suc i) n =
      Some (take (Suc i) (d[i := s ! i]) @ take n (drop (Suc i) s) @ drop (Suc i + n) (d[i := s ! i]))"
    by simp
  have "take (Suc n) (drop i s) = s ! i # take n (drop (Suc i) s)"
    using Suc.prems by (simp add: Cons_nth_drop_Suc [symmetric])
  with IH Suc.prems show ?case
    by (simp add: obj_simps take_drop_step)
qed

lemma memcpy_eq:
  "nat len \<le> length d \<Longrightarrow> nat len \<le> length s \<Longrightarrow>
   memcpy d s len = Some (take (nat len) s @ drop (nat len) d)"
  by (simp add: memcpy_def memcpy_loop_eq)

lemma memset_loop_eq:
  "i + n \<le> length p \<Longrightarrow> memset_loop p i c n = Some (take i p @ replicate n c @ drop (i + n) p)"
proof (induction n arbitrary: p i)
  case 0
  then show ?case by simp
next
  case (Suc n)
  then have "memset_loop (p[i := c]) (Suc i) c n =
      Some (take (Suc i) (p[i := c]) @ replicate n c @ drop (Suc i + n) (p[i := c]))"
    by simp
  with Suc.prems show ?case
    by (simp add: obj_simps take_drop_step)
qed

lemma memset_eq:
  "unat sz \<le> length p \<Longrightarrow> memset p c sz = Some (replicate (unat sz) (word_of_int c) @ drop (unat sz) p)"
  by (simp add: memset_def memset_loop_eq)

lemma memcmp_loop_zero_iff:
  "n \<le> length s1 \<Longrightarrow> n \<le> length s2 \<Longrightarrow>
   memcmp_loop s1 s2 n = Some 0 \<longleftrightarrow> take n s1 = take n s2"
  by (induction s1 s2 n rule: memcmp_loop.induct) auto

subsection \<open>Strings: lemmas\<close>

lemma strlen_loop_eq:
  "strlen_loop i p = (if 0 \<in> set p then Some (i + int (length (c_str p))) else None)"
  by (induction i p rule: strlen_loop.induct) auto

lemma strlen_eq: "strlen p = (if 0 \<in> set p then Some (int (length (c_str p))) else None)"
  by (simp add: strlen_def strlen_loop_eq)

lemma strcpy_loop_eq:
  "0 \<in> set src \<Longrightarrow> i + length (c_str src) < length dest \<Longrightarrow>
   strcpy_loop dest i src =
     Some (take i dest @ c_str src @ 0 # drop (Suc (i + length (c_str src))) dest)"
proof (induction dest i src rule: strcpy_loop.induct)
  case (2 dest i c src)
  show ?case
  proof (cases "c = 0")
    case True
    with 2 show ?thesis by (simp add: obj_simps upd_conv_take_nth_drop)
  next
    case False
    with 2 have "strcpy_loop (dest[i := c]) (Suc i) src =
      Some (take (Suc i) (dest[i := c]) @ c_str src @ 0 # drop (Suc (Suc i + length (c_str src))) (dest[i := c]))"
      by (auto simp: wr_Some)
    with False 2 show ?thesis by (simp add: obj_simps take_drop_step)
  qed
qed simp

lemma strcpy_eq:
  "0 \<in> set src \<Longrightarrow> length (c_str src) < length dest \<Longrightarrow>
   strcpy dest src = Some (c_str src @ 0 # drop (Suc (length (c_str src))) dest)"
  by (simp add: strcpy_def strcpy_loop_eq)

lemma strcat_end_eq:
  "strcat_end p i = (if 0 \<in> set p then Some (i + length (c_str p)) else None)"
  by (induction p i rule: strcat_end.induct) auto

lemma strcat_loop_eq:
  "0 \<in> set src \<Longrightarrow> i + length (c_str src) < length dest \<Longrightarrow>
   strcat_loop dest i src =
     Some (take i dest @ c_str src @ 0 # drop (Suc (i + length (c_str src))) dest,
           int (i + length (c_str src)))"
proof (induction dest i src rule: strcat_loop.induct)
  case (2 dest i c src)
  show ?case
  proof (cases "c = 0")
    case True
    with 2 show ?thesis by (simp add: obj_simps upd_conv_take_nth_drop)
  next
    case False
    with 2 have "strcat_loop (dest[i := c]) (Suc i) src =
      Some (take (Suc i) (dest[i := c]) @ c_str src @ 0 # drop (Suc (Suc i + length (c_str src))) (dest[i := c]),
            int (Suc i + length (c_str src)))"
      by (auto simp: wr_Some)
    with False 2 show ?thesis by (simp add: obj_simps take_drop_step)
  qed
qed simp

lemma take_length_c_str: "take (length (c_str p)) p = c_str p"
  by (simp add: c_str_def take_length_takeWhile)

lemma strcat_eq:
  "0 \<in> set dest \<Longrightarrow> 0 \<in> set src \<Longrightarrow> length (c_str dest) + length (c_str src) < length dest \<Longrightarrow>
   strcat dest src =
     Some (c_str dest @ c_str src @ 0 # drop (Suc (length (c_str dest) + length (c_str src))) dest,
           int (length (c_str dest) + length (c_str src)))"
  by (simp add: strcat_def strcat_end_eq strcat_loop_eq take_length_c_str)


lemma strncpy_loop_eq:
  assumes "int i \<le> n - 1" and "n \<le> int (length dest)"
    and "0 \<in> set src \<or> n - 1 \<le> int (length src)" and "i \<le> length (c_str src)"
  shows "strncpy_loop dest src i n =
    Some (take i dest @ take (nat (n - 1) - i) (drop i (c_str src)) @ 0 #
          drop (Suc (max i (min (nat (n - 1)) (length (c_str src))))) dest)"
  using assms
proof (induction dest src i n rule: strncpy_loop.induct)
  case (1 dest src i n)
  show ?case
  proof (cases "int i < n - 1")
    case False
    with 1 have "nat (n - 1) = i" by linarith
    with 1 False show ?thesis
      by (simp add: strncpy_loop.simps [of dest] obj_simps upd_conv_take_nth_drop)
  next
    case True
    have i: "i < length src"
    proof (cases "i = length (c_str src)")
      case True
      then show ?thesis using 1(4) \<open>int i < n - 1\<close> length_c_str [of src] by linarith
    next
      case False
      then show ?thesis using 1(5) length_c_str_le [of src] by linarith
    qed
    have at: "src ! i = 0 \<longleftrightarrow> i = length (c_str src)"
    proof
      assume "src ! i = 0"
      then show "i = length (c_str src)"
        using 1(5) takeWhile_nth [of i "\<lambda>c. c \<noteq> 0" src] c_str_no_nul [of src]
        by (metis c_str_def le_neq_implies_less nth_mem)
    next
      assume "i = length (c_str src)"
      then show "src ! i = 0"
        using i nth_length_takeWhile [of "\<lambda>c. c \<noteq> 0" src] by (simp add: c_str_def)
    qed
    show ?thesis
    proof (cases "src ! i = 0")
      case z: True
      with at have "i = length (c_str src)" by simp
      with True i z 1(3) show ?thesis
        by (simp add: strncpy_loop.simps [of dest] obj_simps upd_conv_take_nth_drop)
    next
      case nz: False
      with at 1(5) have lt: "i < length (c_str src)" by simp
      have ci: "c_str src ! i = src ! i"
        using lt by (simp add: c_str_def takeWhile_nth)
      have "strncpy_loop (dest[i := src ! i]) src (Suc i) n =
        Some (take (Suc i) (dest[i := src ! i]) @ take (nat (n - 1) - Suc i) (drop (Suc i) (c_str src)) @ 0 #
          drop (Suc (max (Suc i) (min (nat (n - 1)) (length (c_str src))))) (dest[i := src ! i]))"
        using 1(1) [OF True, of "src ! i" "dest[i := src ! i]"] 1(3,4) True i nz lt
        by (simp add: obj_simps)
      moreover have "take (nat (n - 1) - i) (drop i (c_str src)) =
        src ! i # take (nat (n - 1) - Suc i) (drop (Suc i) (c_str src))"
        using True lt ci by (simp add: Cons_nth_drop_Suc [symmetric] take_Cons' Suc_diff_Suc)
      moreover have "max (Suc i) (min (nat (n - 1)) (length (c_str src))) = min (nat (n - 1)) (length (c_str src))"
        and "max i (min (nat (n - 1)) (length (c_str src))) = min (nat (n - 1)) (length (c_str src))"
        using True lt by auto
      moreover have "drop (Suc (min (nat (n - 1)) (length (c_str src)))) (dest[i := src ! i]) =
        drop (Suc (min (nat (n - 1)) (length (c_str src)))) dest"
        using True lt by simp
      ultimately show ?thesis
        using True nz i 1(3) by (simp add: strncpy_loop.simps [of dest] obj_simps take_drop_step)
    qed
  qed
qed

lemma strncpy_eq:
  assumes "1 \<le> n" and "n \<le> int (length dest)" and "0 \<in> set src \<or> n - 1 \<le> int (length src)"
  shows "strncpy dest src n =
    (let s = take (nat (n - 1)) (c_str src) in Some (s @ 0 # drop (Suc (length s)) dest))"
  using assms strncpy_loop_eq [of 0 n dest src]
  by (simp add: strncpy_def Let_def min.commute)

lemma map_of_codes: "\<forall>k \<in> set ks. k < 256 \<Longrightarrow>
    map_of (map (\<lambda>k. (of_nat k :: u8, f (of_nat k))) ks) c
      = (if unat c \<in> set ks then Some (f c) else None)"
proof (induction ks)
  case (Cons k ks)
  then have "unat (of_nat k :: u8) = k" by (simp add: unat_of_nat)
  then have "of_nat k = c \<longleftrightarrow> k = unat c" by auto
  then show ?case using Cons by (auto simp del: upt_rec_numeral)
qed simp

lemma sint_letter: "65 \<le> sint (c :: u8) \<and> sint c \<le> 90 \<longleftrightarrow> 65 \<le> unat c \<and> unat c \<le> 90"
proof -
  have lt: "unat c < 256" using unat_less_power [of c] by simp
  have r: "- 128 \<le> signed_take_bit 7 (int (unat c))" "signed_take_bit 7 (int (unat c)) < 128"
    using signed_take_bit_int_greater_eq_minus_exp [of 7 "int (unat c)"]
      signed_take_bit_int_less_exp [of 7 "int (unat c)"] by simp_all
  have "take_bit 8 (int (unat c)) = int (unat c)" using lt by (intro take_bit_int_eq_self) (simp_all del: of_nat_unat)
  then have "signed_take_bit 7 (int (unat c)) \<in> {int (unat c), int (unat c) - 256}"
    by (simp add: signed_take_bit_eq_take_bit_minus del: of_nat_unat)
  moreover have "sint c = signed_take_bit 7 (int (unat c))" by (simp add: sint_uint)
  ultimately show ?thesis using lt r by (auto simp del: of_nat_unat)
qed

lemma ascii_pairs:
  "zip (ascii ''ABCDEFGHIJKLMNOPQRSTUVWXYZ'') (ascii ''abcdefghijklmnopqrstuvwxyz'') =
     map (\<lambda>k. (of_nat k, of_nat k + 32)) [65 ..< 91]"
  by (simp add: ascii_def upt_rec)

lemma tolower_spec: "tolower c = to_lower_case c"
  unfolding to_lower_case_def ascii_pairs tolower_def sint_letter
  by (subst map_of_codes [where f = "\<lambda>x. x + 32"]) (auto simp del: upt_rec_numeral)

lemma tolower_zero_iff: "tolower c = 0 \<longleftrightarrow> c = 0"
proof -
  have "sint (c :: u8) \<ge> 65 \<Longrightarrow> sint c \<le> 90 \<Longrightarrow> c + 32 \<noteq> 0"
  proof
    assume a: "65 \<le> sint c" "sint c \<le> 90" and "c + 32 = 0"
    then have "c = - 32" by (simp add: eq_neg_iff_add_eq_0)
    with a show False by simp
  qed
  then show ?thesis by (auto simp: tolower_def)
qed

lemma istrncmp_loop_eq:
  "0 \<in> set s1 \<Longrightarrow> 0 \<in> set s2 \<Longrightarrow>
   istrncmp_loop s1 s2 n =
     Some (if map tolower (take n (c_str s1)) = map tolower (take n (c_str s2)) then 0 else -1)"
proof (induction s1 s2 n rule: istrncmp_loop.induct)
  case (2 u1 s1 u2 s2 n)
  have "u1 = 0 \<Longrightarrow> tolower u1 = tolower u2 \<Longrightarrow> u2 = 0"
    and "u2 = 0 \<Longrightarrow> tolower u1 = tolower u2 \<Longrightarrow> u1 = 0"
    using tolower_zero_iff by metis+
  with 2 show ?case by auto
qed auto

lemma strncmp_loop_eq:
  "0 \<in> set s1 \<Longrightarrow> 0 \<in> set s2 \<Longrightarrow>
   strncmp_loop s1 s2 n = Some (if take n (c_str s1) = take n (c_str s2) then 0 else -2)"
  by (induction s1 s2 n rule: strncmp_loop.induct) auto

subsection \<open>Numbers: lemmas\<close>

lemma dec_digits_0 [simp]: "dec_digits 0 = []"
  by (simp add: dec_digits.simps)

lemma dec_digits_step: "0 < n \<Longrightarrow> dec_digits n = dec_digits (n div 10) @ [word_of_nat (48 + n mod 10)]"
  by (simp add: dec_digits.simps [of n])

lemma length_dec_digits: "n < 10 ^ k \<Longrightarrow> length (dec_digits n) \<le> k"
proof (induction k arbitrary: n)
  case (Suc k)
  show ?case
  proof (cases "n = 0")
    case False
    have "n div 10 < 10 ^ k" using Suc.prems by (simp add: less_mult_imp_div_less mult.commute)
    with Suc.IH False show ?thesis by (simp add: dec_digits_step)
  qed simp
qed simp

lemma itoa_loop_eq:
  "length (dec_digits n) \<le> loc \<Longrightarrow> loc \<le> length buf \<Longrightarrow>
   itoa_loop buf loc (- int n) =
     Some (take (loc - length (dec_digits n)) buf @ dec_digits n @ drop loc buf,
           loc - length (dec_digits n))"
proof (induction n arbitrary: buf loc rule: dec_digits.induct)
  case (1 n)
  show ?case
  proof (cases "n = 0")
    case True
    then show ?thesis by (simp add: itoa_loop.simps [of buf])
  next
    case False
    let ?t = "buf[loc - 1 := word_of_nat (48 + n mod 10)]"
    from False have d: "dec_digits n = dec_digits (n div 10) @ [word_of_nat (48 + n mod 10)]"
      by (simp add: dec_digits_step)
    with 1 have loc: "0 < loc" "length (dec_digits (n div 10)) \<le> loc - 1" "loc - 1 < length buf"
      by auto
    have "itoa_loop ?t (loc - 1) (- int (n div 10)) =
        Some (take (loc - 1 - length (dec_digits (n div 10))) ?t @ dec_digits (n div 10) @ drop (loc - 1) ?t,
              loc - 1 - length (dec_digits (n div 10)))"
      using False loc by (intro "1.IH") auto
    moreover have "(- int n) sdiv 10 = - int (n div 10)" "48 - (- int n) smod 10 = int (48 + n mod 10)"
      using False by (simp_all add: signed_divide_int_def signed_modulo_int_def zdiv_int zmod_int)
    moreover have "drop (loc - 1) ?t = word_of_nat (48 + n mod 10) # drop loc buf"
      using loc by (simp add: upd_conv_take_nth_drop)
    ultimately show ?thesis
      using False loc d by (simp add: itoa_loop.simps [of buf] obj_simps del: of_nat_add)
  qed
qed


lemma itoa_eq:
  assumes "- (2 ^ 31) \<le> i" and "i < 2 ^ 31"
  shows "itoa i = Some ((if i < 0 then [45] else []) @
                        (if i = 0 then [48] else dec_digits (nat \<bar>i\<bar>)) @ [0])"
proof -
  let ?n = "nat \<bar>i\<bar>"
  have ni: "(if i \<ge> 0 then - i else i) = - int ?n" by simp
  have "?n < 10 ^ 10" using assms by simp
  then have len: "length (dec_digits ?n) \<le> 10" by (rule length_dec_digits)
  have loop: "itoa_loop (replicate 12 0) 11 (- int ?n) =
      Some (replicate (11 - length (dec_digits ?n)) 0 @ dec_digits ?n @ [0], 11 - length (dec_digits ?n))"
    using len itoa_loop_eq [of ?n 11 "replicate 12 0"] by simp
  show ?thesis
  proof (cases "i = 0")
    case True
    then show ?thesis using loop
      by (simp add: itoa_def obj_simps numeral_eq_Suc)
  next
    case False
    then have pos: "0 < length (dec_digits ?n)" by (simp add: dec_digits_step)
    define k where "k = 10 - length (dec_digits ?n)"
    have k: "11 - length (dec_digits ?n) = Suc k" "k < 10" "length (dec_digits ?n) + k = 10"
      using len pos by (simp_all add: k_def)
    have upd: "(replicate (Suc k) (0::u8) @ dec_digits ?n @ [0])[k := 45] = replicate k 0 @ 45 # dec_digits ?n @ [0]"
      by (simp add: list_update_append replicate_append_same [symmetric] del: replicate_append_same)
    show ?thesis
    proof (cases "i < 0")
      case True
      then show ?thesis
        using False loop pos k upd unfolding itoa_def ni
        by (simp add: obj_simps del: replicate_Suc)
    next
      case nneg: False
      then show ?thesis
        using False loop pos k unfolding itoa_def ni by (simp add: obj_simps)
    qed
  qed
qed

lemma digit_char:
  assumes "d < 10"
  shows "is_digit (word_of_nat (48 + d))" and "ctoi (word_of_nat (48 + d)) = int d"
proof -
  have "sint (word_of_nat (48 + d) :: u8) = int (48 + d)"
    using assms by (simp add: signed_of_nat signed_take_bit_int_eq_self del: of_nat_add)
  with assms show "is_digit (word_of_nat (48 + d))" and "ctoi (word_of_nat (48 + d)) = int d"
    by (simp_all add: is_digit_def ctoi_def)
qed

lemma dec_value_digits:
  "dec_value acc (dec_digits n @ cs) = dec_value (acc * 10 ^ length (dec_digits n) + int n) cs"
proof (induction n arbitrary: acc cs rule: dec_digits.induct)
  case (1 n)
  show ?case
  proof (cases "n = 0")
    case False
    let ?a = "acc * 10 ^ length (dec_digits (n div 10)) + int (n div 10)"
    have "dec_value acc (dec_digits n @ cs) = dec_value ?a (word_of_nat (48 + n mod 10) # cs)"
      using "1.IH" [OF False] False by (simp add: dec_digits_step)
    also have "\<dots> = dec_value (?a * 10 + int (n mod 10)) cs"
      using digit_char [of "n mod 10"] by simp
    also have "?a * 10 + int (n mod 10) = acc * 10 ^ length (dec_digits n) + int n"
      using False by (simp add: dec_digits_step algebra_simps zdiv_int zmod_int)
    finally show ?thesis .
  qed simp
qed

lemma dec_digits_no_minus: "0 < n \<Longrightarrow> \<exists>c cs. dec_digits n = c # cs \<and> is_digit c"
proof (induction n rule: dec_digits.induct)
  case (1 n)
  show ?case
  proof (cases "n div 10 = 0")
    case True
    then show ?thesis
      using digit_char(1) [of "n mod 10"] "1.prems" by (simp add: dec_digits_step [of n])
  next
    case False
    then obtain c cs where "dec_digits (n div 10) = c # cs" "is_digit c"
      using "1.IH" "1.prems" by auto
    then show ?thesis using "1.prems" by (simp add: dec_digits_step [of n])
  qed
qed

lemma dec_string_value_itoa:
  assumes "- (2 ^ 31) \<le> i" and "i < 2 ^ 31" and "itoa i = Some s"
  shows "dec_string_value s = i"
proof (cases "i = 0")
  case True
  with assms show ?thesis
    by (auto simp: itoa_eq dec_string_value_def is_digit_def ctoi_def)
next
  case False
  then obtain c cs where c: "dec_digits (nat \<bar>i\<bar>) = c # cs" "is_digit c"
    using dec_digits_no_minus [of "nat \<bar>i\<bar>"] by auto
  then have "c \<noteq> 45" by (auto simp: is_digit_def)
  moreover have "dec_value 0 (dec_digits (nat \<bar>i\<bar>) @ [0]) = \<bar>i\<bar>"
    by (simp add: dec_value_digits is_digit_def)
  ultimately show ?thesis
    using False c assms by (auto simp: itoa_eq dec_string_value_def split: if_splits)
qed

lemma hex_string_0 [simp]: "hex_string 0 = []"
  by (simp add: hex_string.simps)

lemma hex_string_step: "0 < n \<Longrightarrow> hex_string n = hex_string (n div 16) @ [hex_digits ! (n mod 16)]"
  by (simp add: hex_string.simps [of n])

lemma length_hex_string: "n < 16 ^ k \<Longrightarrow> length (hex_string n) \<le> k"
proof (induction k arbitrary: n)
  case (Suc k)
  show ?case
  proof (cases "n = 0")
    case False
    have "n div 16 < 16 ^ k" using Suc.prems by (simp add: less_mult_imp_div_less mult.commute)
    with Suc.IH False show ?thesis by (simp add: hex_string_step)
  qed simp
qed simp

lemma itoa_hex_loop_eq:
  "length (hex_string (unat i)) \<le> loc \<Longrightarrow> loc \<le> length buf \<Longrightarrow>
   itoa_hex_loop buf loc i =
     Some (take (loc - length (hex_string (unat i))) buf @ hex_string (unat i) @ drop loc buf,
           loc - length (hex_string (unat i)))"
proof (induction buf loc i rule: itoa_hex_loop.induct)
  case (1 buf loc i)
  show ?case
  proof (cases "i = 0")
    case True
    then show ?thesis by (simp add: itoa_hex_loop.simps [of buf])
  next
    case False
    let ?c = "hex_digits ! unat (i mod 16)"
    let ?t = "buf[loc - 1 := ?c]"
    from False have d: "hex_string (unat i) = hex_string (unat (i div 16)) @ [?c]"
      by (simp add: hex_string_step unat_div unat_mod unat_gt_0)
    with 1 have loc: "0 < loc" "length (hex_string (unat (i div 16))) \<le> loc - 1" "loc - 1 < length buf"
      by auto
    have "itoa_hex_loop ?t (loc - 1) (i div 16) =
        Some (take (loc - 1 - length (hex_string (unat (i div 16)))) ?t @ hex_string (unat (i div 16)) @
              drop (loc - 1) ?t, loc - 1 - length (hex_string (unat (i div 16))))"
      using False loc by (intro "1.IH") (auto simp: obj_simps)
    moreover have "drop (loc - 1) ?t = ?c # drop loc buf"
      using loc by (simp add: upd_conv_take_nth_drop)
    ultimately show ?thesis
      using False loc d by (simp add: itoa_hex_loop.simps [of buf] obj_simps)
  qed
qed

lemma itoa_hex_eq:
  "itoa_hex i = Some ((if i = 0 then [48] else hex_string (unat i)) @ [0])"
proof (cases "i = 0")
  case True
  then show ?thesis by (simp add: itoa_hex_def obj_simps numeral_eq_Suc)
next
  case False
  have "unat i < 16 ^ 8" using unat_less_power [of i] by simp
  then have "length (hex_string (unat i)) \<le> 8" by (rule length_hex_string)
  then show ?thesis
    using False itoa_hex_loop_eq [of i 11 "replicate 12 0"] by (simp add: itoa_hex_def)
qed

lemma hex_digit_char:
  assumes "d < 16"
  shows "hex_digits ! d \<noteq> 0"
    and "(if unat (hex_digits ! d) < 65 then unat (hex_digits ! d) - 48 else unat (hex_digits ! d) - 55) = d"
proof -
  from assms have "d \<in> set [0..<16]" by simp
  then have "d \<in> {0, 1, 2, 3, 4, 5, 6, 7, 8, 9, 10, 11, 12, 13, 14, 15}"
    by (simp add: upt_rec numeral_eq_Suc)
  then show "hex_digits ! d \<noteq> 0"
    and "(if unat (hex_digits ! d) < 65 then unat (hex_digits ! d) - 48 else unat (hex_digits ! d) - 55) = d"
    by (auto simp: hex_digits_def)
qed

lemma hex_value_string:
  "hex_value acc (hex_string n @ cs) = hex_value (acc * 16 ^ length (hex_string n) + n) cs"
proof (induction n arbitrary: acc cs rule: hex_string.induct)
  case (1 n)
  show ?case
  proof (cases "n = 0")
    case False
    let ?a = "acc * 16 ^ length (hex_string (n div 16)) + n div 16"
    have "hex_value acc (hex_string n @ cs) = hex_value ?a (hex_digits ! (n mod 16) # cs)"
      using "1.IH" [OF False] False by (simp add: hex_string_step)
    also have "\<dots> = hex_value (?a * 16 + n mod 16) cs"
      using hex_digit_char [of "n mod 16"] by (simp del: hex_value.simps(1))
    also have "?a * 16 + n mod 16 = acc * 16 ^ length (hex_string n) + n"
      using False by (simp add: hex_string_step algebra_simps)
    finally show ?thesis .
  qed simp
qed

lemma itoa_hex_value:
  "\<exists>s. itoa_hex i = Some s \<and> hex_value 0 s = unat i \<and> length s \<le> 9"
proof -
  have "unat i < 16 ^ 8" using unat_less_power [of i] by simp
  then have "length (hex_string (unat i)) \<le> 8" by (rule length_hex_string)
  then show ?thesis
    by (auto simp: itoa_hex_eq hex_value_string)
qed

subsection \<open>Properties\<close>



text \<open>
  (C15) \<open>itoa\<close> is total on 32-bit integers, the smallest one included: it never leaves its
  12-byte buffer, and the string it returns is terminated, has at most 11 characters and denotes
  the argument in decimal.
\<close>

theorem itoa_roundtrip:
  assumes "- (2 ^ 31) \<le> i" and "i < 2 ^ 31"
  shows "\<exists>s n. itoa i = Some s \<and> dec_string_value s = i \<and> strlen s = Some n \<and> n \<le> 11"
proof -
  have "nat \<bar>i\<bar> < 10 ^ 10" using assms by simp
  then have len: "length (dec_digits (nat \<bar>i\<bar>)) \<le> 10" by (rule length_dec_digits)
  define s where "s = (if i < 0 then [45] else []) @ (if i = 0 then [48] else dec_digits (nat \<bar>i\<bar>)) @ [0]"
  have s: "itoa i = Some s" "0 \<in> set s" "length s \<le> 12"
    using len by (simp_all add: itoa_eq [OF assms] s_def abs_if split: if_splits)
  moreover have "length (c_str s) < length s" using s(2) by (rule length_c_str)
  ultimately show ?thesis
    using dec_string_value_itoa [OF assms s(1)] by (auto simp: strlen_eq)
qed

theorem itoa_roundtrip_witness:
  "\<exists>s n. itoa (- 2147483648) = Some s \<and> dec_string_value s = - 2147483648 \<and> strlen s = Some n \<and> n \<le> 11"
  by (rule itoa_roundtrip) simp_all



end
