(* ===== verification/Port_Bus.thy ===== *)
theory Port_Bus
  imports Kernel_Config
begin

section \<open>Port I/O\<close>

text \<open>
  The routines of \<^verbatim>\<open>src/src/io/io.h\<close> (implemented in assembly) read and write I/O ports. What
  answers on the ports is hardware, so the bus is a parameter of every driver of the model: six
  functions over a state \<open>'d\<close> of the devices. A read may change that state too. A driver that polls
  a device may never return; such loops are partial functions whose value is then \<^const>\<open>None\<close>.
\<close>

record 'd bus =
  bus_outb :: "u16 \<Rightarrow> u8 \<Rightarrow> 'd \<Rightarrow> 'd"
  bus_outw :: "u16 \<Rightarrow> u16 \<Rightarrow> 'd \<Rightarrow> 'd"
  bus_outl :: "u16 \<Rightarrow> u32 \<Rightarrow> 'd \<Rightarrow> 'd"
  bus_insb :: "u16 \<Rightarrow> 'd \<Rightarrow> u8 \<times> 'd"
  bus_insw :: "u16 \<Rightarrow> 'd \<Rightarrow> u16 \<times> 'd"
  bus_insl :: "u16 \<Rightarrow> 'd \<Rightarrow> u32 \<times> 'd"

text \<open>A bus on which nothing answers, to build concrete devices from.\<close>

definition idle_bus :: "'d bus" where
  "idle_bus = \<lparr>bus_outb = (\<lambda>_ _ d. d), bus_outw = (\<lambda>_ _ d. d), bus_outl = (\<lambda>_ _ d. d),
     bus_insb = (\<lambda>_ d. (0, d)), bus_insw = (\<lambda>_ d. (0, d)), bus_insl = (\<lambda>_ d. (0, d))\<rparr>"

end
