(* ===== verification/Terminal.thy ===== *)
theory Terminal
  imports C_String Port_Bus
begin

section \<open>The terminal and formatted output\<close>

text \<open>
  \<^verbatim>\<open>src/src/terminal/terminal.c\<close> and \<^verbatim>\<open>src/src/stdlib/printf.c\<close>. The screen buffer is a list of 25 rows
  of 80 cells, the text-mode memory of the display a list of 2000 cells; before \<open>terminal_init\<close> the
  pointer to it is null. An access outside either is \<^const>\<open>None\<close>. The cursor registers are on the bus.
\<close>

definition VGA_WIDTH :: nat where [kernel_consts]: "VGA_WIDTH = 80"
definition VGA_HEIGHT :: nat where [kernel_consts]: "VGA_HEIGHT = 25"
definition VGA_CMD_PORT :: u16 where [kernel_consts]: "VGA_CMD_PORT = 0x3d4"
definition VGA_DATA_PORT :: u16 where [kernel_consts]: "VGA_DATA_PORT = 0x3d5"
definition VGA_CURSOR_HIGH :: u8 where [kernel_consts]: "VGA_CURSOR_HIGH = 0x0e"
definition VGA_CURSOR_LOW :: u8 where [kernel_consts]: "VGA_CURSOR_LOW = 0x0f"
definition VGA_COLOR_BLUE :: u8 where [kernel_consts]: "VGA_COLOR_BLUE = 1"
definition VGA_COLOR_WHITE :: u8 where [kernel_consts]: "VGA_COLOR_WHITE = 15"
definition COLOR_BLUE :: u8 where [kernel_consts]: "COLOR_BLUE = 1"
definition COLOR_WHITE :: u8 where [kernel_consts]: "COLOR_WHITE = 15"

record 'd term_state =
  video_mem :: "u16 list option"
  terminal_row :: u16
  terminal_col :: u16
  screen_buffer :: "u16 list list"
  term_dev :: 'd

subsection \<open>The cursor registers\<close>

definition terminal_get_cursor_position :: "'d bus \<Rightarrow> 'd \<Rightarrow> u16 \<times> 'd" where
  "terminal_get_cursor_position io d =
     (let d = bus_outb io VGA_CMD_PORT 0x0f d;
          (lo, d) = bus_insb io VGA_DATA_PORT d;
          d = bus_outb io VGA_CMD_PORT 0x0e d;
          (hi, d) = bus_insb io VGA_DATA_PORT d
      in (ucast lo OR push_bit 8 (ucast hi), d))"

definition terminal_disable_cursor :: "'d bus \<Rightarrow> 'd \<Rightarrow> 'd" where
  "terminal_disable_cursor io d = bus_outb io VGA_DATA_PORT 0x20 (bus_outb io VGA_CMD_PORT 0x0a d)"

definition terminal_enable_cursor :: "'d bus \<Rightarrow> u8 \<Rightarrow> u8 \<Rightarrow> 'd \<Rightarrow> 'd" where
  "terminal_enable_cursor io cursor_start cursor_end d =
     (let d = bus_outb io VGA_CMD_PORT 0x0a d;
          (v, d) = bus_insb io VGA_DATA_PORT d;
          d = bus_outb io VGA_DATA_PORT ((v AND 0xc0) OR cursor_start) d;
          d = bus_outb io VGA_CMD_PORT 0x0b d;
          (v, d) = bus_insb io VGA_DATA_PORT d
      in bus_outb io VGA_DATA_PORT ((v AND 0xe0) OR cursor_end) d)"

definition terminal_update_cursor :: "'d bus \<Rightarrow> 'd term_state \<Rightarrow> 'd term_state" where
  "terminal_update_cursor io t =
     (let position = terminal_row t * of_nat VGA_WIDTH + terminal_col t;
          d = bus_outb io VGA_CMD_PORT VGA_CURSOR_LOW (term_dev t);
          d = bus_outb io VGA_DATA_PORT (ucast (position AND 0xff)) d;
          d = bus_outb io VGA_CMD_PORT VGA_CURSOR_HIGH d;
          d = bus_outb io VGA_DATA_PORT (ucast (drop_bit 8 position AND 0xff)) d
      in t\<lparr>term_dev := d\<rparr>)"

subsection \<open>Cells\<close>

text \<open>Both arguments are signed characters, widened to \<open>int\<close>.\<close>

definition terminal_make_char :: "u8 \<Rightarrow> u8 \<Rightarrow> u16" where
  "terminal_make_char c color = push_bit 8 (scast color) OR scast c"

definition terminal_putchar :: "nat \<Rightarrow> nat \<Rightarrow> u8 \<Rightarrow> u8 \<Rightarrow> 'd term_state \<Rightarrow> 'd term_state option" where
  "terminal_putchar x y c color t =
     do { v \<leftarrow> video_mem t; v \<leftarrow> wr v (y * VGA_WIDTH + x) (terminal_make_char c color); Some (t\<lparr>video_mem := Some v\<rparr>) }"

definition set_cell :: "nat \<Rightarrow> nat \<Rightarrow> u16 \<Rightarrow> u16 list list \<Rightarrow> u16 list list option" where
  "set_cell x y w buf = do { row \<leftarrow> rd buf y; row \<leftarrow> wr row x w; wr buf y row }"

definition terminal_buffer_putchar :: "nat \<Rightarrow> nat \<Rightarrow> u8 \<Rightarrow> u8 \<Rightarrow> 'd term_state \<Rightarrow> 'd term_state option" where
  "terminal_buffer_putchar x y c color t =
     do { buf \<leftarrow> set_cell x y (terminal_make_char c color) (screen_buffer t); Some (t\<lparr>screen_buffer := buf\<rparr>) }"

fun copy_cells :: "(nat \<times> nat) list \<Rightarrow> u16 list list \<Rightarrow> u16 list \<Rightarrow> u16 list option" where
  "copy_cells [] buf v = Some v"
| "copy_cells ((y, x) # cs) buf v =
     do { row \<leftarrow> rd buf y; w \<leftarrow> rd row x; v \<leftarrow> wr v (y * VGA_WIDTH + x) w; copy_cells cs buf v }"

definition terminal_update_vga_memory :: "'d term_state \<Rightarrow> 'd term_state option" where
  "terminal_update_vga_memory t =
     do { v \<leftarrow> video_mem t;
          v \<leftarrow> copy_cells (List.product [0 ..< VGA_HEIGHT] [0 ..< VGA_WIDTH]) (screen_buffer t) v;
          Some (t\<lparr>video_mem := Some v\<rparr>) }"

fun scroll_cells :: "(nat \<times> nat) list \<Rightarrow> u16 list list \<Rightarrow> u16 list list option" where
  "scroll_cells [] buf = Some buf"
| "scroll_cells ((y, x) # cs) buf =
     do { row \<leftarrow> rd buf y; w \<leftarrow> rd row x; buf \<leftarrow> set_cell x (y - 1) w buf; scroll_cells cs buf }"

fun clear_cells :: "(nat \<times> nat) list \<Rightarrow> u16 \<Rightarrow> u16 list list \<Rightarrow> u16 list list option" where
  "clear_cells [] w buf = Some buf"
| "clear_cells ((y, x) # cs) w buf = do { buf \<leftarrow> set_cell x y w buf; clear_cells cs w buf }"

definition terminal_scroll :: "'d term_state \<Rightarrow> 'd term_state option" where
  "terminal_scroll t =
     do { buf \<leftarrow> scroll_cells (List.product [1 ..< VGA_HEIGHT] [0 ..< VGA_WIDTH]) (screen_buffer t);
          buf \<leftarrow> clear_cells (map (Pair (VGA_HEIGHT - 1)) [0 ..< VGA_WIDTH])
                   (terminal_make_char 32 (push_bit 4 VGA_COLOR_BLUE OR VGA_COLOR_WHITE)) buf;
          Some (t\<lparr>screen_buffer := buf, terminal_row := of_nat (VGA_HEIGHT - 1)\<rparr>) }"

subsection \<open>Writing characters\<close>

text \<open>The cursor goes to the start of the next line, and the screen scrolls at its end.\<close>

definition terminal_next_line :: "'d term_state \<Rightarrow> 'd term_state option" where
  "terminal_next_line t =
     (let t = t\<lparr>terminal_row := terminal_row t + 1, terminal_col := 0\<rparr>
      in if terminal_row t \<ge> of_nat VGA_HEIGHT then terminal_scroll t else Some t)"

text \<open>
  \<open>terminal_writechar\<close> for a character other than newline and backspace. \<open>terminal_backspace\<close>, which
  it calls for a backspace, calls it back for a space.
\<close>

definition terminal_write_glyph :: "u8 \<Rightarrow> u8 \<Rightarrow> u8 \<Rightarrow> 'd term_state \<Rightarrow> 'd term_state option" where
  "terminal_write_glyph c fg bg t =
     do { t \<leftarrow> terminal_buffer_putchar (unat (terminal_col t)) (unat (terminal_row t)) c
                 (push_bit 4 (bg AND 0x0f) OR (fg AND 0x0f)) t;
          let t = t\<lparr>terminal_col := terminal_col t + 1\<rparr>;
          t \<leftarrow> (if terminal_col t \<ge> of_nat VGA_WIDTH then terminal_next_line t else Some t);
          terminal_update_vga_memory t }"

definition terminal_backspace :: "'d term_state \<Rightarrow> 'd term_state option" where
  "terminal_backspace t =
     (if terminal_row t = 0 \<and> terminal_col t = 0 then Some t
      else do {
        let t = (if terminal_col t = 0
                 then t\<lparr>terminal_row := terminal_row t - 1, terminal_col := of_nat VGA_WIDTH\<rparr> else t);
        let t = t\<lparr>terminal_col := terminal_col t - 1\<rparr>;
        t \<leftarrow> terminal_write_glyph 32 VGA_COLOR_WHITE VGA_COLOR_BLUE t;
        Some (t\<lparr>terminal_col := terminal_col t - 1\<rparr>) })"

definition terminal_writechar :: "u8 \<Rightarrow> u8 \<Rightarrow> u8 \<Rightarrow> 'd term_state \<Rightarrow> 'd term_state option" where
  "terminal_writechar c fg bg t =
     (if c = 10 then Option.bind (terminal_next_line t) terminal_update_vga_memory
      else if c = 8 then Option.bind (terminal_backspace t) terminal_update_vga_memory
      else terminal_write_glyph c fg bg t)"

fun terminal_clear_loop :: "(nat \<times> nat) list \<Rightarrow> 'd term_state \<Rightarrow> 'd term_state option" where
  "terminal_clear_loop [] t = Some t"
| "terminal_clear_loop ((y, x) # cs) t =
     do { t \<leftarrow> terminal_buffer_putchar x y 32 (push_bit 4 (VGA_COLOR_BLUE AND 0x0f) OR (VGA_COLOR_BLUE AND 0x0f)) t;
          v \<leftarrow> video_mem t;
          row \<leftarrow> rd (screen_buffer t) y;
          w \<leftarrow> rd row x;
          v \<leftarrow> wr v (y * VGA_WIDTH + x) w;
          terminal_clear_loop cs (t\<lparr>video_mem := Some v\<rparr>) }"

definition terminal_clear_all :: "'d term_state \<Rightarrow> 'd term_state option" where
  "terminal_clear_all t =
     do { t \<leftarrow> terminal_clear_loop (List.product [0 ..< VGA_HEIGHT] [0 ..< VGA_WIDTH]) t;
          Some (t\<lparr>terminal_row := 0, terminal_col := 0\<rparr>) }"

text \<open>\<open>vga\<close> is what the display memory at 0xb8000 holds.\<close>

definition terminal_init :: "'d bus \<Rightarrow> u16 list \<Rightarrow> 'd term_state \<Rightarrow> 'd term_state option" where
  "terminal_init io vga t =
     terminal_clear_all (t\<lparr>video_mem := Some vga, term_dev := terminal_enable_cursor io 15 15 (term_dev t)\<rparr>)"

subsection \<open>Formatted output\<close>

text \<open>The arguments after the format; taking one of the wrong kind is not defined.\<close>

datatype va_arg = Va_int int | Va_str "u8 list"

fun print_loop :: "u8 list \<Rightarrow> nat list \<Rightarrow> u8 \<Rightarrow> u8 \<Rightarrow> 'd term_state \<Rightarrow> 'd term_state option" where
  "print_loop str [] fg bg t = Some t"
| "print_loop str (i # is) fg bg t =
     do { c \<leftarrow> rd str i; t \<leftarrow> terminal_writechar c fg bg t; print_loop str is fg bg t }"

definition print :: "u8 list \<Rightarrow> u8 \<Rightarrow> u8 \<Rightarrow> 'd term_state \<Rightarrow> 'd term_state option" where
  "print str fg bg t = do { len \<leftarrow> strlen str; print_loop str [0 ..< nat len] fg bg t }"

text \<open>The loop over the format, from the character \<open>p\<close> points to; \<open>hex\<close> is whether the function knows \<open>%x\<close>.\<close>

fun printf_loop :: "bool \<Rightarrow> u8 list \<Rightarrow> va_arg list \<Rightarrow> u8 \<Rightarrow> u8 \<Rightarrow> 'd term_state \<Rightarrow> 'd term_state option" where
  "printf_loop hex [] ap fg bg t = None"
| "printf_loop hex (c # p) ap fg bg t =
     (if c = 0 then Some t
      else if c \<noteq> 37
      then do { t \<leftarrow> terminal_writechar c fg bg t; printf_loop hex p ap fg bg t }
      else case p of
          [] \<Rightarrow> None
        | d # p \<Rightarrow>
            if d = 105
            then (case ap of
                    Va_int i # ap \<Rightarrow> do { str \<leftarrow> itoa i; t \<leftarrow> print str fg bg t; printf_loop hex p ap fg bg t }
                  | _ \<Rightarrow> None)
            else if d = 115
            then (case ap of
                    Va_str str # ap \<Rightarrow> do { t \<leftarrow> print str fg bg t; printf_loop hex p ap fg bg t }
                  | _ \<Rightarrow> None)
            else if d = 120 \<and> hex
            then (case ap of
                    Va_int i # ap \<Rightarrow>
                      do { str \<leftarrow> itoa_hex (word_of_int i); t \<leftarrow> print str fg bg t; printf_loop hex p ap fg bg t }
                  | _ \<Rightarrow> None)
            else do { t \<leftarrow> terminal_writechar d fg bg t; printf_loop hex p ap fg bg t })"

definition printf :: "'d bus \<Rightarrow> u8 list \<Rightarrow> va_arg list \<Rightarrow> 'd term_state \<Rightarrow> (int \<times> 'd term_state) option" where
  "printf io fmt ap t =
     do { t \<leftarrow> printf_loop True fmt ap COLOR_WHITE COLOR_BLUE t; Some (0, terminal_update_cursor io t) }"

definition printf_colored ::
    "'d bus \<Rightarrow> u8 list \<Rightarrow> u8 \<Rightarrow> u8 \<Rightarrow> va_arg list \<Rightarrow> 'd term_state \<Rightarrow> (int \<times> 'd term_state) option" where
  "printf_colored io fmt fg bg ap t =
     do { t \<leftarrow> printf_loop False fmt ap fg bg t; Some (0, terminal_update_cursor io t) }"

subsection \<open>The screen\<close>

text \<open>The buffer has its 25 rows of 80 cells, and the display shows them.\<close>

definition dims :: "u16 list list \<Rightarrow> bool" where
  "dims buf \<longleftrightarrow> length buf = 25 \<and> (\<forall>row \<in> set buf. length row = 80)"

definition flat :: "u16 list list \<Rightarrow> u16 list" where
  "flat buf = map (\<lambda>k. buf ! (k div 80) ! (k mod 80)) [0 ..< 2000]"

lemma dimsD: "dims buf \<Longrightarrow> length buf = 25" "dims buf \<Longrightarrow> y < 25 \<Longrightarrow> length (buf ! y) = 80"
  by (simp_all add: dims_def)

lemma cell_inj: "x < 80 \<Longrightarrow> x' < 80 \<Longrightarrow> y * 80 + x = y' * 80 + x' \<longleftrightarrow> y = y' \<and> x = (x' :: nat)"
proof -
  assume "x < 80" "x' < 80"
  then have "(y * 80 + x) div 80 = y" "(y' * 80 + x') div 80 = y'" by simp_all
  then show ?thesis by (metis add_left_cancel)
qed

lemma copy_cells_ok:
  assumes "dims buf" "length v = 2000" "\<forall>(y, x) \<in> set cs. y < 25 \<and> x < 80"
  shows "\<exists>v'. copy_cells cs buf v = Some v' \<and> length v' = 2000 \<and>
    (\<forall>y < 25. \<forall>x < 80. v' ! (y * 80 + x) = (if (y, x) \<in> set cs then buf ! y ! x else v ! (y * 80 + x)))"
  using assms(2,3)
proof (induction cs arbitrary: v)
  case (Cons c cs)
  obtain y x where c: "c = (y, x)" "y < 25" "x < 80" using Cons.prems(2) by (cases c) auto
  have k: "y * 80 + x < 2000" using c by simp
  have step: "copy_cells (c # cs) buf v = copy_cells cs buf (v[y * 80 + x := buf ! y ! x])"
    using c k Cons.prems(1) dimsD [OF assms(1)] by (simp add: rd_def wr_def VGA_WIDTH_def)
  obtain v' where v': "copy_cells cs buf (v[y * 80 + x := buf ! y ! x]) = Some v'" "length v' = 2000"
    "\<forall>b < 25. \<forall>a < 80. v' ! (b * 80 + a) = (if (b, a) \<in> set cs then buf ! b ! a else v[y * 80 + x := buf ! y ! x] ! (b * 80 + a))"
    using Cons.IH [of "v[y * 80 + x := buf ! y ! x]"] Cons.prems by auto
  have "v[y * 80 + x := buf ! y ! x] ! (b * 80 + a) = (if (b, a) = (y, x) then buf ! y ! x else v ! (b * 80 + a))"
    if "a < 80" for a b
    using that c k Cons.prems(1) cell_inj [of a x b y] by (simp add: nth_list_update_if)
  then show ?case using v' step c(1) by (intro exI [of _ v']) auto
qed simp

lemma update_vga_ok:
  assumes "dims (screen_buffer t)" "video_mem t = Some v" "length v = 2000"
  shows "terminal_update_vga_memory t = Some (t\<lparr>video_mem := Some (flat (screen_buffer t))\<rparr>)"
proof -
  let ?cs = "List.product [0 ..< 25] [0 ..< 80 :: nat]"
  obtain v' where v': "copy_cells ?cs (screen_buffer t) v = Some v'" "length v' = 2000"
    "\<forall>y < 25. \<forall>x < 80. v' ! (y * 80 + x) = screen_buffer t ! y ! x"
    using copy_cells_ok [OF assms(1,3), of ?cs] by auto
  have "v' = flat (screen_buffer t)"
  proof (rule nth_equalityI)
    fix i assume i: "i < length v'"
    then have "i div 80 < 25" using v'(2) by (simp add: div_less_iff_less_mult)
    then have "v' ! i = screen_buffer t ! (i div 80) ! (i mod 80)"
      using v'(3) [rule_format, of "i div 80" "i mod 80"] by simp
    then show "v' ! i = flat (screen_buffer t) ! i" using i v'(2) by (simp add: flat_def)
  qed (use v'(2) in \<open>simp add: flat_def\<close>)
  then show ?thesis
    using v'(1) assms(2) by (simp add: terminal_update_vga_memory_def VGA_HEIGHT_def VGA_WIDTH_def)
qed

lemma scroll_append: "scroll_cells (xs @ ys) buf = Option.bind (scroll_cells xs buf) (scroll_cells ys)"
  by (induction xs buf rule: scroll_cells.induct) (auto split: bind_splits)

lemma clear_append: "clear_cells (xs @ ys) w buf = Option.bind (clear_cells xs w buf) (clear_cells ys w)"
  by (induction xs w buf rule: clear_cells.induct) (auto split: bind_splits)

lemma set_cell_ok:
  "dims buf \<Longrightarrow> x < 80 \<Longrightarrow> y < 25 \<Longrightarrow> set_cell x y w buf = Some (buf[y := (buf ! y)[x := w]])"
  by (simp add: set_cell_def rd_def wr_def dimsD)

lemma dims_row: "dims buf \<Longrightarrow> length r = 80 \<Longrightarrow> dims (buf[y := r])"
  unfolding dims_def by (metis in_set_conv_nth length_list_update nth_list_update_eq nth_list_update_neq)

lemma take_Suc_update: "n < length a \<Longrightarrow> length a = length b \<Longrightarrow> (take n a @ drop n b)[n := a ! n] = take (Suc n) a @ drop (Suc n) b"
  by (simp add: list_update_append take_Suc_conv_app_nth Cons_nth_drop_Suc [symmetric])

lemma scroll_row:
  assumes "dims buf" "0 < y" "y < 25" "n \<le> 80"
  shows "scroll_cells (map (Pair y) [0 ..< n]) buf = Some (buf[y - 1 := take n (buf ! y) @ drop n (buf ! (y - 1))])"
  using assms(4)
proof (induction n)
  case (Suc n)
  let ?r = "take n (buf ! y) @ drop n (buf ! (y - 1))"
  let ?b = "buf[y - 1 := ?r]"
  have l: "length (buf ! y) = 80" "length (buf ! (y - 1)) = 80" "length buf = 25"
    using dimsD [OF assms(1)] assms(3) by simp_all
  have d: "dims ?b" using assms(1) l Suc.prems by (intro dims_row) auto
  have y: "?b ! y = buf ! y" "?b ! (y - 1) = ?r" using assms(2,3) l by simp_all
  have "set_cell n (y - 1) (buf ! y ! n) ?b = Some (?b[y - 1 := ?r[n := buf ! y ! n]])"
    using set_cell_ok [OF d, of n "y - 1"] y(2) Suc.prems assms(3) by simp
  then have "scroll_cells [(y, n)] ?b = Some (?b[y - 1 := ?r[n := buf ! y ! n]])"
    using y(1) l Suc.prems assms(3) by (simp add: rd_def)
  then show ?case
    using Suc take_Suc_update [of n "buf ! y" "buf ! (y - 1)"] l by (simp add: scroll_append)
qed (use assms in simp)

lemma clear_row:
  assumes "dims buf" "y < 25" "n \<le> 80"
  shows "clear_cells (map (Pair y) [0 ..< n]) w buf = Some (buf[y := replicate n w @ drop n (buf ! y)])"
  using assms(3)
proof (induction n)
  case (Suc n)
  let ?r = "replicate n w @ drop n (buf ! y)"
  have l: "length (buf ! y) = 80" "length buf = 25" using dimsD [OF assms(1)] assms(2) by simp_all
  have d: "dims (buf[y := ?r])" using assms(1) l Suc.prems by (intro dims_row) auto
  have "?r[n := w] = replicate (Suc n) w @ drop (Suc n) (buf ! y)"
    using l Suc.prems by (simp add: list_update_append Cons_nth_drop_Suc [symmetric] replicate_app_Cons_same)
  then show ?case
    using Suc set_cell_ok [OF d, of n y w] l assms(2) by (simp add: clear_append)
qed (use assms in simp)

lemma scroll_rows:
  assumes "dims buf" "n \<le> 24"
  shows "scroll_cells (List.product [1 ..< Suc n] [0 ..< 80]) buf = Some (take n (tl buf) @ drop n buf)"
  using assms(2)
proof (induction n)
  case (Suc n)
  let ?b = "take n (tl buf) @ drop n buf"
  have l: "length buf = 25" by (rule dimsD [OF assms(1)])
  have len: "length ?b = 25" using l Suc.prems by simp
  have "set ?b \<subseteq> set buf" by (metis Un_subset_iff set_append set_drop_subset set_take_subset list.set_sel(2) subset_trans tl_Nil subsetI)
  then have d: "dims ?b" using assms(1) len by (auto simp: dims_def)
  have y: "?b ! Suc n = buf ! Suc n" "?b ! n = buf ! n" using l Suc.prems by (simp_all add: nth_append)
  have row: "scroll_cells (map (Pair (Suc n)) [0 ..< 80]) ?b = Some (?b[n := buf ! Suc n])"
    using scroll_row [OF d, of "Suc n" 80] y dimsD(2) [OF assms(1)] Suc.prems by simp
  have "?b[n := buf ! Suc n] = take (Suc n) (tl buf) @ drop (Suc n) buf"
    using l Suc.prems by (simp add: list_update_append take_Suc_conv_app_nth nth_tl Cons_nth_drop_Suc [symmetric])
  then show ?case
    using Suc row by (simp add: product_concat_map scroll_append del: upt.simps)
      (simp add: upt_Suc_append scroll_append product_concat_map)
qed simp

subsection \<open>What writing does to the screen\<close>

text \<open>The screen as its rows and the position of the cursor, and the effect of one character on it.\<close>

type_synonym screen = "u16 list list \<times> nat \<times> nat"

definition screen :: "'d term_state \<Rightarrow> screen" where
  "screen t = (screen_buffer t, unat (terminal_row t), unat (terminal_col t))"

text \<open>
  A cell of text mode: the character in the low byte, its colour in the high byte. A character
  outside ASCII is negative as a \<open>char\<close>, and its sign fills the byte of the colour.
\<close>

definition vga_cell :: "u8 \<Rightarrow> u8 \<Rightarrow> u16" where
  "vga_cell color c = word_cat (if unat c < 128 then color else - 1) c"

definition blank :: u16 where
  "blank = vga_cell 0x1F 32"

definition attribute :: "u8 \<Rightarrow> u8 \<Rightarrow> u8" where
  "attribute fg bg = push_bit 4 (bg AND 0x0f) OR (fg AND 0x0f)"

definition scr_next_line :: "screen \<Rightarrow> screen" where
  "scr_next_line = (\<lambda>(buf, y, x). if y = 24 then (tl buf @ [replicate 80 blank], 24, 0) else (buf, y + 1, 0))"

definition scr_write :: "u8 \<Rightarrow> u8 \<Rightarrow> screen \<Rightarrow> screen" where
  "scr_write color c = (\<lambda>(buf, y, x).
     if c = 10 then scr_next_line (buf, y, x)
     else let buf = buf[y := (buf ! y)[x := vga_cell color c]]
          in if x = 79 then scr_next_line (buf, y, x) else (buf, y, x + 1))"

definition term_ok :: "'d term_state \<Rightarrow> bool" where
  "term_ok t \<longleftrightarrow> dims (screen_buffer t) \<and> unat (terminal_row t) < 25 \<and> unat (terminal_col t) < 80 \<and>
     video_mem t = Some (flat (screen_buffer t))"

lemma top_bit_u8: "bit (c :: u8) 7 \<longleftrightarrow> \<not> unat c < 128"
proof -
  have "unat c div 128 < 2" using unat_less_power [of c] by (simp add: less_mult_imp_div_less)
  moreover have "bit c 7 \<longleftrightarrow> bit (unat c) 7" by (simp add: bit_unsigned_iff)
  ultimately show ?thesis by (auto simp: bit_iff_odd odd_iff_mod_2_eq_one)
qed

lemma bit_make_char: "bit (terminal_make_char c color) n \<longleftrightarrow>
    n < 16 \<and> (if n < 8 then bit c n else bit color (n - 8) \<or> bit c 7)"
proof -
  have "min 7 n = (if n < 8 then n else 7)" "n < 16 \<Longrightarrow> min 7 (n - 8) = n - 8" by auto
  then show ?thesis by (cases "n < 8") (auto simp: terminal_make_char_def bit_simps)
qed

lemma terminal_make_char_cell: "terminal_make_char c color = vga_cell color c"
  by (rule bit_word_eqI) (auto simp: bit_make_char vga_cell_def bit_word_cat_iff top_bit_u8)

lemma length_flat [simp]: "length (flat buf) = 2000"
  by (simp add: flat_def)

lemma terminal_scroll_ok:
  assumes "dims (screen_buffer t)"
  shows "terminal_scroll t = Some (t\<lparr>screen_buffer := tl (screen_buffer t) @ [replicate 80 blank], terminal_row := 24\<rparr>)"
    "dims (tl (screen_buffer t) @ [replicate 80 blank])"
proof -
  let ?buf = "screen_buffer t"
  let ?b = "tl ?buf @ drop 24 ?buf"
  have l: "length ?buf = 25" by (rule dimsD [OF assms])
  then have sc: "scroll_cells (List.product [1 ..< 25] [0 ..< 80]) ?buf = Some ?b"
    using scroll_rows [OF assms, of 24] by simp
  have "length (drop 24 ?buf) = 1" using l by simp
  then obtain r where r: "drop 24 ?buf = [r]" by (cases "drop 24 ?buf") auto
  have "set ?b \<subseteq> set ?buf" using set_drop_subset [of 24 ?buf] by (cases ?buf) auto
  then have rows: "\<forall>row \<in> set ?b. length row = 80" using assms by (auto simp: dims_def)
  then have d: "dims ?b" using l r by (simp add: dims_def)
  have "clear_cells (map (Pair 24) [0 ..< 80]) blank ?b = Some (tl ?buf @ [replicate 80 blank])"
    using clear_row [OF d, of 24 80 blank] dimsD(2) [OF d, of 24] r l by (simp add: list_update_append)
  then show "terminal_scroll t = Some (t\<lparr>screen_buffer := tl ?buf @ [replicate 80 blank], terminal_row := 24\<rparr>)"
    using sc by (simp add: terminal_scroll_def kernel_consts blank_def terminal_make_char_cell)
  show "dims (tl ?buf @ [replicate 80 blank])" using rows l by (simp add: dims_def)
qed

lemma next_line_ok:
  assumes "dims (screen_buffer t)" "unat (terminal_row t) < 25"
  shows "\<exists>t'. terminal_next_line t = Some t' \<and> screen t' = scr_next_line (screen t) \<and> dims (screen_buffer t') \<and>
    unat (terminal_row t') < 25 \<and> terminal_col t' = 0 \<and> video_mem t' = video_mem t \<and> term_dev t' = term_dev t"
proof -
  have r: "unat (terminal_row t + 1) = unat (terminal_row t) + 1" using assms(2) by (simp add: unat_word_ariths)
  show ?thesis
  proof (cases "unat (terminal_row t) = 24")
    case True
    then show ?thesis
      using terminal_scroll_ok [of "t\<lparr>terminal_row := terminal_row t + 1, terminal_col := 0\<rparr>"] assms(1) r
      by (simp add: terminal_next_line_def VGA_HEIGHT_def word_le_nat_alt screen_def scr_next_line_def)
  next
    case False
    then show ?thesis
      using assms r by (simp add: terminal_next_line_def VGA_HEIGHT_def word_le_nat_alt screen_def scr_next_line_def)
  qed
qed

lemma update_shows:
  assumes "dims (screen_buffer t)" "video_mem t = Some v" "length v = 2000" "unat (terminal_row t) < 25" "unat (terminal_col t) < 80"
  obtains t' where "terminal_update_vga_memory t = Some t'" "term_ok t'" "screen t' = screen t" "term_dev t' = term_dev t"
  using update_vga_ok [OF assms(1-3)] assms(1,4,5) by (simp add: term_ok_def screen_def)

lemma write_glyph_ok:
  assumes "term_ok t" "c \<noteq> 10"
  shows "\<exists>t'. terminal_write_glyph c fg bg t = Some t' \<and> term_ok t' \<and> screen t' = scr_write (attribute fg bg) c (screen t) \<and>
    term_dev t' = term_dev t"
proof -
  let ?y = "unat (terminal_row t)" and ?x = "unat (terminal_col t)"
  have ok: "dims (screen_buffer t)" "?y < 25" "?x < 80" "video_mem t = Some (flat (screen_buffer t))"
    using assms(1) by (auto simp: term_ok_def)
  define buf where "buf = (screen_buffer t)[?y := (screen_buffer t ! ?y)[?x := vga_cell (attribute fg bg) c]]"
  have d: "dims buf" unfolding buf_def using ok dimsD by (intro dims_row) auto
  have put: "terminal_buffer_putchar ?x ?y c (push_bit 4 (bg AND 0x0f) OR (fg AND 0x0f)) t = Some (t\<lparr>screen_buffer := buf\<rparr>)"
    using set_cell_ok [OF ok(1,3,2)] by (simp add: terminal_buffer_putchar_def buf_def attribute_def terminal_make_char_cell)
  have x: "unat (terminal_col t + 1) = ?x + 1" using ok(3) by (simp add: unat_word_ariths)
  let ?t = "t\<lparr>screen_buffer := buf, terminal_col := terminal_col t + 1\<rparr>"
  obtain t1 where t1: "(if terminal_col ?t \<ge> of_nat VGA_WIDTH then terminal_next_line ?t else Some ?t) = Some t1"
    "screen t1 = scr_write (attribute fg bg) c (screen t)" "dims (screen_buffer t1)" "unat (terminal_row t1) < 25"
    "unat (terminal_col t1) < 80" "video_mem t1 = Some (flat (screen_buffer t))" "term_dev t1 = term_dev t"
  proof (cases "?x = 79")
    case True
    then show thesis
      using next_line_ok [of ?t] that d ok x assms(2)
      by (auto simp: VGA_WIDTH_def word_le_nat_alt screen_def scr_write_def scr_next_line_def buf_def Let_def split: if_splits)
  next
    case False
    then show thesis
      using that [of ?t] d ok x assms(2) by (simp add: VGA_WIDTH_def word_le_nat_alt screen_def scr_write_def buf_def Let_def)
  qed
  obtain t' where t': "terminal_update_vga_memory t1 = Some t'" "term_ok t'" "screen t' = screen t1" "term_dev t' = term_dev t1"
    by (rule update_shows [OF t1(3,6) length_flat t1(4,5)])
  show ?thesis
    using put t1(1,2,7) t' by (intro exI [of _ t']) (auto simp: terminal_write_glyph_def Let_def split: if_splits)
qed

lemma writechar_ok:
  assumes "term_ok t" "c \<noteq> 8"
  shows "\<exists>t'. terminal_writechar c fg bg t = Some t' \<and> term_ok t' \<and> screen t' = scr_write (attribute fg bg) c (screen t) \<and>
    term_dev t' = term_dev t"
proof (cases "c = 10")
  case True
  have ok: "dims (screen_buffer t)" "unat (terminal_row t) < 25" "video_mem t = Some (flat (screen_buffer t))"
    using assms(1) by (auto simp: term_ok_def)
  obtain t1 where t1: "terminal_next_line t = Some t1" "screen t1 = scr_next_line (screen t)" "dims (screen_buffer t1)"
    "unat (terminal_row t1) < 25" "terminal_col t1 = 0" "video_mem t1 = Some (flat (screen_buffer t))" "term_dev t1 = term_dev t"
    using next_line_ok [OF ok(1,2)] ok(3) by auto
  obtain t' where t': "terminal_update_vga_memory t1 = Some t'" "term_ok t'" "screen t' = screen t1" "term_dev t' = term_dev t1"
    by (rule update_shows [OF t1(3,6) length_flat t1(4)]) (use t1(5) in simp)
  show ?thesis
    using True t1(1,2,7) t' by (intro exI [of _ t']) (simp add: terminal_writechar_def scr_write_def screen_def)
qed (use write_glyph_ok [OF assms(1)] assms(2) in \<open>simp add: terminal_writechar_def\<close>)

definition scr_print :: "u8 \<Rightarrow> u8 list \<Rightarrow> screen \<Rightarrow> screen" where
  "scr_print color str s = fold (scr_write color) str s"

lemma print_loop_ok:
  "term_ok t \<Longrightarrow> \<forall>i \<in> set is. i < length str \<and> str ! i \<noteq> 8 \<Longrightarrow>
   \<exists>t'. print_loop str is fg bg t = Some t' \<and> term_ok t' \<and>
     screen t' = scr_print (attribute fg bg) (map (nth str) is) (screen t) \<and> term_dev t' = term_dev t"
proof (induction str "is" fg bg t rule: print_loop.induct)
  case (2 str i "is" fg bg t)
  obtain t1 where t1: "terminal_writechar (str ! i) fg bg t = Some t1" "term_ok t1"
    "screen t1 = scr_write (attribute fg bg) (str ! i) (screen t)" "term_dev t1 = term_dev t"
    using writechar_ok [OF "2.prems"(1), of "str ! i" fg bg] "2.prems"(2) by auto
  moreover have "rd str i = Some (str ! i)" using "2.prems"(2) by (simp add: rd_def)
  ultimately show ?case using "2.IH" [of "str ! i" t1] "2.prems"(2) by (auto simp: scr_print_def)
qed (simp add: scr_print_def)

lemma backspace_ok:
  assumes "term_ok t" "terminal_col t \<noteq> 0"
  shows "\<exists>t'. terminal_writechar 8 fg bg t = Some t' \<and> term_ok t' \<and> term_dev t' = term_dev t \<and>
    screen t' = (let (buf, y, x) = screen t in (buf[y := (buf ! y)[x - 1 := blank]], y, x - 1))"
proof -
  let ?y = "unat (terminal_row t)" and ?x = "unat (terminal_col t)"
  let ?t = "t\<lparr>terminal_col := terminal_col t - 1\<rparr>"
  have ok: "dims (screen_buffer t)" "?y < 25" "?x < 80" "video_mem t = Some (flat (screen_buffer t))"
    using assms(1) by (auto simp: term_ok_def)
  have x: "unat (terminal_col t - 1) = ?x - 1" using assms(2) by (simp add: unat_minus_one)
  have x0: "0 < ?x" using assms(2) by (simp add: unat_gt_0)
  have "term_ok ?t" using ok x by (simp add: term_ok_def)
  then obtain t1 where t1: "terminal_write_glyph 32 VGA_COLOR_WHITE VGA_COLOR_BLUE ?t = Some t1" "term_ok t1"
    "screen t1 = scr_write (attribute VGA_COLOR_WHITE VGA_COLOR_BLUE) 32 (screen ?t)" "term_dev t1 = term_dev t"
    using write_glyph_ok [of ?t 32 VGA_COLOR_WHITE VGA_COLOR_BLUE] by auto
  have "attribute VGA_COLOR_WHITE VGA_COLOR_BLUE = 0x1F" by (simp add: attribute_def kernel_consts)
  then have s1: "screen t1 = ((screen_buffer t)[?y := (screen_buffer t ! ?y)[?x - 1 := blank]], ?y, ?x)"
    using t1(3) x ok(3) x0 by (auto simp: scr_write_def screen_def blank_def Let_def)
  let ?t1 = "t1\<lparr>terminal_col := terminal_col t1 - 1\<rparr>"
  have "unat (terminal_col t1) = ?x" using s1 by (simp add: screen_def)
  then have x1: "unat (terminal_col t1 - 1) = ?x - 1" using x0 by (metis unat_gt_0 unat_minus_one less_irrefl unat_0)
  have o1: "dims (screen_buffer ?t1)" "video_mem ?t1 = Some (flat (screen_buffer t1))" "unat (terminal_row ?t1) < 25" "unat (terminal_col ?t1) < 80"
    using t1(2) x1 ok(3) by (auto simp: term_ok_def)
  obtain t' where t': "terminal_update_vga_memory ?t1 = Some t'" "term_ok t'" "screen t' = screen ?t1" "term_dev t' = term_dev ?t1"
    by (rule update_shows [OF o1(1,2) length_flat o1(3,4)])
  have "terminal_backspace t = Some ?t1" using assms(2) t1(1) by (simp add: terminal_backspace_def)
  then show ?thesis
    using t' t1(4) s1 x1 by (intro exI [of _ t']) (simp add: terminal_writechar_def screen_def)
qed

text \<open>What a format and its arguments stand for.\<close>

fun expand :: "u8 list \<Rightarrow> va_arg list \<Rightarrow> u8 list option" where
  "expand [] ap = Some []"
| "expand (c # p) ap =
     (if c \<noteq> 37 then map_option (Cons c) (expand p ap)
      else case p of
          [] \<Rightarrow> None
        | d # p \<Rightarrow>
            if d = 105
            then (case ap of
                    Va_int i # ap \<Rightarrow> if - (2 ^ 31) \<le> i \<and> i < 2 ^ 31
                      then do { str \<leftarrow> itoa i; map_option ((@) (c_str str)) (expand p ap) } else None
                  | _ \<Rightarrow> None)
            else if d = 115
            then (case ap of
                    Va_str str # ap \<Rightarrow> if 0 \<in> set str then map_option ((@) (c_str str)) (expand p ap) else None
                  | _ \<Rightarrow> None)
            else if d = 120
            then (case ap of
                    Va_int i # ap \<Rightarrow> do { str \<leftarrow> itoa_hex (word_of_int i); map_option ((@) (c_str str)) (expand p ap) }
                  | _ \<Rightarrow> None)
            else map_option (Cons d) (expand p ap))"

lemma print_ok:
  assumes "term_ok t" "0 \<in> set str" "8 \<notin> set (c_str str)"
  shows "\<exists>t'. print str fg bg t = Some t' \<and> term_ok t' \<and> screen t' = scr_print (attribute fg bg) (c_str str) (screen t) \<and>
    term_dev t' = term_dev t"
proof -
  let ?n = "length (c_str str)"
  have le: "?n \<le> length str" by (simp add: c_str_def length_takeWhile_le)
  have nth: "str ! i = c_str str ! i" if "i < ?n" for i using that by (simp add: c_str_def takeWhile_nth)
  then have "map (nth str) [0 ..< ?n] = c_str str" by (intro nth_equalityI) simp_all
  moreover have "\<forall>i \<in> set [0 ..< ?n]. i < length str \<and> str ! i \<noteq> 8"
    using le nth assms(3) by (auto simp: in_set_conv_nth)
  ultimately show ?thesis
    using print_loop_ok [OF assms(1), of "[0 ..< ?n]" str fg bg] assms(2) by (simp add: print_def strlen_eq)
qed

lemma itoa_terminated:
  "- (2 ^ 31) \<le> i \<Longrightarrow> i < 2 ^ 31 \<Longrightarrow> itoa i = Some str \<Longrightarrow> 0 \<in> set str" "itoa_hex w = Some str \<Longrightarrow> 0 \<in> set str"
  by (auto simp: itoa_eq itoa_hex_eq)

lemma c_str_Cons: "c_str (c # p) = (if c = 0 then [] else c # c_str p)"
  by (simp add: c_str_def)

lemma scr_print_append: "scr_print color (a @ b) s = scr_print color b (scr_print color a s)"
  by (simp add: scr_print_def)

lemma printf_loop_ok:
  "term_ok t \<Longrightarrow> 0 \<in> set fmt \<Longrightarrow> expand (c_str fmt) ap = Some out \<Longrightarrow> 8 \<notin> set out \<Longrightarrow>
   \<exists>t'. printf_loop True fmt ap fg bg t = Some t' \<and> term_ok t' \<and> screen t' = scr_print (attribute fg bg) out (screen t) \<and>
     term_dev t' = term_dev t"
proof (induction fmt arbitrary: ap out t rule: length_induct)
  case (1 fmt)
  have piece: "\<exists>t'. Option.bind (print str fg bg t) (printf_loop True p ap' fg bg) = Some t' \<and> term_ok t' \<and>
      screen t' = scr_print (attribute fg bg) out (screen t) \<and> term_dev t' = term_dev t"
    if h: "0 \<in> set str" "out = c_str str @ out'" "expand (c_str p) ap' = Some out'" "length p < length fmt" "0 \<in> set p" for str p ap' out'
  proof -
    obtain t1 where t1: "print str fg bg t = Some t1" "term_ok t1"
      "screen t1 = scr_print (attribute fg bg) (c_str str) (screen t)" "term_dev t1 = term_dev t"
      using print_ok [OF "1.prems"(1) h(1)] h(2) "1.prems"(4) by auto
    then show ?thesis
      using "1.IH" [rule_format, OF h(4) t1(2) h(5,3)] h(2) "1.prems"(4) by (auto simp: scr_print_append)
  qed
  have char: "\<exists>t'. Option.bind (terminal_writechar d fg bg t) (printf_loop True p ap fg bg) = Some t' \<and> term_ok t' \<and>
      screen t' = scr_print (attribute fg bg) out (screen t) \<and> term_dev t' = term_dev t"
    if h: "out = d # out'" "expand (c_str p) ap = Some out'" "length p < length fmt" "0 \<in> set p" for d p out'
  proof -
    obtain t1 where t1: "terminal_writechar d fg bg t = Some t1" "term_ok t1"
      "screen t1 = scr_write (attribute fg bg) d (screen t)" "term_dev t1 = term_dev t"
      using writechar_ok [OF "1.prems"(1), of d] h(1) "1.prems"(4) by auto
    then show ?thesis
      using "1.IH" [rule_format, OF h(3) t1(2) h(4,2)] h(1) "1.prems"(4) by (auto simp: scr_print_def)
  qed
  obtain c p where fmt: "fmt = c # p" using "1.prems"(2) by (cases fmt) auto
  show ?case
  proof (cases "c = 0 \<or> c \<noteq> 37")
    case True
    then show ?thesis
      using "1.prems" char [of c _ p] by (auto simp: fmt c_str_Cons scr_print_def split: if_splits)
  next
    case False
    then obtain d q where p: "p = d # q" "d \<noteq> 0"
      using "1.prems"(2,3) by (cases p) (auto simp: fmt c_str_Cons split: if_splits)
    have q: "0 \<in> set q" "length q < length fmt" using "1.prems"(2) False p by (auto simp: fmt)
    show ?thesis
      using "1.prems"(3) False p q piece [of _ _ q] char [of d _ q]
      by (auto simp: fmt c_str_Cons bind_eq_Some_conv itoa_terminated split: if_splits list.splits va_arg.splits)
  qed
qed

subsection \<open>Properties of the terminal\<close>

text \<open>
  (C27) Writing a character other than backspace on a consistent terminal stays inside the buffer and the
  display memory, leaves the terminal consistent with the display showing the buffer, and does to the screen
  what one expects: the cell at the cursor is set to the character in its colour (one outside ASCII gets the
  colour 0xFF instead) and the cursor advances, a newline or the end of the line moves it to the next line, and on
  the last line all rows move up by one and a blank one comes in.
\<close>

theorem terminal_write_refines_screen:
  assumes "term_ok t" "c \<noteq> 8"
  shows "\<exists>t'. terminal_writechar c fg bg t = Some t' \<and> term_ok t' \<and> screen t' = scr_write (attribute fg bg) c (screen t)"
  using writechar_ok [OF assms] by blast

definition demo_term :: "unit term_state" where
  "demo_term = \<lparr>video_mem = Some (replicate 2000 blank), terminal_row = 24, terminal_col = 3,
     screen_buffer = replicate 25 (replicate 80 blank), term_dev = ()\<rparr>"

lemma demo_term_ok: "term_ok demo_term"
proof -
  have "flat (replicate 25 (replicate 80 blank)) = replicate 2000 blank"
    by (intro nth_equalityI) (simp_all add: flat_def div_less_iff_less_mult)
  then show ?thesis by (simp add: term_ok_def demo_term_def dims_def)
qed

theorem terminal_write_refines_screen_witness:
  "\<exists>t'. terminal_writechar 10 15 1 demo_term = Some t' \<and> screen t' = (replicate 25 (replicate 80 blank), 24, 0)"
proof -
  have "(25 :: nat) = Suc 24" by simp
  then have "tl (replicate 25 x) @ [x] = replicate 25 x" for x :: "u16 list"
    by (simp only: replicate_Suc list.sel replicate_append_same)
  then have "scr_write (attribute 15 1) 10 (screen demo_term) = (replicate 25 (replicate 80 blank), 24, 0)"
    by (simp add: scr_write_def scr_next_line_def screen_def demo_term_def)
  then show ?thesis using terminal_write_refines_screen [OF demo_term_ok, of 10 15 1] by auto
qed



text \<open>
  (C37) A backspace at the start of a line other than the first leaves the cursor in column 65535, and the
  next character is written far outside the screen buffer.
\<close>

theorem backspace_at_line_start_breaks:
  assumes "term_ok t" "terminal_col t = 0" "terminal_row t \<noteq> 0"
  shows "\<exists>t'. terminal_writechar 8 fg bg t = Some t' \<and> terminal_col t' = 0xFFFF \<and> terminal_writechar 97 fg bg t' = None"
proof -
  let ?t = "t\<lparr>terminal_row := terminal_row t - 1, terminal_col := 79\<rparr>"
  have ok: "dims (screen_buffer t)" "unat (terminal_row t) < 25" "video_mem t = Some (flat (screen_buffer t))"
    using assms(1) by (auto simp: term_ok_def)
  have r: "unat (terminal_row t - 1) = unat (terminal_row t) - 1" "0 < unat (terminal_row t)"
    using assms(3) by (simp_all add: unat_minus_one unat_gt_0)
  have "term_ok ?t" using ok r by (simp add: term_ok_def)
  then obtain t1 where t1: "terminal_write_glyph 32 VGA_COLOR_WHITE VGA_COLOR_BLUE ?t = Some t1" "term_ok t1"
    "screen t1 = scr_write (attribute VGA_COLOR_WHITE VGA_COLOR_BLUE) 32 (screen ?t)"
    using write_glyph_ok [of ?t 32 VGA_COLOR_WHITE VGA_COLOR_BLUE] by auto
  then have "unat (terminal_col t1) = 0"
    using r ok(2) by (auto simp: screen_def scr_write_def scr_next_line_def Let_def split: if_splits)
  then have c: "terminal_col t1 = 0" by (simp add: unat_eq_zero)
  let ?t' = "t1\<lparr>terminal_col := 0xFFFF, video_mem := Some (flat (screen_buffer t1))\<rparr>"
  have "terminal_backspace t = Some (t1\<lparr>terminal_col := 0xFFFF\<rparr>)"
    using assms(2,3) t1(1) c by (simp add: terminal_backspace_def VGA_WIDTH_def)
  then have w: "terminal_writechar 8 fg bg t = Some ?t'"
    using update_vga_ok [of "t1\<lparr>terminal_col := 0xFFFF\<rparr>"] t1(2) by (simp add: terminal_writechar_def term_ok_def)
  have "unat (terminal_row t1) < 25" "length (screen_buffer t1 ! unat (terminal_row t1)) = 80"
    using t1(2) dimsD(2) [of "screen_buffer t1"] by (simp_all add: term_ok_def)
  then have "terminal_writechar 97 fg bg ?t' = None"
    by (simp add: terminal_writechar_def terminal_write_glyph_def terminal_buffer_putchar_def set_cell_def rd_def wr_def)
  then show ?thesis using w by (intro exI [of _ ?t']) simp
qed

theorem backspace_at_line_start_breaks_witness:
  "\<exists>t'. terminal_writechar 8 15 1 (demo_term\<lparr>terminal_col := 0\<rparr>) = Some t' \<and> terminal_writechar 97 15 1 t' = None"
proof -
  have "term_ok (demo_term\<lparr>terminal_col := 0\<rparr>)" using demo_term_ok by (simp add: term_ok_def)
  from backspace_at_line_start_breaks [OF this, of 15 1] show ?thesis by (auto simp: demo_term_def)
qed

end
