(* ===== verification/User_Library.thy ===== *)
theory User_Library
  imports C_String Terminal
begin

section \<open>The library of user programs\<close>

text \<open>
  The functions of \<^verbatim>\<open>src/programs/stdlib/src\<close> that the kernel does not have: \<open>strtok\<close>, the parsing of a command
  line, the line editor and \<open>printf\<close>. The others are the functions of \<^theory_text>\<open>C_String\<close>, line for line. System calls are
  parameters on a state of their own: a call that never returns is \<^const>\<open>None\<close>.
\<close>

subsection \<open>Tokens\<close>

text \<open>A pointer into a string is the object with an offset. \<open>sp\<close> is the static pointer of \<open>strtok\<close>.\<close>

type_synonym str_ptr = "u8 list \<times> nat"

fun skip_delimiters :: "nat \<Rightarrow> u8 list \<Rightarrow> u8 list \<Rightarrow> nat \<Rightarrow> nat option" where
  "skip_delimiters 0 delimiters b p = None"
| "skip_delimiters (Suc n) delimiters b p =
     do { c \<leftarrow> rd b p;
          if c \<in> set delimiters then skip_delimiters n delimiters b (Suc p) else Some p }"

fun token_end :: "nat \<Rightarrow> u8 list \<Rightarrow> u8 list \<Rightarrow> nat \<Rightarrow> str_ptr option" where
  "token_end 0 delimiters b sp = None"
| "token_end (Suc n) delimiters b sp =
     do { c \<leftarrow> rd b sp;
          if c = 0 then Some (b, sp)
          else if c \<in> set delimiters then do { b \<leftarrow> wr b sp 0; Some (b, Suc sp) }
          else token_end n delimiters b (Suc sp) }"

definition strtok :: "u8 list option \<Rightarrow> u8 list \<Rightarrow> str_ptr option \<Rightarrow> (str_ptr option \<times> str_ptr option) option" where
  "strtok str delimiters sp =
     do { n \<leftarrow> strlen delimiters;
          let delimiters = take (nat n) delimiters;
          if str = None \<and> sp = None then Some (None, sp)
          else let sp = (case sp of None \<Rightarrow> map_option (\<lambda>b. (b, 0)) str | Some _ \<Rightarrow> sp) in do {
            (b, p_start) \<leftarrow> sp;
            p_start \<leftarrow> skip_delimiters (Suc (length b)) delimiters b p_start;
            c \<leftarrow> rd b p_start;
            if c = 0 then Some (None, None)
            else do { (b, sp) \<leftarrow> token_end (Suc (length b)) delimiters b p_start;
                      Some (Some (b, p_start), Some (b, sp)) } } }"

subsection \<open>Command lines\<close>

text \<open>The list of arguments, each with the address \<open>toyos_malloc\<close> gave and its 512 bytes; \<open>junk\<close> is what was there.\<close>

definition sizeof_command_argument :: u32 where "sizeof_command_argument = 516"

definition new_argument :: "(u32 \<Rightarrow> 's \<Rightarrow> (u32 \<times> u8 list \<times> 's) option) \<Rightarrow> str_ptr \<Rightarrow> 's \<Rightarrow> ((u32 \<times> u8 list) option \<times> 's) option" where
  "new_argument toyos_malloc tok s =
     do { (addr, junk, s) \<leftarrow> toyos_malloc sizeof_command_argument s;
          if addr = 0 then Some (None, s)
          else do { argument \<leftarrow> strncpy junk (drop (snd tok) (fst tok)) 512; Some (Some (addr, argument), s) } }"

partial_function (option) arguments_loop :: "(u32 \<Rightarrow> 's \<Rightarrow> (u32 \<times> u8 list \<times> 's) option) \<Rightarrow> str_ptr option \<Rightarrow> str_ptr option \<Rightarrow> 's \<Rightarrow>
    ((u32 \<times> u8 list) list \<times> str_ptr option \<times> 's) option" where
  "arguments_loop toyos_malloc tok sp s =
     (case tok of
        None \<Rightarrow> Some ([], sp, s)
      | Some tok \<Rightarrow>
          do { (new_command, s) \<leftarrow> new_argument toyos_malloc tok s;
               case new_command of
                 None \<Rightarrow> Some ([], sp, s)
               | Some a \<Rightarrow> do { (tok, sp) \<leftarrow> strtok None [32, 0] sp;
                                (rest, sp, s) \<leftarrow> arguments_loop toyos_malloc tok sp s;
                                Some (a # rest, sp, s) } })"

definition toyos_parse_command :: "(u32 \<Rightarrow> 's \<Rightarrow> (u32 \<times> u8 list \<times> 's) option) \<Rightarrow> u8 list \<Rightarrow> u8 list \<Rightarrow> int \<Rightarrow> str_ptr option \<Rightarrow> 's \<Rightarrow>
    ((u32 \<times> u8 list) list \<times> str_ptr option \<times> 's) option" where
  "toyos_parse_command toyos_malloc scommand command max_len sp s =
     (if max_len \<ge> 1025 then Some ([], sp, s)
      else do { scommand \<leftarrow> strncpy scommand command 1025;
                (tok, sp) \<leftarrow> strtok (Some scommand) [32, 0] sp;
                arguments_loop toyos_malloc tok sp s })"

definition toyos_system_run :: "(u32 \<Rightarrow> 's \<Rightarrow> (u32 \<times> u8 list \<times> 's) option) \<Rightarrow> ((u32 \<times> u8 list) list \<Rightarrow> 's \<Rightarrow> (int \<times> 's) option) \<Rightarrow>
    u8 list \<Rightarrow> u8 list \<Rightarrow> u8 list \<Rightarrow> str_ptr option \<Rightarrow> 's \<Rightarrow> (int \<times> str_ptr option \<times> 's) option" where
  "toyos_system_run toyos_malloc toyos_system buf scommand command sp s =
     do { buf \<leftarrow> strncpy buf command 1024;
          (root_command_argument, sp, s) \<leftarrow> toyos_parse_command toyos_malloc scommand buf 1024 sp s;
          if root_command_argument = [] then Some (-1, sp, s)
          else do { (res, s) \<leftarrow> toyos_system root_command_argument s; Some (res, sp, s) } }"

subsection \<open>Input and output\<close>

partial_function (option) toyos_getkeyblock :: "('s \<Rightarrow> (u8 \<times> 's) option) \<Rightarrow> 's \<Rightarrow> (u8 \<times> 's) option" where
  "toyos_getkeyblock toyos_getkey s =
     do { (val, s) \<leftarrow> toyos_getkey s; if val = 0 then toyos_getkeyblock toyos_getkey s else Some (val, s) }"

partial_function (option) readline_loop :: "('s \<Rightarrow> (u8 \<times> 's) option) \<Rightarrow> (u8 \<Rightarrow> 's \<Rightarrow> 's option) \<Rightarrow> nat \<Rightarrow> bool \<Rightarrow> nat \<Rightarrow> u8 list \<Rightarrow> 's \<Rightarrow>
    (nat \<times> u8 list \<times> 's) option" where
  "readline_loop toyos_getkey toyos_putchar max_len echo i out s =
     (if Suc i < max_len
      then do {
        (key, s) \<leftarrow> toyos_getkeyblock toyos_getkey s;
        if key = 13 then Some (i, out, s)
        else do {
          s \<leftarrow> (if echo then toyos_putchar key s else Some s);
          if key = 0x08 \<and> i \<ge> 1
          then do { out \<leftarrow> wr out (i - 1) 0; readline_loop toyos_getkey toyos_putchar max_len echo (i - 1) out s }
          else do { out \<leftarrow> wr out i key; readline_loop toyos_getkey toyos_putchar max_len echo (Suc i) out s } } }
      else Some (i, out, s))"

definition toyos_terminal_readline :: "('s \<Rightarrow> (u8 \<times> 's) option) \<Rightarrow> (u8 \<Rightarrow> 's \<Rightarrow> 's option) \<Rightarrow> u8 list \<Rightarrow> nat \<Rightarrow> bool \<Rightarrow> 's \<Rightarrow>
    (u8 list \<times> 's) option" where
  "toyos_terminal_readline toyos_getkey toyos_putchar out max_len echo s =
     do { (i, out, s) \<leftarrow> readline_loop toyos_getkey toyos_putchar max_len echo 0 out s; out \<leftarrow> wr out i 0; Some (out, s) }"

text \<open>\<open>print\<close> and \<open>toyos_putchar\<close> are system calls; \<open>printf\<close> makes them piece by piece.\<close>

datatype user_call = Put u8 | Print "u8 list"

fun user_printf :: "u8 list \<Rightarrow> va_arg list \<Rightarrow> user_call list option" where
  "user_printf [] ap = None"
| "user_printf (c # p) ap =
     (if c = 0 then Some []
      else if c \<noteq> 37 then do { rest \<leftarrow> user_printf p ap; Some (Put c # rest) }
      else case p of
             [] \<Rightarrow> None
           | f # p' \<Rightarrow>
               if f = 105
               then (case ap of
                       Va_int i # ap \<Rightarrow> do { str \<leftarrow> itoa i; rest \<leftarrow> user_printf p' ap; Some (Print str # rest) }
                     | _ \<Rightarrow> None)
               else if f = 115
               then (case ap of
                       Va_str str # ap \<Rightarrow> do { rest \<leftarrow> user_printf p' ap; Some (Print str # rest) }
                     | _ \<Rightarrow> None)
               else do { rest \<leftarrow> user_printf p' ap; Some (Put f # rest) })"

end
