(* ===== verification/Block_Allocator.thy ===== *)
theory Block_Allocator
  imports Kernel_Config
begin

section \<open>What the kernel relies on from its allocator\<close>

text \<open>
  The contract of \<open>kmalloc\<close> and \<open>kfree\<close> as the rest of the kernel uses it: every allocation is
  page aligned, apart from every other live allocation, and gone after it is freed. \<open>live\<close> gives
  the live allocations as pairs of an address and a length in bytes, \<open>wanted\<close> the request sizes
  the contract covers. The facts proved here are the ones clients use; the heap of
  \<^verbatim>\<open>heap.c\<close> is the instance.
\<close>

definition region :: "u32 \<Rightarrow> nat \<Rightarrow> nat set" where
  "region p m = {unat p ..< unat p + m}"

lemma region_mem: "m > 0 \<Longrightarrow> unat p \<in> region p m"
  by (simp add: region_def)

locale block_allocator =
  fixes alloc :: "u32 \<Rightarrow> 'h \<Rightarrow> u32 \<times> 'h"
    and release :: "u32 \<Rightarrow> 'h \<Rightarrow> 'h"
    and invar :: "'h \<Rightarrow> bool"
    and live :: "'h \<Rightarrow> (u32 \<times> nat) set"
    and wanted :: "u32 \<Rightarrow> bool"
  assumes live_shape: "invar h \<Longrightarrow> (p, m) \<in> live h \<Longrightarrow>
      p \<noteq> 0 \<and> 0 < m \<and> unat p + m \<le> 2 ^ 32 \<and> 4096 dvd unat p \<and> 4096 dvd m"
    and live_disjoint: "invar h \<Longrightarrow> (p, m) \<in> live h \<Longrightarrow> (q, k) \<in> live h \<Longrightarrow>
      (p, m) \<noteq> (q, k) \<Longrightarrow> region p m \<inter> region q k = {}"
    and alloc_ok: "invar h \<Longrightarrow> wanted sz \<Longrightarrow> alloc sz h = (p, h') \<Longrightarrow> p \<noteq> 0 \<Longrightarrow>
      \<exists>m. unat sz \<le> m \<and> m < unat sz + 4096 \<and> (p, m) \<notin> live h \<and>
          live h' = insert (p, m) (live h) \<and> invar h'"
    and alloc_null: "invar h \<Longrightarrow> wanted sz \<Longrightarrow> alloc sz h = (0, h') \<Longrightarrow> h' = h"
    and release_ok: "invar h \<Longrightarrow> (p, m) \<in> live h \<Longrightarrow>
      invar (release p h) \<and> live (release p h) = live h - {(p, m)}"
begin

lemma alloc_invar: "invar h \<Longrightarrow> wanted sz \<Longrightarrow> invar (snd (alloc sz h))"
  using alloc_ok [of h sz "fst (alloc sz h)"] alloc_null [of h sz]
  by (cases "fst (alloc sz h) = 0") (auto simp: prod_eq_iff)

lemma alloc_live_mono: "invar h \<Longrightarrow> wanted sz \<Longrightarrow> live h \<subseteq> live (snd (alloc sz h))"
  using alloc_ok [of h sz "fst (alloc sz h)"] alloc_null [of h sz]
  by (cases "fst (alloc sz h) = 0") (auto simp: prod_eq_iff)

lemma alloc_fresh:
  assumes "invar h" "wanted sz" "alloc sz h = (p, h')" "p \<noteq> 0" "(q, k) \<in> live h"
  shows "region p (unat sz) \<inter> region q k = {}"
proof -
  obtain m where m: "unat sz \<le> m" "(p, m) \<notin> live h" "live h' = insert (p, m) (live h)" "invar h'"
    using alloc_ok [OF assms(1-4)] by blast
  then have "(p, m) \<noteq> (q, k)" using assms(5) by blast
  then have "region p m \<inter> region q k = {}"
    using live_disjoint [of h' p m q k] m assms(5) by simp
  then show ?thesis using m(1) by (fastforce simp: region_def)
qed

lemma alloc_address_fresh:
  assumes "invar h" "wanted sz" "alloc sz h = (p, h')" "p \<noteq> 0" "(q, k) \<in> live h"
  shows "p \<noteq> q"
proof
  assume "p = q"
  obtain m where m: "(p, m) \<notin> live h" "live h' = insert (p, m) (live h)" "invar h'"
    using alloc_ok [OF assms(1-4)] by blast
  then have "region p m \<inter> region q k = {}"
    using live_disjoint [of h' p m q k] assms(5) by auto
  moreover have "0 < m" "0 < k" using live_shape m assms(1,5) by blast+
  ultimately show False using \<open>p = q\<close> by (auto simp: region_def)
qed

lemma live_unique: "invar h \<Longrightarrow> (p, m) \<in> live h \<Longrightarrow> (p, k) \<in> live h \<Longrightarrow> m = k"
  using live_disjoint [of h p m p k] live_shape [of h p m] live_shape [of h p k]
    region_mem [of m p] region_mem [of k p] by (cases "m = k") auto

lemma alloc_release_live:
  assumes "invar h" "wanted sz" "alloc sz h = (p, h')" "p \<noteq> 0"
  shows "invar (release p h') \<and> live (release p h') = live h"
proof -
  obtain m where m: "(p, m) \<notin> live h" "live h' = insert (p, m) (live h)" "invar h'"
    using alloc_ok [OF assms] by blast
  then show ?thesis using release_ok [of h' p m] by auto
qed

lemma release_many:
  assumes "invar h" "live h = L \<union> (\<lambda>p. (p, k)) ` set ps" "distinct ps" "\<And>p. p \<in> set ps \<Longrightarrow> (p, k) \<notin> L"
  shows "invar (fold release ps h) \<and> live (fold release ps h) = L"
  using assms
proof (induction ps arbitrary: h)
  case (Cons p ps)
  have "(p, k) \<in> live h" using Cons.prems(2) by simp
  then have rel: "invar (release p h)" "live (release p h) = live h - {(p, k)}"
    using release_ok Cons.prems(1) by blast+
  then have "live (release p h) = L \<union> (\<lambda>p. (p, k)) ` set ps"
    using Cons.prems by auto
  then show ?case using Cons.IH [of "release p h"] Cons.prems(3,4) rel(1) by simp
qed simp

lemma reach_invar:
  assumes step: "\<And>h h'. R h h' \<Longrightarrow> (\<exists>sz. wanted sz \<and> h' = snd (alloc sz h)) \<or>
      (\<exists>p m. (p, m) \<in> live h \<and> h' = release p h)"
    and "R\<^sup>*\<^sup>* h0 h" "invar h0"
  shows "invar h"
  using assms(2)
proof (induction rule: rtranclp_induct)
  case (step y z)
  then show ?case using assms(1) [of y z] alloc_invar release_ok by blast
qed (rule assms(3))

end


text \<open>
  Requests of at most one page: a page allocator has a count of the pages it can still give,
  and such a request takes exactly one of them.
\<close>

locale page_allocator = block_allocator +
  fixes room :: "'a \<Rightarrow> nat"
  assumes page_wanted: "0 < unat sz \<Longrightarrow> unat sz \<le> 4096 \<Longrightarrow> wanted sz"
    and page_alloc: "invar h \<Longrightarrow> 0 < unat sz \<Longrightarrow> unat sz \<le> 4096 \<Longrightarrow> 0 < room h \<Longrightarrow>
      fst (alloc sz h) \<noteq> 0 \<and> Suc (room (snd (alloc sz h))) = room h"
begin

lemma page_alloc_ok:
  assumes "invar h" "0 < unat sz" "unat sz \<le> 4096" "0 < room h"
  obtains p h' where "alloc sz h = (p, h')" "p \<noteq> 0" "(p, 4096) \<notin> live h"
    "live h' = insert (p, 4096) (live h)" "invar h'" "room h = Suc (room h')"
    "unat p + 4096 \<le> 2 ^ 32" "4096 dvd unat p"
    "\<And>q k. (q, k) \<in> live h \<Longrightarrow> p \<noteq> q"
proof -
  obtain p h' where run: "alloc sz h = (p, h')" by force
  note w = page_wanted [OF assms(2,3)]
  have p: "p \<noteq> 0" "Suc (room h') = room h"
    using page_alloc [OF assms] run by simp_all
  obtain m where m: "unat sz \<le> m" "m < unat sz + 4096" "(p, m) \<notin> live h"
      "live h' = insert (p, m) (live h)" "invar h'"
    using alloc_ok [OF assms(1) w run p(1)] by blast
  have shape: "0 < m" "unat p + m \<le> 2 ^ 32" "4096 dvd unat p" "4096 dvd m"
    using live_shape [OF m(5), of p m] m(4) by simp_all
  have "m = 4096"
  proof -
    obtain k where k: "m = 4096 * k" using shape(4) by (auto elim: dvdE)
    then have "0 < k" "k < 2" using shape(1) m(2) assms(3) by auto
    then show ?thesis using k by simp
  qed
  then show thesis
    using that [OF run p(1)] m p(2) shape alloc_address_fresh [OF assms(1) w run p(1)] by metis
qed

end

end
