(* ===== verification/Kernel_Heap.thy ===== *)
theory Kernel_Heap
  imports Block_Allocator
begin

section \<open>The kernel heap\<close>

text \<open>
  \<^verbatim>\<open>src/src/memory/heap/heap.c\<close> and \<^verbatim>\<open>kheap.c\<close>: an allocator of 4096-byte blocks described by a
  table with one byte per block. The table is a plain array, and the code indexes it with signed
  integers without a bounds check, so the entries are the bytes at every signed offset from the
  start of the table: the indices \<open>0 .. total - 1\<close> are the table, the others the memory around it.
  A null pointer is the word 0.
\<close>

subsection \<open>Table entries\<close>

definition HEAP_BLOCK_TABLE_ENTRY_TAKEN :: u8 where
  [kernel_consts]: "HEAP_BLOCK_TABLE_ENTRY_TAKEN = 0x01"

definition HEAP_BLOCK_TABLE_ENTRY_FREE :: u8 where
  [kernel_consts]: "HEAP_BLOCK_TABLE_ENTRY_FREE = 0x00"

definition HEAP_BLOCK_HAS_NEXT :: u8 where
  [kernel_consts]: "HEAP_BLOCK_HAS_NEXT = 0b10000000"

definition HEAP_BLOCK_IS_FIRST :: u8 where
  [kernel_consts]: "HEAP_BLOCK_IS_FIRST = 0b01000000"

record heap_table =
  ht_entries :: "int \<Rightarrow> u8"
  ht_total :: u32

record heap =
  h_table :: heap_table
  h_saddr :: u32

abbreviation entry :: "heap \<Rightarrow> int \<Rightarrow> u8" where
  "entry h i \<equiv> ht_entries (h_table h) i"

abbreviation total_blocks :: "heap \<Rightarrow> int" where
  "total_blocks h \<equiv> uint (ht_total (h_table h))"

definition set_entries :: "heap \<Rightarrow> (int \<Rightarrow> u8) \<Rightarrow> heap" where
  "set_entries h e = h\<lparr>h_table := (h_table h)\<lparr>ht_entries := e\<rparr>\<rparr>"

subsection \<open>Validation and alignment\<close>

definition heap_validate_table :: "u32 \<Rightarrow> u32 \<Rightarrow> heap_table \<Rightarrow> int" where
  "heap_validate_table ptr end table =
     (let table_size = end - ptr;
          blocks = table_size div TOYOS_HEAP_BLOCK_SIZE
      in if ht_total table \<noteq> blocks then - EINVARG else OK)"

definition heap_validate_alignment :: "u32 \<Rightarrow> bool" where
  "heap_validate_alignment ptr \<longleftrightarrow> ptr mod TOYOS_HEAP_BLOCK_SIZE = 0"

definition heap_align_value_to_upper :: "u32 \<Rightarrow> u32" where
  "heap_align_value_to_upper val =
     (if val mod TOYOS_HEAP_BLOCK_SIZE = 0 then val
      else (val - val mod TOYOS_HEAP_BLOCK_SIZE) + TOYOS_HEAP_BLOCK_SIZE)"

definition heap_get_entry_type :: "u8 \<Rightarrow> u8" where
  "heap_get_entry_type e = e AND 0x0f"

subsection \<open>Allocation\<close>

text \<open>
  The search loop of \<open>heap_get_start_block\<close>, from index \<open>i\<close> with the counters
  \<open>free_blocks\<close> and \<open>start_block\<close>; \<open>break\<close> and the end of the loop both return the counters.
\<close>

function get_start_loop :: "heap \<Rightarrow> u32 \<Rightarrow> int \<Rightarrow> int \<Rightarrow> int \<Rightarrow> int \<times> int" where
  "get_start_loop h blocks i free_blocks start_block =
     (if i < total_blocks h
      then (if heap_get_entry_type (entry h i) \<noteq> HEAP_BLOCK_TABLE_ENTRY_FREE
            then get_start_loop h blocks (i + 1) 0 (-1)
            else (let start_block' = (if start_block = -1 then to_int i else start_block);
                      free_blocks' = free_blocks + 1
                  in if word_of_int free_blocks' = blocks then (free_blocks', start_block')
                     else get_start_loop h blocks (i + 1) free_blocks' start_block'))
      else (free_blocks, start_block))"
  by pat_completeness auto
termination
  by (relation "measure (\<lambda>(h, blocks, i, f, s). nat (total_blocks h - i))") auto

definition heap_get_start_block :: "heap \<Rightarrow> u32 \<Rightarrow> int" where
  "heap_get_start_block h blocks =
     (let (free_blocks, start_block) = get_start_loop h blocks 0 0 (-1);
          start_block = (if (word_of_int free_blocks :: u32) < blocks then -1 else start_block)
      in if start_block = -1 then - ENOMEM else start_block)"

definition heap_block_to_address :: "heap \<Rightarrow> int \<Rightarrow> u32" where
  "heap_block_to_address h block = h_saddr h + word_of_int block * TOYOS_HEAP_BLOCK_SIZE"

text \<open>The loop of \<open>heap_mark_blocks_taken\<close>; \<open>e\<close> is the value it writes next.\<close>

function mark_taken_loop :: "(int \<Rightarrow> u8) \<Rightarrow> u8 \<Rightarrow> int \<Rightarrow> int \<Rightarrow> (int \<Rightarrow> u8)" where
  "mark_taken_loop entries e i end_block =
     (if i \<le> end_block
      then mark_taken_loop (entries(i := e))
             (if i \<noteq> end_block - 1 then HEAP_BLOCK_TABLE_ENTRY_TAKEN OR HEAP_BLOCK_HAS_NEXT
              else HEAP_BLOCK_TABLE_ENTRY_TAKEN)
             (i + 1) end_block
      else entries)"
  by pat_completeness auto
termination
  by (relation "measure (\<lambda>(entries, e, i, end_block). nat (end_block + 1 - i))") auto

definition heap_mark_blocks_taken :: "heap \<Rightarrow> int \<Rightarrow> int \<Rightarrow> heap" where
  "heap_mark_blocks_taken h start_block n =
     (let end_block = (start_block + n) - 1;
          e = HEAP_BLOCK_TABLE_ENTRY_TAKEN OR HEAP_BLOCK_IS_FIRST;
          e = (if n > 1 then e OR HEAP_BLOCK_HAS_NEXT else e)
      in set_entries h (mark_taken_loop (entry h) e start_block end_block))"

definition heap_malloc_blocks :: "heap \<Rightarrow> u32 \<Rightarrow> u32 \<times> heap" where
  "heap_malloc_blocks h blocks =
     (let start_block = heap_get_start_block h blocks
      in if start_block < 0 then (0, h)
         else let address = heap_block_to_address h start_block
              in if address = 0 then (0, h)
                 else (address, heap_mark_blocks_taken h start_block (sint blocks)))"

subsection \<open>Release\<close>

function mark_free_loop :: "(int \<Rightarrow> u8) \<Rightarrow> int \<Rightarrow> int \<Rightarrow> (int \<Rightarrow> u8)" where
  "mark_free_loop entries i limit =
     (if i < limit
      then (let e = entries i; entries' = entries(i := HEAP_BLOCK_TABLE_ENTRY_FREE)
            in if e AND HEAP_BLOCK_HAS_NEXT = 0 then entries'
               else mark_free_loop entries' (i + 1) limit)
      else entries)"
  by pat_completeness auto
termination
  by (relation "measure (\<lambda>(entries, i, limit). nat (limit - i))") auto

definition heap_mark_blocks_free :: "heap \<Rightarrow> int \<Rightarrow> heap" where
  "heap_mark_blocks_free h starting_block =
     set_entries h (mark_free_loop (entry h) starting_block (sint (ht_total (h_table h))))"

definition heap_address_to_block :: "heap \<Rightarrow> u32 \<Rightarrow> int" where
  "heap_address_to_block h address = sint (address - h_saddr h) sdiv sint TOYOS_HEAP_BLOCK_SIZE"

subsection \<open>The interface of the heap\<close>

text \<open>\<open>memset\<close> of the first \<open>n\<close> table entries.\<close>

fun clear_entries :: "(int \<Rightarrow> u8) \<Rightarrow> nat \<Rightarrow> (int \<Rightarrow> u8)" where
  "clear_entries e 0 = e"
| "clear_entries e (Suc n) = (clear_entries e n)(int n := HEAP_BLOCK_TABLE_ENTRY_FREE)"

text \<open>\<open>heap_create\<close> fills the heap structure it is given and returns a status.\<close>

definition heap_create :: "heap \<Rightarrow> u32 \<Rightarrow> u32 \<Rightarrow> heap_table \<Rightarrow> int \<times> heap" where
  "heap_create h ptr end table =
     (if \<not> heap_validate_alignment ptr \<or> \<not> heap_validate_alignment end then (- EINVARG, h)
      else let h = \<lparr>h_table = table, h_saddr = ptr\<rparr>;
               res = heap_validate_table ptr end table
           in if res < 0 then (res, h)
              else (OK, set_entries h (clear_entries (entry h) (unat (ht_total table)))))"

definition malloc :: "heap \<Rightarrow> u32 \<Rightarrow> u32 \<times> heap" where
  "malloc h sz =
     (let aligned_size = heap_align_value_to_upper sz;
          blocks = aligned_size div TOYOS_HEAP_BLOCK_SIZE
      in heap_malloc_blocks h blocks)"

definition free :: "heap \<Rightarrow> u32 \<Rightarrow> heap" where
  "free h ptr = heap_mark_blocks_free h (heap_address_to_block h ptr)"

subsection \<open>The kernel's own heap\<close>

text \<open>
  \<open>kheap_init\<close> on the memory \<open>e\<close> around the table address; \<^const>\<open>None\<close> is its panic. The
  allocator calls of the kernel go to this heap. \<open>kzalloc\<close> returns the zeroed bytes of the new
  object beside its address, and no object (\<^const>\<open>None\<close>) for a null pointer.
\<close>

definition kheap_init :: "(int \<Rightarrow> u8) \<Rightarrow> heap \<Rightarrow> heap option" where
  "kheap_init e kernel_heap =
     (let table = \<lparr>ht_entries = e, ht_total = TOYOS_HEAP_SIZE_BYTES div TOYOS_HEAP_BLOCK_SIZE\<rparr>;
          (res, h) = heap_create kernel_heap TOYOS_HEAP_ADDRESS
                       (TOYOS_HEAP_ADDRESS + TOYOS_HEAP_SIZE_BYTES) table
      in if res < 0 then None else Some h)"

definition kmalloc :: "u32 \<Rightarrow> heap \<Rightarrow> u32 \<times> heap" where
  "kmalloc sz h = malloc h sz"

definition kzalloc :: "u32 \<Rightarrow> heap \<Rightarrow> (u32 \<times> u8 list) option \<times> heap" where
  "kzalloc sz h =
     (let (ptr, h') = kmalloc sz h
      in if ptr = 0 then (None, h') else (Some (ptr, replicate (unat sz) 0), h'))"

definition kfree :: "u32 \<Rightarrow> heap \<Rightarrow> heap" where
  "kfree ptr h = free h ptr"

declare get_start_loop.simps [simp del] mark_taken_loop.simps [simp del]
  mark_free_loop.simps [simp del]

subsection \<open>Specification\<close>

text \<open>
  The five values a table entry can have, and the local consistency of the table: an entry with
  the next-bit is followed by a continuation entry, and a continuation entry is preceded by an
  entry with the next-bit. \<open>free_run h b n\<close> and \<open>allocated h b n\<close> are the two views of the blocks
  \<open>b .. b + n - 1\<close>.
\<close>

definition has_next :: "u8 \<Rightarrow> bool" where
  "has_next e \<longleftrightarrow> e = 0xC1 \<or> e = 0x81"

definition is_continuation :: "u8 \<Rightarrow> bool" where
  "is_continuation e \<longleftrightarrow> e = 0x81 \<or> e = 0x01"

definition is_head :: "u8 \<Rightarrow> bool" where
  "is_head e \<longleftrightarrow> e = 0x41 \<or> e = 0xC1"

definition entry_ok :: "(int \<Rightarrow> u8) \<Rightarrow> int \<Rightarrow> int \<Rightarrow> bool" where
  "entry_ok e t i \<longleftrightarrow>
     (e i = 0 \<or> is_head (e i) \<or> is_continuation (e i)) \<and>
     (has_next (e i) \<longrightarrow> i + 1 < t \<and> is_continuation (e (i + 1))) \<and>
     (is_continuation (e i) \<longrightarrow> 0 < i \<and> has_next (e (i - 1)))"

definition heap_ok :: "heap \<Rightarrow> bool" where
  "heap_ok h \<longleftrightarrow>
     heap_validate_alignment (h_saddr h) \<and> h_saddr h \<noteq> 0 \<and>
     uint (h_saddr h) + total_blocks h * 4096 \<le> 2 ^ 32 \<and>
     total_blocks h < 2 ^ 19 \<and>
     (\<forall>i \<in> {0 ..< total_blocks h}. entry_ok (entry h) (total_blocks h) i)"

definition free_run :: "heap \<Rightarrow> int \<Rightarrow> int \<Rightarrow> bool" where
  "free_run h b n \<longleftrightarrow> 0 \<le> b \<and> b + n \<le> total_blocks h \<and> (\<forall>i \<in> {b ..< b + n}. entry h i = 0)"

definition allocated :: "heap \<Rightarrow> int \<Rightarrow> int \<Rightarrow> bool" where
  "allocated h b n \<longleftrightarrow>
     0 \<le> b \<and> 0 < n \<and> b + n \<le> total_blocks h \<and> is_head (entry h b) \<and>
     (\<forall>i \<in> {b ..< b + n - 1}. has_next (entry h i)) \<and> \<not> has_next (entry h (b + n - 1))"

text \<open>The blocks a request of \<open>sz\<close> bytes needs.\<close>

definition blocks_for :: "u32 \<Rightarrow> int" where
  "blocks_for sz = (uint sz + 4095) div 4096"

subsection \<open>Closed forms of the loops\<close>

lemmas entry_defs = has_next_def is_continuation_def is_head_def

lemma set_entries_simps [simp]:
  "entry (set_entries h e) = e"
  "ht_total (h_table (set_entries h e)) = ht_total (h_table h)"
  "h_saddr (set_entries h e) = h_saddr h"
  by (simp_all add: set_entries_def)

lemma clear_entries_eq: "clear_entries e n = (\<lambda>i. if 0 \<le> i \<and> i < int n then 0 else e i)"
  by (induction n) (auto simp: fun_eq_iff kernel_consts)

lemma mark_taken_loop_eq:
  "mark_taken_loop e v i j =
     (\<lambda>k. if i \<le> k \<and> k \<le> j then (if k = i then v else if k = j then 0x01 else 0x81) else e k)"
proof (induction e v i j rule: mark_taken_loop.induct)
  case (1 e v i j)
  show ?case
    by (subst mark_taken_loop.simps) (auto simp: 1 fun_eq_iff kernel_consts)
qed

lemma heap_get_entry_type_free_iff:
  "e = 0 \<or> is_head e \<or> is_continuation e \<Longrightarrow>
   heap_get_entry_type e = HEAP_BLOCK_TABLE_ENTRY_FREE \<longleftrightarrow> e = 0"
  by (auto simp: entry_defs heap_get_entry_type_def kernel_consts)

lemma no_next_bit_iff:
  "e = 0 \<or> is_head e \<or> is_continuation e \<Longrightarrow> e AND HEAP_BLOCK_HAS_NEXT = 0 \<longleftrightarrow> \<not> has_next e"
  by (auto simp: entry_defs kernel_consts)

lemma heap_okD:
  assumes "heap_ok h"
  shows "total_blocks h < 2 ^ 19" "uint (h_saddr h) + total_blocks h * 4096 \<le> 2 ^ 32"
    "h_saddr h \<noteq> 0" "heap_validate_alignment (h_saddr h)"
    "\<And>i. 0 \<le> i \<Longrightarrow> i < total_blocks h \<Longrightarrow> entry_ok (entry h) (total_blocks h) i"
  using assms by (auto simp: heap_ok_def)

lemma entry_kindD:
  "heap_ok h \<Longrightarrow> 0 \<le> i \<Longrightarrow> i < total_blocks h \<Longrightarrow>
   entry h i = 0 \<or> is_head (entry h i) \<or> is_continuation (entry h i)"
  using heap_okD(5) by (auto simp: entry_ok_def)

lemma mark_free_loop_eq:
  assumes "0 < n" "b + n \<le> t"
    and "\<forall>i \<in> {b ..< b + n - 1}. has_next (e i)" "\<not> has_next (e (b + n - 1))"
    and "\<And>i. b \<le> i \<Longrightarrow> i < b + n \<Longrightarrow> e i = 0 \<or> is_head (e i) \<or> is_continuation (e i)"
  shows "mark_free_loop e b t = (\<lambda>i. if b \<le> i \<and> i < b + n then 0 else e i)"
  using assms
proof (induction "nat n" arbitrary: n b e)
  case 0
  then show ?case by simp
next
  case (Suc k)
  note kind = no_next_bit_iff [OF Suc.prems(5) [of b]]
  show ?case
  proof (cases "n = 1")
    case True
    then have "e b AND HEAP_BLOCK_HAS_NEXT = 0" using Suc.prems kind by simp
    then show ?thesis
      using True Suc.prems by (subst mark_free_loop.simps) (auto simp: fun_eq_iff kernel_consts)
  next
    case False
    let ?e = "e(b := 0)"
    have "e b AND HEAP_BLOCK_HAS_NEXT \<noteq> 0" using False Suc.prems kind by simp
    moreover have "mark_free_loop ?e (b + 1) t =
        (\<lambda>i. if b + 1 \<le> i \<and> i < (b + 1) + (n - 1) then 0 else ?e i)"
      by (rule Suc.hyps(1)) (use False Suc.prems Suc.hyps(2) in auto)
    ultimately show ?thesis
      using Suc.prems False
      by (subst mark_free_loop.simps) (auto simp: fun_eq_iff HEAP_BLOCK_TABLE_ENTRY_FREE_def)
  qed
qed

subsection \<open>The first-fit search\<close>

definition search_state :: "heap \<Rightarrow> int \<Rightarrow> int \<Rightarrow> int \<Rightarrow> int \<Rightarrow> bool" where
  "search_state h n i f s \<longleftrightarrow>
     0 \<le> i \<and> i \<le> total_blocks h \<and> 0 \<le> f \<and> f < n \<and>
     (if f = 0 then s = -1 else s = i - f) \<and> f \<le> i \<and>
     (\<forall>j \<in> {i - f ..< i}. entry h j = 0) \<and> (i - f > 0 \<longrightarrow> entry h (i - f - 1) \<noteq> 0) \<and>
     (\<forall>b. 0 \<le> b \<and> b + n \<le> i \<longrightarrow> \<not> free_run h b n)"

lemma search_state_init: "0 < n \<Longrightarrow> search_state h n 0 0 (-1)"
  by (auto simp: search_state_def)

lemma search_state_taken:
  assumes "search_state h n i f s" "i < total_blocks h" "entry h i \<noteq> 0"
  shows "search_state h n (i + 1) 0 (-1)"
proof -
  have "\<not> free_run h b n" if "0 \<le> b" "b + n \<le> i + 1" for b
  proof (cases "b + n \<le> i")
    case False
    then have "i \<in> {b ..< b + n}" using that assms(1) by (auto simp: search_state_def)
    then show ?thesis using assms(3) by (auto simp: free_run_def)
  qed (use that assms(1) in \<open>auto simp: search_state_def\<close>)
  then show ?thesis using assms by (auto simp: search_state_def)
qed

lemma search_state_free:
  assumes "search_state h n i f s" "i < total_blocks h" "entry h i = 0" "f + 1 \<noteq> n"
  shows "search_state h n (i + 1) (f + 1) (if s = -1 then i else s)"
proof -
  have "\<not> free_run h b n" if "0 \<le> b" "b + n \<le> i + 1" for b
  proof (cases "b + n \<le> i")
    case False
    then have "i - f - 1 \<in> {b ..< b + n}" "0 < i - f"
      using that assms by (auto simp: search_state_def)
    then show ?thesis using assms(1) by (auto simp: search_state_def free_run_def)
  qed (use that assms(1) in \<open>auto simp: search_state_def\<close>)
  moreover have "\<forall>j \<in> {i - f ..< i + 1}. entry h j = 0"
  proof
    fix j assume "j \<in> {i - f ..< i + 1}"
    then show "entry h j = 0" using assms(1,3) by (cases "j = i") (auto simp: search_state_def)
  qed
  ultimately show ?thesis using assms by (auto simp: search_state_def split: if_splits)
qed

lemma search_state_hit:
  assumes "search_state h n i f s" "i < total_blocks h" "entry h i = 0" "f + 1 = n"
  shows "(if s = -1 then i else s) = i + 1 - n" "free_run h (i + 1 - n) n"
    "\<forall>b. 0 \<le> b \<and> b < i + 1 - n \<longrightarrow> \<not> free_run h b n"
proof -
  have "\<forall>j \<in> {i - f ..< i + 1}. entry h j = 0"
  proof
    fix j assume "j \<in> {i - f ..< i + 1}"
    then show "entry h j = 0" using assms(1,3) by (cases "j = i") (auto simp: search_state_def)
  qed
  then show "free_run h (i + 1 - n) n"
    using assms by (auto simp: search_state_def free_run_def)
qed (use assms in \<open>auto simp: search_state_def split: if_splits\<close>)

lemma get_start_loop_spec:
  assumes "heap_ok h" "n = uint blocks" "n < 2 ^ 20" "search_state h n i f s"
    and "get_start_loop h blocks i f s = (f', s')"
  shows "(f' = n \<and> free_run h s' n \<and> (\<forall>b. 0 \<le> b \<and> b < s' \<longrightarrow> \<not> free_run h b n)) \<or>
         (0 \<le> f' \<and> f' < n \<and> (\<forall>b. \<not> free_run h b n))"
  using assms(4,5)
proof (induction "nat (total_blocks h - i)" arbitrary: i f s)
  case 0
  then have i: "total_blocks h = i" by (auto simp: search_state_def)
  then have "f' = f" using 0 by (subst (asm) get_start_loop.simps) simp
  then show ?case using 0 i by (auto simp: search_state_def free_run_def)
next
  case (Suc k)
  have st: "search_state h n i f s" and i: "0 \<le> i" "i < total_blocks h"
    using Suc by (auto simp: search_state_def)
  have range: "i < 2 ^ 19" "0 \<le> f" "f < n" using heap_okD(1) [OF assms(1)] i st by (auto simp: search_state_def)
  have ti: "to_int i = i" using range i by (simp add: to_int_id)
  have free: "heap_get_entry_type (entry h i) = HEAP_BLOCK_TABLE_ENTRY_FREE \<longleftrightarrow> entry h i = 0"
    by (rule heap_get_entry_type_free_iff, rule entry_kindD) (use assms i in auto)
  have w: "word_of_int (f + 1) = blocks \<longleftrightarrow> f + 1 = n"
    using word_of_int_eq_iff_u32 [of "f + 1" blocks] range assms(2,3) by simp
  show ?case
  proof (cases "entry h i = 0")
    case True
    show ?thesis
    proof (cases "f + 1 = n")
      case True
      then show ?thesis
        using Suc.prems(2) i \<open>entry h i = 0\<close> free w ti search_state_hit [OF st i(2)]
        by (auto simp: get_start_loop.simps [of h blocks i] Let_def split: if_splits)
    next
      case False
      have "get_start_loop h blocks (i + 1) (f + 1) (if s = -1 then i else s) = (f', s')"
        using Suc.prems(2) i True False free w ti
        by (auto simp: get_start_loop.simps [of h blocks i] Let_def)
      with search_state_free [OF st i(2) True False] show ?thesis
        by (intro Suc.hyps(1)) (use Suc.hyps(2) in auto)
    qed
  next
    case False
    then have "get_start_loop h blocks (i + 1) 0 (-1) = (f', s')"
      using Suc.prems(2) i free by (simp add: get_start_loop.simps [of h blocks i])
    with search_state_taken [OF st i(2) False] show ?thesis
      by (intro Suc.hyps(1)) (use Suc.hyps(2) in auto)
  qed
qed

lemma heap_get_start_block_spec:
  assumes "heap_ok h" "n = uint blocks" "0 < n" "n < 2 ^ 20"
  shows "(\<exists>b. heap_get_start_block h blocks = b \<and> 0 \<le> b \<and> free_run h b n \<and>
              (\<forall>c. 0 \<le> c \<and> c < b \<longrightarrow> \<not> free_run h c n)) \<or>
         (heap_get_start_block h blocks = - ENOMEM \<and> (\<forall>b. \<not> free_run h b n))"
proof -
  obtain f s where fs: "get_start_loop h blocks 0 0 (-1) = (f, s)" by force
  from get_start_loop_spec [OF assms(1,2,4) search_state_init [OF assms(3)] fs]
  consider "f = n" "free_run h s n" "\<forall>b. 0 \<le> b \<and> b < s \<longrightarrow> \<not> free_run h b n"
    | "0 \<le> f" "f < n" "\<forall>b. \<not> free_run h b n" by blast
  then show ?thesis
  proof cases
    case 1
    then have "0 \<le> s" by (simp add: free_run_def)
    then show ?thesis using 1 fs assms(2) by (simp add: heap_get_start_block_def)
  next
    case 2
    then have "(word_of_int f :: u32) < blocks"
      using assms(2,4) by (simp add: word_less_def uint_word_of_int)
    then show ?thesis using 2 fs by (simp add: heap_get_start_block_def)
  qed
qed

subsection \<open>Marking blocks keeps the table consistent\<close>

lemma heap_mark_blocks_taken_entry:
  "0 < n \<Longrightarrow> entry (heap_mark_blocks_taken h b n) i =
     (if b \<le> i \<and> i < b + n
      then (if i = b then (if n > 1 then 0xC1 else 0x41) else if i = b + n - 1 then 0x01 else 0x81)
      else entry h i)"
  by (auto simp: heap_mark_blocks_taken_def Let_def mark_taken_loop_eq kernel_consts)

lemma heap_mark_blocks_taken_frame [simp]:
  "h_saddr (heap_mark_blocks_taken h b n) = h_saddr h"
  "ht_total (h_table (heap_mark_blocks_taken h b n)) = ht_total (h_table h)"
  by (simp_all add: heap_mark_blocks_taken_def Let_def)

lemma heap_mark_blocks_free_frame [simp]:
  "h_saddr (heap_mark_blocks_free h b) = h_saddr h"
  "ht_total (h_table (heap_mark_blocks_free h b)) = ht_total (h_table h)"
  by (simp_all add: heap_mark_blocks_free_def)

lemma taken_kinds:
  assumes "0 < n"
  shows "has_next (entry (heap_mark_blocks_taken h b n) i) \<longleftrightarrow>
           (if b \<le> i \<and> i < b + n then i < b + n - 1 else has_next (entry h i))"
    and "is_continuation (entry (heap_mark_blocks_taken h b n) i) \<longleftrightarrow>
           (if b \<le> i \<and> i < b + n then b < i else is_continuation (entry h i))"
    and "is_head (entry (heap_mark_blocks_taken h b n) i) \<longleftrightarrow>
           (if b \<le> i \<and> i < b + n then b = i else is_head (entry h i))"
  using assms by (auto simp: heap_mark_blocks_taken_entry entry_defs)

lemma not_next_of_free:
  "heap_ok h \<Longrightarrow> 0 \<le> i \<Longrightarrow> i < total_blocks h \<Longrightarrow> entry h (i + 1) = 0 \<Longrightarrow> \<not> has_next (entry h i)"
  using heap_okD(5) [of h i] by (auto simp: entry_ok_def entry_defs)

lemma not_continuation_of_free:
  "heap_ok h \<Longrightarrow> 0 \<le> i \<Longrightarrow> i < total_blocks h \<Longrightarrow> entry h (i - 1) = 0 \<Longrightarrow>
   \<not> is_continuation (entry h i)"
  using heap_okD(5) [of h i] by (auto simp: entry_ok_def entry_defs)

lemma heap_ok_set_entries:
  "heap_ok h \<Longrightarrow> h_saddr h' = h_saddr h \<Longrightarrow> ht_total (h_table h') = ht_total (h_table h) \<Longrightarrow>
   (\<And>i. 0 \<le> i \<Longrightarrow> i < total_blocks h \<Longrightarrow> entry_ok (entry h') (total_blocks h) i) \<Longrightarrow> heap_ok h'"
  by (auto simp: heap_ok_def)

lemma heap_ok_taken:
  assumes "heap_ok h" "free_run h b n" "0 < n"
  shows "heap_ok (heap_mark_blocks_taken h b n)"
proof (rule heap_ok_set_entries [OF assms(1)])
  fix i assume i: "0 \<le> i" "i < total_blocks h"
  let ?e = "entry (heap_mark_blocks_taken h b n)"
  have ok: "entry_ok (entry h) (total_blocks h) i" using heap_okD(5) assms(1) i by blast
  have free: "entry h b = 0" "entry h (b + n - 1) = 0" "0 \<le> b" "b + n \<le> total_blocks h"
    using assms(2,3) by (auto simp: free_run_def)
  have left: "\<not> has_next (entry h i)" if "i = b - 1"
    using not_next_of_free [OF assms(1) i] free that by simp
  have right: "\<not> is_continuation (entry h i)" if "i = b + n"
    using not_continuation_of_free [OF assms(1) i] free that by simp
  have "?e i = 0 \<or> is_head (?e i) \<or> is_continuation (?e i)"
    using ok assms(3) by (auto simp: taken_kinds heap_mark_blocks_taken_entry entry_ok_def entry_defs)
  moreover have "i + 1 < total_blocks h \<and> is_continuation (?e (i + 1))" if "has_next (?e i)"
    using that ok assms(3) free left unfolding taken_kinds [OF assms(3)] entry_ok_def
    by (cases "i = b - 1") (auto split: if_splits)
  moreover have "0 < i \<and> has_next (?e (i - 1))" if "is_continuation (?e i)"
    using that ok assms(3) free right unfolding taken_kinds [OF assms(3)] entry_ok_def
    by (cases "i = b + n") (auto split: if_splits)
  ultimately show "entry_ok ?e (total_blocks h) i" by (simp add: entry_ok_def)
qed simp_all

lemma heap_mark_blocks_free_entry:
  assumes "heap_ok h" "allocated h b n"
  shows "entry (heap_mark_blocks_free h b) = (\<lambda>i. if b \<le> i \<and> i < b + n then 0 else entry h i)"
proof -
  have "sint (ht_total (h_table h)) = total_blocks h"
    using heap_okD(1) [OF assms(1)] by (simp add: sint_eq_uint_u32)
  moreover have "mark_free_loop (entry h) b (total_blocks h) =
      (\<lambda>i. if b \<le> i \<and> i < b + n then 0 else entry h i)"
    by (rule mark_free_loop_eq) (use assms entry_kindD in \<open>auto simp: allocated_def\<close>)
  ultimately show ?thesis by (simp add: heap_mark_blocks_free_def)
qed

lemma allocated_inner_continuation:
  assumes "heap_ok h" "allocated h b n" "b < i" "i < b + n"
  shows "is_continuation (entry h i)"
proof -
  have "has_next (entry h (i - 1))" "0 \<le> i - 1" "i - 1 < total_blocks h"
    using assms by (auto simp: allocated_def)
  then show ?thesis using heap_okD(5) [OF assms(1), of "i - 1"] by (simp add: entry_ok_def)
qed

lemma heap_ok_free:
  assumes "heap_ok h" "allocated h b n"
  shows "heap_ok (heap_mark_blocks_free h b)"
proof (rule heap_ok_set_entries [OF assms(1)])
  fix i assume i: "0 \<le> i" "i < total_blocks h"
  have ok: "entry_ok (entry h) (total_blocks h) i" using heap_okD(5) assms(1) i by blast
  have al: "\<not> has_next (entry h (b + n - 1))" "is_head (entry h b)" "0 < n"
    using assms(2) by (auto simp: allocated_def)
  have "\<not> is_continuation (entry h b)" using al(2) by (auto simp: entry_defs)
  then show "entry_ok (entry (heap_mark_blocks_free h b)) (total_blocks h) i"
    unfolding heap_mark_blocks_free_entry [OF assms]
    using ok al by (cases "i = b - 1"; cases "i = b + n") (auto simp: entry_ok_def entry_defs)
qed simp_all

lemma allocated_taken:
  assumes "heap_ok h" "free_run h b n" "0 < n"
  shows "allocated (heap_mark_blocks_taken h b n) c m \<longleftrightarrow> (c = b \<and> m = n) \<or> allocated h c m"
proof -
  let ?h = "heap_mark_blocks_taken h b n"
  have ok: "heap_ok ?h" by (rule heap_ok_taken [OF assms])
  have new: "allocated ?h b n"
    using assms(2,3) by (auto simp: allocated_def taken_kinds free_run_def)
  have old: "allocated h c m" if "allocated ?h c m" "c \<noteq> b"
  proof -
    have "c \<notin> {b ..< b + n}" using that assms(3) by (auto simp: allocated_def taken_kinds)
    moreover have "b \<notin> {c ..< c + m}"
      using allocated_inner_continuation [OF ok that(1), of b] that(2) assms(3)
      by (auto simp: taken_kinds)
    ultimately have "{c ..< c + m} \<inter> {b ..< b + n} = {}" by auto
    then show ?thesis using that(1) assms(3) by (auto simp: allocated_def taken_kinds disjoint_iff)
  qed
  have keep: "allocated ?h c m" if "allocated h c m"
  proof -
    have "i \<notin> {b ..< b + n}" if "i \<in> {c ..< c + m}" for i
    proof -
      have "is_head (entry h i) \<or> is_continuation (entry h i)"
        using allocated_inner_continuation [OF assms(1) \<open>allocated h c m\<close>, of i] that
          \<open>allocated h c m\<close> by (cases "i = c") (auto simp: allocated_def)
      then show ?thesis using assms(2) by (auto simp: free_run_def entry_defs)
    qed
    then have "{c ..< c + m} \<inter> {b ..< b + n} = {}" by blast
    then show ?thesis using that assms(3) by (auto simp: allocated_def taken_kinds disjoint_iff)
  qed
  have "m = n" if "allocated ?h b m"
  proof (rule ccontr)
    assume "m \<noteq> n"
    then consider "m < n" | "n < m" by linarith
    then show False using that new by cases (auto simp: allocated_def)
  qed
  then show ?thesis using new old keep by blast
qed

lemma allocated_disjoint:
  assumes "heap_ok h" "allocated h b n" "allocated h c m"
  shows "(b = c \<and> n = m) \<or> b + n \<le> c \<or> c + m \<le> b"
proof -
  have "n = m" if "b = c"
  proof (rule ccontr)
    assume "n \<noteq> m"
    then consider "m < n" | "n < m" by linarith
    then show False using that assms by cases (auto simp: allocated_def)
  qed
  moreover have "\<not> (b < c \<and> c < b + n)" "\<not> (c < b \<and> b < c + m)"
    using allocated_inner_continuation [OF assms(1,2), of c]
      allocated_inner_continuation [OF assms(1,3), of b] assms(2,3)
    by (auto simp: allocated_def entry_defs)
  ultimately show ?thesis using assms(2,3) by (force simp: allocated_def)
qed

lemma allocated_free:
  assumes "heap_ok h" "allocated h b n"
  shows "allocated (heap_mark_blocks_free h b) c m \<longleftrightarrow> allocated h c m \<and> c \<noteq> b"
proof
  assume a: "allocated (heap_mark_blocks_free h b) c m"
  have z: "\<not> is_head 0" "\<not> has_next 0" "\<not> is_continuation 0" by (auto simp: entry_defs)
  have e: "\<not> (b \<le> i \<and> i < b + n)" if "c \<le> i" "i < c + m" for i
    using a that allocated_inner_continuation [OF heap_ok_free [OF assms] a, of i] z
    by (cases "i = c") (auto simp: allocated_def heap_mark_blocks_free_entry [OF assms])
  have same: "entry (heap_mark_blocks_free h b) i = entry h i" if "c \<le> i" "i < c + m" for i
    using e [OF that] by (auto simp: heap_mark_blocks_free_entry [OF assms])
  have "c \<noteq> b" using e [of b] a assms(2) by (auto simp: allocated_def)
  then show "allocated h c m \<and> c \<noteq> b" using a same by (auto simp: allocated_def)
next
  assume a: "allocated h c m \<and> c \<noteq> b"
  then have "b + n \<le> c \<or> c + m \<le> b" using allocated_disjoint [OF assms] by blast
  then have "entry (heap_mark_blocks_free h b) i = entry h i" if "c \<le> i" "i < c + m" for i
    using that by (auto simp: heap_mark_blocks_free_entry [OF assms])
  then show "allocated (heap_mark_blocks_free h b) c m" using a by (auto simp: allocated_def)
qed

subsection \<open>Addresses and sizes\<close>

lemma heap_block_to_address_uint:
  assumes "heap_ok h" "0 \<le> b" "b < total_blocks h"
  shows "uint (heap_block_to_address h b) = uint (h_saddr h) + b * 4096"
proof -
  have le: "uint (h_saddr h) + b * 4096 < 2 ^ 32" "b * 4096 < 2 ^ 32"
    using heap_okD(1,2) [OF assms(1)] assms(2,3) by auto
  have "uint (word_of_int b * TOYOS_HEAP_BLOCK_SIZE :: u32) = b * 4096"
    using le(2) assms(2) by (simp add: kernel_consts uint_word_ariths uint_word_of_int take_bit_eq_mod)
  then show ?thesis using le(1) assms(2) by (simp add: heap_block_to_address_def uint_word_ariths)
qed

lemma heap_block_to_address_nonzero:
  "heap_ok h \<Longrightarrow> 0 \<le> b \<Longrightarrow> b < total_blocks h \<Longrightarrow> heap_block_to_address h b \<noteq> 0"
  using heap_block_to_address_uint [of h b] heap_okD(3) [of h]
  by (auto simp: word_uint_eq_iff add_nonneg_eq_0_iff)

lemma heap_address_to_block_inverse:
  assumes "heap_ok h" "0 \<le> b" "b < total_blocks h"
  shows "heap_address_to_block h (heap_block_to_address h b) = b"
proof -
  have le: "b * 4096 < 2 ^ 31" using heap_okD(1) [OF assms(1)] assms(2,3) by auto
  have "uint (word_of_int b * TOYOS_HEAP_BLOCK_SIZE :: u32) = b * 4096"
    using le assms(2) by (simp add: kernel_consts uint_word_ariths uint_word_of_int take_bit_eq_mod)
  then have "sint (word_of_int b * TOYOS_HEAP_BLOCK_SIZE :: u32) = b * 4096"
    using le by (simp add: sint_eq_uint_u32)
  then show ?thesis
    using assms(2) by (cases "b = 0") (simp_all add: heap_address_to_block_def
        heap_block_to_address_def kernel_consts signed_divide_int_def sgn_mult)
qed

lemma heap_block_to_address_inj:
  "heap_ok h \<Longrightarrow> 0 \<le> b \<Longrightarrow> b < total_blocks h \<Longrightarrow> 0 \<le> c \<Longrightarrow> c < total_blocks h \<Longrightarrow>
   heap_block_to_address h b = heap_block_to_address h c \<longleftrightarrow> b = c"
  using heap_address_to_block_inverse by metis

lemma uint_div_block: "uint (v div TOYOS_HEAP_BLOCK_SIZE) = uint v div 4096"
  by (simp add: kernel_consts uint_div)

lemma uint_mod_block: "uint (v mod TOYOS_HEAP_BLOCK_SIZE) = uint v mod 4096"
  by (simp add: kernel_consts uint_mod)

lemma mod_block_eq_0_iff: "v mod TOYOS_HEAP_BLOCK_SIZE = 0 \<longleftrightarrow> uint v mod 4096 = 0"
  unfolding word_uint_eq_iff uint_mod_block by simp

lemma ceil_div_4096:
  "(x + 4095) div 4096 = (if x mod 4096 = 0 then x div 4096 else x div 4096 + 1)" for x :: int
proof (cases "x mod 4096 = 0")
  case True
  then have "x + 4095 = 4096 * (x div 4096) + 4095" by (metis add_0_right mult_div_mod_eq)
  then show ?thesis using True by (simp add: int_div_pos_eq)
next
  case False
  then have "0 < x mod 4096" using pos_mod_sign [of 4096 x] by linarith
  moreover have "x + 4095 = 4096 * (x div 4096 + 1) + (x mod 4096 - 1)"
    using mult_div_mod_eq [of 4096 x] by (simp add: algebra_simps)
  ultimately show ?thesis
    using False pos_mod_bound [of 4096 x] int_div_pos_eq [of "x + 4095" 4096 _ "x mod 4096 - 1"]
    by simp
qed

lemma uint_align_upper:
  assumes "uint sz \<le> 2 ^ 32 - 4096"
  shows "uint (heap_align_value_to_upper sz) = (uint sz + 4095) div 4096 * 4096"
proof (cases "uint sz mod 4096 = 0")
  case True
  then show ?thesis
    using mult_div_mod_eq [of 4096 "uint sz"]
    by (simp add: heap_align_value_to_upper_def mod_block_eq_0_iff ceil_div_4096)
next
  case False
  have down: "uint (sz - sz mod TOYOS_HEAP_BLOCK_SIZE) = uint sz div 4096 * 4096"
    using uint_sub_lem [of "sz mod TOYOS_HEAP_BLOCK_SIZE" sz]
      zmod_le_nonneg_dividend [OF uint_ge_0, of sz 4096]
    by (simp add: uint_mod_block minus_mod_eq_div_mult)
  have "uint sz div 4096 * 4096 \<le> 2 ^ 32 - 4096"
    using assms mult_div_mod_eq [of 4096 "uint sz"] pos_mod_sign [of 4096 "uint sz"] by linarith
  moreover have "uint sz div 4096 * 4096 \<noteq> 2 ^ 32 - 4096"
    using assms False mult_div_mod_eq [of 4096 "uint sz"] pos_mod_sign [of 4096 "uint sz"] by linarith
  ultimately have "uint sz div 4096 * 4096 + 4096 < 2 ^ 32" by linarith
  then have "uint ((sz - sz mod TOYOS_HEAP_BLOCK_SIZE) + TOYOS_HEAP_BLOCK_SIZE) =
      uint sz div 4096 * 4096 + 4096"
    using uint_add_lem [of "sz - sz mod TOYOS_HEAP_BLOCK_SIZE" TOYOS_HEAP_BLOCK_SIZE] down
    by (simp add: TOYOS_HEAP_BLOCK_SIZE_def)
  then show ?thesis
    using False by (simp add: heap_align_value_to_upper_def mod_block_eq_0_iff ceil_div_4096)
qed

lemma blocks_of_size:
  "uint sz \<le> 2 ^ 32 - 4096 \<Longrightarrow>
   uint (heap_align_value_to_upper sz div TOYOS_HEAP_BLOCK_SIZE) = blocks_for sz"
  by (simp add: uint_div_block uint_align_upper blocks_for_def)

subsection \<open>Behaviour of the interface\<close>

definition size_ok :: "u32 \<Rightarrow> bool" where
  "size_ok sz \<longleftrightarrow> 0 < uint sz \<and> uint sz \<le> 2 ^ 32 - 4096"

lemma blocks_for_bounds:
  assumes "size_ok sz"
  shows "0 < blocks_for sz" "blocks_for sz < 2 ^ 20" "uint sz \<le> blocks_for sz * 4096"
    "blocks_for sz * 4096 < uint sz + 4096"
proof -
  define r where "r = (uint sz + 4095) mod 4096"
  have "0 \<le> r" "r < 4096" "4096 * blocks_for sz + r = uint sz + 4095"
    by (simp_all add: r_def blocks_for_def)
  then show "0 < blocks_for sz" "blocks_for sz < 2 ^ 20" "uint sz \<le> blocks_for sz * 4096"
    "blocks_for sz * 4096 < uint sz + 4096"
    using assms unfolding size_ok_def by simp_all
qed

lemma malloc_cases:
  assumes "heap_ok h" "size_ok sz"
  obtains (found) b where "free_run h b (blocks_for sz)"
      "\<forall>c. 0 \<le> c \<and> c < b \<longrightarrow> \<not> free_run h c (blocks_for sz)"
      "heap_block_to_address h b \<noteq> 0"
      "malloc h sz = (heap_block_to_address h b, heap_mark_blocks_taken h b (blocks_for sz))"
  | (full) "\<forall>b. \<not> free_run h b (blocks_for sz)" "malloc h sz = (0, h)"
proof -
  let ?w = "heap_align_value_to_upper sz div TOYOS_HEAP_BLOCK_SIZE"
  have w: "uint ?w = blocks_for sz" using assms(2) by (simp add: blocks_of_size size_ok_def)
  note n = blocks_for_bounds(1,2) [OF assms(2)]
  then have s: "sint ?w = blocks_for sz" using w by (simp add: sint_eq_uint_u32)
  from heap_get_start_block_spec [OF assms(1) w [symmetric] n]
  consider b where "heap_get_start_block h ?w = b" "0 \<le> b" "free_run h b (blocks_for sz)"
      "\<forall>c. 0 \<le> c \<and> c < b \<longrightarrow> \<not> free_run h c (blocks_for sz)"
    | "heap_get_start_block h ?w = - ENOMEM" "\<forall>b. \<not> free_run h b (blocks_for sz)" by blast
  then show thesis
  proof cases
    case (1 b)
    then have "heap_block_to_address h b \<noteq> 0"
      using heap_block_to_address_nonzero [OF assms(1)] n(1) by (simp add: free_run_def)
    then show thesis
      using 1 s by (intro found [of b]) (simp_all add: malloc_def heap_malloc_blocks_def Let_def)
  next
    case 2
    then show thesis
      by (intro full) (simp_all add: malloc_def heap_malloc_blocks_def Let_def kernel_consts)
  qed
qed

lemma malloc_lowest_run:
  assumes "heap_ok h" "size_ok sz" "free_run h b (blocks_for sz)"
  obtains c where "c \<le> b" "malloc h sz = (heap_block_to_address h c, heap_mark_blocks_taken h c (blocks_for sz))"
    "heap_block_to_address h c \<noteq> 0" "0 \<le> c" "free_run h c (blocks_for sz)"
  using assms(1,2)
proof (cases rule: malloc_cases)
  case (found c)
  moreover have "c \<le> b" using found(2) assms(3) by (meson free_run_def not_le)
  ultimately show ?thesis using that by (auto simp: free_run_def)
qed (use assms in auto)

lemma free_allocated:
  assumes "heap_ok h" "allocated h b n"
  shows "free h (heap_block_to_address h b) = heap_mark_blocks_free h b"
  using assms by (simp add: free_def heap_address_to_block_inverse allocated_def)

subsection \<open>Live allocations\<close>

definition heap_live :: "heap \<Rightarrow> (u32 \<times> nat) set" where
  "heap_live h = {(heap_block_to_address h b, nat (n * 4096)) | b n. allocated h b n}"

lemma heap_liveE:
  assumes "(p, m) \<in> heap_live h"
  obtains b n where "p = heap_block_to_address h b" "m = nat (n * 4096)" "allocated h b n"
  using assms by (auto simp: heap_live_def)

lemma unat_block_address:
  "heap_ok h \<Longrightarrow> allocated h b n \<Longrightarrow>
   unat (heap_block_to_address h b) = nat (uint (h_saddr h) + b * 4096)"
  by (subst heap_block_to_address_uint [symmetric]) (auto simp: allocated_def)

lemma saddr_aligned: "heap_ok h \<Longrightarrow> uint (h_saddr h) mod 4096 = 0"
  using heap_okD(4) [of h] by (simp add: heap_validate_alignment_def mod_block_eq_0_iff)

lemma heap_live_shape:
  assumes "heap_ok h" "(p, m) \<in> heap_live h"
  shows "p \<noteq> 0 \<and> 0 < m \<and> unat p + m \<le> 2 ^ 32 \<and> 4096 dvd unat p \<and> 4096 dvd m"
proof -
  obtain b n where bn: "p = heap_block_to_address h b" "m = nat (n * 4096)" "allocated h b n"
    using assms(2) by (rule heap_liveE)
  have al: "0 \<le> b" "0 < n" "b + n \<le> total_blocks h" using bn(3) by (auto simp: allocated_def)
  have "uint (h_saddr h) + b * 4096 + n * 4096 \<le> 2 ^ 32"
    using al heap_okD(2) [OF assms(1)] by linarith
  moreover have up: "unat p = nat (uint (h_saddr h) + b * 4096)"
    using unat_block_address [OF assms(1) bn(3)] bn(1) by simp
  ultimately have "unat p + m \<le> 2 ^ 32"
    using al bn(2) by (simp add: nat_add_distrib [symmetric])
  moreover have "4096 dvd unat p"
  proof -
    have "4096 dvd uint (h_saddr h) + b * 4096"
      using saddr_aligned [OF assms(1)] by (simp add: mod_eq_0_iff_dvd)
    then show ?thesis using up al(1)
      by (simp add: nat_dvd_iff int_dvd_int_iff [symmetric])
  qed
  moreover have "4096 dvd m" using bn(2) by (simp add: nat_dvd_iff int_dvd_int_iff [symmetric] nat_mult_distrib)
  ultimately show ?thesis
    using al bn heap_block_to_address_nonzero [OF assms(1), of b] by auto
qed

lemma heap_live_disjoint:
  assumes "heap_ok h" "(p, m) \<in> heap_live h" "(q, k) \<in> heap_live h" "(p, m) \<noteq> (q, k)"
  shows "region p m \<inter> region q k = {}"
proof -
  obtain b n where bn: "p = heap_block_to_address h b" "m = nat (n * 4096)" "allocated h b n"
    using assms(2) by (rule heap_liveE)
  obtain c l where cl: "q = heap_block_to_address h c" "k = nat (l * 4096)" "allocated h c l"
    using assms(3) by (rule heap_liveE)
  have "b + n \<le> c \<or> c + l \<le> b"
    using allocated_disjoint [OF assms(1) bn(3) cl(3)] assms(4) bn cl by auto
  moreover have "0 \<le> b" "0 \<le> c" "0 < n" "0 < l" using bn(3) cl(3) by (auto simp: allocated_def)
  moreover have "unat p = nat (uint (h_saddr h) + b * 4096)" "unat q = nat (uint (h_saddr h) + c * 4096)"
    using unat_block_address [OF assms(1)] bn cl by simp_all
  ultimately have "unat p + m \<le> unat q \<or> unat q + k \<le> unat p"
    using bn(2) cl(2) uint_ge_0 [of "h_saddr h"] by linarith
  then show ?thesis by (auto simp: region_def)
qed

lemma heap_block_to_address_cong:
  "h_saddr h' = h_saddr h \<Longrightarrow> heap_block_to_address h' = heap_block_to_address h"
  by (simp add: heap_block_to_address_def fun_eq_iff)

lemma heap_live_taken:
  assumes "heap_ok h" "free_run h b n" "0 < n"
  shows "heap_live (heap_mark_blocks_taken h b n) =
           insert (heap_block_to_address h b, nat (n * 4096)) (heap_live h)"
  using allocated_taken [OF assms]
    heap_block_to_address_cong [of "heap_mark_blocks_taken h b n" h]
  by (auto simp: heap_live_def)

lemma heap_live_free:
  assumes "heap_ok h" "allocated h b n"
  shows "heap_live (heap_mark_blocks_free h b) =
           heap_live h - {(heap_block_to_address h b, nat (n * 4096))}"
proof -
  have range: "0 \<le> c \<and> c < total_blocks h" if "allocated h c m" for c m
    using that by (auto simp: allocated_def)
  have "heap_block_to_address h c = heap_block_to_address h b \<longleftrightarrow> c = b" if "allocated h c m" for c m
    using heap_block_to_address_inj [OF assms(1)] range [OF that] range [OF assms(2)] by blast
  moreover have "m = n" if "allocated h b m" for m
    using allocated_disjoint [OF assms that] assms(2) that by (auto simp: allocated_def)
  ultimately show ?thesis
    using allocated_free [OF assms] heap_block_to_address_cong [of "heap_mark_blocks_free h b" h]
    unfolding heap_live_def by auto
qed

lemma allocated_not_free_run:
  "heap_ok h \<Longrightarrow> allocated h b n \<Longrightarrow> free_run h b m \<Longrightarrow> 0 < m \<Longrightarrow> False"
  by (auto simp: allocated_def free_run_def entry_defs)

interpretation kernel_allocator: block_allocator kmalloc kfree heap_ok heap_live size_ok
proof
  fix h sz p h'
  assume ok: "heap_ok h" "size_ok sz" and run: "kmalloc sz h = (p, h')" and p: "p \<noteq> 0"
  note n = blocks_for_bounds [OF ok(2)]
  show "\<exists>m. unat sz \<le> m \<and> m < unat sz + 4096 \<and> (p, m) \<notin> heap_live h \<and>
            heap_live h' = insert (p, m) (heap_live h) \<and> heap_ok h'"
    using ok
  proof (cases rule: malloc_cases)
    case (found b)
    let ?m = "nat (blocks_for sz * 4096)"
    have "(p, ?m) \<notin> heap_live h"
    proof
      assume "(p, ?m) \<in> heap_live h"
      then obtain c k where c: "p = heap_block_to_address h c" "allocated h c k" by (rule heap_liveE)
      then have "c = b"
        using found run n(1) heap_block_to_address_inj [OF ok(1), of b c]
        by (auto simp: kmalloc_def allocated_def free_run_def)
      then show False using allocated_not_free_run [OF ok(1) c(2)] found(1) n(1) by blast
    qed
    moreover have "heap_live h' = insert (p, ?m) (heap_live h)" "heap_ok h'"
      using found run heap_live_taken [OF ok(1) found(1) n(1)] heap_ok_taken [OF ok(1) found(1) n(1)]
      by (auto simp: kmalloc_def)
    moreover have "unat sz \<le> ?m" "?m < unat sz + 4096"
      using n(1,3,4) unfolding unat_eq_nat_uint by linarith+
    ultimately show ?thesis by blast
  qed (use run p in \<open>simp add: kmalloc_def\<close>)
next
  fix h sz h'
  assume "heap_ok h" "size_ok sz" "kmalloc sz h = (0, h')"
  then show "h' = h" by (cases rule: malloc_cases) (auto simp: kmalloc_def)
next
  fix h p m
  assume ok: "heap_ok h" and "(p, m) \<in> heap_live h"
  then obtain b n where "p = heap_block_to_address h b" "m = nat (n * 4096)" "allocated h b n"
    by (metis heap_liveE)
  then show "heap_ok (kfree p h) \<and> heap_live (kfree p h) = heap_live h - {(p, m)}"
    using ok by (simp add: kfree_def free_allocated heap_ok_free heap_live_free)
qed (use heap_live_shape heap_live_disjoint in blast)+

definition free_blocks :: "heap \<Rightarrow> nat" where
  "free_blocks h = card {b \<in> {0 ..< total_blocks h}. entry h b = 0}"

lemma uint_page: "0 < unat sz \<Longrightarrow> unat sz \<le> 4096 \<Longrightarrow> 0 < uint sz \<and> uint sz \<le> 4096" for sz :: u32
  using uint_nat [of sz] by linarith

lemma blocks_for_page: "0 < unat sz \<Longrightarrow> unat sz \<le> 4096 \<Longrightarrow> blocks_for sz = 1"
  unfolding blocks_for_def
  by (intro int_div_pos_eq [of _ _ _ "uint sz - 1"]) (use uint_page [of sz] in auto)

lemma free_blocks_taken:
  assumes "free_run h b 1"
  shows "Suc (free_blocks (heap_mark_blocks_taken h b 1)) = free_blocks h"
proof -
  let ?F = "{b \<in> {0 ..< total_blocks h}. entry h b = 0}"
  have "b \<in> ?F" using assms by (auto simp: free_run_def)
  moreover have "{c \<in> {0 ..< total_blocks h}. entry (heap_mark_blocks_taken h b 1) c = 0} = ?F - {b}"
    by (auto simp: heap_mark_blocks_taken_entry split: if_splits)
  moreover have "finite ?F" by (rule finite_subset [of _ "{0 ..< total_blocks h}"]) auto
  ultimately show ?thesis using card_Suc_Diff1 [of ?F b] by (simp add: free_blocks_def)
qed

interpretation kernel_pages: page_allocator kmalloc kfree heap_ok heap_live size_ok free_blocks
proof
  fix sz :: u32 assume sz: "0 < unat sz" "unat sz \<le> 4096"
  then show wanted: "size_ok sz" using uint_page [of sz] by (simp add: size_ok_def)
  fix h assume h: "heap_ok h" "0 < free_blocks h"
  then obtain b where "b \<in> {0 ..< total_blocks h}" "entry h b = 0"
    unfolding free_blocks_def by (auto simp: card_gt_0_iff)
  then have "free_run h b (blocks_for sz)"
    using sz by (auto simp: free_run_def blocks_for_page)
  with h(1) wanted obtain c where
    "malloc h sz = (heap_block_to_address h c, heap_mark_blocks_taken h c (blocks_for sz))"
    "heap_block_to_address h c \<noteq> 0" "free_run h c (blocks_for sz)"
    by (rule malloc_lowest_run)
  then show "fst (kmalloc sz h) \<noteq> 0 \<and> Suc (free_blocks (snd (kmalloc sz h))) = free_blocks h"
    using free_blocks_taken [of h c] sz by (simp add: kmalloc_def blocks_for_page)
qed

lemma kzalloc_page:
  assumes "heap_ok h" "0 < unat sz" "unat sz \<le> 4096" "0 < free_blocks h"
  obtains p h' where "kzalloc sz h = (Some (p, replicate (unat sz) 0), h')" "p \<noteq> 0" "(p, 4096) \<notin> heap_live h"
    "heap_live h' = insert (p, 4096) (heap_live h)" "heap_ok h'" "free_blocks h = Suc (free_blocks h')"
    "\<And>q k. (q, k) \<in> heap_live h \<Longrightarrow> p \<noteq> q"
proof -
  obtain p h' where p: "kmalloc sz h = (p, h')" "p \<noteq> 0" "(p, 4096) \<notin> heap_live h"
    "heap_live h' = insert (p, 4096) (heap_live h)" "heap_ok h'" "free_blocks h = Suc (free_blocks h')"
    "\<And>q k. (q, k) \<in> heap_live h \<Longrightarrow> p \<noteq> q"
    using kernel_pages.page_alloc_ok [OF assms] by metis
  then show thesis using that [of p h'] by (simp add: kzalloc_def)
qed

subsection \<open>Runs of the allocator\<close>

text \<open>What the kernel does to its heap: requests of any covered size, and releases of live addresses.\<close>

inductive heap_step :: "heap \<Rightarrow> heap \<Rightarrow> bool" where
  kmalloc_step: "size_ok sz \<Longrightarrow> heap_step h (snd (kmalloc sz h))"
| kfree_step: "(p, m) \<in> heap_live h \<Longrightarrow> heap_step h (kfree p h)"

inductive_cases heap_stepE: "heap_step h h'"

lemma kheap_init_eq:
  "kheap_init e k = Some \<lparr>h_table = \<lparr>ht_entries = (\<lambda>i. if 0 \<le> i \<and> i < 25600 then 0 else e i),
     ht_total = 25600\<rparr>, h_saddr = 0x01000000\<rparr>"
  by (simp add: kheap_init_def heap_create_def heap_validate_alignment_def heap_validate_table_def
      kernel_consts set_entries_def clear_entries_eq Let_def)

lemma kheap_init_ok: "kheap_init e k = Some h \<Longrightarrow> heap_ok h"
  by (auto simp: kheap_init_eq heap_ok_def heap_validate_alignment_def kernel_consts entry_ok_def
      entry_defs)

lemma heap_reach_ok: "heap_step\<^sup>*\<^sup>* h0 h \<Longrightarrow> heap_ok h0 \<Longrightarrow> heap_ok h"
  by (rule kernel_allocator.reach_invar [of heap_step]) (auto elim!: heap_stepE)

lemma malloc_frame:
  "h_saddr (snd (malloc h sz)) = h_saddr h"
  "ht_total (h_table (snd (malloc h sz))) = ht_total (h_table h)"
  by (simp_all add: malloc_def heap_malloc_blocks_def Let_def)

lemma free_frame:
  "h_saddr (free h p) = h_saddr h" "ht_total (h_table (free h p)) = ht_total (h_table h)"
  by (simp_all add: free_def)

lemma heap_reach_frame:
  "heap_step\<^sup>*\<^sup>* h0 h \<Longrightarrow> h_saddr h = h_saddr h0 \<and> ht_total (h_table h) = ht_total (h_table h0)"
  by (induction rule: rtranclp_induct)
    (auto elim!: heap_stepE simp: kmalloc_def kfree_def malloc_frame free_frame)

lemma heap_live_within:
  assumes "heap_ok h" "(p, m) \<in> heap_live h"
  shows "unat (h_saddr h) \<le> unat p \<and> unat p + m \<le> unat (h_saddr h) + nat (total_blocks h) * 4096"
proof -
  obtain b n where bn: "p = heap_block_to_address h b" "m = nat (n * 4096)" "allocated h b n"
    using assms(2) by (rule heap_liveE)
  have "0 \<le> b" "0 < n" "b + n \<le> total_blocks h" using bn(3) by (auto simp: allocated_def)
  moreover have "int (unat p) = uint (h_saddr h) + b * 4096"
    using heap_block_to_address_uint [OF assms(1), of b] bn(1) calculation by simp
  moreover have "int (unat (h_saddr h)) = uint (h_saddr h)" "int m = n * 4096"
      "int (nat (total_blocks h)) = total_blocks h"
    using bn(2) calculation(2) by simp_all
  ultimately have "int (unat (h_saddr h)) \<le> int (unat p)"
      "int (unat p + m) \<le> int (unat (h_saddr h) + nat (total_blocks h) * 4096)"
    by simp_all
  then show ?thesis unfolding zle_int by blast
qed

subsection \<open>Requests whose size rounds to zero\<close>

lemma zero_blocks:
  assumes "uint sz = 0 \<or> 2 ^ 32 - 4096 < uint sz"
  shows "heap_align_value_to_upper sz div TOYOS_HEAP_BLOCK_SIZE = 0"
proof (cases "uint sz = 0")
  case True
  then have "sz = 0" by (simp add: word_uint_eq_iff)
  then show ?thesis by (simp add: heap_align_value_to_upper_def)
next
  case False
  define r where "r = uint sz mod 4096"
  have q: "uint sz = 4096 * (uint sz div 4096) + r" "0 \<le> r" "r < 4096" by (simp_all add: r_def)
  have "uint sz div 4096 = 2 ^ 20 - 1"
    using q assms False uint_lt2p [of sz] by (intro int_div_pos_eq [of _ _ _ "uint sz - (2 ^ 32 - 4096)"]) auto
  then have down: "uint (sz - sz mod TOYOS_HEAP_BLOCK_SIZE) = 2 ^ 32 - 4096" and r: "0 < r"
    using uint_sub_lem [of "sz mod TOYOS_HEAP_BLOCK_SIZE" sz] q assms False
      zmod_le_nonneg_dividend [OF uint_ge_0, of sz 4096]
    by (auto simp: uint_mod_block r_def minus_mod_eq_div_mult)
  have "(sz - sz mod TOYOS_HEAP_BLOCK_SIZE) + TOYOS_HEAP_BLOCK_SIZE = 0"
    using down by (simp add: word_uint_eq_iff uint_word_ariths kernel_consts)
  then show ?thesis
    using r by (simp add: heap_align_value_to_upper_def mod_block_eq_0_iff r_def)
qed

lemma get_start_loop_zero:
  assumes "heap_ok h" "0 \<le> f" "f \<le> i" "i \<le> total_blocks h"
    and "if f = 0 then s = -1 else s = i - f" "\<forall>j \<in> {i - f ..< i}. entry h j = 0"
    and "get_start_loop h 0 i f s = (f', s')"
    and "i = total_blocks h \<longrightarrow> f \<noteq> 0" "entry h (total_blocks h - 1) = 0"
  shows "0 \<le> s' \<and> s' < total_blocks h \<and> entry h s' = 0"
  using assms
proof (induction "nat (total_blocks h - i)" arbitrary: i f s)
  case 0
  then have "i = total_blocks h" by simp
  then have "s' = s" using 0 by (subst (asm) get_start_loop.simps) simp
  then show ?case using 0 \<open>i = total_blocks h\<close> by (auto split: if_splits)
next
  case (Suc k)
  have i: "0 \<le> i" "i < total_blocks h" "i < 2 ^ 19" "f < 2 ^ 19"
    using Suc heap_okD(1) [OF assms(1)] by auto
  then have ti: "to_int i = i" by (simp add: to_int_id)
  have w: "word_of_int (f + 1) \<noteq> (0 :: u32)"
    using word_of_int_eq_iff_u32 [of "f + 1" 0] Suc.prems(2) i by simp
  have free: "heap_get_entry_type (entry h i) = HEAP_BLOCK_TABLE_ENTRY_FREE \<longleftrightarrow> entry h i = 0"
    by (rule heap_get_entry_type_free_iff, rule entry_kindD) (use Suc.prems(1) i in auto)
  show ?case
  proof (cases "entry h i = 0")
    case True
    have "\<forall>j \<in> {i - f ..< i + 1}. entry h j = 0"
    proof
      fix j assume "j \<in> {i - f ..< i + 1}"
      then show "entry h j = 0" using Suc.prems(6) True by (cases "j = i") auto
    qed
    moreover have "get_start_loop h 0 (i + 1) (f + 1) (if s = -1 then i else s) = (f', s')"
      using Suc.prems(7) i True free w ti
      by (auto simp: get_start_loop.simps [of h 0 i] Let_def split: if_splits)
    moreover have "(if s = -1 then i else s) = i - f" using Suc.prems(2,3,5) i by (auto split: if_splits)
    ultimately show ?thesis
      using Suc.prems i by (intro Suc.hyps(1)) (use Suc.hyps(2) in auto)
  next
    case False
    then have "get_start_loop h 0 (i + 1) 0 (-1) = (f', s')"
      using Suc.prems(7) i free by (simp add: get_start_loop.simps [of h 0 i])
    moreover have "i + 1 \<noteq> total_blocks h" using False Suc.prems(9) by (metis add_diff_cancel_right')
    ultimately show ?thesis using Suc.prems i by (intro Suc.hyps(1)) (use Suc.hyps(2) in auto)
  qed
qed

lemma malloc_zero_blocks:
  assumes "heap_ok h" "uint sz = 0 \<or> 2 ^ 32 - 4096 < uint sz" "0 < total_blocks h"
    "entry h (total_blocks h - 1) = 0"
  shows "\<exists>b. malloc h sz = (heap_block_to_address h b, h) \<and>
             0 \<le> b \<and> b < total_blocks h \<and> entry h b = 0"
proof -
  obtain f s where fs: "get_start_loop h 0 0 0 (-1) = (f, s)" by force
  have s: "0 \<le> s" "s < total_blocks h" "entry h s = 0"
    using get_start_loop_zero [OF assms(1) _ _ _ _ _ fs] assms(3,4) by auto
  have "mark_taken_loop (entry h) e s (s - 1) = entry h" for e
    by (auto simp: mark_taken_loop_eq fun_eq_iff)
  then have "heap_mark_blocks_taken h s 0 = h"
    by (simp add: heap_mark_blocks_taken_def Let_def set_entries_def)
  then show ?thesis
    using fs s zero_blocks [OF assms(2)] heap_block_to_address_nonzero [OF assms(1), of s]
    by (auto simp: malloc_def heap_malloc_blocks_def heap_get_start_block_def)
qed

subsection \<open>Properties of the heap\<close>

text \<open>A heap of four free blocks at address 0x1000, for the concrete instances below.\<close>

definition four_blocks :: heap where
  "four_blocks = \<lparr>h_table = \<lparr>ht_entries = (\<lambda>_. 0), ht_total = 4\<rparr>, h_saddr = 0x1000\<rparr>"

lemma four_blocks_ok: "heap_ok four_blocks"
  by (simp add: four_blocks_def heap_ok_def heap_validate_alignment_def kernel_consts entry_ok_def
      entry_defs)

lemmas malloc_eval = malloc_def heap_align_value_to_upper_def heap_malloc_blocks_def
  heap_get_start_block_def get_start_loop.simps heap_get_entry_type_def heap_block_to_address_def
  to_int_def

lemma four_blocks_malloc:
  "malloc four_blocks 5000 = (0x1000, heap_mark_blocks_taken four_blocks 0 2)"
  by (simp add: malloc_eval four_blocks_def kernel_consts)

lemma size_ok_5000: "size_ok 5000" "blocks_for 5000 = 2"
  by (simp_all add: size_ok_def blocks_for_def)

text \<open>
  (C10) A successful \<open>malloc\<close> of 1 to 2^32 - 4096 bytes on a consistent heap is first fit: it returns the
  address of the lowest run of free blocks long enough for the request, marks exactly those blocks as one allocation,
  leaves every other byte of the table alone, and keeps the table consistent.
\<close>

theorem malloc_first_fit:
  assumes "heap_ok h" "size_ok sz" "malloc h sz = (p, h')" "p \<noteq> 0"
  shows "\<exists>b. free_run h b (blocks_for sz) \<and>
             (\<forall>c. 0 \<le> c \<and> c < b \<longrightarrow> \<not> free_run h c (blocks_for sz)) \<and>
             p = heap_block_to_address h b \<and> allocated h' b (blocks_for sz) \<and>
             (\<forall>i. i \<notin> {b ..< b + blocks_for sz} \<longrightarrow> entry h' i = entry h i) \<and> heap_ok h'"
  using assms(1,2)
proof (cases rule: malloc_cases)
  case (found b)
  note n = blocks_for_bounds(1) [OF assms(2)]
  have h': "h' = heap_mark_blocks_taken h b (blocks_for sz)" "p = heap_block_to_address h b"
    using found assms(3) by auto
  then show ?thesis
    using found(1,2) n heap_ok_taken [OF assms(1) found(1) n] allocated_taken [OF assms(1) found(1) n]
    by (intro exI [of _ b]) (auto simp: heap_mark_blocks_taken_entry [OF n])
qed (use assms in auto)

theorem malloc_first_fit_witness:
  "\<exists>h'. malloc four_blocks 5000 = (0x1000, h') \<and>
     (\<exists>b. free_run four_blocks b 2 \<and> (0x1000 :: u32) = heap_block_to_address four_blocks b \<and>
          allocated h' b 2 \<and> heap_ok h')"
  using malloc_first_fit [OF four_blocks_ok size_ok_5000(1) four_blocks_malloc] four_blocks_malloc
  by (auto simp: size_ok_5000)

text \<open>
  (C11) Asked for 1 to 2^32 - 4096 bytes on a consistent heap, \<open>malloc\<close> returns a null pointer exactly when
  no run of free blocks is long enough, and then leaves the heap as it was. (A request outside these sizes
  rounds to no blocks at all.)
\<close>

theorem malloc_null_iff_full:
  assumes "heap_ok h" "size_ok sz"
  shows "(fst (malloc h sz) = 0 \<longleftrightarrow> (\<forall>b. \<not> free_run h b (blocks_for sz))) \<and>
         (fst (malloc h sz) = 0 \<longrightarrow> snd (malloc h sz) = h)"
  using assms by (cases rule: malloc_cases) auto

theorem malloc_null_iff_full_witness:
  "fst (malloc four_blocks 20000) = 0 \<and> (\<forall>b. \<not> free_run four_blocks b (blocks_for 20000)) \<and>
   snd (malloc four_blocks 20000) = four_blocks"
proof -
  have "fst (malloc four_blocks 20000) = 0"
    by (simp add: malloc_eval four_blocks_def kernel_consts)
  moreover have "size_ok 20000" by (simp add: size_ok_def)
  ultimately show ?thesis using malloc_null_iff_full [OF four_blocks_ok, of 20000] by blast
qed

text \<open>
  (C12) Releasing what \<open>malloc\<close> returned restores the heap exactly: every table entry is again what it
  was before the request.
\<close>

theorem malloc_free_roundtrip:
  assumes "heap_ok h" "size_ok sz" "malloc h sz = (p, h')" "p \<noteq> 0"
  shows "free h' p = h"
  using assms(1,2)
proof (cases rule: malloc_cases)
  case (found b)
  note n = blocks_for_bounds(1) [OF assms(2)]
  let ?h = "heap_mark_blocks_taken h b (blocks_for sz)"
  have h': "h' = ?h" "p = heap_block_to_address ?h b"
    using found assms(3) heap_block_to_address_cong [of ?h h] by auto
  have al: "heap_ok ?h" "allocated ?h b (blocks_for sz)"
    using heap_ok_taken [OF assms(1) found(1) n] allocated_taken [OF assms(1) found(1) n] by auto
  have "entry (heap_mark_blocks_free ?h b) = entry h"
    using found(1) n by (auto simp: heap_mark_blocks_free_entry [OF al] fun_eq_iff
        heap_mark_blocks_taken_entry [OF n] free_run_def)
  then have "heap_mark_blocks_free ?h b = h"
    by (cases h) (auto simp: heap_mark_blocks_free_def set_entries_def heap_mark_blocks_taken_def Let_def)
  then show ?thesis using free_allocated [OF al] h' by simp
qed (use assms in auto)

theorem malloc_free_roundtrip_witness:
  "free (heap_mark_blocks_taken four_blocks 0 2) 0x1000 = four_blocks"
  using malloc_free_roundtrip [OF four_blocks_ok size_ok_5000(1) four_blocks_malloc] by simp

text \<open>
  (C1) Whatever sequence of requests and releases the kernel makes after \<open>kheap_init\<close>, the table
  stays consistent, every live allocation lies inside the kernel heap on a page boundary, and two
  different live allocations never overlap.
\<close>

theorem kernel_heap_live_disjoint:
  assumes "kheap_init e k = Some h0" "heap_step\<^sup>*\<^sup>* h0 h"
    and "(p, m) \<in> heap_live h" "(q, l) \<in> heap_live h" "(p, m) \<noteq> (q, l)"
  shows "heap_ok h \<and> region p m \<inter> region q l = {} \<and> 4096 dvd unat p \<and>
         region p m \<subseteq> {0x01000000 ..< 0x01000000 + 104857600}"
proof -
  have ok: "heap_ok h" using assms(1,2) kheap_init_ok heap_reach_ok by blast
  have "h_saddr h = 0x01000000" "ht_total (h_table h) = 25600"
    using heap_reach_frame [OF assms(2)] assms(1) by (auto simp: kheap_init_eq)
  then show ?thesis
    using ok kernel_allocator.live_disjoint [OF ok assms(3-5)] heap_live_within [OF ok assms(3)]
      kernel_allocator.live_shape [OF ok assms(3)]
    by (auto simp: region_def)
qed

theorem kernel_heap_live_disjoint_witness:
  "\<exists>h0 h. kheap_init (\<lambda>_. 0) four_blocks = Some h0 \<and> heap_step\<^sup>*\<^sup>* h0 h \<and> heap_ok h \<and>
     (\<exists>p m q l. (p, m) \<in> heap_live h \<and> (q, l) \<in> heap_live h \<and> (p, m) \<noteq> (q, l) \<and>
        region p m \<inter> region q l = {})"
proof -
  obtain h0 where h0: "kheap_init (\<lambda>_. 0) four_blocks = Some h0" using kheap_init_eq by blast
  then have z: "entry h0 i = 0" "ht_total (h_table h0) = 25600" for i
    by (auto simp: kheap_init_eq)
  have "free_run h0 0 (blocks_for 5000)" by (simp add: free_run_def z size_ok_5000)
  then obtain b where "b \<le> 0" "0 \<le> b" and a1: "heap_block_to_address h0 b \<noteq> 0"
    and "kmalloc 5000 h0 = (heap_block_to_address h0 b, heap_mark_blocks_taken h0 b 2)"
    using malloc_lowest_run [OF kheap_init_ok [OF h0] size_ok_5000(1)]
    unfolding kmalloc_def size_ok_5000(2) by blast
  then have m1: "kmalloc 5000 h0 = (heap_block_to_address h0 0, heap_mark_blocks_taken h0 0 2)"
    and a1: "heap_block_to_address h0 0 \<noteq> 0" by auto
  define h1 where "h1 = heap_mark_blocks_taken h0 0 2"
  have ok1: "heap_ok h1"
    using kernel_allocator.alloc_invar [OF kheap_init_ok [OF h0] size_ok_5000(1)] m1 h1_def by simp
  have "free_run h1 2 (blocks_for 5000)"
    by (simp add: free_run_def z size_ok_5000 h1_def heap_mark_blocks_taken_entry)
  then obtain c where c: "kmalloc 5000 h1 = (heap_block_to_address h1 c, heap_mark_blocks_taken h1 c 2)"
    and a2: "heap_block_to_address h1 c \<noteq> 0"
    using malloc_lowest_run [OF ok1 size_ok_5000(1)] unfolding kmalloc_def size_ok_5000(2) by blast
  define h2 where "h2 = heap_mark_blocks_taken h1 c 2"
  have "heap_step h0 h1"
    using heap_step.kmalloc_step [OF size_ok_5000(1), of h0] unfolding m1 h1_def by simp
  moreover have "heap_step h1 h2"
    using heap_step.kmalloc_step [OF size_ok_5000(1), of h1] unfolding c h2_def by simp
  ultimately have step: "heap_step\<^sup>*\<^sup>* h0 h2"
    by (rule converse_rtranclp_into_rtranclp [OF _ r_into_rtranclp])
  obtain m where m: "heap_live h1 = insert (heap_block_to_address h0 0, m) (heap_live h0)"
    using kernel_allocator.alloc_ok [OF kheap_init_ok [OF h0] size_ok_5000(1)] m1 a1 h1_def by blast
  obtain l where l: "heap_live h2 = insert (heap_block_to_address h1 c, l) (heap_live h1)"
    using kernel_allocator.alloc_ok [OF ok1 size_ok_5000(1)] c a2 h2_def by blast
  let ?p = "(heap_block_to_address h0 0, m)" and ?q = "(heap_block_to_address h1 c, l)"
  have in1: "?p \<in> heap_live h1" unfolding m by simp
  then have in2: "?p \<in> heap_live h2" "?q \<in> heap_live h2" unfolding l by simp_all
  have ne: "?p \<noteq> ?q"
    using kernel_allocator.alloc_address_fresh [OF ok1 size_ok_5000(1) c a2 in1] by simp
  show ?thesis using kernel_heap_live_disjoint [OF h0 step in2 ne] h0 step in2 ne by blast
qed

text \<open>
  (C36) A request of 0 bytes, or of more than 2 to the 32 minus 4096 bytes (which wraps to 0 when rounded up), is
  answered with the address of a free block whenever the last block of the heap is free: the
  caller gets a non-null pointer, but nothing is reserved and the heap is unchanged.
\<close>

theorem malloc_wrapped_size_reserves_nothing:
  assumes "heap_ok h" "uint sz = 0 \<or> 2 ^ 32 - 4096 < uint sz" "0 < total_blocks h"
    "entry h (total_blocks h - 1) = 0"
  shows "\<exists>b. 0 \<le> b \<and> b < total_blocks h \<and> entry h b = 0 \<and>
             malloc h sz = (heap_block_to_address h b, h) \<and> heap_block_to_address h b \<noteq> 0"
  using malloc_zero_blocks [OF assms] heap_block_to_address_nonzero [OF assms(1)] by blast

theorem malloc_wrapped_size_reserves_nothing_witness:
  "\<exists>b. malloc four_blocks 0xFFFFFFFF = (heap_block_to_address four_blocks b, four_blocks) \<and>
       heap_block_to_address four_blocks b \<noteq> 0"
  using malloc_wrapped_size_reserves_nothing [OF four_blocks_ok, of "0xFFFFFFFF"]
  by (auto simp: four_blocks_def)

lemma kfree_null_block:
  "h_saddr h = TOYOS_HEAP_ADDRESS \<Longrightarrow> heap_address_to_block h 0 = - 4096"
  by (simp add: heap_address_to_block_def kernel_consts signed_divide_int_def)

text \<open>
  (C38) \<open>kfree\<close> of a null pointer is not ignored: on the kernel heap it computes block -4096 and clears
  the byte 4096 positions before the table; when that byte happens not to have the next-bit, it
  changes nothing else.
\<close>

theorem kfree_null_stray_write:
  assumes "heap_ok h" "h_saddr h = TOYOS_HEAP_ADDRESS" "entry h (- 4096) AND HEAP_BLOCK_HAS_NEXT = 0"
  shows "kfree 0 h = set_entries h ((entry h)(- 4096 := HEAP_BLOCK_TABLE_ENTRY_FREE))"
proof -
  have "sint (ht_total (h_table h)) = total_blocks h"
    using heap_okD(1) [OF assms(1)] by (simp add: sint_eq_uint_u32)
  moreover have "- 4096 < total_blocks h" using uint_ge_0 [of "ht_total (h_table h)"] by linarith
  ultimately show ?thesis
    using assms(3) by (simp add: kfree_def free_def heap_mark_blocks_free_def
        kfree_null_block [OF assms(2)] mark_free_loop.simps [of "entry h"])
qed

theorem kfree_null_stray_write_witness:
  "\<exists>h. kheap_init (\<lambda>_. 1) four_blocks = Some h \<and> entry h (- 4096) = 1 \<and> entry (kfree 0 h) (- 4096) = 0"
proof -
  obtain h where h: "kheap_init (\<lambda>_. 1) four_blocks = Some h" using kheap_init_eq by blast
  then have "h_saddr h = TOYOS_HEAP_ADDRESS" "entry h (- 4096) = 1"
    by (auto simp: kheap_init_eq kernel_consts)
  moreover from this have "kfree 0 h = set_entries h ((entry h)(- 4096 := HEAP_BLOCK_TABLE_ENTRY_FREE))"
    by (intro kfree_null_stray_write kheap_init_ok [OF h]) (simp_all add: kernel_consts)
  ultimately show ?thesis using h by (auto simp: HEAP_BLOCK_TABLE_ENTRY_FREE_def)
qed

end
