(* ===== verification/Disk_Stream.thy ===== *)
theory Disk_Stream
  imports Port_Bus Kernel_Heap C_String
begin

section \<open>The disk driver and the disk streamer\<close>

text \<open>
  \<^verbatim>\<open>src/src/disk/disk.c\<close> drives an ATA disk in programmed I/O mode through the ports 0x1f0 to
  0x1f7; \<^verbatim>\<open>src/src/disk/streamer.c\<close> gives byte streams on top of it. The hardware is the bus
  parameter; \<open>ata_device\<close> below states the part of the ATA PIO protocol the driver relies on, as a
  hypothesis of the theorems. \<^const>\<open>None\<close> is an access outside a buffer, a read of an
  uninitialised variable, or a status poll that never ends.
\<close>

text \<open>A \<open>struct disk *\<close>: null, the address of the only disk object, or any other address.\<close>

datatype disk_ptr = Disk_NULL | The_Disk | Other_Disk

subsection \<open>Sectors\<close>

text \<open>The registers are loaded in the same way for both commands.\<close>

definition ata_command :: "'d bus \<Rightarrow> int \<Rightarrow> int \<Rightarrow> u8 \<Rightarrow> 'd \<Rightarrow> 'd" where
  "ata_command bus lba n cmd d =
     (let d = bus_outb bus 0x1f6 (word_of_int (drop_bit 24 lba OR 0xe0)) d;
          d = bus_outb bus 0x1f2 (word_of_int n) d;
          d = bus_outb bus 0x1f3 (word_of_int (lba AND 0xff)) d;
          d = bus_outb bus 0x1f4 (word_of_int (drop_bit 8 lba)) d;
          d = bus_outb bus 0x1f5 (word_of_int (drop_bit 16 lba)) d
      in bus_outb bus 0x1f7 cmd d)"

text \<open>The wait for the data-request bit of the status register.\<close>

partial_function (option) wait_drq :: "'d bus \<Rightarrow> 'd \<Rightarrow> 'd option" where
  "wait_drq bus d =
     (let (c, d') = bus_insb bus 0x1f7 d
      in if c AND 0x08 \<noteq> 0 then Some d' else wait_drq bus d')"

fun write_words :: "'d bus \<Rightarrow> nat \<Rightarrow> u8 list \<Rightarrow> nat \<Rightarrow> 'd \<Rightarrow> 'd option" where
  "write_words bus 0 buf i d = Some d"
| "write_words bus (Suc n) buf i d =
     do { lo \<leftarrow> rd buf i; hi \<leftarrow> rd buf (i + 1);
          write_words bus n buf (i + 2) (bus_outw bus 0x1f0 (bytes_word lo hi) d) }"

fun write_sectors :: "'d bus \<Rightarrow> nat \<Rightarrow> u8 list \<Rightarrow> nat \<Rightarrow> 'd \<Rightarrow> 'd option" where
  "write_sectors bus 0 buf i d = Some d"
| "write_sectors bus (Suc n) buf i d =
     do { d \<leftarrow> wait_drq bus d; d \<leftarrow> write_words bus 256 buf i d; write_sectors bus n buf (i + 512) d }"

definition disk_write_sector :: "'d bus \<Rightarrow> int \<Rightarrow> int \<Rightarrow> u8 list option \<Rightarrow> 'd \<Rightarrow> (int \<times> 'd) option" where
  "disk_write_sector bus lba n buf d =
     (case buf of None \<Rightarrow> Some (- EINVARG, d)
      | Some buf \<Rightarrow> do { d \<leftarrow> write_sectors bus (nat n) buf 0 (ata_command bus lba n 0x30 d); Some (OK, d) })"

fun read_words :: "'d bus \<Rightarrow> nat \<Rightarrow> u8 list \<Rightarrow> nat \<Rightarrow> 'd \<Rightarrow> (u8 list \<times> 'd) option" where
  "read_words bus 0 buf i d = Some (buf, d)"
| "read_words bus (Suc n) buf i d =
     (let (w, d) = bus_insw bus 0x1f0 d
      in do { buf \<leftarrow> wr_bytes buf i (word_bytes w); read_words bus n buf (i + 2) d })"

fun read_sectors :: "'d bus \<Rightarrow> nat \<Rightarrow> u8 list \<Rightarrow> nat \<Rightarrow> 'd \<Rightarrow> (u8 list \<times> 'd) option" where
  "read_sectors bus 0 buf i d = Some (buf, d)"
| "read_sectors bus (Suc n) buf i d =
     do { d \<leftarrow> wait_drq bus d; (buf, d) \<leftarrow> read_words bus 256 buf i d; read_sectors bus n buf (i + 512) d }"

definition disk_read_sector ::
    "'d bus \<Rightarrow> int \<Rightarrow> int \<Rightarrow> u8 list option \<Rightarrow> 'd \<Rightarrow> (int \<times> u8 list \<times> 'd) option" where
  "disk_read_sector bus lba n buf d =
     (case buf of None \<Rightarrow> Some (- EINVARG, [], d)
      | Some buf \<Rightarrow> do { (buf, d) \<leftarrow> read_sectors bus (nat n) buf 0 (ata_command bus lba n 0x20 d);
                        Some (OK, buf, d) })"

definition disk_get :: "int \<Rightarrow> disk_ptr" where
  "disk_get index = (if index \<noteq> 0 then Disk_NULL else The_Disk)"

definition disk_read_block ::
    "'d bus \<Rightarrow> disk_ptr \<Rightarrow> u32 \<Rightarrow> int \<Rightarrow> u8 list \<Rightarrow> 'd \<Rightarrow> (int \<times> u8 list \<times> 'd) option" where
  "disk_read_block bus idisk lba n buf d =
     (if idisk \<noteq> The_Disk then Some (- EIO, buf, d) else disk_read_sector bus (sint lba) n (Some buf) d)"

definition disk_write_block ::
    "'d bus \<Rightarrow> disk_ptr \<Rightarrow> u32 \<Rightarrow> int \<Rightarrow> u8 list \<Rightarrow> 'd \<Rightarrow> (int \<times> 'd) option" where
  "disk_write_block bus idisk lba n buf d =
     (if idisk \<noteq> The_Disk then Some (- EIO, d) else disk_write_sector bus (sint lba) n (Some buf) d)"

subsection \<open>Streams\<close>

text \<open>A stream object, with the address \<open>kzalloc\<close> gave it.\<close>

record disk_stream =
  ds_addr :: u32
  ds_pos :: int
  ds_disk :: disk_ptr

definition streamer_new :: "int \<Rightarrow> heap \<Rightarrow> disk_stream option \<times> heap" where
  "streamer_new disk_id h =
     (let disk = disk_get disk_id
      in if disk = Disk_NULL then (None, h)
         else case kzalloc 8 h of
                (None, h) \<Rightarrow> (None, h)
              | (Some (streamer, _), h) \<Rightarrow> (Some \<lparr>ds_addr = streamer, ds_pos = 0, ds_disk = disk\<rparr>, h))"

definition streamer_seek :: "disk_stream option \<Rightarrow> int \<Rightarrow> int \<times> disk_stream option" where
  "streamer_seek stream pos =
     (case stream of None \<Rightarrow> (- EINVARG, None)
      | Some s \<Rightarrow> if pos < 0 then (- EINVARG, stream) else (OK, Some (s\<lparr>ds_pos := pos\<rparr>)))"

lemma smod_sector_less: "x smod TOYOS_SECTOR_SIZE < TOYOS_SECTOR_SIZE"
  using smod_int_range [of TOYOS_SECTOR_SIZE x] by (simp add: TOYOS_SECTOR_SIZE_def)

text \<open>
  \<open>streamer_read\<close> on a non-null stream: \<open>out\<close> is the output object from the pointer on, \<open>stack\<close> the
  old contents of the 512-byte buffer on the stack. The buffer is filled by the disk; the loop
  copies \<open>buf[offset + i]\<close>; a negative offset would read before the buffer.
\<close>

function streamer_read ::
    "'d bus \<Rightarrow> disk_stream \<Rightarrow> u8 list \<Rightarrow> int \<Rightarrow> u8 list \<Rightarrow> 'd \<Rightarrow> (int \<times> u8 list \<times> disk_stream \<times> 'd) option" where
  "streamer_read bus s out n stack d =
     (if n < 0 then Some (- EINVARG, out, s, d)
      else let sector = ds_pos s sdiv TOYOS_SECTOR_SIZE;
               offset = ds_pos s smod TOYOS_SECTOR_SIZE;
               overflow = (offset + n \<ge> TOYOS_SECTOR_SIZE);
               total_to_read = (if overflow then n - ((offset + n) - TOYOS_SECTOR_SIZE) else n)
           in do { (res, buf, d) \<leftarrow> disk_read_block bus (ds_disk s) (word_of_int sector) 1 stack d;
                   if res < 0 then Some (res, out, s, d)
                   else if offset < 0 then None
                   else do {
                     out \<leftarrow> memcpy_loop out (drop (nat offset) buf) 0 (nat total_to_read);
                     let s = s\<lparr>ds_pos := to_int (ds_pos s + total_to_read)\<rparr>
                     in if overflow
                        then do { (res, rest, s, d) \<leftarrow>
                                    streamer_read bus s (drop (nat total_to_read) out) (n - total_to_read) stack d;
                                  Some (res, take (nat total_to_read) out @ rest, s, d) }
                        else Some (res, out, s, d) } })"
  by pat_completeness auto
termination
proof (relation "measure (\<lambda>(bus, s, out, n, stack, d). nat n)", goal_cases)
  case (2 bus s out n stack d)
  then show ?case using smod_sector_less [of "ds_pos s"] by auto
qed simp

text \<open>
  \<open>streamer_write\<close>: when the first \<open>disk_read_block\<close> fails, the code jumps to the end and returns
  a variable that was never assigned.
\<close>

function streamer_write ::
    "'d bus \<Rightarrow> disk_stream \<Rightarrow> u8 list \<Rightarrow> int \<Rightarrow> u8 list \<Rightarrow> 'd \<Rightarrow> (int \<times> disk_stream \<times> 'd) option" where
  "streamer_write bus s inp n stack d =
     (if n < 0 then Some (- EINVARG, s, d)
      else let sector = ds_pos s sdiv TOYOS_SECTOR_SIZE;
               offset = ds_pos s smod TOYOS_SECTOR_SIZE;
               overflow = (offset + n \<ge> TOYOS_SECTOR_SIZE);
               total_to_write = (if overflow then n - ((offset + n) - TOYOS_SECTOR_SIZE) else n)
           in do { (buf, d) \<leftarrow>
                     (if offset \<noteq> 0 \<or> total_to_write \<noteq> TOYOS_SECTOR_SIZE
                      then do { (res, buf, d) \<leftarrow> disk_read_block bus (ds_disk s) (word_of_int sector) 1 stack d;
                                if res < 0 then None else Some (buf, d) }
                      else Some (stack, d));
                   if offset < 0 then None
                   else do {
                     body \<leftarrow> memcpy_loop (drop (nat offset) buf) inp 0 (nat total_to_write);
                     (res, d) \<leftarrow> disk_write_block bus (ds_disk s) (word_of_int sector) 1
                                  (take (nat offset) buf @ body) d;
                     if res < 0 then Some (res, s, d)
                     else let s = s\<lparr>ds_pos := to_int (ds_pos s + total_to_write)\<rparr>
                          in if overflow
                             then streamer_write bus s (drop (nat total_to_write) inp) (n - total_to_write) stack d
                             else Some (res, s, d) } })"
  by pat_completeness auto
termination
proof (relation "measure (\<lambda>(bus, s, inp, n, stack, d). nat n)", goal_cases)
  case (2 bus s inp n stack d)
  then show ?case using smod_sector_less [of "ds_pos s"] by auto
qed simp

definition streamer_close :: "disk_stream \<Rightarrow> heap \<Rightarrow> heap" where
  "streamer_close stream h = kfree (ds_addr stream) h"

declare streamer_read.simps [simp del] streamer_write.simps [simp del]

subsection \<open>The ATA protocol\<close>

text \<open>
  What the documentation of ATA disks says about the ports the driver uses, for 28-bit addressing
  and sector counts 1 to 255. The drive has a capacity, its sectors, the task-file registers, a
  phase, and the busy state that delays the phase. A drive that is ready accepts register writes and
  a command; the command makes it busy, and when it is no longer busy it is in the phase of the
  command. After a read command it hands out the words of the addressed sectors one by one, busy
  between two sectors and ready after the last word; after a write command it takes the words of a
  sector and stores the sector when it is complete, which makes it busy, also after the last sector.
  A command for a sector beyond the capacity is refused. Nothing is said about register writes to a
  drive that is busy or in the middle of a transfer, nor about data words outside their phase: the
  host must not do this.
\<close>

datatype ata_phase = Idle | Refused | Data_In nat nat nat | Data_Out nat nat "u8 list"

record ata =
  ata_capacity :: nat
  ata_sectors :: "nat \<Rightarrow> u8 list"
  ata_count :: u8
  ata_lba_low :: u8
  ata_lba_mid :: u8
  ata_lba_high :: u8
  ata_drive :: u8
  ata_phase :: ata_phase
  ata_busy :: bool

definition ata_lba :: "ata \<Rightarrow> nat" where
  "ata_lba a = unat (ata_lba_low a) + 256 * unat (ata_lba_mid a) + 65536 * unat (ata_lba_high a) +
     16777216 * (unat (ata_drive a) mod 16)"

definition ata_start :: "u8 \<Rightarrow> ata \<Rightarrow> ata_phase" where
  "ata_start cmd a =
     (if ata_capacity a < ata_lba a + unat (ata_count a) then Refused
      else if cmd = 0x20 then Data_In (ata_lba a) (unat (ata_count a)) 0
      else if cmd = 0x30 then Data_Out (ata_lba a) (unat (ata_count a)) []
      else Idle)"

definition ata_outb :: "u16 \<Rightarrow> u8 \<Rightarrow> ata \<Rightarrow> ata" where
  "ata_outb p v a =
     (if p = 0x1f2 then a\<lparr>ata_count := v\<rparr>
      else if p = 0x1f3 then a\<lparr>ata_lba_low := v\<rparr>
      else if p = 0x1f4 then a\<lparr>ata_lba_mid := v\<rparr>
      else if p = 0x1f5 then a\<lparr>ata_lba_high := v\<rparr>
      else if p = 0x1f6 then a\<lparr>ata_drive := v\<rparr>
      else if p = 0x1f7 then a\<lparr>ata_phase := ata_start v a, ata_busy := True\<rparr>
      else a)"

text \<open>The drive before the word number \<open>i\<close> of a sector it hands out, with \<open>n\<close> sectors to go.\<close>

definition ata_next :: "nat \<Rightarrow> nat \<Rightarrow> nat \<Rightarrow> ata \<Rightarrow> ata" where
  "ata_next lba n i a =
     (if i < 256 then a\<lparr>ata_phase := Data_In lba n i\<rparr>
      else if 1 < n then a\<lparr>ata_phase := Data_In (Suc lba) (n - 1) 0, ata_busy := True\<rparr>
      else a\<lparr>ata_phase := Idle\<rparr>)"

definition ata_insw :: "ata \<Rightarrow> u16 \<times> ata" where
  "ata_insw a =
     (case ata_phase a of
        Data_In lba n i \<Rightarrow>
          (bytes_word (ata_sectors a lba ! (2 * i)) (ata_sectors a lba ! (2 * i + 1)), ata_next lba n (Suc i) a)
      | _ \<Rightarrow> (0, a))"

definition ata_outw :: "u16 \<Rightarrow> ata \<Rightarrow> ata" where
  "ata_outw w a =
     (case ata_phase a of
        Data_Out lba n bs \<Rightarrow>
          (let bs = bs @ word_bytes w
           in if length bs < 512 then a\<lparr>ata_phase := Data_Out lba n bs\<rparr>
              else a\<lparr>ata_sectors := (ata_sectors a)(lba := bs),
                     ata_phase := (if 1 < n then Data_Out (Suc lba) (n - 1) [] else Idle), ata_busy := True\<rparr>)
      | _ \<Rightarrow> a)"

definition in_transfer :: "ata \<Rightarrow> bool" where
  "in_transfer a \<longleftrightarrow> (case ata_phase a of Data_In _ _ _ \<Rightarrow> True | Data_Out _ _ _ \<Rightarrow> True | _ \<Rightarrow> False)"

definition ata_ready :: "ata \<Rightarrow> bool" where
  "ata_ready a \<longleftrightarrow> \<not> ata_busy a \<and> \<not> in_transfer a"

definition ata_drq :: "ata \<Rightarrow> bool" where
  "ata_drq a \<longleftrightarrow> \<not> ata_busy a \<and> in_transfer a"

text \<open>\<open>n\<close> reads of the status register.\<close>

fun poll_status :: "'d bus \<Rightarrow> nat \<Rightarrow> 'd \<Rightarrow> 'd" where
  "poll_status bus 0 d = d"
| "poll_status bus (Suc n) d = poll_status bus n (snd (bus_insb bus 0x1f7 d))"

text \<open>
  The devices on the bus are, seen through \<open>\<alpha>\<close>, a drive that follows the protocol. Time passes for it
  between the reads of its status register: a busy drive may be found busy or no longer busy, and it is
  no longer busy after finitely many reads. The status shows the busy bit 0x80, and the data-request bit
  0x08 exactly while data can be transferred.
\<close>

definition ata_device :: "'d bus \<Rightarrow> ('d \<Rightarrow> ata) \<Rightarrow> bool" where
  "ata_device bus \<alpha> \<longleftrightarrow>
     (\<forall>d v. \<forall>p \<in> {0x1f2, 0x1f3, 0x1f4, 0x1f5, 0x1f6, 0x1f7}. ata_ready (\<alpha> d) \<longrightarrow>
        \<alpha> (bus_outb bus p v d) = ata_outb p v (\<alpha> d)) \<and>
     (\<forall>d w lba n bs. ata_drq (\<alpha> d) \<and> ata_phase (\<alpha> d) = Data_Out lba n bs \<longrightarrow>
        \<alpha> (bus_outw bus 0x1f0 w d) = ata_outw w (\<alpha> d)) \<and>
     (\<forall>d lba n i. ata_drq (\<alpha> d) \<and> ata_phase (\<alpha> d) = Data_In lba n i \<longrightarrow>
        fst (bus_insw bus 0x1f0 d) = fst (ata_insw (\<alpha> d)) \<and> \<alpha> (snd (bus_insw bus 0x1f0 d)) = snd (ata_insw (\<alpha> d))) \<and>
     (\<forall>d. \<alpha> (snd (bus_insb bus 0x1f7 d)) = \<alpha> d \<or>
        ata_busy (\<alpha> d) \<and> \<alpha> (snd (bus_insb bus 0x1f7 d)) = (\<alpha> d)\<lparr>ata_busy := False\<rparr>) \<and>
     (\<forall>d. (fst (bus_insb bus 0x1f7 d) AND 0x80 \<noteq> 0) = ata_busy (\<alpha> (snd (bus_insb bus 0x1f7 d))) \<and>
        (fst (bus_insb bus 0x1f7 d) AND 0x08 \<noteq> 0) = ata_drq (\<alpha> (snd (bus_insb bus 0x1f7 d)))) \<and>
     (\<forall>d. \<exists>n. \<not> ata_busy (\<alpha> (poll_status bus n d)))"

definition sectors_ok :: "ata \<Rightarrow> bool" where
  "sectors_ok a \<longleftrightarrow> (\<forall>lba. length (ata_sectors a lba) = 512)"

subsection \<open>Sector transfers\<close>

lemma ata_deviceD:
  assumes "ata_device bus \<alpha>"
  shows "ata_ready (\<alpha> d) \<Longrightarrow> p \<in> {0x1f2, 0x1f3, 0x1f4, 0x1f5, 0x1f6, 0x1f7} \<Longrightarrow> \<alpha> (bus_outb bus p v d) = ata_outb p v (\<alpha> d)"
    "\<not> ata_busy (\<alpha> d) \<Longrightarrow> ata_phase (\<alpha> d) = Data_Out lba n bs \<Longrightarrow> \<alpha> (bus_outw bus 0x1f0 w d) = ata_outw w (\<alpha> d)"
    "\<not> ata_busy (\<alpha> d) \<Longrightarrow> ata_phase (\<alpha> d) = Data_In lba n i \<Longrightarrow> fst (bus_insw bus 0x1f0 d) = fst (ata_insw (\<alpha> d))"
    "\<not> ata_busy (\<alpha> d) \<Longrightarrow> ata_phase (\<alpha> d) = Data_In lba n i \<Longrightarrow> \<alpha> (snd (bus_insw bus 0x1f0 d)) = snd (ata_insw (\<alpha> d))"
    "\<alpha> (snd (bus_insb bus 0x1f7 d)) = \<alpha> d \<or> ata_busy (\<alpha> d) \<and> \<alpha> (snd (bus_insb bus 0x1f7 d)) = (\<alpha> d)\<lparr>ata_busy := False\<rparr>"
    "(fst (bus_insb bus 0x1f7 d) AND 0x08 \<noteq> 0) = ata_drq (\<alpha> (snd (bus_insb bus 0x1f7 d)))"
    "\<exists>n. \<not> ata_busy (\<alpha> (poll_status bus n d))"
  using assms by (auto simp: ata_device_def ata_drq_def in_transfer_def)

lemma not_busy_update [simp]: "\<not> ata_busy a \<Longrightarrow> a\<lparr>ata_busy := False\<rparr> = a"
  by (cases a) simp

lemma in_transfer_busy [simp]: "in_transfer (a\<lparr>ata_busy := b\<rparr>) = in_transfer a"
  by (simp add: in_transfer_def)

text \<open>The wait ends in a phase with data, and the drive is then no longer busy.\<close>

lemma wait_drq_polls:
  assumes dev: "ata_device bus \<alpha>" and "\<not> ata_busy (\<alpha> (poll_status bus n d))" "in_transfer (\<alpha> d)"
  shows "\<exists>d'. wait_drq bus d = Some d' \<and> \<alpha> d' = (\<alpha> d)\<lparr>ata_busy := False\<rparr>"
  using assms(2-)
proof (induction n arbitrary: d)
  case 0
  obtain c e where ce: "bus_insb bus 0x1f7 d = (c, e)" by force
  have "\<alpha> e = \<alpha> d" "c AND 0x08 \<noteq> 0"
    using ata_deviceD(5,6) [OF dev, of d] 0 ce by (auto simp: ata_drq_def)
  then show ?case using ce 0 by (subst wait_drq.simps) simp
next
  case (Suc n)
  obtain c e where ce: "bus_insb bus 0x1f7 d = (c, e)" by force
  have e: "(\<alpha> e)\<lparr>ata_busy := False\<rparr> = (\<alpha> d)\<lparr>ata_busy := False\<rparr>" "in_transfer (\<alpha> e)"
    using ata_deviceD(5) [OF dev, of d] ce Suc.prems(2) by auto
  show ?case
  proof (cases "c AND 0x08 = 0")
    case True
    have "\<not> ata_busy (\<alpha> (poll_status bus n e))" using Suc.prems(1) ce by simp
    then show ?thesis using Suc.IH [of e] e True ce by (subst wait_drq.simps) simp
  next
    case False
    then have "\<not> ata_busy (\<alpha> e)" using ata_deviceD(6) [OF dev, of d] ce by (simp add: ata_drq_def)
    then have "\<alpha> e = (\<alpha> d)\<lparr>ata_busy := False\<rparr>" using e(1) by simp
    then show ?thesis using False ce by (subst wait_drq.simps) simp
  qed
qed

lemma wait_drq_ready:
  assumes "ata_device bus \<alpha>" "in_transfer (\<alpha> d)"
  obtains d' where "wait_drq bus d = Some d'" "\<alpha> d' = (\<alpha> d)\<lparr>ata_busy := False\<rparr>"
  using wait_drq_polls [OF assms(1) _ assms(2)] ata_deviceD(7) [OF assms(1), of d] by blast

lemma status_no_data:
  assumes "ata_device bus \<alpha>" "\<not> in_transfer (\<alpha> d)" "bus_insb bus 0x1f7 d = (c, e)"
  shows "c AND 0x08 = 0" "\<not> in_transfer (\<alpha> e)"
  using ata_deviceD(5,6) [OF assms(1), of d] assms(2,3) by (auto simp: ata_drq_def)

lemma wait_drq_never:
  assumes dev: "ata_device bus \<alpha>" and "\<not> in_transfer (\<alpha> d)"
  shows "wait_drq bus d = None"
proof -
  have "b = bus \<longrightarrow> in_transfer (\<alpha> d)" if "wait_drq b d = Some d'" for b d d'
  proof (rule wait_drq.raw_induct [where P = "\<lambda>b d _. b = bus \<longrightarrow> in_transfer (\<alpha> d)", OF _ that], rule impI, rule ccontr)
    fix f b d y
    assume ih: "\<And>b d y. f b d = Some y \<Longrightarrow> b = bus \<longrightarrow> in_transfer (\<alpha> d)"
      and body: "(let (c, d') = bus_insb b 0x1f7 d in if c AND 0x08 \<noteq> 0 then Some d' else f b d') = Some y"
      and b: "b = bus" and no: "\<not> in_transfer (\<alpha> d)"
    obtain c e where ce: "bus_insb bus 0x1f7 d = (c, e)" by force
    show False using status_no_data [OF dev no ce] ih [of b e y] body ce b by simp
  qed
  then show ?thesis using assms(2) by (cases "wait_drq bus d") auto
qed

lemma sector_words:
  assumes "length bs = 512" "i < 256"
  shows "take 2 (drop (2 * i) bs) = [bs ! (2 * i), bs ! (2 * i + 1)]"
  using assms by (simp add: take_Suc_conv_app_nth numeral_2_eq_2 nth_drop)

lemma read_words_spec:
  assumes dev: "ata_device bus \<alpha>" and "sectors_ok (\<alpha> d)" "\<not> ata_busy (\<alpha> d)"
    and "ata_phase (\<alpha> d) = Data_In lba r i" "0 < n" "i + n \<le> 256" "k + 2 * n \<le> length buf"
  shows "\<exists>d'. read_words bus n buf k d =
      Some (take k buf @ take (2 * n) (drop (2 * i) (ata_sectors (\<alpha> d) lba)) @ drop (k + 2 * n) buf, d') \<and>
    \<alpha> d' = ata_next lba r (i + n) (\<alpha> d)"
  using assms(2-)
proof (induction n arbitrary: i k buf d)
  case (Suc n)
  let ?bs = "ata_sectors (\<alpha> d) lba"
  obtain w d1 where w: "bus_insw bus 0x1f0 d = (w, d1)" by force
  have len: "length ?bs = 512" using Suc.prems(1) by (simp add: sectors_ok_def)
  have wb: "word_bytes w = take 2 (drop (2 * i) ?bs)"
    using ata_deviceD(3) [OF dev Suc.prems(2,3)] w Suc.prems(3,5) sector_words [OF len, of i]
    by (simp add: ata_insw_def)
  have d1: "\<alpha> d1 = ata_next lba r (Suc i) (\<alpha> d)"
    using ata_deviceD(4) [OF dev Suc.prems(2,3)] w Suc.prems(3) by (simp add: ata_insw_def)
  define buf1 where "buf1 = take k buf @ word_bytes w @ drop (k + 2) buf"
  have wr: "wr_bytes buf k (word_bytes w) = Some buf1"
    using Suc.prems(6) by (simp add: wr_bytes_def buf1_def)
  show ?case
  proof (cases "n = 0")
    case True
    then show ?thesis using Suc.prems w wr d1 wb by (auto simp: buf1_def)
  next
    case False
    then have i: "Suc i < 256" using Suc.prems(5) by simp
    then have d1': "\<alpha> d1 = (\<alpha> d)\<lparr>ata_phase := Data_In lba r (Suc i)\<rparr>" using d1 by (simp add: ata_next_def)
    then have "\<exists>d'. read_words bus n buf1 (k + 2) d1 =
        Some (take (k + 2) buf1 @ take (2 * n) (drop (2 * Suc i) (ata_sectors (\<alpha> d1) lba)) @
              drop (k + 2 + 2 * n) buf1, d') \<and> \<alpha> d' = ata_next lba r (Suc i + n) (\<alpha> d1)"
      by (intro Suc.IH) (use Suc.prems False in \<open>auto simp: sectors_ok_def buf1_def\<close>)
    then obtain d' where rec: "read_words bus n buf1 (k + 2) d1 =
        Some (take (k + 2) buf1 @ take (2 * n) (drop (2 * Suc i) ?bs) @ drop (k + 2 + 2 * n) buf1, d')"
      and ph: "\<alpha> d' = ata_next lba r (i + Suc n) (\<alpha> d)"
      using d1' by (auto simp: ata_next_def)
    have "take (k + 2) buf1 = take k buf @ word_bytes w" "drop (k + 2 + 2 * n) buf1 = drop (k + 2 * Suc n) buf"
      using Suc.prems(6) by (simp_all add: buf1_def algebra_simps)
    moreover have "word_bytes w @ take (2 * n) (drop (2 * Suc i) ?bs) = take (2 * Suc n) (drop (2 * i) ?bs)"
      using take_add [of 2 "2 * n" "drop (2 * i) ?bs"] by (simp add: wb add.commute)
    ultimately show ?thesis using rec ph w wr by simp
  qed
qed simp

lemma read_sectors_spec:
  assumes dev: "ata_device bus \<alpha>" and "sectors_ok (\<alpha> d)"
    and "ata_phase (\<alpha> d) = Data_In lba n 0" "0 < n" "k + 512 * n \<le> length buf"
  shows "\<exists>d'. read_sectors bus n buf k d =
      Some (take k buf @ concat (map (ata_sectors (\<alpha> d)) [lba ..< lba + n]) @ drop (k + 512 * n) buf, d') \<and>
    \<alpha> d' = (\<alpha> d)\<lparr>ata_phase := Idle, ata_busy := False\<rparr>"
  using assms(2-)
proof (induction n arbitrary: lba k buf d)
  case (Suc n)
  let ?s = "ata_sectors (\<alpha> d)"
  obtain d1 where d1: "wait_drq bus d = Some d1" "\<alpha> d1 = (\<alpha> d)\<lparr>ata_busy := False\<rparr>"
    using wait_drq_ready [OF dev, of d] Suc.prems(2) by (auto simp: in_transfer_def)
  have len: "length (?s lba) = 512" using Suc.prems(1) by (simp add: sectors_ok_def)
  define buf1 where "buf1 = take k buf @ ?s lba @ drop (k + 512) buf"
  have "\<exists>d2. read_words bus 256 buf k d1 = Some (buf1, d2) \<and> \<alpha> d2 = ata_next lba (Suc n) 256 (\<alpha> d1)"
    using read_words_spec [OF dev, of d1 lba "Suc n" 0 256 k buf] Suc.prems d1(2) len
    by (simp add: buf1_def sectors_ok_def)
  then obtain d2 where d2: "read_words bus 256 buf k d1 = Some (buf1, d2)" "\<alpha> d2 = ata_next lba (Suc n) 256 (\<alpha> d1)" by blast
  have lens: "length buf1 = length buf" using Suc.prems(4) len by (simp add: buf1_def)
  show ?case
  proof (cases "n = 0")
    case True
    then show ?thesis using d1 d2 by (auto simp: buf1_def ata_next_def)
  next
    case False
    have "\<exists>d'. read_sectors bus n buf1 (k + 512) d2 =
        Some (take (k + 512) buf1 @ concat (map (ata_sectors (\<alpha> d2)) [Suc lba ..< Suc lba + n]) @
              drop (k + 512 + 512 * n) buf1, d') \<and> \<alpha> d' = (\<alpha> d2)\<lparr>ata_phase := Idle, ata_busy := False\<rparr>"
      by (rule Suc.IH) (use Suc.prems False d1(2) d2(2) lens in \<open>auto simp: sectors_ok_def ata_next_def\<close>)
    then obtain d' where rec: "read_sectors bus n buf1 (k + 512) d2 =
        Some (take (k + 512) buf1 @ concat (map ?s [Suc lba ..< Suc lba + n]) @
              drop (k + 512 + 512 * n) buf1, d')" "\<alpha> d' = (\<alpha> d)\<lparr>ata_phase := Idle, ata_busy := False\<rparr>"
      using d1(2) d2(2) False by (auto simp: ata_next_def)
    have "take (k + 512) buf1 = take k buf @ ?s lba" "drop (k + 512 + 512 * n) buf1 = drop (k + 512 * Suc n) buf"
      using Suc.prems(4) len by (simp_all add: buf1_def algebra_simps)
    moreover have "[lba ..< lba + Suc n] = lba # [Suc lba ..< Suc lba + n]"
      by (simp add: upt_conv_Cons del: upt_Suc)
    ultimately show ?thesis using rec d1 d2 by auto
  qed
qed simp

lemma write_words_spec:
  assumes dev: "ata_device bus \<alpha>" and "\<not> ata_busy (\<alpha> d)"
    and "ata_phase (\<alpha> d) = Data_Out lba r bs" "length bs = 2 * i" "0 < n" "i + n \<le> 256"
    and "k + 2 * n \<le> length buf"
  shows "\<exists>d'. write_words bus n buf k d = Some d' \<and>
    \<alpha> d' = (if i + n < 256 then (\<alpha> d)\<lparr>ata_phase := Data_Out lba r (bs @ take (2 * n) (drop k buf))\<rparr>
            else (\<alpha> d)\<lparr>ata_sectors := (ata_sectors (\<alpha> d))(lba := bs @ take (2 * n) (drop k buf)),
                       ata_phase := (if 1 < r then Data_Out (Suc lba) (r - 1) [] else Idle), ata_busy := True\<rparr>)"
  using assms(2-)
proof (induction n arbitrary: i k bs d)
  case (Suc n)
  define d1 where "d1 = bus_outw bus 0x1f0 (bytes_word (buf ! k) (buf ! (k + 1))) d"
  have two: "[buf ! k, buf ! (k + 1)] = take 2 (drop k buf)"
    using Suc.prems(6) by (simp add: take_Suc_conv_app_nth numeral_2_eq_2)
  have a1: "\<alpha> d1 = ata_outw (bytes_word (buf ! k) (buf ! (k + 1))) (\<alpha> d)"
    using ata_deviceD(2) [OF dev Suc.prems(1,2)] by (simp add: d1_def)
  have run: "write_words bus (Suc n) buf k d = write_words bus n buf (k + 2) d1"
    using Suc.prems(6) by (simp add: rd_Some d1_def)
  have glue: "take 2 (drop k buf) @ take (2 * n) (drop (k + 2) buf) = take (2 * Suc n) (drop k buf)"
    using take_add [of 2 "2 * n" "drop k buf"] by (simp add: add.commute)
  show ?case
  proof (cases "n = 0")
    case True
    then show ?thesis
      using run a1 Suc.prems two by (auto simp: ata_outw_def Let_def)
  next
    case False
    then have ph: "\<alpha> d1 = (\<alpha> d)\<lparr>ata_phase := Data_Out lba r (bs @ take 2 (drop k buf))\<rparr>"
      using a1 Suc.prems two by (simp add: ata_outw_def)
    have "\<exists>d'. write_words bus n buf (k + 2) d1 = Some d' \<and>
      \<alpha> d' = (if Suc i + n < 256
              then (\<alpha> d1)\<lparr>ata_phase := Data_Out lba r ((bs @ take 2 (drop k buf)) @ take (2 * n) (drop (k + 2) buf))\<rparr>
              else (\<alpha> d1)\<lparr>ata_sectors := (ata_sectors (\<alpha> d1))
                       (lba := (bs @ take 2 (drop k buf)) @ take (2 * n) (drop (k + 2) buf)),
                    ata_phase := (if 1 < r then Data_Out (Suc lba) (r - 1) [] else Idle), ata_busy := True\<rparr>)"
      by (rule Suc.IH) (use Suc.prems False ph in auto)
    then show ?thesis using run ph glue by (auto simp: fun_upd_def)
  qed
qed simp

text \<open>A sector written: the drive has it, and is busy.\<close>

lemma write_sector_spec:
  assumes dev: "ata_device bus \<alpha>"
    and ph: "ata_phase (\<alpha> d) = Data_Out lba 1 []" and len: "k + 512 \<le> length buf"
  shows "\<exists>d'. write_sectors bus 1 buf k d = Some d' \<and>
    \<alpha> d' = (\<alpha> d)\<lparr>ata_sectors := (ata_sectors (\<alpha> d))(lba := take 512 (drop k buf)), ata_phase := Idle, ata_busy := True\<rparr>"
proof -
  obtain d1 where d1: "wait_drq bus d = Some d1" "\<alpha> d1 = (\<alpha> d)\<lparr>ata_busy := False\<rparr>"
    using wait_drq_ready [OF dev, of d] ph by (auto simp: in_transfer_def)
  have "\<exists>d'. write_words bus 256 buf k d1 = Some d' \<and>
      \<alpha> d' = (\<alpha> d1)\<lparr>ata_sectors := (ata_sectors (\<alpha> d1))(lba := [] @ take 512 (drop k buf)), ata_phase := Idle, ata_busy := True\<rparr>"
    using write_words_spec [OF dev, of d1 lba 1 "[]" 0 256 k buf] ph len d1(2) by simp
  then show ?thesis using d1 by auto
qed

subsection \<open>Commands\<close>

definition lba28 :: "int \<Rightarrow> bool" where
  "lba28 lba \<longleftrightarrow> 0 \<le> lba \<and> lba < 2 ^ 28"

lemma unat_u8_of_int: "unat (word_of_int x :: u8) = nat (x mod 256)"
  by (simp add: unat_eq_nat_uint uint_word_of_int take_bit_eq_mod)

lemma drive_bits:
  fixes x :: int
  assumes "0 \<le> x" "x < 16"
  shows "nat ((x OR 0xe0) mod 256) mod 16 = nat x"
proof -
  have "x \<in> set [0 .. 15]" using assms by simp
  then show ?thesis by (simp add: upto_rec1) (elim disjE; simp)
qed

lemma lba_bytes:
  fixes x :: int
  shows "x mod 256 + 256 * (x div 256 mod 256) + 65536 * (x div 65536 mod 256) + 16777216 * (x div 16777216) = x"
proof -
  have "x div 256 div 256 = x div 65536" "x div 65536 div 256 = x div 16777216"
    by (simp_all flip: div_mult2_eq)
  then show ?thesis
    using mult_div_mod_eq [of 256 x] mult_div_mod_eq [of 256 "x div 256"]
      mult_div_mod_eq [of 256 "x div 65536"] by linarith
qed

lemma ata_command_regs:
  assumes dev: "ata_device bus \<alpha>" and "lba28 lba" and r: "ata_ready (\<alpha> d)"
  shows "\<exists>a. \<alpha> (ata_command bus lba n cmd d) = a\<lparr>ata_phase := ata_start cmd a, ata_busy := True\<rparr> \<and>
    ata_lba a = nat lba \<and> ata_count a = word_of_int n \<and> ata_sectors a = ata_sectors (\<alpha> d) \<and>
    ata_capacity a = ata_capacity (\<alpha> d)"
proof -
  define a where "a = (\<alpha> d)\<lparr>ata_drive := word_of_int (drop_bit 24 lba OR 0xe0), ata_count := word_of_int n,
    ata_lba_low := word_of_int (lba AND 0xff), ata_lba_mid := word_of_int (drop_bit 8 lba),
    ata_lba_high := word_of_int (drop_bit 16 lba)\<rparr>"
  have "\<alpha> (ata_command bus lba n cmd d) = ata_outb 0x1f7 cmd a"
    using r ata_deviceD(1) [OF dev] unfolding ata_command_def Let_def
    by (simp add: ata_outb_def ata_ready_def in_transfer_def a_def)
  moreover have "ata_lba a = nat lba"
  proof -
    have hi: "0 \<le> drop_bit 24 lba" "drop_bit 24 lba < 16"
      using assms(2) by (auto simp: lba28_def drop_bit_eq_div)
    have "lba AND 0xff = lba mod 256" using take_bit_eq_mask [of 8 lba] by (simp add: mask_eq_exp_minus_1 take_bit_eq_mod)
    then have "int (unat (ata_lba_low a)) = lba mod 256"
      "int (unat (ata_lba_mid a)) = lba div 256 mod 256"
      "int (unat (ata_lba_high a)) = lba div 65536 mod 256"
      by (simp_all add: a_def unat_u8_of_int drop_bit_eq_div del: of_nat_unat)
    moreover have "unat (ata_drive a) mod 16 = nat (lba div 16777216)"
      using drive_bits [OF hi] by (simp add: a_def unat_u8_of_int drop_bit_eq_div)
    then have "int (unat (ata_drive a) mod 16) = lba div 16777216"
      using hi by (simp add: drop_bit_eq_div)
    ultimately have "int (ata_lba a) = lba mod 256 + 256 * (lba div 256 mod 256) +
        65536 * (lba div 65536 mod 256) + 16777216 * (lba div 16777216)"
      unfolding ata_lba_def by linarith
    also have "\<dots> = lba"
      using lba_bytes by (simp only: )
    finally show ?thesis by simp
  qed
  ultimately show ?thesis by (intro exI [of _ a]) (simp add: ata_outb_def a_def)
qed

subsection \<open>Blocks and bytes of the disk\<close>

text \<open>The second drive has the contents of the first and is ready for a command.\<close>

definition same_disk :: "ata \<Rightarrow> ata \<Rightarrow> bool" where
  "same_disk a b \<longleftrightarrow> ata_sectors b = ata_sectors a \<and> ata_capacity b = ata_capacity a \<and> ata_ready b"

definition disk_byte :: "ata \<Rightarrow> nat \<Rightarrow> u8" where
  "disk_byte a n = ata_sectors a (n div 512) ! (n mod 512)"

definition disk_bytes :: "ata \<Rightarrow> nat \<Rightarrow> nat \<Rightarrow> u8 list" where
  "disk_bytes a pos n = map (disk_byte a) [pos ..< pos + n]"

text \<open>The drive is ready and has at most 2 to the 28 sectors, each of them complete.\<close>

definition drive_ok :: "ata \<Rightarrow> bool" where
  "drive_ok a \<longleftrightarrow> sectors_ok a \<and> ata_capacity a \<le> 2 ^ 28 \<and> ata_ready a"

lemma same_disk_ok: "same_disk a b \<Longrightarrow> drive_ok a \<Longrightarrow> drive_ok b"
  by (simp add: same_disk_def drive_ok_def sectors_ok_def)

lemma sint_lba:
  assumes "unat (lba :: u32) < 2 ^ 28"
  shows "sint lba = int (unat lba)" "lba28 (sint lba)"
proof -
  have e: "uint lba = int (unat lba)" by (rule uint_nat)
  have "uint lba < int (2 ^ 28)" unfolding e using assms by (rule of_nat_less_iff [THEN iffD2])
  then have u: "uint lba < 268435456" by simp
  then have "uint lba < 2 ^ 31" by simp
  then have s: "sint lba = uint lba" by (rule sint_eq_uint_u32)
  then show "sint lba = int (unat lba)" using e by (rule trans)
  show "lba28 (sint lba)" unfolding s lba28_def using u by simp
qed

text \<open>The command for one sector, on a drive that is ready.\<close>

lemma block_command:
  assumes dev: "ata_device bus \<alpha>" and r: "ata_ready (\<alpha> d)" and lba: "unat (lba :: u32) < 2 ^ 28"
  obtains a where "\<alpha> (ata_command bus (sint lba) 1 cmd d) = a\<lparr>ata_phase := ata_start cmd a, ata_busy := True\<rparr>"
      "ata_lba a = unat lba" "ata_count a = 1" "ata_sectors a = ata_sectors (\<alpha> d)" "ata_capacity a = ata_capacity (\<alpha> d)"
  using ata_command_regs [OF dev sint_lba(2) [OF lba] r, of 1 cmd] sint_lba(1) [OF lba] by auto

lemma disk_read_block_ok:
  assumes dev: "ata_device bus \<alpha>" and ok: "drive_ok (\<alpha> d)"
    and lba: "unat lba < ata_capacity (\<alpha> d)" and len: "length buf = 512"
  shows "\<exists>d'. disk_read_block bus The_Disk lba 1 buf d = Some (OK, ata_sectors (\<alpha> d) (unat lba), d') \<and>
    same_disk (\<alpha> d) (\<alpha> d')"
proof -
  let ?d = "ata_command bus (sint lba) 1 0x20 d"
  have r: "ata_ready (\<alpha> d)" "unat lba < 2 ^ 28" using ok lba by (simp_all add: drive_ok_def)
  obtain a where a: "\<alpha> ?d = a\<lparr>ata_phase := ata_start 0x20 a, ata_busy := True\<rparr>"
      "ata_lba a = unat lba" "ata_count a = 1" "ata_sectors a = ata_sectors (\<alpha> d)" "ata_capacity a = ata_capacity (\<alpha> d)"
    using block_command [OF dev r] by blast
  have st: "ata_start 0x20 a = Data_In (unat lba) 1 0" using a lba by (simp add: ata_start_def)
  have "\<exists>d'. read_sectors bus 1 buf 0 ?d = Some (ata_sectors (\<alpha> d) (unat lba), d') \<and>
      \<alpha> d' = (\<alpha> ?d)\<lparr>ata_phase := Idle, ata_busy := False\<rparr>"
    using read_sectors_spec [OF dev, of ?d "unat lba" 1 0 buf] a st ok len
    by (simp add: drive_ok_def sectors_ok_def)
  then show ?thesis
    using a by (auto simp: disk_read_block_def disk_read_sector_def same_disk_def ata_ready_def in_transfer_def
        simp del: read_sectors.simps)
qed

lemma read_beyond_refused:
  assumes dev: "ata_device bus \<alpha>" and ok: "drive_ok (\<alpha> d)" and lba: "ata_capacity (\<alpha> d) \<le> unat (lba :: u32)" "unat lba < 2 ^ 28"
  shows "\<not> in_transfer (\<alpha> (ata_command bus (sint lba) 1 0x20 d))"
proof -
  have r: "ata_ready (\<alpha> d)" using ok by (simp add: drive_ok_def)
  obtain a where a: "\<alpha> (ata_command bus (sint lba) 1 0x20 d) = a\<lparr>ata_phase := ata_start 0x20 a, ata_busy := True\<rparr>"
      "ata_lba a = unat lba" "ata_count a = 1" "ata_capacity a = ata_capacity (\<alpha> d)"
    using block_command [OF dev r lba(2)] by blast
  have "ata_start 0x20 a = Refused" using a lba by (simp add: ata_start_def)
  then show ?thesis using a(1) by (simp add: in_transfer_def)
qed

lemma disk_read_block_beyond:
  assumes "ata_device bus \<alpha>" "drive_ok (\<alpha> d)" "ata_capacity (\<alpha> d) \<le> unat lba" "unat lba < 2 ^ 28"
  shows "disk_read_block bus The_Disk lba 1 buf d = None"
  using wait_drq_never [OF assms(1) read_beyond_refused [OF assms]]
  by (simp add: disk_read_block_def disk_read_sector_def)

lemma disk_write_block_ok:
  assumes dev: "ata_device bus \<alpha>" and ok: "drive_ok (\<alpha> d)"
    and lba: "unat lba < ata_capacity (\<alpha> d)" and len: "length buf = 512"
  shows "\<exists>d'. disk_write_block bus The_Disk lba 1 buf d = Some (OK, d') \<and>
    ata_sectors (\<alpha> d') = (ata_sectors (\<alpha> d))(unat lba := buf) \<and> ata_capacity (\<alpha> d') = ata_capacity (\<alpha> d) \<and>
    ata_phase (\<alpha> d') = Idle"
proof -
  let ?d = "ata_command bus (sint lba) 1 0x30 d"
  have r: "ata_ready (\<alpha> d)" "unat lba < 2 ^ 28" using ok lba by (simp_all add: drive_ok_def)
  obtain a where a: "\<alpha> ?d = a\<lparr>ata_phase := ata_start 0x30 a, ata_busy := True\<rparr>"
      "ata_lba a = unat lba" "ata_count a = 1" "ata_sectors a = ata_sectors (\<alpha> d)" "ata_capacity a = ata_capacity (\<alpha> d)"
    using block_command [OF dev r] by blast
  have st: "ata_start 0x30 a = Data_Out (unat lba) 1 []" using a lba by (simp add: ata_start_def)
  have "\<exists>d'. write_sectors bus 1 buf 0 ?d = Some d' \<and>
      ata_sectors (\<alpha> d') = (ata_sectors (\<alpha> d))(unat lba := buf) \<and> ata_capacity (\<alpha> d') = ata_capacity (\<alpha> d) \<and>
      ata_phase (\<alpha> d') = Idle"
    using write_sector_spec [OF dev, of ?d "unat lba" 0 buf] a st len by (auto simp del: One_nat_def)
  then show ?thesis
    by (auto simp: disk_write_block_def disk_write_sector_def simp del: write_sectors.simps)
qed

lemma sector_slice:
  assumes "sectors_ok a" "pos mod 512 + n \<le> 512"
  shows "take n (drop (pos mod 512) (ata_sectors a (pos div 512))) = disk_bytes a pos n"
proof (rule nth_equalityI)
  show "length (take n (drop (pos mod 512) (ata_sectors a (pos div 512)))) = length (disk_bytes a pos n)"
    using assms by (simp add: disk_bytes_def sectors_ok_def)
next
  fix i assume "i < length (take n (drop (pos mod 512) (ata_sectors a (pos div 512))))"
  then have i: "i < n" "pos mod 512 + i < 512" using assms by simp_all
  have "pos + i = 512 * (pos div 512) + (pos mod 512 + i)" by simp
  then have "(pos + i) div 512 = pos div 512" "(pos + i) mod 512 = pos mod 512 + i"
    using i(2) div_mult_self4 [of 512 "pos div 512" "pos mod 512 + i"]
    by (metis div_less add.right_neutral div_mult_self4 zero_neq_numeral, metis mod_less mod_mult_self4)
  then show "take n (drop (pos mod 512) (ata_sectors a (pos div 512))) ! i = disk_bytes a pos n ! i"
    using i assms by (simp add: disk_bytes_def disk_byte_def sectors_ok_def)
qed

lemma disk_bytes_same: "same_disk a b \<Longrightarrow> disk_bytes b = disk_bytes a"
  by (simp add: same_disk_def disk_bytes_def disk_byte_def fun_eq_iff)

lemma disk_bytes_split: "k \<le> n \<Longrightarrow> disk_bytes a pos k @ disk_bytes a (pos + k) (n - k) = disk_bytes a pos n"
  using upt_add_eq_append [of pos "pos + k" "n - k"] by (simp add: disk_bytes_def flip: map_append)

lemma length_disk_bytes [simp]: "length (disk_bytes a pos n) = n"
  by (simp add: disk_bytes_def)

subsection \<open>Streams read and write the bytes of the disk\<close>

lemma sector_of_pos:
  assumes "ds_pos s = int p" "p < 2 ^ 31"
  shows "ds_pos s sdiv TOYOS_SECTOR_SIZE = int (p div 512)" "ds_pos s smod TOYOS_SECTOR_SIZE = int (p mod 512)"
    "unat (word_of_int (int (p div 512)) :: u32) = p div 512"
proof -
  show "ds_pos s sdiv TOYOS_SECTOR_SIZE = int (p div 512)"
    using assms(1) by (cases "p = 0") (simp_all add: TOYOS_SECTOR_SIZE_def signed_divide_int_def zdiv_int)
  show "ds_pos s smod TOYOS_SECTOR_SIZE = int (p mod 512)"
    using assms(1) by (simp add: TOYOS_SECTOR_SIZE_def smod_mod_positive zmod_int)
  have "p div 512 < 2 ^ 32" using assms(2) by (simp add: less_mult_imp_div_less)
  then show "unat (word_of_int (int (p div 512)) :: u32) = p div 512"
    by (simp add: unat_of_nat)
qed

text \<open>One round of \<open>streamer_read\<close>: the last one, and one that reaches the end of a sector.\<close>

lemma streamer_read_within:
  assumes "disk_read_block bus The_Disk (word_of_int (int (p div 512))) 1 stack d = Some (OK, sec, d1)" "length sec = 512"
    and "ds_disk s = The_Disk" "ds_pos s = int p" "p + n < 2 ^ 31" "n \<le> length out" "p mod 512 + n < 512"
  shows "streamer_read bus s out (int n) stack d =
    Some (OK, take n (drop (p mod 512) sec) @ drop n out, s\<lparr>ds_pos := int (p + n)\<rparr>, d1)"
proof -
  have p: "p < 2 ^ 31" using assms(5) by simp
  have "memcpy_loop out (drop (p mod 512) sec) 0 n = Some (take n (drop (p mod 512) sec) @ drop n out)"
    using memcpy_loop_eq [of 0 n out "drop (p mod 512) sec"] assms(2,6,7) by simp
  moreover have "to_int (int p + int n) = int p + int n" using assms(5) by (simp add: to_int_id)
  ultimately show ?thesis
    using assms sector_of_pos(1,2) [OF assms(4) p]
    by (subst streamer_read.simps) (simp add: TOYOS_SECTOR_SIZE_def OK_def)
qed

lemma streamer_read_over:
  assumes "disk_read_block bus The_Disk (word_of_int (int (p div 512))) 1 stack d = Some (OK, sec, d1)" "length sec = 512"
    and "ds_disk s = The_Disk" "ds_pos s = int p" "p + n < 2 ^ 31" "n \<le> length out" "p mod 512 + k = 512" "k \<le> n"
  shows "streamer_read bus s out (int n) stack d =
    do { (res, rest, s', d') \<leftarrow> streamer_read bus (s\<lparr>ds_pos := int (p + k)\<rparr>) (drop k out) (int (n - k)) stack d1;
         Some (res, take k (drop (p mod 512) sec) @ rest, s', d') }"
proof -
  have p: "p < 2 ^ 31" using assms(5) by simp
  have "p mod 512 < 512" by simp
  then have k: "0 < k" using assms(7) by linarith
  define x where "x = take k (drop (p mod 512) sec)"
  have x: "length x = k" using assms(2,7) by (simp add: x_def)
  have copy: "memcpy_loop out (drop (p mod 512) sec) 0 k = Some (x @ drop k out)"
    using memcpy_loop_eq [of 0 k out "drop (p mod 512) sec"] assms(2,6-8) by (simp add: x_def)
  have ti: "to_int (int p + int k) = int p + int k" using assms(5,8) by (simp add: to_int_id)
  have kk: "512 - int (p mod 512) = int k" using assms(7) by simp
  show ?thesis
    using assms(1,3,4,7,8) sector_of_pos(1,2) [OF assms(4) p] copy ti k x
    by (subst streamer_read.simps) (simp add: TOYOS_SECTOR_SIZE_def OK_def kk of_nat_diff Let_def x_def [symmetric])
qed

lemma streamer_read_bytes:
  assumes dev: "ata_device bus \<alpha>"
    and "drive_ok (\<alpha> d)" "ds_disk s = The_Disk" "ds_pos s = int p" "p + n < 2 ^ 31"
      "p + n < 512 * ata_capacity (\<alpha> d)" "n \<le> length out" "length stack = 512"
  shows "\<exists>d'. streamer_read bus s out (int n) stack d =
      Some (OK, disk_bytes (\<alpha> d) p n @ drop n out, s\<lparr>ds_pos := int (p + n)\<rparr>, d') \<and> same_disk (\<alpha> d) (\<alpha> d')"
  using assms(2-)
proof (induction n arbitrary: s p out d rule: less_induct)
  case (less n)
  let ?sec = "ata_sectors (\<alpha> d) (p div 512)"
  have p: "p < 2 ^ 31" "p div 512 < ata_capacity (\<alpha> d)"
    using less.prems(4,5) by (auto simp: less_mult_imp_div_less mult.commute)
  obtain d1 where d1: "disk_read_block bus The_Disk (word_of_int (int (p div 512))) 1 stack d = Some (OK, ?sec, d1)"
      "same_disk (\<alpha> d) (\<alpha> d1)"
    using disk_read_block_ok [OF dev less.prems(1), of "word_of_int (int (p div 512))" stack]
      sector_of_pos(3) [OF less.prems(3) p(1)] p(2) less.prems(7) by auto
  have sok: "sectors_ok (\<alpha> d)" and len: "length ?sec = 512"
    using less.prems(1) by (auto simp: drive_ok_def sectors_ok_def)
  show ?case
  proof (cases "512 \<le> p mod 512 + n")
    case False
    then show ?thesis
      using streamer_read_within [OF d1(1) len less.prems(2-4,6)] sector_slice [OF sok, of p n] d1(2) by simp
  next
    case True
    define k where "k = 512 - p mod 512"
    have k: "0 < k" "k \<le> n" "p mod 512 + k = 512" using True by (auto simp: k_def less_imp_le)
    let ?s1 = "s\<lparr>ds_pos := int (p + k)\<rparr>"
    have "\<exists>d'. streamer_read bus ?s1 (drop k out) (int (n - k)) stack d1 =
        Some (OK, disk_bytes (\<alpha> d1) (p + k) (n - k) @ drop (n - k) (drop k out),
              ?s1\<lparr>ds_pos := int (p + k + (n - k))\<rparr>, d') \<and> same_disk (\<alpha> d1) (\<alpha> d')"
      by (rule less.IH) (use k less.prems d1(2) same_disk_ok [OF d1(2)] in \<open>auto simp: same_disk_def\<close>)
    then obtain d' where rec: "streamer_read bus ?s1 (drop k out) (int (n - k)) stack d1 =
        Some (OK, disk_bytes (\<alpha> d) (p + k) (n - k) @ drop n out, s\<lparr>ds_pos := int (p + n)\<rparr>, d')"
      and same: "same_disk (\<alpha> d) (\<alpha> d')"
      using k(2) d1(2) disk_bytes_same [OF d1(2)] by (auto simp: same_disk_def)
    have "streamer_read bus s out (int n) stack d =
        Some (OK, disk_bytes (\<alpha> d) p k @ disk_bytes (\<alpha> d) (p + k) (n - k) @ drop n out, s\<lparr>ds_pos := int (p + n)\<rparr>, d')"
      using streamer_read_over [OF d1(1) len less.prems(2-4,6) k(3,2)] rec sector_slice [OF sok, of p k] k(3) by simp
    then show ?thesis using same disk_bytes_split [OF k(2)] by (metis append_assoc)
  qed
qed

lemma sector_update:
  assumes ok: "sectors_ok a" and k: "p mod 512 + k \<le> 512" "k \<le> length inp"
    and upd: "ata_sectors b = (ata_sectors a)(p div 512 := take (p mod 512) (ata_sectors a (p div 512)) @
      take k inp @ drop (p mod 512 + k) (ata_sectors a (p div 512)))"
  shows "sectors_ok b" "disk_byte b m = (if p \<le> m \<and> m < p + k then inp ! (m - p) else disk_byte a m)"
proof -
  let ?sec = "ata_sectors a (p div 512)"
  have len: "length ?sec = 512" using ok by (simp add: sectors_ok_def)
  then show "sectors_ok b" using ok k upd by (simp add: sectors_ok_def)
  show "disk_byte b m = (if p \<le> m \<and> m < p + k then inp ! (m - p) else disk_byte a m)"
  proof (cases "m div 512 = p div 512")
    case False
    have "m div 512 = p div 512" if "p \<le> m" "m < p + k"
    proof (rule div_nat_eqI)
      define q r where "q = p div 512" and "r = p mod 512"
      have "p = 512 * q + r" "r + k \<le> 512" using k(1) by (simp_all add: q_def r_def)
      then show "512 * (p div 512) \<le> m" "m < 512 * Suc (p div 512)"
        using that unfolding q_def [symmetric] by simp_all
    qed
    then have "\<not> (p \<le> m \<and> m < p + k)" using False by blast
    then show ?thesis using False upd by (auto simp: disk_byte_def)
  next
    case True
    define q r j where "q = p div 512" and "r = p mod 512" and "j = m mod 512"
    have m: "m = 512 * q + j" "p = 512 * q + r" "j < 512"
      using True by (simp_all add: q_def r_def j_def) (metis mult_div_mod_eq)
    then have iff: "p \<le> m \<and> m < p + k \<longleftrightarrow> r \<le> j \<and> j < r + k" and sub: "m - p = j - r" by auto
    have "disk_byte b m = (take r ?sec @ take k inp @ drop (r + k) ?sec) ! j"
      using True upd by (simp add: disk_byte_def q_def r_def j_def)
    also have "\<dots> = (if r \<le> j \<and> j < r + k then inp ! (j - r) else ?sec ! j)"
      using nth_splice [of r k ?sec inp j] k len m(3) by (simp add: r_def)
    finally show ?thesis using iff sub True by (simp add: disk_byte_def j_def)
  qed
qed

definition written :: "ata \<Rightarrow> nat \<Rightarrow> nat \<Rightarrow> u8 list \<Rightarrow> ata \<Rightarrow> bool" where
  "written a p n inp b \<longleftrightarrow> sectors_ok b \<and> ata_capacity b = ata_capacity a \<and> ata_phase b = Idle \<and>
     (\<forall>m. disk_byte b m = (if p \<le> m \<and> m < p + n then inp ! (m - p) else disk_byte a m))"

text \<open>
  A write that does not reach the end of a sector: the sector is read, changed and written back. Where a
  write goes on to the next sector, the driver sends the next command to a drive that is still busy with
  the last one, about which the protocol says nothing.
\<close>

lemma streamer_write_within:
  assumes dev: "ata_device bus \<alpha>" and ok: "drive_ok (\<alpha> d)" and s: "ds_disk s = The_Disk" "ds_pos s = int p"
    and p: "p + n < 2 ^ 31" "p div 512 < ata_capacity (\<alpha> d)" "p mod 512 + n < 512"
    and len: "n \<le> length inp" "length stack = 512"
  shows "\<exists>d'. streamer_write bus s inp (int n) stack d = Some (OK, s\<lparr>ds_pos := int (p + n)\<rparr>, d') \<and>
    written (\<alpha> d) p n inp (\<alpha> d')"
proof -
  let ?l = "word_of_int (int (p div 512)) :: u32" and ?sec = "ata_sectors (\<alpha> d) (p div 512)"
  have p31: "p < 2 ^ 31" using p(1) by simp
  note pos = sector_of_pos [OF s(2) p31]
  have sok: "sectors_ok (\<alpha> d)" "length ?sec = 512" using ok by (auto simp: drive_ok_def sectors_ok_def)
  obtain d1 where d1: "disk_read_block bus The_Disk ?l 1 stack d = Some (OK, ?sec, d1)" "same_disk (\<alpha> d) (\<alpha> d1)"
    using disk_read_block_ok [OF dev ok, of ?l stack] pos(3) p(2) len(2) by auto
  let ?body = "take n inp @ drop (p mod 512 + n) ?sec"
  have body: "memcpy_loop (drop (p mod 512) ?sec) inp 0 n = Some ?body"
    using memcpy_loop_eq [of 0 n "drop (p mod 512) ?sec" inp] sok(2) p(3) len(1) by (simp add: add.commute)
  obtain d2 where d2: "disk_write_block bus The_Disk ?l 1 (take (p mod 512) ?sec @ ?body) d1 = Some (OK, d2)"
      "ata_sectors (\<alpha> d2) = (ata_sectors (\<alpha> d))(p div 512 := take (p mod 512) ?sec @ ?body)"
      "ata_capacity (\<alpha> d2) = ata_capacity (\<alpha> d)" "ata_phase (\<alpha> d2) = Idle"
    using disk_write_block_ok [OF dev same_disk_ok [OF d1(2) ok], of ?l "take (p mod 512) ?sec @ ?body"]
      pos(3) p sok(2) len d1(2) by (auto simp: same_disk_def)
  have "written (\<alpha> d) p n inp (\<alpha> d2)"
    using sector_update [OF sok(1) _ len(1) d2(2)] p(3) d2(3,4) by (simp add: written_def)
  moreover have "to_int (int p + int n) = int p + int n" "n \<noteq> 512" using p(1,3) by (simp_all add: to_int_id)
  ultimately show ?thesis
    using d1(1) body d2(1) pos(1,2) s p(3)
    by (subst streamer_write.simps) (simp add: TOYOS_SECTOR_SIZE_def OK_def)
qed

text \<open>Time passes until the drive is no longer busy: it keeps its contents and is ready.\<close>

lemma poll_status_alpha:
  assumes "ata_device bus \<alpha>"
  shows "\<alpha> (poll_status bus n d) = \<alpha> d \<or> \<alpha> (poll_status bus n d) = (\<alpha> d)\<lparr>ata_busy := False\<rparr>"
proof (induction n arbitrary: d)
  case (Suc n)
  show ?case using ata_deviceD(5) [OF assms, of d] Suc.IH [of "snd (bus_insb bus 0x1f7 d)"] by auto
qed simp

lemma written_settles:
  assumes "ata_device bus \<alpha>" "written a p n inp (\<alpha> d)" "ata_capacity a \<le> 2 ^ 28" "\<not> ata_busy (\<alpha> (poll_status bus k d))"
  shows "drive_ok (\<alpha> (poll_status bus k d))" "ata_capacity (\<alpha> (poll_status bus k d)) = ata_capacity a"
    "disk_byte (\<alpha> (poll_status bus k d)) = disk_byte (\<alpha> d)"
  using poll_status_alpha [OF assms(1), of k d] assms(2-)
  by (auto simp: written_def drive_ok_def sectors_ok_def ata_ready_def in_transfer_def disk_byte_def fun_eq_iff)

subsection \<open>A wait that does not end\<close>

text \<open>
  The bus with a counter of the reads of the status register, which shows the data-request bit from the
  read number \<open>k\<close> on (counting from 0). As long as at most \<open>k\<close> reads were made, a program cannot tell it from
  the bus itself; a program that returns on it after more than \<open>k\<close> reads has, on the bus itself, made \<open>k\<close>
  reads without returning and without any fault.
\<close>

definition drq_from :: "nat \<Rightarrow> 'd bus \<Rightarrow> ('d \<times> nat) bus" where
  "drq_from k bus = \<lparr>
     bus_outb = (\<lambda>p v (d, c). (bus_outb bus p v d, c)),
     bus_outw = (\<lambda>p v (d, c). (bus_outw bus p v d, c)),
     bus_outl = (\<lambda>p v (d, c). (bus_outl bus p v d, c)),
     bus_insb = (\<lambda>p (d, c). let (v, d) = bus_insb bus p d
                            in if p = 0x1f7 then (if c < k then v else v OR 0x08, d, Suc c) else (v, d, c)),
     bus_insw = (\<lambda>p (d, c). let (v, d) = bus_insw bus p d in (v, d, c)),
     bus_insl = (\<lambda>p (d, c). let (v, d) = bus_insl bus p d in (v, d, c))\<rparr>"

lemma drq_from_ops [simp]:
  "bus_outb (drq_from k bus) p v (d, c) = (bus_outb bus p v d, c)"
  "bus_insw (drq_from k bus) p (d, c) = (fst (bus_insw bus p d), snd (bus_insw bus p d), c)"
  "bus_insb (drq_from k bus) 0x1f7 (d, c) =
     (if c < k then fst (bus_insb bus 0x1f7 d) else fst (bus_insb bus 0x1f7 d) OR 0x08, snd (bus_insb bus 0x1f7 d), Suc c)"
  by (simp_all add: drq_from_def split_def Let_def)

lemma or_8: "(v OR 0x08) AND 0x08 \<noteq> (0 :: u8)"
proof
  assume "(v OR 0x08) AND 0x08 = 0"
  then have "bit ((v OR 0x08) AND 0x08) 3 = False" by simp
  then show False by (simp add: bit_simps)
qed

lemma ata_command_drq_from [simp]: "ata_command (drq_from k bus) lba n cmd (d, c) = (ata_command bus lba n cmd d, c)"
  by (simp add: ata_command_def Let_def)

text \<open>What a run on the bus does, it does on this one, if its reads of the status are among the first \<open>k\<close>.\<close>

lemma wait_drq_same:
  assumes "wait_drq bus d = Some d'"
  shows "\<exists>j. \<forall>k c. c + j \<le> k \<longrightarrow> wait_drq (drq_from k bus) (d, c) = Some (d', c + j)"
proof (rule wait_drq.raw_induct [where P = "\<lambda>bus d d'. \<exists>j. \<forall>k c. c + j \<le> k \<longrightarrow>
    wait_drq (drq_from k bus) (d, c) = Some (d', c + j)", OF _ assms])
  fix f and b :: "'a bus" and d y
  assume ih: "\<And>b d y. f b d = Some y \<Longrightarrow> \<exists>j. \<forall>k c. c + j \<le> k \<longrightarrow> wait_drq (drq_from k b) (d, c) = Some (y, c + j)"
    and body: "(let (c, d') = bus_insb b 0x1f7 d in if c AND 0x08 \<noteq> 0 then Some d' else f b d') = Some y"
  show "\<exists>j. \<forall>k c. c + j \<le> k \<longrightarrow> wait_drq (drq_from k b) (d, c) = Some (y, c + j)"
  proof (cases "fst (bus_insb b 0x1f7 d) AND 0x08 = 0")
    case True
    then have "f b (snd (bus_insb b 0x1f7 d)) = Some y" using body by (simp add: split_def)
    then obtain j where j: "\<forall>k c. c + j \<le> k \<longrightarrow> wait_drq (drq_from k b) (snd (bus_insb b 0x1f7 d), c) = Some (y, c + j)"
      using ih by blast
    show ?thesis by (rule exI [of _ "Suc j"], intro allI impI, subst wait_drq.simps) (use True j in simp)
  next
    case False
    then have "snd (bus_insb b 0x1f7 d) = y" using body by (simp add: split_def)
    then show ?thesis
      by (intro exI [of _ 1] allI impI, subst wait_drq.simps) (use False in simp)
  qed
qed

lemma read_words_same:
  "read_words bus n buf i d = Some (buf', d') \<Longrightarrow> read_words (drq_from k bus) n buf i (d, c) = Some (buf', d', c)"
proof (induction n arbitrary: buf i d)
  case (Suc n)
  then show ?case by (auto simp: split_def Let_def split: Option.bind_splits)
qed simp

lemma disk_read_block_same:
  assumes "disk_read_block bus The_Disk lba 1 buf d = Some (r, buf', d')"
  shows "\<exists>j. \<forall>k c. c + j \<le> k \<longrightarrow> disk_read_block (drq_from k bus) The_Disk lba 1 buf (d, c) = Some (r, buf', d', c + j)"
proof -
  obtain d1 where d1: "wait_drq bus (ata_command bus (sint lba) 1 0x20 d) = Some d1"
      "read_words bus 256 buf 0 d1 = Some (buf', d')" "r = OK"
    using assms by (auto simp: disk_read_block_def disk_read_sector_def split: Option.bind_splits)
  obtain j where j: "\<forall>k c. c + j \<le> k \<longrightarrow>
      wait_drq (drq_from k bus) (ata_command bus (sint lba) 1 0x20 d, c) = Some (d1, c + j)"
    using wait_drq_same [OF d1(1)] by blast
  show ?thesis
    using j d1(3) read_words_same [OF d1(2)] by (intro exI [of _ j]) (simp add: disk_read_block_def disk_read_sector_def)
qed

text \<open>Waiting for data that does not come goes on up to the read number \<open>k\<close>.\<close>

lemma wait_drq_goes_on:
  assumes "ata_device bus \<alpha>"
  shows "\<not> in_transfer (\<alpha> d) \<Longrightarrow> c \<le> k \<Longrightarrow> \<exists>d'. wait_drq (drq_from k bus) (d, c) = Some (d', Suc k)"
proof (induction "k - c" arbitrary: c d)
  case 0
  then show ?case using or_8 by (subst wait_drq.simps) simp
next
  case (Suc m)
  obtain v e where ve: "bus_insb bus 0x1f7 d = (v, e)" by force
  have "v AND 0x08 = 0" "\<not> in_transfer (\<alpha> e)" using status_no_data [OF assms Suc.prems(1) ve] by simp_all
  moreover have "c < k" using Suc.hyps(2) by simp
  ultimately show ?case using Suc.hyps(1) [of "Suc c" e] Suc.hyps(2) ve by (subst wait_drq.simps) simp
qed

lemma read_words_returns:
  "i + 2 * n \<le> length buf \<Longrightarrow>
   \<exists>buf' d'. read_words (drq_from k bus) n buf i (d, c) = Some (buf', d', c) \<and> length buf' = length buf"
proof (induction n arbitrary: buf i d)
  case (Suc n)
  define b where "b = take i buf @ word_bytes (fst (bus_insw bus 0x1f0 d)) @ drop (i + 2) buf"
  have b: "length b = length buf" using Suc.prems by (simp add: b_def)
  then obtain buf' d' where "read_words (drq_from k bus) n b (i + 2) (snd (bus_insw bus 0x1f0 d), c) = Some (buf', d', c)"
      "length buf' = length buf"
    using Suc.IH [of "i + 2" b "snd (bus_insw bus 0x1f0 d)"] Suc.prems by auto
  moreover have "wr_bytes buf i (word_bytes (fst (bus_insw bus 0x1f0 d))) = Some b"
    using Suc.prems by (simp add: wr_bytes_def b_def)
  ultimately show ?case by simp
qed simp

lemma disk_read_block_goes_on:
  assumes "ata_device bus \<alpha>" "drive_ok (\<alpha> d)" "ata_capacity (\<alpha> d) \<le> unat lba" "unat lba < 2 ^ 28" "length buf = 512" "c \<le> k"
  shows "\<exists>buf' d'. disk_read_block (drq_from k bus) The_Disk lba 1 buf (d, c) = Some (OK, buf', d', Suc k) \<and> length buf' = 512"
proof -
  obtain d1 where d1: "wait_drq (drq_from k bus) (ata_command bus (sint lba) 1 0x20 d, c) = Some (d1, Suc k)"
    using wait_drq_goes_on [OF assms(1) read_beyond_refused [OF assms(1-4)] assms(6)] by blast
  then show ?thesis
    using read_words_returns [of 0 256 buf k bus d1 "Suc k"] assms(5)
    by (auto simp: disk_read_block_def disk_read_sector_def)
qed

text \<open>A read up to the end of the disk: all bytes are there, and then the driver waits.\<close>

lemma streamer_read_to_the_end:
  assumes dev: "ata_device bus \<alpha>"
    and "drive_ok (\<alpha> d)" "ds_disk s = The_Disk" "ds_pos s = int p" "p + n < 2 ^ 31"
      "p + n = 512 * ata_capacity (\<alpha> d)" "n \<le> length out" "length stack = 512"
  shows "streamer_read bus s out (int n) stack d = None \<and>
    (\<exists>j. \<forall>k c. c + j \<le> k \<longrightarrow> (\<exists>d'. streamer_read (drq_from k bus) s out (int n) stack (d, c) =
      Some (OK, disk_bytes (\<alpha> d) p n @ drop n out, s\<lparr>ds_pos := int (p + n)\<rparr>, d', Suc k)))"
  using assms(2-)
proof (induction n arbitrary: s p out d rule: less_induct)
  case (less n)
  have p: "p < 2 ^ 31" using less.prems(4) by simp
  note pos = sector_of_pos [OF less.prems(3) p]
  let ?l = "word_of_int (int (p div 512)) :: u32"
  show ?case
  proof (cases "n = 0")
    case True
    then have q: "ata_capacity (\<alpha> d) \<le> unat ?l" "unat ?l < 2 ^ 28" "p mod 512 = 0"
      using less.prems(5) p pos(3) by (auto simp: less_mult_imp_div_less)
    have "streamer_read bus s out 0 stack d = None"
      using disk_read_block_beyond [OF dev less.prems(1) q(1,2)] pos less.prems(2,3)
      by (subst streamer_read.simps) (simp add: TOYOS_SECTOR_SIZE_def)
    moreover have "\<exists>d'. streamer_read (drq_from k bus) s out 0 stack (d, c) = Some (OK, out, s\<lparr>ds_pos := int p\<rparr>, d', Suc k)"
      if ck: "c \<le> k" for k c
    proof -
      obtain buf d1 where b: "disk_read_block (drq_from k bus) The_Disk ?l 1 stack (d, c) = Some (OK, buf, d1, Suc k)" "length buf = 512"
        using disk_read_block_goes_on [OF dev less.prems(1) q(1,2) less.prems(7) ck] by blast
      show ?thesis using streamer_read_within [OF b(1,2) less.prems(2,3), of 0 out] p q(3) by simp
    qed
    ultimately show ?thesis using True by (auto simp: disk_bytes_def intro!: exI [of _ 0])
  next
    case False
    define m where "m = 512 - p mod 512"
    let ?sec = "ata_sectors (\<alpha> d) (p div 512)" let ?s1 = "s\<lparr>ds_pos := int (p + m)\<rparr>"
    have "512 dvd p + n" using less.prems(5) by simp
    then have "512 dvd p mod 512 + n" by (metis dvd_eq_mod_eq_0 mod_add_left_eq)
    then have "512 \<le> p mod 512 + n" using False by (intro dvd_imp_le) simp_all
    then have m: "0 < m" "m \<le> n" "p mod 512 + m = 512" by (auto simp: m_def less_imp_le)
    have "p < 512 * ata_capacity (\<alpha> d)" using less.prems(5) False by linarith
    then have pd: "p div 512 < ata_capacity (\<alpha> d)" by (simp add: less_mult_imp_div_less mult.commute)
    obtain d1 where d1: "disk_read_block bus The_Disk ?l 1 stack d = Some (OK, ?sec, d1)" "same_disk (\<alpha> d) (\<alpha> d1)"
      using disk_read_block_ok [OF dev less.prems(1), of ?l stack] pos(3) pd less.prems(7) by auto
    obtain j where j: "\<And>k c. c + j \<le> k \<Longrightarrow> disk_read_block (drq_from k bus) The_Disk ?l 1 stack (d, c) = Some (OK, ?sec, d1, c + j)"
      using disk_read_block_same [OF d1(1)] by blast
    have sok: "sectors_ok (\<alpha> d)" "length ?sec = 512" using less.prems(1) by (simp_all add: drive_ok_def sectors_ok_def)
    have "streamer_read bus ?s1 (drop m out) (int (n - m)) stack d1 = None \<and>
      (\<exists>j. \<forall>k c. c + j \<le> k \<longrightarrow> (\<exists>d'. streamer_read (drq_from k bus) ?s1 (drop m out) (int (n - m)) stack (d1, c) =
        Some (OK, disk_bytes (\<alpha> d1) (p + m) (n - m) @ drop (n - m) (drop m out), ?s1\<lparr>ds_pos := int (p + m + (n - m))\<rparr>, d', Suc k)))"
      by (rule less.IH) (use m less.prems d1(2) same_disk_ok [OF d1(2)] in \<open>auto simp: same_disk_def\<close>)
    then obtain j' where none: "streamer_read bus ?s1 (drop m out) (int (n - m)) stack d1 = None"
      and rest: "\<And>k c. c + j' \<le> k \<Longrightarrow> \<exists>d'. streamer_read (drq_from k bus) ?s1 (drop m out) (int (n - m)) stack (d1, c) =
        Some (OK, disk_bytes (\<alpha> d) (p + m) (n - m) @ drop n out, s\<lparr>ds_pos := int (p + n)\<rparr>, d', Suc k)"
      using disk_bytes_same [OF d1(2)] m(2) by auto
    have "\<exists>d'. streamer_read (drq_from k bus) s out (int n) stack (d, c) =
        Some (OK, disk_bytes (\<alpha> d) p n @ drop n out, s\<lparr>ds_pos := int (p + n)\<rparr>, d', Suc k)" if "c + (j + j') \<le> k" for k c
      using streamer_read_over [OF j [of c k] sok(2) less.prems(2-4,6) m(3,2)] rest [of "c + j" k] that
        sector_slice [OF sok(1), of p m] m(3) disk_bytes_split [OF m(2), of "\<alpha> d" p, symmetric] by auto
    moreover have "streamer_read bus s out (int n) stack d = None"
      using streamer_read_over [OF d1(1) sok(2) less.prems(2-4,6) m(3,2)] none by simp
    ultimately show ?thesis by blast
  qed
qed

subsection \<open>Properties of the disk streams\<close>

text \<open>
  A drive for the concrete instances below: it follows the protocol, is busy for three reads of the status
  register and ignores what it is sent while it is busy. \<open>sample_drive\<close> has four sectors filled with the byte 7.
\<close>

definition sim_insb :: "ata \<times> nat \<Rightarrow> u8 \<times> ata \<times> nat" where
  "sim_insb = (\<lambda>(a, n). let a = (if n = 0 then a\<lparr>ata_busy := False\<rparr> else a)
     in (if ata_busy a then 0x80 else if in_transfer a then 0x58 else 0x50, a, n - 1))"

definition sim_bus :: "(ata \<times> nat) bus" where
  "sim_bus = idle_bus\<lparr>
     bus_outb := (\<lambda>p v (a, n). if ata_ready a then (ata_outb p v a, 2) else (a, n)),
     bus_outw := (\<lambda>p w (a, n). if p = 0x1f0 \<and> ata_drq a then (ata_outw w a, 2) else (a, n)),
     bus_insw := (\<lambda>p (a, n). if p = 0x1f0 \<and> ata_drq a then (fst (ata_insw a), snd (ata_insw a), 2) else (0, a, n)),
     bus_insb := (\<lambda>p d. if p = 0x1f7 then sim_insb d else (0, d))\<rparr>"

definition sample_drive :: "ata \<times> nat" where
  "sample_drive = (\<lparr>ata_capacity = 4, ata_sectors = (\<lambda>_. replicate 512 7), ata_count = 0, ata_lba_low = 0,
     ata_lba_mid = 0, ata_lba_high = 0, ata_drive = 0, ata_phase = Idle, ata_busy = False\<rparr>, 0)"

definition sample_stream :: disk_stream where
  "sample_stream = \<lparr>ds_addr = 0x1000, ds_pos = 1000, ds_disk = The_Disk\<rparr>"

lemma sim_status: "bus_insb sim_bus 0x1f7 d = sim_insb d"
  by (simp add: sim_bus_def)

lemma poll_status_sim: "\<not> ata_busy (fst (poll_status sim_bus (Suc n) (a, n)))"
  by (induction n arbitrary: a) (simp_all add: sim_status sim_insb_def)

lemma sim_bus_device: "ata_device sim_bus fst"
  unfolding ata_device_def
proof (intro conjI allI impI ballI)
  fix d :: "ata \<times> nat"
  show "\<exists>n. \<not> ata_busy (fst (poll_status sim_bus n d))"
    by (cases d) (use poll_status_sim in blast)
  show "fst (snd (bus_insb sim_bus 0x1f7 d)) = fst d \<or>
      ata_busy (fst d) \<and> fst (snd (bus_insb sim_bus 0x1f7 d)) = (fst d)\<lparr>ata_busy := False\<rparr>"
    by (cases d) (auto simp: sim_status sim_insb_def)
  show "(fst (bus_insb sim_bus 0x1f7 d) AND 0x80 \<noteq> 0) = ata_busy (fst (snd (bus_insb sim_bus 0x1f7 d)))"
    "(fst (bus_insb sim_bus 0x1f7 d) AND 0x08 \<noteq> 0) = ata_drq (fst (snd (bus_insb sim_bus 0x1f7 d)))"
    by (cases d, simp add: sim_status sim_insb_def Let_def ata_drq_def)+
qed (auto simp: sim_bus_def idle_bus_def split: prod.splits)

lemma sample_drive_ok: "drive_ok (fst sample_drive)"
  by (simp add: sample_drive_def drive_ok_def sectors_ok_def ata_ready_def in_transfer_def)

text \<open>
  (C17) On a drive that follows the ATA protocol and is ready for a command, \<open>streamer_read\<close> returns and delivers
  exactly the bytes of the disk at the stream position, across any number of sectors, leaves the rest of the
  output object alone, advances the position by the length, does not change the disk and leaves the drive ready.
  The read has to end before the last byte of the drive.
\<close>

theorem streamer_read_exact:
  assumes "ata_device bus \<alpha>" "drive_ok (\<alpha> d)" "ds_disk s = The_Disk" "ds_pos s = int p" "p + n < 2 ^ 31"
    "p + n < 512 * ata_capacity (\<alpha> d)" "n \<le> length out" "length stack = 512"
  shows "\<exists>d'. streamer_read bus s out (int n) stack d =
      Some (OK, disk_bytes (\<alpha> d) p n @ drop n out, s\<lparr>ds_pos := int (p + n)\<rparr>, d') \<and> same_disk (\<alpha> d) (\<alpha> d')"
  by (rule streamer_read_bytes [OF assms])

theorem streamer_read_exact_witness:
  "\<exists>d'. streamer_read sim_bus sample_stream (replicate 100 0) (int 100) (replicate 512 0) sample_drive =
     Some (OK, disk_bytes (fst sample_drive) 1000 100 @ drop 100 (replicate 100 0),
           sample_stream\<lparr>ds_pos := int (1000 + 100)\<rparr>, d') \<and> same_disk (fst sample_drive) (fst d')"
  by (rule streamer_read_exact [OF sim_bus_device sample_drive_ok])
    (simp_all add: sample_stream_def sample_drive_def)

text \<open>
  (C20) What \<open>streamer_write\<close> stores inside a sector, \<open>streamer_read\<close> from the same position delivers: on a drive that
  is ready the write succeeds, changes no other byte of the disk and leaves the drive busy; it is no longer busy after
  finitely many reads of its status, and a read at any such time delivers what was written. The write must not reach
  the end of the sector: the driver does not wait for a busy drive, and would send it the next command at once.
\<close>

theorem streamer_write_read:
  assumes "ata_device bus \<alpha>" "drive_ok (\<alpha> d)" "ds_disk s = The_Disk" "ds_pos s = int p" "p + n < 2 ^ 31"
    "p + n < 512 * ata_capacity (\<alpha> d)" "p mod 512 + n < 512" "length inp = n" "length stack = 512" "n \<le> length out"
  shows "\<exists>d1. streamer_write bus s inp (int n) stack d = Some (OK, s\<lparr>ds_pos := int (p + n)\<rparr>, d1) \<and>
    (\<forall>m. m < p \<or> p + n \<le> m \<longrightarrow> disk_byte (\<alpha> d1) m = disk_byte (\<alpha> d) m) \<and>
    (\<exists>k. \<not> ata_busy (\<alpha> (poll_status bus k d1))) \<and>
    (\<forall>k. \<not> ata_busy (\<alpha> (poll_status bus k d1)) \<longrightarrow>
      (\<exists>d2. streamer_read bus s out (int n) stack (poll_status bus k d1) =
         Some (OK, inp @ drop n out, s\<lparr>ds_pos := int (p + n)\<rparr>, d2)))"
proof -
  have pd: "p div 512 < ata_capacity (\<alpha> d)" using assms(6) by (simp add: less_mult_imp_div_less mult.commute)
  obtain d1 where d1: "streamer_write bus s inp (int n) stack d = Some (OK, s\<lparr>ds_pos := int (p + n)\<rparr>, d1)"
      "written (\<alpha> d) p n inp (\<alpha> d1)"
    using streamer_write_within [OF assms(1-5) pd assms(7) _ assms(9)] assms(8) by auto
  have cap: "ata_capacity (\<alpha> d) \<le> 2 ^ 28" using assms(2) by (simp add: drive_ok_def)
  have "disk_bytes (\<alpha> d1) p n = inp"
    using d1(2) assms(8) by (intro nth_equalityI) (auto simp: disk_bytes_def written_def)
  then have "\<exists>d2. streamer_read bus s out (int n) stack (poll_status bus k d1) =
      Some (OK, inp @ drop n out, s\<lparr>ds_pos := int (p + n)\<rparr>, d2)" if "\<not> ata_busy (\<alpha> (poll_status bus k d1))" for k
    using streamer_read_bytes [OF assms(1) written_settles(1) [OF assms(1) d1(2) cap that] assms(3-5) _ assms(10,9)]
      written_settles(2,3) [OF assms(1) d1(2) cap that] assms(6) by (auto simp: disk_bytes_def)
  then show ?thesis using d1 ata_deviceD(7) [OF assms(1), of d1] by (auto simp: written_def)
qed

theorem streamer_write_read_witness:
  "\<exists>d1 k d2. streamer_write sim_bus sample_stream (replicate 20 9) (int 20) (replicate 512 0) sample_drive =
     Some (OK, sample_stream\<lparr>ds_pos := int (1000 + 20)\<rparr>, d1) \<and>
   streamer_read sim_bus sample_stream (replicate 20 0) (int 20) (replicate 512 0) (poll_status sim_bus k d1) =
     Some (OK, replicate 20 9 @ drop 20 (replicate 20 0), sample_stream\<lparr>ds_pos := int (1000 + 20)\<rparr>, d2)"
proof -
  have "ds_disk sample_stream = The_Disk" "ds_pos sample_stream = int 1000" "1000 + 20 < 512 * ata_capacity (fst sample_drive)"
    by (simp_all add: sample_stream_def sample_drive_def)
  from streamer_write_read [OF sim_bus_device sample_drive_ok this(1,2) _ this(3), of "replicate 20 9" "replicate 512 0" "replicate 20 0"]
  show ?thesis by (simp del: drop_replicate) blast
qed

text \<open>
  (C39) A read that ends exactly at the last byte of the drive polls forever: because the overflow test uses \<open>>=\<close>, it goes
  on to fetch zero bytes from the sector after the last one, and waits for data the drive refuses to deliver. It does not
  return, and this is not because of a fault: for every large enough number \<open>k\<close>, were the data-request bit to appear at
  the read number \<open>k\<close> of the status register, the function would return after exactly this read, with success, all the
  bytes of the disk delivered and the position advanced. So it makes every one of these reads.
\<close>

theorem streamer_read_end_of_disk_hangs:
  assumes "ata_device bus \<alpha>" "drive_ok (\<alpha> d)" "ds_disk s = The_Disk" "ds_pos s = int p" "p + n < 2 ^ 31"
    "p + n = 512 * ata_capacity (\<alpha> d)" "n \<le> length out" "length stack = 512"
  shows "streamer_read bus s out (int n) stack d = None \<and>
    (\<exists>j. \<forall>k \<ge> j. \<exists>d'. streamer_read (drq_from k bus) s out (int n) stack (d, 0) =
      Some (OK, disk_bytes (\<alpha> d) p n @ drop n out, s\<lparr>ds_pos := int (p + n)\<rparr>, d', Suc k))"
  using streamer_read_to_the_end [OF assms] by (metis add_0)

theorem streamer_read_end_of_disk_hangs_witness:
  "streamer_read sim_bus sample_stream (replicate 1048 0) (int 1048) (replicate 512 0) sample_drive = None \<and>
   (\<exists>j. \<forall>k \<ge> j. \<exists>d'. streamer_read (drq_from k sim_bus) sample_stream (replicate 1048 0) (int 1048) (replicate 512 0) (sample_drive, 0) =
      Some (OK, disk_bytes (fst sample_drive) 1000 1048 @ drop 1048 (replicate 1048 0), sample_stream\<lparr>ds_pos := int (1000 + 1048)\<rparr>, d', Suc k))"
  by (rule streamer_read_end_of_disk_hangs [OF sim_bus_device sample_drive_ok])
    (simp_all add: sample_stream_def sample_drive_def)

end
