(* ===== verification/Phys_Mem.thy ===== *)
theory Phys_Mem
  imports Kernel_Heap
begin

section \<open>Physical memory\<close>

text \<open>
  The byte-addressed memory the kernel reaches through raw 32-bit pointers (page directories and
  tables, user stacks): little-endian word access, \<open>memset\<close> through a raw pointer and the
  \<open>kzalloc\<close> of \<^verbatim>\<open>kheap.c\<close> on it. Addresses wrap at 32 bits.
\<close>

type_synonym mem = "u32 \<Rightarrow> u8"

definition rd32 :: "mem \<Rightarrow> u32 \<Rightarrow> u32" where
  "rd32 m a = ucast (m a) OR push_bit 8 (ucast (m (a + 1))) OR
              push_bit 16 (ucast (m (a + 2))) OR push_bit 24 (ucast (m (a + 3)))"

definition wr32 :: "mem \<Rightarrow> u32 \<Rightarrow> u32 \<Rightarrow> mem" where
  "wr32 m a v = m(a := ucast v, a + 1 := ucast (drop_bit 8 v), a + 2 := ucast (drop_bit 16 v),
                  a + 3 := ucast (drop_bit 24 v))"

fun mem_fill :: "mem \<Rightarrow> u32 \<Rightarrow> u8 \<Rightarrow> nat \<Rightarrow> mem" where
  "mem_fill m p c 0 = m"
| "mem_fill m p c (Suc n) = (mem_fill m p c n)(p + of_nat n := c)"

definition kzalloc_mem :: "u32 \<Rightarrow> heap \<Rightarrow> mem \<Rightarrow> u32 \<times> heap \<times> mem" where
  "kzalloc_mem sz h m =
     (let (ptr, h') = kmalloc sz h
      in if ptr = 0 then (0, h', m) else (ptr, h', mem_fill m ptr 0 (unat sz)))"

subsection \<open>Words in memory\<close>

definition aligned4 :: "u32 \<Rightarrow> bool" where
  "aligned4 a \<longleftrightarrow> 4 dvd unat a"

lemma rd32_wr32_same [simp]: "rd32 (wr32 m a v) a = v"
proof -
  have "a + 3 \<noteq> a" "a + 2 \<noteq> a" "a + 1 \<noteq> a" "a + 3 \<noteq> a + 1" "a + 2 \<noteq> a + 1" "a + 3 \<noteq> a + 2"
    by simp_all
  then have "bit (rd32 (wr32 m a v) a) n = bit v n" if "n < 32" for n
    using that le_add_diff_inverse [of 24 n]
    by (cases "n < 8"; cases "n < 16"; cases "n < 24")
      (auto simp: rd32_def wr32_def bit_simps simp del: le_add_diff_inverse)
  then show ?thesis by (intro bit_word_eqI) simp
qed

text \<open>The page number and the offset of an address decide which bytes two accesses share.\<close>

lemma unat_add_small: "unat a + k < 2 ^ 32 \<Longrightarrow> unat (a + of_nat k) = unat a + k" for a :: u32
  by (simp add: unat_word_ariths unat_of_nat)

lemma aligned4_bytes:
  assumes "aligned4 a" "i < 4"
  shows "unat (a + of_nat i) = unat a + i"
proof (rule unat_add_small)
  obtain k where k: "unat a = 4 * k" using assms(1) by (auto simp: aligned4_def elim: dvdE)
  then have "4 * k < 4 * 2 ^ 30" using unat_less_power [of a] by simp
  then have "k < 2 ^ 30" by simp
  then show "unat a + i < 2 ^ 32" using k assms(2) by simp
qed

lemma aligned4_disjoint:
  assumes "aligned4 a" "aligned4 b" "a \<noteq> b" "i < 4" "j < 4"
  shows "a + of_nat i \<noteq> b + of_nat j"
proof
  assume "a + of_nat i = b + of_nat j"
  then have "unat a + i = unat b + j" using aligned4_bytes assms by metis
  moreover obtain k l where "unat a = 4 * k" "unat b = 4 * l"
    using assms(1,2) by (auto simp: aligned4_def elim!: dvdE)
  ultimately have "unat a = unat b" using assms(4,5) by presburger
  then show False using assms(3) word_eq_unatI by blast
qed

lemma rd32_wr32_other:
  assumes "aligned4 a" "aligned4 b" "a \<noteq> b"
  shows "rd32 (wr32 m a v) b = rd32 m b"
proof -
  have "b + of_nat j \<noteq> a + of_nat i" if "i < 4" "j < 4" for i j
    using aligned4_disjoint [OF assms(2,1)] assms(3) that by metis
  from this [of 0 0] this [of 1 0] this [of 2 0] this [of 3 0]
    this [of 0 1] this [of 1 1] this [of 2 1] this [of 3 1]
    this [of 0 2] this [of 1 2] this [of 2 2] this [of 3 2]
    this [of 0 3] this [of 1 3] this [of 2 3] this [of 3 3]
  show ?thesis by (simp add: rd32_def wr32_def)
qed

lemma wr32_other_byte:
  assumes "aligned4 a" "unat x < unat a \<or> unat a + 4 \<le> unat x"
  shows "wr32 m a v x = m x"
proof -
  have "x \<noteq> a + of_nat i" if "i < 4" for i
    using aligned4_bytes [OF assms(1) that] assms(2) that by auto
  from this [of 0] this [of 1] this [of 2] this [of 3] show ?thesis by (simp add: wr32_def)
qed

lemma rd32_cong:
  assumes "\<And>i. i < 4 \<Longrightarrow> m (a + of_nat i) = m' (a + of_nat i)"
  shows "rd32 m a = rd32 m' a"
  using assms [of 0] assms [of 1] assms [of 2] assms [of 3] by (simp add: rd32_def)

lemma mem_fill_eq:
  assumes "unat p + n \<le> 2 ^ 32"
  shows "mem_fill m p c n x = (if unat p \<le> unat x \<and> unat x < unat p + n then c else m x)"
  using assms
proof (induction n)
  case (Suc n)
  have "unat (p + of_nat n) = unat p + n" using Suc.prems by (simp add: unat_add_small)
  then have "x = p + of_nat n \<longleftrightarrow> unat x = unat p + n" by (auto simp: word_unat_eq_iff)
  then show ?case using Suc by (auto simp: less_Suc_eq)
qed auto

end
