(* ===== verification/Paging.thy ===== *)
theory Paging
  imports Phys_Mem
begin

section \<open>Paging\<close>

text \<open>
  \<^verbatim>\<open>src/src/memory/paging/paging.c\<close>: page directories and page tables are arrays of 1024 words in
  physical memory; a \<open>paging_4gb_chunk\<close> is one word of memory holding the address of its
  directory. Every operation that writes memory returns the new memory; those that allocate also
  return the new heap. \<open>paging_load_directory\<close> (assembly) loads the register CR3, which is part of
  the processor state here.
\<close>

definition PAGING_CACHE_DISABLED :: u32 where [kernel_consts]: "PAGING_CACHE_DISABLED = 0b00010000"
definition PAGING_WRITE_THROUGH :: u32 where [kernel_consts]: "PAGING_WRITE_THROUGH = 0b00001000"
definition PAGING_ACCESS_FROM_ALL :: u32 where [kernel_consts]: "PAGING_ACCESS_FROM_ALL = 0b00000100"
definition PAGING_IS_WRITEABLE :: u32 where [kernel_consts]: "PAGING_IS_WRITEABLE = 0b00000010"
definition PAGING_IS_PRESENT :: u32 where [kernel_consts]: "PAGING_IS_PRESENT = 0b00000001"
definition PAGING_TOTAL_ENTRIES_PER_TABLE :: nat where
  [kernel_consts]: "PAGING_TOTAL_ENTRIES_PER_TABLE = 1024"
definition PAGING_PAGE_SIZE :: u32 where [kernel_consts]: "PAGING_PAGE_SIZE = 4096"

text \<open>The two registers of the paging code: the current directory and the processor's CR3.\<close>

record paging_regs =
  current_directory :: u32
  cr3 :: u32

text \<open>\<open>directory_entry\<close> is the only field of \<open>struct paging_4gb_chunk\<close>.\<close>

definition directory_entry :: "mem \<Rightarrow> u32 \<Rightarrow> u32" where
  "directory_entry m chunk = rd32 m chunk"

definition word_at :: "u32 \<Rightarrow> nat \<Rightarrow> u32" where
  "word_at p i = p + 4 * of_nat i"

subsection \<open>Creating and freeing address spaces\<close>

text \<open>The inner loop of \<open>paging_new_4gb\<close> fills one table, the outer one allocates 1024 of them.\<close>

definition fill_table :: "mem \<Rightarrow> u32 \<Rightarrow> u32 \<Rightarrow> u8 \<Rightarrow> mem" where
  "fill_table m ent offset flags =
     fold (\<lambda>j m. wr32 m (word_at ent j) ((offset + of_nat j * PAGING_PAGE_SIZE) OR ucast flags))
       [0 ..< PAGING_TOTAL_ENTRIES_PER_TABLE] m"

definition new_table :: "u32 \<Rightarrow> u8 \<Rightarrow> nat \<Rightarrow> heap \<times> mem \<times> u32 \<Rightarrow> heap \<times> mem \<times> u32" where
  "new_table directory flags i = (\<lambda>(h, m, offset).
     let (ent, h, m) = kzalloc_mem (4 * of_nat PAGING_TOTAL_ENTRIES_PER_TABLE) h m;
         m = fill_table m ent offset flags;
         offset = offset + of_nat PAGING_TOTAL_ENTRIES_PER_TABLE * PAGING_PAGE_SIZE;
         m = wr32 m (word_at directory i) (ent OR ucast flags OR PAGING_IS_WRITEABLE)
     in (h, m, offset))"

definition paging_new_4gb :: "u8 \<Rightarrow> heap \<Rightarrow> mem \<Rightarrow> u32 \<times> heap \<times> mem" where
  "paging_new_4gb flags h m =
     (let (directory, h, m) = kzalloc_mem (4 * of_nat PAGING_TOTAL_ENTRIES_PER_TABLE) h m;
          (h, m, offset) = fold (new_table directory flags) [0 ..< PAGING_TOTAL_ENTRIES_PER_TABLE] (h, m, 0);
          (chunk_4gb, h, m) = kzalloc_mem 4 h m;
          m = wr32 m chunk_4gb directory
      in (chunk_4gb, h, m))"

definition paging_switch :: "mem \<Rightarrow> u32 \<Rightarrow> paging_regs \<Rightarrow> paging_regs" where
  "paging_switch m chunk r = r\<lparr>cr3 := directory_entry m chunk, current_directory := directory_entry m chunk\<rparr>"

definition paging_free_4gb :: "mem \<Rightarrow> u32 \<Rightarrow> heap \<Rightarrow> heap" where
  "paging_free_4gb m chunk h =
     (let h = fold (\<lambda>i h. let ent = rd32 m (word_at (directory_entry m chunk) i);
                              table = ent AND 0xfffff000
                          in kfree table h)
                [0 ..< PAGING_TOTAL_ENTRIES_PER_TABLE] h;
          h = kfree (directory_entry m chunk) h
      in kfree chunk h)"

definition paging_4gb_chunk_get_directory :: "mem \<Rightarrow> u32 \<Rightarrow> u32" where
  "paging_4gb_chunk_get_directory m chunk = directory_entry m chunk"

subsection \<open>Indices and alignment\<close>

definition paging_is_aligned :: "u32 \<Rightarrow> bool" where
  "paging_is_aligned addr \<longleftrightarrow> addr mod PAGING_PAGE_SIZE = 0"

text \<open>
  The two out parameters are returned with the status; on an unaligned address the code leaves
  them as the caller set them, which is zero in every caller.
\<close>

definition paging_get_indexes :: "u32 \<Rightarrow> u32 \<times> u32 \<Rightarrow> int \<times> u32 \<times> u32" where
  "paging_get_indexes virtual_addr out =
     (if \<not> paging_is_aligned virtual_addr then (- EINVARG, out)
      else (OK, virtual_addr div (of_nat PAGING_TOTAL_ENTRIES_PER_TABLE * PAGING_PAGE_SIZE),
            virtual_addr mod (of_nat PAGING_TOTAL_ENTRIES_PER_TABLE * PAGING_PAGE_SIZE) div PAGING_PAGE_SIZE))"

definition paging_align_address :: "u32 \<Rightarrow> u32" where
  "paging_align_address ptr =
     (if ptr mod PAGING_PAGE_SIZE \<noteq> 0 then ptr + PAGING_PAGE_SIZE - ptr mod PAGING_PAGE_SIZE else ptr)"

definition paging_align_to_lower_page :: "u32 \<Rightarrow> u32" where
  "paging_align_to_lower_page addr = addr - addr mod PAGING_PAGE_SIZE"

subsection \<open>Reading and writing entries\<close>

definition paging_set :: "u32 \<Rightarrow> u32 \<Rightarrow> u32 \<Rightarrow> mem \<Rightarrow> int \<times> mem" where
  "paging_set directory virt val m =
     (if virt = 0 \<or> \<not> paging_is_aligned virt \<or> directory = 0 then (- EINVARG, m)
      else let (res, directory_index, table_index) = paging_get_indexes virt (0, 0)
           in if res < 0 then (res, m)
              else let ent = rd32 m (directory + 4 * directory_index);
                       table = ent AND 0xfffff000
                   in (OK, wr32 m (table + 4 * table_index) val))"

definition paging_get :: "u32 \<Rightarrow> u32 \<Rightarrow> mem \<Rightarrow> u32" where
  "paging_get directory virt m =
     (if directory = 0 \<or> virt = 0 then word_of_int (- EINVARG)
      else let (res, directory_index, table_index) = paging_get_indexes virt (0, 0);
               ent = rd32 m (directory + 4 * directory_index);
               table = ent AND 0xfffff000
           in rd32 m (table + 4 * table_index))"

definition paging_get_physical_address :: "u32 \<Rightarrow> u32 \<Rightarrow> mem \<Rightarrow> u32" where
  "paging_get_physical_address directory virt m =
     (if directory = 0 \<or> virt = 0 then 0
      else let virt_addr_new = paging_align_to_lower_page virt;
               difference = virt - virt_addr_new
           in (paging_get directory virt_addr_new m AND 0xfffff000) + difference)"

subsection \<open>Mapping\<close>

definition paging_map :: "u32 \<Rightarrow> u32 \<Rightarrow> u32 \<Rightarrow> int \<Rightarrow> mem \<Rightarrow> int \<times> mem" where
  "paging_map directory virt phys flags m =
     (if virt mod PAGING_PAGE_SIZE \<noteq> 0 \<or> phys mod PAGING_PAGE_SIZE \<noteq> 0 then (- EINVARG, m)
      else paging_set (directory_entry m directory) virt (phys OR word_of_int flags) m)"

text \<open>The loop of \<open>paging_map_range\<close>, with the number of pages still to map.\<close>

fun map_range_loop :: "u32 \<Rightarrow> u32 \<Rightarrow> u32 \<Rightarrow> nat \<Rightarrow> int \<Rightarrow> mem \<Rightarrow> int \<times> mem" where
  "map_range_loop directory virt phys 0 flags m = (OK, m)"
| "map_range_loop directory virt phys (Suc n) flags m =
     (let (res, m) = paging_map directory virt phys flags m
      in if res < 0 then (res, m)
         else map_range_loop directory (virt + PAGING_PAGE_SIZE) (phys + PAGING_PAGE_SIZE) n flags m)"

definition paging_map_range :: "u32 \<Rightarrow> u32 \<Rightarrow> u32 \<Rightarrow> int \<Rightarrow> int \<Rightarrow> mem \<Rightarrow> int \<times> mem" where
  "paging_map_range directory virt phys count flags m = map_range_loop directory virt phys (nat count) flags m"

definition paging_map_to :: "u32 \<Rightarrow> u32 \<Rightarrow> u32 \<Rightarrow> u32 \<Rightarrow> int \<Rightarrow> mem \<Rightarrow> int \<times> mem" where
  "paging_map_to directory virt phys phys_end flags m =
     (if virt mod PAGING_PAGE_SIZE \<noteq> 0 then (- EINVARG, m)
      else if phys mod PAGING_PAGE_SIZE \<noteq> 0 then (- EINVARG, m)
      else if phys_end mod PAGING_PAGE_SIZE \<noteq> 0 then (- EINVARG, m)
      else if phys_end < phys then (- EINVARG, m)
      else let total_bytes = phys_end - phys;
               total_pages = total_bytes div PAGING_PAGE_SIZE
           in paging_map_range directory virt phys (sint total_pages) flags m)"

subsection \<open>Page-aligned addresses\<close>

lemma page_mask: "(0xfffff000 :: u32) = NOT (mask 12)"
  by (simp add: mask_eq_exp_minus_1)

lemma paging_is_aligned_take_bit: "paging_is_aligned p \<longleftrightarrow> take_bit 12 p = 0"
  by (simp add: paging_is_aligned_def PAGING_PAGE_SIZE_def take_bit_eq_mod)

lemma paging_is_aligned_iff: "paging_is_aligned p \<longleftrightarrow> 4096 dvd unat p"
  by (simp add: paging_is_aligned_def PAGING_PAGE_SIZE_def word_unat_eq_iff unat_mod dvd_eq_mod_eq_0)

lemma aligned_masked [simp]: "paging_is_aligned (x AND 0xfffff000)"
  unfolding paging_is_aligned_take_bit page_mask by (rule bit_word_eqI) (auto simp: bit_simps)

lemma masked_flags:
  assumes "paging_is_aligned p" "take_bit 12 f = f"
  shows "(p OR f) AND 0xfffff000 = p"
proof -
  have p: "\<not> bit p n" if "n < 12" for n
    using assms(1) that unfolding paging_is_aligned_take_bit by (metis bit_0_eq bit_take_bit_iff bot_apply bot_bool_def)
  have f: "n < 12" if "bit f n" for n
    using assms(2) that by (metis bit_take_bit_iff)
  show ?thesis
    unfolding page_mask by (rule bit_word_eqI) (use p f in \<open>auto simp: bit_simps\<close>)
qed

lemma aligned_lt: "paging_is_aligned p \<Longrightarrow> unat p + 4096 \<le> 2 ^ 32"
proof -
  assume "paging_is_aligned p"
  then obtain k where k: "unat p = 4096 * k" by (auto simp: paging_is_aligned_iff elim: dvdE)
  then have "4096 * k < 4096 * 2 ^ 20" using unat_less_power [of p] by simp
  then have "k < 2 ^ 20" by simp
  then show ?thesis using k by simp
qed

lemma unat_word_at:
  assumes "paging_is_aligned p" "i < 1024"
  shows "unat (word_at p i) = unat p + 4 * i"
  using unat_add_small [of p "4 * i"] aligned_lt [OF assms(1)] assms(2) by (simp add: word_at_def)

lemma aligned4_word_at: "paging_is_aligned p \<Longrightarrow> i < 1024 \<Longrightarrow> aligned4 (word_at p i)"
  using dvd_trans [of 4 4096 "unat p"] by (simp add: aligned4_def unat_word_at paging_is_aligned_iff)

lemma word_at_eq_iff:
  assumes "paging_is_aligned p" "paging_is_aligned q" "i < 1024" "j < 1024"
  shows "word_at p i = word_at q j \<longleftrightarrow> p = q \<and> i = j"
proof
  assume "word_at p i = word_at q j"
  then have eq: "unat p + 4 * i = unat q + 4 * j" using unat_word_at assms by metis
  obtain k l where kl: "unat p = 4096 * k" "unat q = 4096 * l"
    using assms(1,2) by (auto simp: paging_is_aligned_iff elim!: dvdE)
  then have "k = l" using eq assms(3,4) by linarith
  then show "p = q \<and> i = j" using kl eq by (auto intro: word_eq_unatI)
qed simp

lemma word_at_0 [simp]: "word_at p 0 = p"
  by (simp add: word_at_def)

lemma rd32_wr32_word_at:
  assumes "paging_is_aligned p" "paging_is_aligned q" "i < 1024" "j < 1024"
  shows "rd32 (wr32 m (word_at p i) v) (word_at q j) =
           (if p = q \<and> i = j then v else rd32 m (word_at q j))"
  using rd32_wr32_other [OF aligned4_word_at aligned4_word_at, of p i q j] assms
    word_at_eq_iff [OF assms] by auto

subsection \<open>Directories\<close>

definition table_of :: "mem \<Rightarrow> u32 \<Rightarrow> nat \<Rightarrow> u32" where
  "table_of m dir i = rd32 m (word_at dir i) AND 0xfffff000"

definition dir_index :: "u32 \<Rightarrow> nat" where
  "dir_index v = unat v div 2 ^ 22"

definition table_index :: "u32 \<Rightarrow> nat" where
  "table_index v = unat v mod 2 ^ 22 div 4096"

text \<open>
  A well-formed directory: page aligned, and its 1024 tables are pages of their own, different
  from each other and from the directory. A chunk is well formed when its directory is and the
  chunk itself lies in none of these pages.
\<close>

definition directory_ok :: "mem \<Rightarrow> u32 \<Rightarrow> bool" where
  "directory_ok m dir \<longleftrightarrow> dir \<noteq> 0 \<and> paging_is_aligned dir \<and>
     (\<forall>i < 1024. table_of m dir i \<noteq> dir) \<and>
     (\<forall>i < 1024. \<forall>j < 1024. table_of m dir i = table_of m dir j \<longrightarrow> i = j)"

definition chunk_ok :: "mem \<Rightarrow> u32 \<Rightarrow> bool" where
  "chunk_ok m chunk \<longleftrightarrow> paging_is_aligned chunk \<and> directory_ok m (directory_entry m chunk) \<and>
     (\<forall>i < 1024. table_of m (directory_entry m chunk) i \<noteq> chunk)"

lemma dir_index_less [simp]: "dir_index v < 1024"
  using unat_less_power [of v] by (simp add: dir_index_def less_mult_imp_div_less)

lemma table_index_less [simp]: "table_index v < 1024"
  by (simp add: table_index_def less_mult_imp_div_less)

lemma aligned_table [simp]: "paging_is_aligned (table_of m dir i)"
  by (simp add: table_of_def)

lemma indexes_inj:
  assumes "paging_is_aligned v" "paging_is_aligned w" "dir_index v = dir_index w" "table_index v = table_index w"
  shows "v = w"
proof -
  have split: "unat x = 2 ^ 22 * dir_index x + 4096 * table_index x" if "paging_is_aligned x" for x
  proof -
    have "4096 dvd unat x mod 2 ^ 22"
      using that dvd_mod [of 4096 "unat x" "2 ^ 22"] by (simp add: paging_is_aligned_iff)
    then have "4096 * (unat x mod 2 ^ 22 div 4096) = unat x mod 2 ^ 22" by (rule dvd_mult_div_cancel)
    then show ?thesis unfolding dir_index_def table_index_def by simp
  qed
  show ?thesis using split [OF assms(1)] split [OF assms(2)] assms(3,4) by (auto intro: word_eq_unatI)
qed

lemma paging_get_indexes_aligned:
  assumes "paging_is_aligned v"
  shows "paging_get_indexes v out = (OK, of_nat (dir_index v), of_nat (table_index v))"
proof -
  have "v div 0x400000 = of_nat (dir_index v)" "v mod 0x400000 div 4096 = of_nat (table_index v)"
    using dir_index_less [of v] table_index_less [of v]
    by (auto simp: word_unat_eq_iff unat_div unat_mod unat_of_nat dir_index_def table_index_def
        simp del: dir_index_less table_index_less)
  then show ?thesis using assms by (simp add: paging_get_indexes_def kernel_consts)
qed

definition pte_at :: "mem \<Rightarrow> u32 \<Rightarrow> u32 \<Rightarrow> u32" where
  "pte_at m dir v = word_at (table_of m dir (dir_index v)) (table_index v)"

lemma paging_get_eq:
  "dir \<noteq> 0 \<Longrightarrow> v \<noteq> 0 \<Longrightarrow> paging_is_aligned v \<Longrightarrow> paging_get dir v m = rd32 m (pte_at m dir v)"
  by (simp add: paging_get_def paging_get_indexes_aligned pte_at_def table_of_def word_at_def Let_def)

lemma paging_set_eq:
  "dir \<noteq> 0 \<Longrightarrow> v \<noteq> 0 \<Longrightarrow> paging_is_aligned v \<Longrightarrow>
   paging_set dir v val m = (OK, wr32 m (pte_at m dir v) val)"
  by (simp add: paging_set_def paging_get_indexes_aligned pte_at_def table_of_def word_at_def Let_def kernel_consts)

lemma directory_okD:
  assumes "directory_ok m dir"
  shows "dir \<noteq> 0" "paging_is_aligned dir" "i < 1024 \<Longrightarrow> table_of m dir i \<noteq> dir"
    "i < 1024 \<Longrightarrow> j < 1024 \<Longrightarrow> table_of m dir i = table_of m dir j \<longleftrightarrow> i = j"
  using assms unfolding directory_ok_def by metis+

lemma chunk_okD:
  assumes "chunk_ok m chunk"
  shows "paging_is_aligned chunk" "directory_ok m (directory_entry m chunk)"
    "i < 1024 \<Longrightarrow> table_of m (directory_entry m chunk) i \<noteq> chunk"
  using assms by (auto simp: chunk_ok_def)

lemma paging_is_aligned_next [simp]: "paging_is_aligned (p + 4096) \<longleftrightarrow> paging_is_aligned p"
  using dvd_mod_iff [of 4096 "2 ^ 32" "unat p + 4096"]
  by (simp add: paging_is_aligned_iff unat_word_ariths)

lemma table_of_wr32:
  assumes "paging_is_aligned dir" "paging_is_aligned p" "p \<noteq> dir" "i < 1024" "j < 1024"
  shows "table_of (wr32 m (word_at p j) val) dir i = table_of m dir i"
  using assms by (auto simp: table_of_def rd32_wr32_word_at)

lemma directory_ok_wr32:
  assumes "directory_ok m dir" "paging_is_aligned p" "p \<noteq> dir" "j < 1024"
  shows "directory_ok (wr32 m (word_at p j) val) dir"
proof -
  have "table_of (wr32 m (word_at p j) val) dir i = table_of m dir i" if "i < 1024" for i
    using assms that by (intro table_of_wr32) (auto simp: directory_ok_def)
  then show ?thesis
    using assms(1) unfolding directory_ok_def by simp
qed

lemma directory_ok_pte:
  assumes "directory_ok m dir"
  shows "directory_ok (wr32 m (pte_at m dir v) val) dir"
  unfolding pte_at_def using assms directory_okD(3) by (intro directory_ok_wr32) auto

lemma pte_at_wr32_pte:
  assumes "directory_ok m dir"
  shows "pte_at (wr32 m (pte_at m dir v) val) dir w = pte_at m dir w"
  unfolding pte_at_def using directory_okD [OF assms] by (subst table_of_wr32) auto

lemma pte_at_eq_iff:
  assumes "directory_ok m dir" "paging_is_aligned v" "paging_is_aligned w"
  shows "pte_at m dir v = pte_at m dir w \<longleftrightarrow> v = w"
proof
  assume "pte_at m dir v = pte_at m dir w"
  then have "table_of m dir (dir_index v) = table_of m dir (dir_index w)" "table_index v = table_index w"
    by (auto simp: pte_at_def word_at_eq_iff)
  moreover from this have "dir_index v = dir_index w"
    using directory_okD(4) [OF assms(1)] by simp
  ultimately show "v = w" using indexes_inj assms(2,3) by blast
qed simp

lemma aligned4_pte [simp]: "aligned4 (pte_at m dir v)"
  by (simp add: pte_at_def aligned4_word_at)

lemma paging_get_after_set:
  assumes "directory_ok m dir" "v \<noteq> 0" "paging_is_aligned v" "w \<noteq> 0" "paging_is_aligned w"
    and "paging_set dir v val m = (res, m')"
  shows "res = OK" "directory_ok m' dir"
    "paging_get dir w m' = (if w = v then val else paging_get dir w m)"
proof -
  have "dir \<noteq> 0" using assms(1) by (simp add: directory_ok_def)
  then have m': "res = OK" "m' = wr32 m (pte_at m dir v) val"
    using assms(6) by (simp_all add: paging_set_eq assms(2,3))
  then show "res = OK" "directory_ok m' dir" using directory_ok_pte [OF assms(1)] by simp_all
  have "rd32 m' (pte_at m dir w) = (if w = v then val else rd32 m (pte_at m dir w))"
    using rd32_wr32_other [of "pte_at m dir v" "pte_at m dir w"] pte_at_eq_iff [OF assms(1,3,5)] m'
    by auto
  then show "paging_get dir w m' = (if w = v then val else paging_get dir w m)"
    using \<open>dir \<noteq> 0\<close> assms(4,5) pte_at_wr32_pte [OF assms(1)] m' by (simp add: paging_get_eq)
qed

subsection \<open>Ranges\<close>

lemma chunk_ok_paging_set:
  assumes "chunk_ok m chunk" "v \<noteq> 0" "paging_is_aligned v"
    and "paging_set (directory_entry m chunk) v val m = (res, m')"
  shows "chunk_ok m' chunk" "directory_entry m' chunk = directory_entry m chunk"
proof -
  let ?dir = "directory_entry m chunk"
  have dir: "directory_ok m ?dir" "?dir \<noteq> 0" "paging_is_aligned chunk" "paging_is_aligned ?dir"
    using chunk_okD [OF assms(1)] directory_okD by blast+
  have out: "table_of m ?dir i \<noteq> chunk" if "i < 1024" for i
    using chunk_okD(3) [OF assms(1) that] .
  have m': "m' = wr32 m (pte_at m ?dir v) val"
    using assms(2-4) dir(2) by (simp add: paging_set_eq)
  show de: "directory_entry m' chunk = ?dir"
    using rd32_wr32_word_at [of "table_of m ?dir (dir_index v)" chunk "table_index v" 0 m val]
      dir(3) out [of "dir_index v"] by (simp add: m' pte_at_def directory_entry_def)
  have ne: "table_of m ?dir (dir_index v) \<noteq> ?dir"
    using directory_okD(3) [OF dir(1)] by simp
  have "table_of m' ?dir i = table_of m ?dir i" if "i < 1024" for i
    unfolding m' pte_at_def using dir(4) ne that by (intro table_of_wr32) auto
  then show "chunk_ok m' chunk"
    using directory_ok_pte [OF dir(1)] dir(3) out m' unfolding chunk_ok_def de by auto
qed

lemma map_range_loop_spec:
  assumes "chunk_ok m chunk" "directory_entry m chunk = dir" "paging_is_aligned virt"
    "paging_is_aligned phys" "virt \<noteq> 0" "unat virt + n * 4096 \<le> 2 ^ 32"
    and "map_range_loop chunk virt phys n flags m = (res, m')"
  shows "res = OK \<and> chunk_ok m' chunk \<and> directory_entry m' chunk = dir \<and>
    (\<forall>i < n. paging_get dir (virt + of_nat i * 4096) m' = (phys + of_nat i * 4096) OR word_of_int flags) \<and>
    (\<forall>w. w \<noteq> 0 \<and> paging_is_aligned w \<and> (unat w < unat virt \<or> unat virt + n * 4096 \<le> unat w) \<longrightarrow>
         paging_get dir w m' = paging_get dir w m)"
  using assms
proof (induction n arbitrary: virt phys m)
  case (Suc n)
  obtain m1 r where set: "paging_set dir virt (phys OR word_of_int flags) m = (r, m1)" by force
  have dok: "directory_ok m dir" using Suc.prems(1,2) by (simp add: chunk_ok_def)
  note get = paging_get_after_set [OF dok Suc.prems(5,3) _ _ set]
  have r: "r = OK" using get(1) Suc.prems(3,5) by blast
  have map: "paging_map chunk virt phys flags m = (OK, m1)"
    using set r Suc.prems(2-4) by (simp add: paging_map_def paging_is_aligned_def)
  note chunk = chunk_ok_paging_set [OF Suc.prems(1,5,3), unfolded Suc.prems(2), OF set]
  show ?case
  proof (cases n)
    case 0
    then show ?thesis
      using Suc.prems map chunk get by (auto simp: kernel_consts)
  next
    case (Suc k)
    have virt: "unat (virt + 4096) = unat virt + 4096"
      using unat_add_small [of virt 4096] Suc.prems(6) Suc by simp
    then have al: "paging_is_aligned (virt + 4096)" "virt + 4096 \<noteq> 0" "paging_is_aligned (phys + 4096)"
      using Suc.prems(3,4) unat_0 by auto
    have "map_range_loop chunk (virt + 4096) (phys + 4096) n flags m1 = (res, m')"
      using Suc.prems(7) map by (simp add: kernel_consts)
    note ih = Suc.IH [OF chunk al(1,3,2) _ this, unfolded virt]
    have virt_get: "paging_get dir virt m' = phys OR word_of_int flags"
      using ih get(3) [of virt] Suc.prems(3,5,6) by simp
    have "paging_get dir (virt + of_nat i * 4096) m' = (phys + of_nat i * 4096) OR word_of_int flags"
      if "i < Suc n" for i
      using that ih Suc.prems(6) virt_get by (cases i) (simp_all add: algebra_simps)
    then show ?thesis using ih get(3) Suc.prems(6) by auto
  qed
qed (auto simp: kernel_consts)

subsection \<open>New address spaces\<close>

declare upt_rec_numeral [simp del]

lemma fold_wr32_word_at:
  assumes "paging_is_aligned p" "paging_is_aligned q" "n \<le> 1024" "j < 1024"
  shows "rd32 (fold (\<lambda>j m. wr32 m (word_at p j) (f j)) [0 ..< n] m) (word_at q j) =
           (if q = p \<and> j < n then f j else rd32 m (word_at q j))"
  using assms(3)
proof (induction n)
  case (Suc n)
  then show ?case using assms(1,2,4) by (auto simp: rd32_wr32_word_at less_Suc_eq)
qed simp

lemma fill_table_word_at:
  assumes "paging_is_aligned p" "paging_is_aligned q" "j < 1024"
  shows "rd32 (fill_table m p off flags) (word_at q j) =
           (if q = p then (off + of_nat j * 4096) OR ucast flags else rd32 m (word_at q j))"
  using fold_wr32_word_at [OF assms(1,2), of 1024 j] assms(3)
  by (simp add: fill_table_def PAGING_TOTAL_ENTRIES_PER_TABLE_def PAGING_PAGE_SIZE_def)

lemma aligned_disjoint:
  assumes "paging_is_aligned p" "paging_is_aligned q" "p \<noteq> q"
  shows "unat p + 4096 \<le> unat q \<or> unat q + 4096 \<le> unat p"
proof -
  obtain k l where kl: "unat p = 4096 * k" "unat q = 4096 * l"
    using assms(1,2) by (auto simp: paging_is_aligned_iff elim!: dvdE)
  then have "k \<noteq> l" using assms(3) by (auto intro: word_eq_unatI)
  then show ?thesis using kl by linarith
qed

lemma rd32_mem_fill_other:
  assumes "paging_is_aligned p" "paging_is_aligned q" "p \<noteq> q" "n \<le> 4096" "j < 1024"
  shows "rd32 (mem_fill m p c n) (word_at q j) = rd32 m (word_at q j)"
proof (rule rd32_cong)
  fix i :: nat assume "i < 4"
  then have "unat (word_at q j + of_nat i) = unat q + 4 * j + i"
    using aligned4_bytes [OF aligned4_word_at] unat_word_at assms(2,5) by simp
  then show "mem_fill m p c n (word_at q j + of_nat i) = m (word_at q j + of_nat i)"
    using aligned_disjoint [OF assms(1-3)] aligned_lt [OF assms(1)] assms(4,5) \<open>i < 4\<close>
    by (subst mem_fill_eq) auto
qed

text \<open>
  The state after \<open>n\<close> rounds of the outer loop: \<open>L\<close> are the allocations made before it (the
  directory among them) and \<open>m0\<close> the memory it started from.
\<close>

definition tables_inv :: "(u32 \<times> nat) set \<Rightarrow> mem \<Rightarrow> u32 \<Rightarrow> u8 \<Rightarrow> nat \<Rightarrow> nat \<Rightarrow> heap \<times> mem \<times> u32 \<Rightarrow> bool" where
  "tables_inv L m0 dir flags room n = (\<lambda>(h, m, offset).
     heap_ok h \<and> free_blocks h + n = room \<and> offset = of_nat n * 0x400000 \<and>
     heap_live h = L \<union> (\<lambda>i. (table_of m dir i, 4096)) ` {..< n} \<and>
     (\<forall>i < n. \<forall>(q, k) \<in> L. table_of m dir i \<noteq> q) \<and>
     (\<forall>i < n. \<forall>j < n. table_of m dir i = table_of m dir j \<longrightarrow> i = j) \<and>
     (\<forall>i < n. \<forall>j < 1024. rd32 m (word_at (table_of m dir i) j) =
        (of_nat i * 0x400000 + of_nat j * 4096) OR ucast flags) \<and>
     (\<forall>q. \<forall>j < 1024. paging_is_aligned q \<and> q \<noteq> dir \<and> (\<forall>i < n. table_of m dir i \<noteq> q) \<longrightarrow>
        rd32 m (word_at q j) = rd32 m0 (word_at q j)))"

lemma table_flags: "take_bit 12 ((ucast (flags :: u8) :: u32) OR PAGING_IS_WRITEABLE) = ucast flags OR PAGING_IS_WRITEABLE"
proof (rule bit_word_eqI)
  fix n :: nat assume "n < LENGTH(32)"
  have "bit (2 :: u32) n \<Longrightarrow> n = 1"
    using bit_numeral_simps by (metis bit_exp_iff power_one_right)
  then show "bit (take_bit 12 ((ucast flags :: u32) OR PAGING_IS_WRITEABLE)) n =
      bit ((ucast flags :: u32) OR PAGING_IS_WRITEABLE) n"
    by (auto simp: bit_simps PAGING_IS_WRITEABLE_def dest: bit_imp_le_length)
qed

lemma page_size_ok: "0 < unat (4096 :: u32)" "unat (4096 :: u32) \<le> 4096"
  by simp_all

lemma tables_inv_step:
  assumes inv: "tables_inv L m0 dir flags room n st" and n: "n < 1024" "n < room"
    and dir: "paging_is_aligned dir" "(dir, 4096) \<in> L"
  shows "tables_inv L m0 dir flags room (Suc n) (new_table dir flags n st)"
proof -
  obtain h m off where st: "st = (h, m, off)" by (cases st) auto
  note I = inv [unfolded st tables_inv_def, simplified]
  have ok: "heap_ok h" and room: "0 < free_blocks h" using I n(2) by linarith+
  obtain p h' where p: "kmalloc 4096 h = (p, h')" "p \<noteq> 0" "heap_ok h'"
      "heap_live h' = insert (p, 4096) (heap_live h)" "free_blocks h = Suc (free_blocks h')"
      "4096 dvd unat p" and fresh: "\<And>q k. (q, k) \<in> heap_live h \<Longrightarrow> p \<noteq> q"
    using kernel_pages.page_alloc_ok [OF ok page_size_ok room] by metis
  have al: "paging_is_aligned p" using p(6) by (simp add: paging_is_aligned_iff)
  have pd: "p \<noteq> dir" using fresh dir(2) I by blast
  have pt: "p \<noteq> table_of m dir i" if "i < n" for i using fresh that I by blast
  define m2 where "m2 = fill_table (mem_fill m p 0 4096) p off flags"
  define m3 where "m3 = wr32 m2 (word_at dir n) (p OR (ucast flags OR PAGING_IS_WRITEABLE))"
  have new: "new_table dir flags n st = (h', m3, off + 0x400000)"
    using p(1,2) by (simp add: new_table_def st kzalloc_mem_def m3_def m2_def
        PAGING_TOTAL_ENTRIES_PER_TABLE_def PAGING_PAGE_SIZE_def or.assoc)
  have m2: "rd32 m2 (word_at q j) = (if q = p then (off + of_nat j * 4096) OR ucast flags else rd32 m (word_at q j))"
    if "paging_is_aligned q" "j < 1024" for q j
    using that al by (auto simp: m2_def fill_table_word_at rd32_mem_fill_other)
  have m3: "rd32 m3 (word_at q j) = (if q = dir \<and> j = n then p OR (ucast flags OR PAGING_IS_WRITEABLE)
      else rd32 m2 (word_at q j))" if "paging_is_aligned q" "j < 1024" for q j
    using that dir(1) n(1) by (simp add: m3_def rd32_wr32_word_at eq_commute)
  have tn: "table_of m3 dir n = p"
    using masked_flags [OF al table_flags] dir(1) n(1) by (simp add: table_of_def m3)
  have ti: "table_of m3 dir i = table_of m dir i" if "i < n" for i
    using that n(1) dir(1) pd by (simp add: table_of_def m3 m2)
  have live: "heap_live h' = L \<union> (\<lambda>i. (table_of m3 dir i, 4096)) ` {..< Suc n}"
    using I p(4) tn ti by (auto simp: lessThan_Suc)
  have content: "rd32 m3 (word_at (table_of m3 dir i) j) =
      (of_nat i * 0x400000 + of_nat j * 4096) OR ucast flags" if "i < Suc n" "j < 1024" for i j
  proof (cases "i = n")
    case True
    then show ?thesis using I that al pd tn by (simp add: m3 m2)
  next
    case False
    then have "i < n" using that by simp
    moreover from this have "table_of m dir i \<noteq> dir" using I dir(2) by fastforce
    ultimately show ?thesis using I that pt [of i] ti [of i] by (simp add: m3 m2)
  qed
  have frame: "rd32 m3 (word_at q j) = rd32 m0 (word_at q j)"
    if "j < 1024" "paging_is_aligned q" "q \<noteq> dir" "\<forall>i < Suc n. table_of m3 dir i \<noteq> q" for q j
  proof -
    have "q \<noteq> p" "\<forall>i < n. table_of m dir i \<noteq> q" using that(4) tn ti by (auto simp: less_Suc_eq)
    then show ?thesis using I that(1-3) by (simp add: m3 m2)
  qed
  have fresh_L: "\<forall>i < Suc n. \<forall>(q, k) \<in> L. table_of m3 dir i \<noteq> q"
    using I fresh tn ti by (auto simp: less_Suc_eq)
  have inj: "i = j" if "i < Suc n" "j < Suc n" "table_of m3 dir i = table_of m3 dir j" for i j
  proof -
    have "i < n \<Longrightarrow> j < n \<Longrightarrow> ?thesis" using I that(3) ti by metis
    then show ?thesis using that tn ti pt by (metis less_Suc_eq)
  qed
  show ?thesis
    unfolding new tables_inv_def using I p(3,5) live content frame fresh_L inj
    by (auto simp: algebra_simps)
qed

lemma tables_inv_fold:
  assumes "heap_ok h" "heap_live h = L" "room = free_blocks h" "1024 \<le> room"
    and "paging_is_aligned dir" "(dir, 4096) \<in> L" "n \<le> 1024"
  shows "tables_inv L m dir flags room n (fold (new_table dir flags) [0 ..< n] (h, m, 0))"
  using assms(7)
proof (induction n)
  case 0
  then show ?case using assms(1-3) by (simp add: tables_inv_def)
next
  case (Suc n)
  then show ?case using tables_inv_step [of L m dir flags room n] assms(4-6) by simp
qed

text \<open>The pages of an address space: its tables, its directory and the chunk itself.\<close>

definition space_pages :: "mem \<Rightarrow> u32 \<Rightarrow> u32 list" where
  "space_pages m chunk =
     map (table_of m (directory_entry m chunk)) [0 ..< 1024] @ [directory_entry m chunk, chunk]"

definition identity_mapped :: "mem \<Rightarrow> u32 \<Rightarrow> u8 \<Rightarrow> bool" where
  "identity_mapped m dir flags \<longleftrightarrow>
     (\<forall>i < 1024. \<forall>j < 1024. rd32 m (word_at (table_of m dir i) j) =
        (of_nat i * 0x400000 + of_nat j * 4096) OR ucast flags)"

lemma paging_new_4gb_pages:
  assumes ok: "heap_ok h" and room: "1026 \<le> free_blocks h"
    and run: "paging_new_4gb flags h m = (chunk, h', m')"
  shows "chunk_ok m' chunk \<and> chunk \<noteq> 0 \<and> heap_ok h' \<and>
    identity_mapped m' (directory_entry m' chunk) flags \<and>
    heap_live h' = heap_live h \<union> (\<lambda>p. (p, 4096)) ` set (space_pages m' chunk) \<and>
    distinct (space_pages m' chunk) \<and> (\<forall>p \<in> set (space_pages m' chunk). \<forall>k. (p, k) \<notin> heap_live h)"
proof -
  have r0: "0 < free_blocks h" using room by simp
  obtain dir h1 where dir: "kmalloc 4096 h = (dir, h1)" "dir \<noteq> 0" "heap_ok h1"
      "heap_live h1 = insert (dir, 4096) (heap_live h)" "free_blocks h = Suc (free_blocks h1)"
      "4096 dvd unat dir" and dfresh: "\<And>q k. (q, k) \<in> heap_live h \<Longrightarrow> dir \<noteq> q"
    using kernel_pages.page_alloc_ok [OF ok page_size_ok r0] by metis
  have ad: "paging_is_aligned dir" using dir(6) by (simp add: paging_is_aligned_iff)
  define m1 where "m1 = mem_fill m dir 0 4096"
  obtain h2 m2 off where st: "fold (new_table dir flags) [0 ..< 1024] (h1, m1, 0) = (h2, m2, off)"
    using prod_cases3 by blast
  have "1024 \<le> free_blocks h1" using dir(5) room by simp
  then have I: "tables_inv (heap_live h1) m1 dir flags (free_blocks h1) 1024 (h2, m2, off)"
    using tables_inv_fold [OF dir(3) refl refl _ ad, of 1024 m1 flags] dir(4) st by simp
  then have ok2: "heap_ok h2" and r2: "0 < free_blocks h2"
    and live2: "heap_live h2 = heap_live h1 \<union> (\<lambda>i. (table_of m2 dir i, 4096)) ` {..< 1024}"
    and fresh2: "\<And>i q k. i < 1024 \<Longrightarrow> (q, k) \<in> heap_live h1 \<Longrightarrow> table_of m2 dir i \<noteq> q"
    and inj: "\<And>i j. i < 1024 \<Longrightarrow> j < 1024 \<Longrightarrow> table_of m2 dir i = table_of m2 dir j \<Longrightarrow> i = j"
    and ident: "\<And>i j. i < 1024 \<Longrightarrow> j < 1024 \<Longrightarrow> rd32 m2 (word_at (table_of m2 dir i) j) =
        (of_nat i * 0x400000 + of_nat j * 4096) OR ucast flags"
    using dir(5) room unfolding tables_inv_def by (simp_all, blast+)
  have four: "0 < unat (4 :: u32)" "unat (4 :: u32) \<le> 4096" by simp_all
  obtain c h3 where c: "kmalloc 4 h2 = (c, h3)" "c \<noteq> 0" "heap_ok h3"
      "heap_live h3 = insert (c, 4096) (heap_live h2)" "4096 dvd unat c"
      and cfresh: "\<And>q k. (q, k) \<in> heap_live h2 \<Longrightarrow> c \<noteq> q"
    using kernel_pages.page_alloc_ok [OF ok2 four r2] by metis
  have ac: "paging_is_aligned c" using c(5) by (simp add: paging_is_aligned_iff)
  have res: "chunk = c" "h' = h3" "m' = wr32 (mem_fill m2 c 0 4) (word_at c 0) dir"
    using run dir(1,2) c(1,2) st by (auto simp: paging_new_4gb_def kzalloc_mem_def m1_def
        PAGING_TOTAL_ENTRIES_PER_TABLE_def)
  have rd: "rd32 m' (word_at q j) = rd32 m2 (word_at q j)" if "paging_is_aligned q" "q \<noteq> c" "j < 1024" for q j
    using that ac by (simp add: res(3) rd32_wr32_word_at rd32_mem_fill_other del: word_at_0)
  have de: "directory_entry m' c = dir"
    using rd32_wr32_same [of "mem_fill m2 c 0 4" c dir] by (simp add: directory_entry_def res(3))
  have "(dir, 4096) \<in> heap_live h2" using live2 dir(4) by simp
  then have cd: "c \<noteq> dir" by (rule cfresh)
  have "(table_of m2 dir i, 4096) \<in> heap_live h2" if "i < 1024" for i using live2 that by simp
  then have ct: "table_of m2 dir i \<noteq> c" if "i < 1024" for i using cfresh that by metis
  have tab: "table_of m' dir i = table_of m2 dir i" if "i < 1024" for i
    using rd [OF ad cd [symmetric] that] by (simp add: table_of_def)
  have dt: "table_of m2 dir i \<noteq> dir" and tfresh: "(q, k) \<in> heap_live h \<Longrightarrow> table_of m2 dir i \<noteq> q"
    if "i < 1024" for i q k
    using fresh2 [OF that, of dir 4096] fresh2 [OF that, of q k] dir(4) by simp_all
  have "chunk_ok m' c"
    unfolding chunk_ok_def directory_ok_def de using ac ad dir(2) dt ct tab inj by simp
  moreover have "identity_mapped m' dir flags"
    unfolding identity_mapped_def using ident rd tab ct by simp
  moreover have pages: "space_pages m' c = map (table_of m2 dir) [0 ..< 1024] @ [dir, c]"
    using tab by (simp add: space_pages_def de)
  moreover have "distinct (space_pages m' c)"
  proof -
    have "inj_on (table_of m2 dir) {0 ..< 1024}" using inj by (auto simp: inj_on_def)
    moreover have "dir \<notin> table_of m2 dir ` {0 ..< 1024}" "c \<notin> table_of m2 dir ` {0 ..< 1024}"
      using dt ct by (metis (no_types, lifting) atLeastLessThan_iff imageE)+
    ultimately show ?thesis using cd unfolding pages by (simp add: distinct_map)
  qed
  moreover have "heap_live h3 = heap_live h \<union> (\<lambda>p. (p, 4096)) ` set (space_pages m' c)"
    unfolding pages c(4) live2 dir(4) by (simp add: image_image image_Un atLeast0LessThan) blast
  moreover have "\<forall>p \<in> set (space_pages m' c). \<forall>k. (p, k) \<notin> heap_live h"
  proof (intro ballI allI)
    fix p k assume "p \<in> set (space_pages m' c)"
    then consider i where "i < 1024" "p = table_of m2 dir i" | "p = dir" | "p = c"
      unfolding pages by auto
    moreover have "c \<noteq> q" if "(q, k) \<in> heap_live h" for q
      using cfresh [of q k] live2 dir(4) that by simp
    ultimately show "(p, k) \<notin> heap_live h" using tfresh dfresh by metis
  qed
  ultimately show ?thesis using c(2,3) de res(1,2) by simp
qed

lemma paging_free_4gb_fold: "paging_free_4gb m chunk h = fold kfree (space_pages m chunk) h"
  by (simp add: paging_free_4gb_def space_pages_def fold_map comp_def table_of_def
      PAGING_TOTAL_ENTRIES_PER_TABLE_def Let_def del: upt_Suc)

lemma identity_mapped_get:
  assumes "identity_mapped m dir flags" "dir \<noteq> 0" "v \<noteq> 0" "paging_is_aligned v"
  shows "paging_get dir v m = v OR ucast flags"
proof -
  have "of_nat (dir_index v) * 0x400000 + of_nat (table_index v) * 4096 = v"
  proof -
    have "4096 dvd unat v mod 2 ^ 22"
      using assms(4) dvd_mod [of 4096 "unat v" "2 ^ 22"] by (simp add: paging_is_aligned_iff)
    then have eq: "unat v = dir_index v * 2 ^ 22 + table_index v * 4096"
      unfolding dir_index_def table_index_def by simp
    have "v = of_nat (unat v)" by simp
    also have "\<dots> = of_nat (dir_index v * 2 ^ 22 + table_index v * 4096)" by (simp only: eq)
    finally show ?thesis by simp
  qed
  then show ?thesis
    using assms by (simp add: paging_get_eq pte_at_def identity_mapped_def)
qed

subsection \<open>Translation of addresses\<close>

lemma lower_page:
  assumes "paging_is_aligned v" "d < 4096"
  shows "paging_align_to_lower_page (v + of_nat d) = v"
proof -
  have "unat (v + of_nat d) = unat v + d"
    using aligned_lt [OF assms(1)] assms(2) by (intro unat_add_small) simp
  then have "unat ((v + of_nat d) mod 4096) = d"
    using assms by (auto simp: unat_mod paging_is_aligned_iff elim!: dvdE)
  then have "(v + of_nat d) mod 4096 = of_nat d" by (metis of_nat_unat ucast_id)
  then show ?thesis by (simp add: paging_align_to_lower_page_def PAGING_PAGE_SIZE_def)
qed

lemma physical_address:
  assumes "dir \<noteq> 0" "paging_is_aligned v" "v \<noteq> 0" "d < 4096" "paging_is_aligned p" "take_bit 12 f = f"
    and "paging_get dir v m = p OR f"
  shows "paging_get_physical_address dir (v + of_nat d) m = p + of_nat d"
proof -
  have "unat (v + of_nat d) = unat v + d"
    using aligned_lt [OF assms(2)] assms(4) by (intro unat_add_small) simp
  then have "v + of_nat d \<noteq> 0" using assms(3) by (auto simp: word_unat_eq_iff)
  then show ?thesis
    using assms(1,7) lower_page [OF assms(2,4)] masked_flags [OF assms(5,6)]
    by (simp add: paging_get_physical_address_def Let_def)
qed

lemma take_bit_flags: "0 \<le> f \<Longrightarrow> f < 4096 \<Longrightarrow> take_bit 12 (word_of_int f :: u32) = word_of_int f"
  by (simp add: take_bit_eq_mod word_uint_eq_iff uint_mod uint_word_of_int)

lemma aligned_plus_pages: "paging_is_aligned p \<Longrightarrow> paging_is_aligned (p + of_nat i * 4096)"
proof (induction i)
  case (Suc i)
  then have "paging_is_aligned ((p + of_nat i * 4096) + 4096)" by simp
  then show ?case by (simp add: algebra_simps)
qed simp

lemma page_split: "of_nat off = (of_nat (off div 4096) * 4096 + of_nat (off mod 4096) :: u32)"
  by (metis div_mult_mod_eq of_nat_add of_nat_mult of_nat_numeral)

lemma mapped_range_nonzero:
  assumes "virt \<noteq> 0" "unat virt + n * 4096 \<le> 2 ^ 32" "i < n"
  shows "virt + of_nat i * 4096 \<noteq> (0 :: u32)"
proof -
  have "unat (virt + of_nat (i * 4096)) = unat virt + i * 4096"
    using assms(2,3) by (intro unat_add_small) simp
  then show ?thesis using assms(1) by (auto simp: word_unat_eq_iff)
qed

lemma kernel_heap_free_blocks: "kheap_init e k = Some h \<Longrightarrow> free_blocks h = 25600"
proof -
  assume "kheap_init e k = Some h"
  then have "{b \<in> {0 ..< total_blocks h}. entry h b = 0} = {0 ..< 25600}"
    by (auto simp: kheap_init_eq)
  then show ?thesis by (simp add: free_blocks_def)
qed

text \<open>The heap right after boot, for the concrete instances below.\<close>

definition boot_heap :: heap where
  "boot_heap = the (kheap_init (\<lambda>_. 0) four_blocks)"

lemma boot_heap_ok: "heap_ok boot_heap" "1026 \<le> free_blocks boot_heap"
proof -
  obtain h where h: "kheap_init (\<lambda>_. 0) four_blocks = Some h" using kheap_init_eq by blast
  then have "boot_heap = h" by (simp add: boot_heap_def)
  then show "heap_ok boot_heap" "1026 \<le> free_blocks boot_heap"
    using kheap_init_ok [OF h] kernel_heap_free_blocks [OF h] by simp_all
qed

subsection \<open>Properties of paging\<close>

text \<open>
  (C2) After a successful \<open>paging_map_range\<close> every address of the range is translated to its
  counterpart in the physical range, whatever the flags, the entries of all other pages are
  unchanged, and the address space stays well formed. On a well-formed address space, aligned
  arguments and a range that starts above page 0 and does not wrap, the call does succeed.
\<close>

theorem paging_map_range_translates:
  assumes "chunk_ok m chunk" "paging_is_aligned virt" "paging_is_aligned phys" "virt \<noteq> 0"
    "unat virt + nat count * 4096 \<le> 2 ^ 32" "0 \<le> flags" "flags < 4096"
    and "paging_map_range chunk virt phys count flags m = (res, m')"
  shows "res = OK \<and> chunk_ok m' chunk \<and>
    (\<forall>off < nat count * 4096.
       paging_get_physical_address (directory_entry m' chunk) (virt + of_nat off) m' = phys + of_nat off) \<and>
    (\<forall>w. w \<noteq> 0 \<and> paging_is_aligned w \<and> (unat w < unat virt \<or> unat virt + nat count * 4096 \<le> unat w) \<longrightarrow>
       paging_get (directory_entry m' chunk) w m' = paging_get (directory_entry m chunk) w m)"
proof -
  let ?dir = "directory_entry m chunk"
  note spec = map_range_loop_spec [OF assms(1) refl assms(2,3,4,5) assms(8) [unfolded paging_map_range_def]]
  have dir: "?dir \<noteq> 0" using chunk_okD(2) [OF assms(1)] directory_okD(1) by blast
  have "paging_get_physical_address ?dir (virt + of_nat off) m' = phys + of_nat off"
    if "off < nat count * 4096" for off
  proof -
    have i: "off div 4096 < nat count" using that by (simp add: less_mult_imp_div_less)
    have "paging_get_physical_address ?dir ((virt + of_nat (off div 4096) * 4096) + of_nat (off mod 4096)) m' =
        (phys + of_nat (off div 4096) * 4096) + of_nat (off mod 4096)"
      by (rule physical_address [OF dir _ _ _ _ take_bit_flags [OF assms(6,7)]])
        (use i spec assms(2,3) aligned_plus_pages mapped_range_nonzero [OF assms(4,5) i] in auto)
    then show ?thesis using page_split [of off] by (simp add: add.assoc)
  qed
  then show ?thesis using spec by simp
qed

theorem paging_map_range_translates_witness:
  "\<exists>chunk h m m'. paging_new_4gb 3 boot_heap (\<lambda>_. 0) = (chunk, h, m) \<and>
     paging_map_range chunk 0x400000 0x8000000 2 7 m = (OK, m') \<and>
     paging_get_physical_address (directory_entry m' chunk) (0x400000 + of_nat 5000) m' = 0x8000000 + of_nat 5000"
proof -
  obtain chunk h m where new: "paging_new_4gb 3 boot_heap (\<lambda>_. 0) = (chunk, h, m)" using prod_cases3 by blast
  obtain res m' where map: "paging_map_range chunk 0x400000 0x8000000 2 7 m = (res, m')" by force
  have "chunk_ok m chunk" using paging_new_4gb_pages [OF boot_heap_ok new] by blast
  then have "res = OK" "\<forall>off < nat 2 * 4096. paging_get_physical_address (directory_entry m' chunk)
      (0x400000 + of_nat off) m' = 0x8000000 + of_nat off"
    using paging_map_range_translates [OF _ _ _ _ _ _ _ map] by (simp_all add: paging_is_aligned_def PAGING_PAGE_SIZE_def)
  then have "paging_get_physical_address (directory_entry m' chunk) (0x400000 + of_nat 5000) m' =
      0x8000000 + of_nat 5000" by (elim allE [of _ 5000]) simp
  then show ?thesis using new map \<open>res = OK\<close> by blast
qed

text \<open>
  (C3) With at least 1026 free blocks \<open>paging_new_4gb\<close> builds a well-formed address space made of
  pages that were not in use before, in which every address from 4096 on translates to itself and
  every page but page 0 has the entry of its own address with the given flags.
\<close>

theorem paging_new_4gb_identity:
  assumes "heap_ok h" "1026 \<le> free_blocks h" "paging_new_4gb flags h m = (chunk, h', m')"
  shows "chunk_ok m' chunk \<and> heap_ok h' \<and>
    (\<forall>p \<in> set (space_pages m' chunk). \<forall>k. (p, k) \<notin> heap_live h) \<and>
    (\<forall>v. v \<noteq> 0 \<and> paging_is_aligned v \<longrightarrow> paging_get (directory_entry m' chunk) v m' = v OR ucast flags) \<and>
    (\<forall>a. 4096 \<le> a \<longrightarrow> paging_get_physical_address (directory_entry m' chunk) a m' = a)"
proof -
  let ?dir = "directory_entry m' chunk"
  note new = paging_new_4gb_pages [OF assms]
  have dir: "?dir \<noteq> 0" using new chunk_okD(2) directory_okD(1) by blast
  have get: "paging_get ?dir v m' = v OR ucast flags" if "v \<noteq> 0" "paging_is_aligned v" for v
    using identity_mapped_get new dir that by blast
  have "take_bit 12 (ucast flags :: u32) = ucast flags"
    by (rule bit_word_eqI) (auto simp: bit_simps dest: bit_imp_le_length)
  note phys = physical_address [OF dir _ _ _ _ this get]
  have "paging_get_physical_address ?dir a m' = a" if "4096 \<le> a" for a
  proof -
    define v where "v = (of_nat (unat a div 4096 * 4096) :: u32)"
    have a: "a = v + of_nat (unat a mod 4096)"
      unfolding v_def by (metis div_mult_mod_eq of_nat_add of_nat_unat ucast_id)
    have "unat a div 4096 * 4096 < 2 ^ 32"
      using unat_less_power [of a] by (simp add: div_mult2_eq order_le_less_trans [OF div_times_less_eq_dividend])
    then have uv: "unat v = unat a div 4096 * 4096"
      unfolding v_def using unat_add_small [of 0 "unat a div 4096 * 4096"] by simp
    have "4096 \<le> unat a" using that by (simp add: word_le_nat_alt)
    then have "v \<noteq> 0" using uv by (auto simp: word_unat_eq_iff)
    moreover have "paging_is_aligned v" using uv by (simp add: paging_is_aligned_iff)
    ultimately show ?thesis using phys [of v "unat a mod 4096"] a by simp
  qed
  then show ?thesis using new get by blast
qed

theorem paging_new_4gb_identity_witness:
  "\<exists>chunk h m. paging_new_4gb 3 boot_heap (\<lambda>_. 0) = (chunk, h, m) \<and> chunk_ok m chunk \<and> heap_ok h \<and>
     paging_get_physical_address (directory_entry m chunk) 0x12345 m = 0x12345"
proof -
  obtain chunk h m where new: "paging_new_4gb 3 boot_heap (\<lambda>_. 0) = (chunk, h, m)" using prod_cases3 by blast
  show ?thesis using paging_new_4gb_identity [OF boot_heap_ok new] new by simp
qed

text \<open>
  (C4) \<open>paging_free_4gb\<close> returns everything \<open>paging_new_4gb\<close> allocated: afterwards the live
  allocations are again exactly those from before, and the heap is consistent.
\<close>

theorem paging_new_free_4gb:
  assumes "heap_ok h" "1026 \<le> free_blocks h" "paging_new_4gb flags h m = (chunk, h', m')"
  shows "heap_ok (paging_free_4gb m' chunk h') \<and> heap_live (paging_free_4gb m' chunk h') = heap_live h"
  unfolding paging_free_4gb_fold using paging_new_4gb_pages [OF assms]
  by (intro kernel_allocator.release_many) auto

theorem paging_new_free_4gb_witness:
  "\<exists>chunk h m. paging_new_4gb 3 boot_heap (\<lambda>_. 0) = (chunk, h, m) \<and>
     heap_live (paging_free_4gb m chunk h) = heap_live boot_heap"
proof -
  obtain chunk h m where new: "paging_new_4gb 3 boot_heap (\<lambda>_. 0) = (chunk, h, m)" using prod_cases3 by blast
  show ?thesis using paging_new_free_4gb [OF boot_heap_ok new] new by blast
qed

end
