(* ===== verification/Path_Parser.thy ===== *)
theory Path_Parser
  imports C_String Paging
begin

section \<open>Paths\<close>

text \<open>
  \<^verbatim>\<open>src/src/fs/path_parser.c\<close> splits a path \<open>0:/dir/file\<close> into the number of its drive and its parts.
  A linked list of parts is the list of its nodes; every node and every string has the address
  \<open>kzalloc\<close> gave it. A null pointer to a node is the empty list.
\<close>

record path_part =
  pp_addr :: u32
  pp_str_addr :: u32
  pp_part :: "u8 list"

record path_root =
  pr_addr :: u32
  drive_no :: int
  pr_first :: "path_part list"

definition path_parser_path_valid_format :: "u8 list \<Rightarrow> bool option" where
  "path_parser_path_valid_format filename =
     do { len \<leftarrow> strnlen filename (int TOYOS_MAX_PATH);
          if len \<ge> 3
          then do { c \<leftarrow> rd filename 0;
                    if is_digit c
                    then do { r \<leftarrow> memcmp (drop 1 filename) [58, 47, 0] 2; Some (r = 0) }
                    else Some False }
          else Some False }"

definition path_parser_get_drive_by_path :: "u8 list \<Rightarrow> int option" where
  "path_parser_get_drive_by_path path =
     do { valid \<leftarrow> path_parser_path_valid_format path;
          if \<not> valid then Some (- EBADPATH) else do { c \<leftarrow> rd path 0; Some (ctoi c) } }"

definition path_parser_create_root :: "int \<Rightarrow> heap \<Rightarrow> path_root option \<times> heap" where
  "path_parser_create_root drive_number h =
     (case kzalloc 8 h of
        (None, h) \<Rightarrow> (None, h)
      | (Some (path_r, _), h) \<Rightarrow> (Some \<lparr>pr_addr = path_r, drive_no = drive_number, pr_first = []\<rparr>, h))"

fun path_part_loop :: "u8 list \<Rightarrow> nat \<Rightarrow> u8 list \<Rightarrow> (u8 list \<times> nat \<times> u8 list) option" where
  "path_part_loop result_path_part i [] = None"
| "path_part_loop result_path_part i (c # path) =
     (if c \<noteq> 47 \<and> c \<noteq> 0
      then do { result_path_part \<leftarrow> wr result_path_part i c; path_part_loop result_path_part (i + 1) path }
      else Some (result_path_part, i, c # path))"

definition path_parser_get_path_part ::
    "u8 list \<Rightarrow> heap \<Rightarrow> ((u32 \<times> u8 list) option \<times> u8 list \<times> heap) option" where
  "path_parser_get_path_part path h =
     (case kzalloc (of_nat TOYOS_MAX_PATH) h of
        (None, h) \<Rightarrow> Some (None, path, h)
      | (Some (p, result_path_part), h) \<Rightarrow>
          do { (result_path_part, i, path) \<leftarrow> path_part_loop result_path_part 0 path;
               c \<leftarrow> rd path 0;
               let path = (if c = 47 then drop 1 path else path)
               in if i = 0 then Some (None, path, kfree p h) else Some (Some (p, result_path_part), path, h) })"

text \<open>The new node is linked behind the last one by its caller, which holds the list.\<close>

definition path_parser_parse_path_part :: "u8 list \<Rightarrow> heap \<Rightarrow> (path_part option \<times> u8 list \<times> heap) option" where
  "path_parser_parse_path_part path h =
     do { (path_part_str, path, h) \<leftarrow> path_parser_get_path_part path h;
          case path_part_str of
            None \<Rightarrow> Some (None, path, h)
          | Some (p, s) \<Rightarrow>
              case kzalloc 8 h of
                (None, h) \<Rightarrow> Some (None, path, h)
              | (Some (part, _), h) \<Rightarrow> Some (Some \<lparr>pp_addr = part, pp_str_addr = p, pp_part = s\<rparr>, path, h) }"

fun path_parts_free :: "path_part list \<Rightarrow> heap \<Rightarrow> heap" where
  "path_parts_free [] h = h"
| "path_parts_free (part # parts) h = path_parts_free parts (kfree (pp_addr part) (kfree (pp_str_addr part) h))"

definition path_parser_free :: "path_root \<Rightarrow> heap \<Rightarrow> heap" where
  "path_parser_free root h = kfree (pr_addr root) (path_parts_free (pr_first root) h)"

text \<open>The loop parses parts until there is none and gives the nodes linked behind the first one.\<close>

partial_function (option) path_parts_loop :: "u8 list \<Rightarrow> heap \<Rightarrow> (path_part list \<times> heap) option" where
  "path_parts_loop path h =
     Option.bind (path_parser_parse_path_part path h) (\<lambda>(part, path, h).
       case part of
         None \<Rightarrow> Some ([], h)
       | Some part \<Rightarrow> Option.bind (path_parts_loop path h) (\<lambda>(parts, h). Some (part # parts, h)))"

definition path_parser_parse :: "u8 list \<Rightarrow> heap \<Rightarrow> (path_root option \<times> heap) option" where
  "path_parser_parse path h =
     do { len \<leftarrow> strlen path;
          if len > int TOYOS_MAX_PATH then Some (None, h)
          else do {
            drive_no \<leftarrow> path_parser_get_drive_by_path path;
            if drive_no < 0 then Some (None, h)
            else case path_parser_create_root drive_no h of
                   (None, h) \<Rightarrow> Some (None, h)
                 | (Some path_root, h) \<Rightarrow>
                     do { (first_part, tmp_path, h) \<leftarrow> path_parser_parse_path_part (drop 3 path) h;
                          case first_part of
                            None \<Rightarrow> Some (Some path_root, h)
                          | Some first_part \<Rightarrow>
                              do { (parts, h) \<leftarrow> path_parts_loop tmp_path h;
                                   Some (Some (path_root\<lparr>pr_first := first_part # parts\<rparr>), h) } } } }"

subsection \<open>Parsing inverts writing a path\<close>

fun path_string :: "u8 list list \<Rightarrow> u8 list" where
  "path_string [] = []"
| "path_string [p] = p"
| "path_string (p # q # ps) = p @ 47 # path_string (q # ps)"

definition part_ok :: "u8 list \<Rightarrow> bool" where
  "part_ok p \<longleftrightarrow> p \<noteq> [] \<and> 0 \<notin> set p \<and> 47 \<notin> set p"

text \<open>The pages a list of nodes occupies, in the order in which they are freed.\<close>

definition part_pages :: "path_part list \<Rightarrow> u32 list" where
  "part_pages parts = concat (map (\<lambda>n. [pp_str_addr n, pp_addr n]) parts)"

definition root_pages :: "path_root \<Rightarrow> u32 list" where
  "root_pages root = part_pages (pr_first root) @ [pr_addr root]"

lemma part_pages_simps [simp]:
  "part_pages [] = []" "part_pages (n # ns) = pp_str_addr n # pp_addr n # part_pages ns"
  by (simp_all add: part_pages_def)

lemma path_parts_free_fold: "path_parts_free parts h = fold kfree (part_pages parts) h"
  by (induction parts arbitrary: h) simp_all

lemma path_parser_free_fold: "path_parser_free root h = fold kfree (root_pages root) h"
  by (simp add: path_parser_free_def path_parts_free_fold root_pages_def)

lemma kzalloc_page_free:
  assumes "heap_ok h" "0 < unat sz" "unat sz \<le> 4096" "0 < free_blocks h"
  obtains p h' where "kzalloc sz h = (Some (p, replicate (unat sz) 0), h')" "(p, 4096) \<notin> heap_live h"
    "heap_live h' = insert (p, 4096) (heap_live h)" "heap_ok h'" "free_blocks h = Suc (free_blocks h')" "p \<noteq> 0"
    "heap_ok (kfree p h')" "heap_live (kfree p h') = heap_live h"
proof -
  obtain p h' where k: "kzalloc sz h = (Some (p, replicate (unat sz) 0), h')" "p \<noteq> 0" "(p, 4096) \<notin> heap_live h"
    "heap_live h' = insert (p, 4096) (heap_live h)" "heap_ok h'" "free_blocks h = Suc (free_blocks h')"
    by (rule kzalloc_page [OF assms])
  moreover have "kmalloc sz h = (p, h')" using k(1,2) by (auto simp: kzalloc_def split: prod.splits if_splits)
  ultimately show thesis
    using that [of p h'] kernel_allocator.alloc_release_live [OF assms(1) kernel_pages.page_wanted [OF assms(2,3)], of p h']
    by simp
qed

lemma path_part_loop_eq:
  "length pre + length w \<le> n \<Longrightarrow> 0 \<notin> set w \<Longrightarrow> 47 \<notin> set w \<Longrightarrow> c = 0 \<or> c = 47 \<Longrightarrow>
   path_part_loop (pre @ replicate (n - length pre) 0) (length pre) (w @ c # rest) =
     Some (pre @ w @ replicate (n - length pre - length w) 0, length pre + length w, c # rest)"
proof (induction w arbitrary: pre)
  case (Cons x w)
  have "(pre @ replicate (n - length pre) 0)[length pre := x] = (pre @ [x]) @ replicate (n - length (pre @ [x])) 0"
    using Cons.prems(1) by (cases "n - length pre") (auto simp: list_update_append)
  then show ?case using Cons.prems Cons.IH [of "pre @ [x]"] by (simp add: wr_def)
qed auto

lemma path_size:
  "0 < unat (of_nat TOYOS_MAX_PATH :: u32)" "unat (of_nat TOYOS_MAX_PATH :: u32) \<le> 4096"
  "unat (of_nat TOYOS_MAX_PATH :: u32) = 108"
  by (simp_all add: TOYOS_MAX_PATH_def)

lemma c_str_padded: "0 \<notin> set w \<Longrightarrow> c_str (w @ replicate (Suc n) 0) = w"
  by (auto simp: c_str_def takeWhile_append)

lemma get_path_part_ok:
  assumes "heap_ok h" "0 < free_blocks h" "part_ok w" "length w < 108" "c = 0 \<or> c = 47"
  obtains p s h' where "path_parser_get_path_part (w @ c # rest) h =
      Some (Some (p, s), if c = 47 then rest else c # rest, h')" "c_str s = w" "(p, 4096) \<notin> heap_live h"
    "heap_live h' = insert (p, 4096) (heap_live h)" "heap_ok h'" "free_blocks h = Suc (free_blocks h')"
proof -
  obtain p h' where k: "kzalloc (of_nat TOYOS_MAX_PATH) h = (Some (p, replicate 108 0), h')"
    "(p, 4096) \<notin> heap_live h" "heap_live h' = insert (p, 4096) (heap_live h)" "heap_ok h'"
    "free_blocks h = Suc (free_blocks h')"
    using kzalloc_page_free [OF assms(1) path_size(1,2) assms(2)] path_size(3) by metis
  have "path_part_loop (replicate 108 0) 0 (w @ c # rest) = Some (w @ replicate (108 - length w) 0, length w, c # rest)"
    using path_part_loop_eq [of "[]" w 108 c rest] assms(3-5) by (auto simp: part_ok_def)
  moreover have "c_str (w @ replicate (108 - length w) 0) = w"
    using c_str_padded [of w "107 - length w"] assms(3,4) by (simp add: part_ok_def Suc_diff_le flip: Suc_diff_Suc)
  ultimately show thesis
    using that [of p "w @ replicate (108 - length w) 0" h'] k assms(3)
    by (auto simp: path_parser_get_path_part_def rd_def part_ok_def)
qed

lemma get_path_part_end:
  assumes "heap_ok h" "0 < free_blocks h"
  obtains h' where "path_parser_get_path_part (0 # rest) h = Some (None, 0 # rest, h')" "heap_ok h'"
    "heap_live h' = heap_live h"
proof -
  obtain p h' where "kzalloc (of_nat TOYOS_MAX_PATH) h = (Some (p, replicate 108 0), h')" 
    "heap_ok (kfree p h')" "heap_live (kfree p h') = heap_live h"
    using kzalloc_page_free [OF assms(1) path_size(1,2) assms(2)] path_size(3) by metis
  then show thesis using that [of "kfree p h'"] by (simp add: path_parser_get_path_part_def rd_def)
qed

lemma parse_path_part_ok:
  assumes "heap_ok h" "1 < free_blocks h" "part_ok w" "length w < 108" "c = 0 \<or> c = 47"
  obtains n h' where "path_parser_parse_path_part (w @ c # rest) h = Some (Some n, if c = 47 then rest else c # rest, h')"
    "c_str (pp_part n) = w" "heap_ok h'" "free_blocks h = free_blocks h' + 2"
    "heap_live h' = heap_live h \<union> {(pp_str_addr n, 4096), (pp_addr n, 4096)}"
    "(pp_str_addr n, 4096) \<notin> heap_live h" "(pp_addr n, 4096) \<notin> heap_live h" "pp_str_addr n \<noteq> pp_addr n"
proof -
  obtain p s h1 where 1: "path_parser_get_path_part (w @ c # rest) h =
      Some (Some (p, s), if c = 47 then rest else c # rest, h1)" "c_str s = w" "(p, 4096) \<notin> heap_live h"
    "heap_live h1 = insert (p, 4096) (heap_live h)" "heap_ok h1" "free_blocks h = Suc (free_blocks h1)"
    by (rule get_path_part_ok [OF assms(1) _ assms(3-5), of rest]) (use assms(2) in auto)
  obtain q h2 where 2: "kzalloc 8 h1 = (Some (q, replicate (unat (8 :: u32)) 0), h2)" "(q, 4096) \<notin> heap_live h1"
    "heap_live h2 = insert (q, 4096) (heap_live h1)" "heap_ok h2" "free_blocks h1 = Suc (free_blocks h2)"
    by (rule kzalloc_page_free [OF 1(5), of 8]) (use assms(2) 1(6) in auto)
  show thesis
    by (rule that [of "\<lparr>pp_addr = q, pp_str_addr = p, pp_part = s\<rparr>" h2])
      (use 1 2 in \<open>auto simp: path_parser_parse_path_part_def\<close>)
qed

lemma parse_path_part_end:
  assumes "heap_ok h" "0 < free_blocks h"
  obtains h' where "path_parser_parse_path_part (0 # rest) h = Some (None, 0 # rest, h')" "heap_ok h'"
    "heap_live h' = heap_live h"
  by (rule get_path_part_end [OF assms, of rest]) (use that in \<open>auto simp: path_parser_parse_path_part_def\<close>)

definition holds_parts :: "u8 list list \<Rightarrow> path_part list \<Rightarrow> heap \<Rightarrow> heap \<Rightarrow> bool" where
  "holds_parts parts nodes h h' \<longleftrightarrow> map (\<lambda>n. c_str (pp_part n)) nodes = parts \<and> heap_ok h' \<and>
     heap_live h' = heap_live h \<union> (\<lambda>p. (p, 4096)) ` set (part_pages nodes) \<and>
     distinct (part_pages nodes) \<and> (\<forall>p \<in> set (part_pages nodes). (p, 4096) \<notin> heap_live h)"

lemma path_parts_loop_ok:
  assumes "heap_ok h" "2 * length parts < free_blocks h" "\<forall>p \<in> set parts. part_ok p \<and> length p < 108"
  shows "\<exists>nodes h'. path_parts_loop (path_string parts @ 0 # rest) h = Some (nodes, h') \<and> holds_parts parts nodes h h'"
  using assms
proof (induction parts arbitrary: h)
  case Nil
  obtain h' where "path_parser_parse_path_part (0 # rest) h = Some (None, 0 # rest, h')" "heap_ok h'"
    "heap_live h' = heap_live h"
    by (rule parse_path_part_end [of h rest]) (use Nil in auto)
  then show ?case by (subst path_parts_loop.simps) (auto simp: holds_parts_def)
next
  case (Cons w parts)
  define c where "c = (if parts = [] then 0 else 47 :: u8)"
  define r where "r = (if parts = [] then rest else path_string parts @ 0 # rest)"
  have split: "path_string (w # parts) @ 0 # rest = w @ c # r" by (cases parts) (simp_all add: c_def r_def)
  have nxt: "(if c = 47 then r else c # r) = path_string parts @ 0 # rest"
    by (cases parts) (simp_all add: c_def r_def)
  obtain n h1 where 1: "path_parser_parse_path_part (w @ c # r) h = Some (Some n, path_string parts @ 0 # rest, h1)"
    "c_str (pp_part n) = w" "heap_ok h1" "free_blocks h = free_blocks h1 + 2"
    "heap_live h1 = heap_live h \<union> {(pp_str_addr n, 4096), (pp_addr n, 4096)}"
    "(pp_str_addr n, 4096) \<notin> heap_live h" "(pp_addr n, 4096) \<notin> heap_live h" "pp_str_addr n \<noteq> pp_addr n"
    by (rule parse_path_part_ok [of h w c r, unfolded nxt]) (use Cons.prems c_def in auto)
  then obtain nodes h2 where 2: "path_parts_loop (path_string parts @ 0 # rest) h1 = Some (nodes, h2)"
    "holds_parts parts nodes h1 h2"
    using Cons.IH [of h1] Cons.prems by auto
  then have "path_parts_loop (path_string (w # parts) @ 0 # rest) h = Some (n # nodes, h2)"
    using 1(1) unfolding split by (subst path_parts_loop.simps) simp
  moreover have "holds_parts (w # parts) (n # nodes) h h2"
    using 1 2(2) by (auto simp: holds_parts_def)
  ultimately show ?case by blast
qed

lemma strnlen_loop_eq:
  "0 \<notin> set w \<Longrightarrow> length w < n \<Longrightarrow> strnlen_loop (pre @ w @ 0 # rest) (length pre) n = Some (int (length pre + length w))"
proof (induction n arbitrary: pre w)
  case (Suc n)
  show ?case
  proof (cases w)
    case Nil
    then show ?thesis by (simp add: rd_def nth_append)
  next
    case (Cons c w')
    then have "strnlen_loop ((pre @ [c]) @ w' @ 0 # rest) (length (pre @ [c])) n = Some (int (length (pre @ [c]) + length w'))"
      using Suc.prems by (intro Suc.IH) auto
    then show ?thesis using Suc.prems Cons by (simp add: rd_def nth_append)
  qed
qed simp

lemma valid_format_ok:
  assumes "is_digit d" "length path < 105" "0 \<notin> set path"
  shows "path_parser_path_valid_format (d # 58 # 47 # path @ 0 # rest) = Some True"
    "path_parser_get_drive_by_path (d # 58 # 47 # path @ 0 # rest) = Some (ctoi d)"
proof -
  have "d \<noteq> 0" using assms(1) by (auto simp: is_digit_def)
  then have "0 \<notin> set (d # 58 # 47 # path)" using assms(3) by simp
  then have "strnlen_loop ((d # 58 # 47 # path) @ 0 # rest) 0 108 = Some (int (length (d # 58 # 47 # path)))"
    using strnlen_loop_eq [of "d # 58 # 47 # path" 108 "[]" rest] assms(2) by simp
  then have "strnlen (d # 58 # 47 # path @ 0 # rest) (int TOYOS_MAX_PATH) = Some (3 + int (length path))"
    by (simp add: strnlen_def TOYOS_MAX_PATH_def)
  then show valid: "path_parser_path_valid_format (d # 58 # 47 # path @ 0 # rest) = Some True"
    using assms(1) by (simp add: path_parser_path_valid_format_def rd_def memcmp_def numeral_2_eq_2)
  then show "path_parser_get_drive_by_path (d # 58 # 47 # path @ 0 # rest) = Some (ctoi d)"
    by (simp add: path_parser_get_drive_by_path_def rd_def)
qed

lemma path_string_chars:
  "\<forall>p \<in> set parts. part_ok p \<Longrightarrow> 0 \<notin> set (path_string parts)"
  "p \<in> set parts \<Longrightarrow> length p \<le> length (path_string parts)"
  by (induction parts rule: path_string.induct) (auto simp: part_ok_def)

lemma path_parser_parse_ok:
  assumes "heap_ok h" "2 * length parts + 1 < free_blocks h" "\<forall>p \<in> set parts. part_ok p" "parts \<noteq> []"
    "is_digit d" "length (path_string parts) < 105"
  shows "\<exists>root h'. path_parser_parse (d # 58 # 47 # path_string parts @ 0 # rest) h = Some (Some root, h') \<and>
    drive_no root = ctoi d \<and> map (\<lambda>n. c_str (pp_part n)) (pr_first root) = parts \<and> heap_ok h' \<and>
    heap_live h' = heap_live h \<union> (\<lambda>p. (p, 4096)) ` set (root_pages root) \<and>
    distinct (root_pages root) \<and> (\<forall>p \<in> set (root_pages root). (p, 4096) \<notin> heap_live h)"
proof -
  let ?path = "d # 58 # 47 # path_string parts @ 0 # rest"
  have d: "d \<noteq> 0" "0 \<le> ctoi d" using assms(5) by (auto simp: is_digit_def ctoi_def)
  note nz = path_string_chars(1) [OF assms(3)]
  have "c_str ?path = d # 58 # 47 # path_string parts"
    using d nz by (simp add: c_str_def takeWhile_append)
  then have len: "strlen ?path = Some (3 + int (length (path_string parts)))" by (simp add: strlen_eq)
  obtain r h1 where 1: "kzalloc 8 h = (Some (r, replicate (unat (8 :: u32)) 0), h1)" "(r, 4096) \<notin> heap_live h"
    "heap_live h1 = insert (r, 4096) (heap_live h)" "heap_ok h1" "free_blocks h = Suc (free_blocks h1)"
    by (rule kzalloc_page_free [OF assms(1), of 8]) (use assms(2) in auto)
  have parts: "\<forall>p \<in> set parts. part_ok p \<and> length p < 108"
    using assms(3,6) path_string_chars(2) [of _ parts] by force
  obtain nodes h2 where 2: "path_parts_loop (path_string parts @ 0 # rest) h1 = Some (nodes, h2)"
    "holds_parts parts nodes h1 h2"
    using path_parts_loop_ok [OF 1(4) _ parts, of rest] assms(2) 1(5) by auto
  then obtain n ns where ns: "nodes = n # ns" using assms(4) by (cases nodes) (auto simp: holds_parts_def)
  obtain path' h3 where 3: "path_parser_parse_path_part (path_string parts @ 0 # rest) h1 = Some (Some n, path', h3)"
    "path_parts_loop path' h3 = Some (ns, h2)"
    using 2(1) [unfolded ns] path_parts_loop.simps [of "path_string parts @ 0 # rest" h1]
    by (auto split: bind_splits option.splits)
  let ?root = "\<lparr>pr_addr = r, drive_no = ctoi d, pr_first = nodes\<rparr>"
  have "path_parser_parse ?path h = Some (Some ?root, h2)"
    using len assms(6) valid_format_ok(2) [OF assms(5,6) nz, of rest] d 1(1) 3
    by (simp add: path_parser_parse_def path_parser_create_root_def TOYOS_MAX_PATH_def ns)
  moreover have "heap_live h2 = heap_live h \<union> (\<lambda>p. (p, 4096)) ` set (root_pages ?root)" "distinct (root_pages ?root)"
    "\<forall>p \<in> set (root_pages ?root). (p, 4096) \<notin> heap_live h"
    using 1 2(2) by (auto simp: holds_parts_def root_pages_def)
  ultimately show ?thesis using 2(2) by (intro exI [of _ ?root] exI [of _ h2]) (simp add: holds_parts_def)
qed

subsection \<open>Properties\<close>



end
