(* ===== verification/Fat16.thy ===== *)
theory Fat16
  imports Disk_Stream Path_Parser
begin

section \<open>The FAT16 file system\<close>

text \<open>
  \<^verbatim>\<open>src/src/fs/fat/fat16.c\<close> on top of the disk streams. Structures that are read from the disk (the volume
  header, the 32-byte directory items) are their bytes, with one function per field. Objects on the
  heap have the address \<open>kzalloc\<close> gave them and belong to the structure that points to them. The state
  \<open>fs_state\<close> holds the heap, the hardware and the only \<open>struct disk\<close>; later components extend it.
  \<^const>\<open>None\<close> is an access outside an object, to a freed object or through a null pointer, a division
  by zero, or a loop that never ends.
\<close>

definition TOYOS_FAT16_SIGNATURE :: u8 where [kernel_consts]: "TOYOS_FAT16_SIGNATURE = 0x29"
definition TOYOS_FAT16_FAT_ENTRY_SIZE :: int where [kernel_consts]: "TOYOS_FAT16_FAT_ENTRY_SIZE = 0x02"
definition TOYOS_FAT16_BAD_SECTOR :: int where [kernel_consts]: "TOYOS_FAT16_BAD_SECTOR = 0xff7"
definition TOYOS_FAT16_UNUSED :: int where [kernel_consts]: "TOYOS_FAT16_UNUSED = 0x00"
definition FAT_FILE_READ_ONLY :: u8 where [kernel_consts]: "FAT_FILE_READ_ONLY = 0x01"
definition FAT_FILE_SUBDIRECTORY :: u8 where [kernel_consts]: "FAT_FILE_SUBDIRECTORY = 0x10"
definition DIRECTORY_ENTRY_AVAILABLE :: u8 where [kernel_consts]: "DIRECTORY_ENTRY_AVAILABLE = 0xe5"
definition FILE_MODE_READ :: u32 where [kernel_consts]: "FILE_MODE_READ = 0"
definition FILE_MODE_WRITE :: u32 where [kernel_consts]: "FILE_MODE_WRITE = 1"
definition FILE_MODE_APPEND :: u32 where [kernel_consts]: "FILE_MODE_APPEND = 2"
definition FILE_MODE_INVALID :: u32 where [kernel_consts]: "FILE_MODE_INVALID = 3"
definition SEEK_SET :: u32 where [kernel_consts]: "SEEK_SET = 0"
definition SEEK_CUR :: u32 where [kernel_consts]: "SEEK_CUR = 1"
definition SEEK_END :: u32 where [kernel_consts]: "SEEK_END = 2"
definition FILE_STAT_READ_ONLY :: u32 where [kernel_consts]: "FILE_STAT_READ_ONLY = 1"
definition DISK_TYPE_REAL :: u32 where [kernel_consts]: "DISK_TYPE_REAL = 0"

subsection \<open>Structures on the disk\<close>

text \<open>The packed header: \<open>fat_header\<close> in the bytes 0 to 35, \<open>fat_header_extended\<close> in the bytes 36 to 61.\<close>

definition field16 :: "u8 list \<Rightarrow> nat \<Rightarrow> u16" where
  "field16 b i = bytes_word (b ! i) (b ! (i + 1))"

definition field32 :: "u8 list \<Rightarrow> nat \<Rightarrow> u32" where
  "field32 b i = ucast (field16 b i) OR push_bit 16 (ucast (field16 b (i + 2)))"

definition sizeof_fat_h :: nat where "sizeof_fat_h = 62"
definition sectors_per_cluster :: "u8 list \<Rightarrow> int" where "sectors_per_cluster h = uint (h ! 13)"
definition reserved_sectors :: "u8 list \<Rightarrow> int" where "reserved_sectors h = uint (field16 h 14)"
definition fat_copies :: "u8 list \<Rightarrow> int" where "fat_copies h = uint (h ! 16)"
definition root_dir_entries :: "u8 list \<Rightarrow> int" where "root_dir_entries h = uint (field16 h 17)"
definition number_of_sectors :: "u8 list \<Rightarrow> int" where "number_of_sectors h = uint (field16 h 19)"
definition sectors_per_fat :: "u8 list \<Rightarrow> int" where "sectors_per_fat h = uint (field16 h 22)"
definition extended_signature :: "u8 list \<Rightarrow> u8" where "extended_signature h = h ! 38"

definition sizeof_fat_directory_item :: nat where "sizeof_fat_directory_item = 32"
definition item_filename :: "u8 list \<Rightarrow> u8 list" where "item_filename it = it"
definition item_ext :: "u8 list \<Rightarrow> u8 list" where "item_ext it = drop 8 it"
definition item_attribute :: "u8 list \<Rightarrow> u8" where "item_attribute it = it ! 11"
definition high_16_bits_first_cluster :: "u8 list \<Rightarrow> u16" where "high_16_bits_first_cluster it = field16 it 20"
definition low_16_bits_first_cluster :: "u8 list \<Rightarrow> u16" where "low_16_bits_first_cluster it = field16 it 26"
definition item_filesize :: "u8 list \<Rightarrow> u32" where "item_filesize it = field32 it 28"

definition set_item_filesize :: "u32 \<Rightarrow> u8 list \<Rightarrow> u8 list" where
  "set_item_filesize v it =
     it[28 := ucast v, 29 := ucast (drop_bit 8 v), 30 := ucast (drop_bit 16 v), 31 := ucast (drop_bit 24 v)]"

subsection \<open>Objects in memory\<close>

text \<open>A directory: the address and the bytes of its items, their number and its sectors.\<close>

record fat_directory =
  dir_item :: "(u32 \<times> u8 list) option"
  dir_total :: int
  dir_sector_pos :: int
  dir_ending_sector_pos :: int

text \<open>
  The union of a \<open>fat_item\<close> with its type. A directory pointer is null, points to a directory that was
  freed, or to a directory.
\<close>

datatype fat_dir_ref = Dir_null | Dir_freed | Dir_at u32 fat_directory

datatype fat_item_union = Fat_file "(u32 \<times> u8 list) option" | Fat_dir fat_dir_ref

record fat_item =
  fi_addr :: u32
  fi_union :: fat_item_union

record fat_file_descriptor =
  ffd_addr :: u32
  ffd_item :: fat_item
  ffd_pos :: u32

record fat_private =
  fp_addr :: u32
  fat_header :: "u8 list"
  root_directory :: fat_directory
  cluster_read_stream :: "disk_stream option"
  fat_read_stream :: "disk_stream option"
  directory_stream :: "disk_stream option"

record file_stat =
  stat_flags :: u32
  stat_filesize :: u32

text \<open>\<open>fat16_fs\<close> is the only \<open>struct filesystem\<close> of the kernel; its operations are called through it.\<close>

datatype filesystem = Fat16_fs

record disk =
  disk_type :: u32
  sector_size :: int
  disk_id :: int
  disk_fs :: "filesystem option"
  fs_private :: "fat_private option"

record 'd fs_state =
  fs_heap :: heap
  fs_dev :: 'd
  the_disk :: disk

text \<open>The private data of the disk, and the three streams in it as the place a stream pointer points to.\<close>

definition set_private :: "fat_private option \<Rightarrow> ('d, 'z) fs_state_scheme \<Rightarrow> ('d, 'z) fs_state_scheme" where
  "set_private p s = s\<lparr>the_disk := (the_disk s)\<lparr>fs_private := p\<rparr>\<rparr>"

datatype fat_stream = Cluster_stream | Table_stream | Directory_stream

fun get_stream :: "fat_stream \<Rightarrow> fat_private \<Rightarrow> disk_stream option" where
  "get_stream Cluster_stream p = cluster_read_stream p"
| "get_stream Table_stream p = fat_read_stream p"
| "get_stream Directory_stream p = directory_stream p"

fun set_stream :: "fat_stream \<Rightarrow> disk_stream option \<Rightarrow> fat_private \<Rightarrow> fat_private" where
  "set_stream Cluster_stream x p = p\<lparr>cluster_read_stream := x\<rparr>"
| "set_stream Table_stream x p = p\<lparr>fat_read_stream := x\<rparr>"
| "set_stream Directory_stream x p = p\<lparr>directory_stream := x\<rparr>"

text \<open>
  The operations of the streamer on a stream of the private data. The 512-byte buffer on the stack of the
  streamer is filled before it is used; it starts as zeros here.
\<close>

definition fat_seek :: "fat_stream \<Rightarrow> int \<Rightarrow> ('d, 'z) fs_state_scheme \<Rightarrow> (int \<times> ('d, 'z) fs_state_scheme) option" where
  "fat_seek w pos s =
     do { p \<leftarrow> fs_private (the_disk s);
          let (res, x) = streamer_seek (get_stream w p) pos
          in Some (res, set_private (Some (set_stream w x p)) s) }"

definition fat_read :: "'d bus \<Rightarrow> fat_stream \<Rightarrow> u8 list \<Rightarrow> int \<Rightarrow> ('d, 'z) fs_state_scheme \<Rightarrow>
    (int \<times> u8 list \<times> ('d, 'z) fs_state_scheme) option" where
  "fat_read io w out n s =
     do { p \<leftarrow> fs_private (the_disk s);
          case get_stream w p of
            None \<Rightarrow> Some (- EINVARG, out, s)
          | Some x \<Rightarrow>
              do { (res, out, x, d) \<leftarrow> streamer_read io x out n (replicate 512 0) (fs_dev s);
                   Some (res, out, set_private (Some (set_stream w (Some x) p)) (s\<lparr>fs_dev := d\<rparr>)) } }"

definition fat_write :: "'d bus \<Rightarrow> fat_stream \<Rightarrow> u8 list \<Rightarrow> int \<Rightarrow> ('d, 'z) fs_state_scheme \<Rightarrow>
    (int \<times> ('d, 'z) fs_state_scheme) option" where
  "fat_write io w inp n s =
     do { p \<leftarrow> fs_private (the_disk s);
          case get_stream w p of
            None \<Rightarrow> Some (- EINVARG, s)
          | Some x \<Rightarrow>
              do { (res, x, d) \<leftarrow> streamer_write io x inp n (replicate 512 0) (fs_dev s);
                   Some (res, set_private (Some (set_stream w (Some x) p)) (s\<lparr>fs_dev := d\<rparr>)) } }"

subsection \<open>Mounting a volume\<close>

definition fat16_init_private :: "disk \<Rightarrow> u32 \<Rightarrow> heap \<Rightarrow> fat_private \<times> heap" where
  "fat16_init_private disk private h =
     (let (cluster, h) = streamer_new (disk_id disk) h;
          (table, h) = streamer_new (disk_id disk) h;
          (directory, h) = streamer_new (disk_id disk) h
      in (\<lparr>fp_addr = private, fat_header = replicate sizeof_fat_h 0,
            root_directory = \<lparr>dir_item = None, dir_total = 0, dir_sector_pos = 0, dir_ending_sector_pos = 0\<rparr>,
            cluster_read_stream = cluster, fat_read_stream = table, directory_stream = directory\<rparr>, h))"

text \<open>Nothing but a free item or the end of the disk ends the count; it goes on behind the directory.\<close>

partial_function (option) count_items_loop :: "'d bus \<Rightarrow> int \<Rightarrow> u8 list \<Rightarrow> ('d, 'z) fs_state_scheme \<Rightarrow>
    (int \<times> ('d, 'z) fs_state_scheme) option" where
  "count_items_loop io total_items item s =
     do { (res, item, s) \<leftarrow> fat_read io Directory_stream item (int sizeof_fat_directory_item) s;
          if res \<noteq> OK then Some (- EIO, s)
          else if item ! 0 = 0x00 then Some (total_items, s)
          else if item ! 0 = DIRECTORY_ENTRY_AVAILABLE then count_items_loop io total_items item s
          else count_items_loop io (total_items + 1) item s }"

definition fat16_get_total_items_for_directory :: "'d bus \<Rightarrow> u32 \<Rightarrow> ('d, 'z) fs_state_scheme \<Rightarrow>
    (int \<times> ('d, 'z) fs_state_scheme) option" where
  "fat16_get_total_items_for_directory io directory_start_sector s =
     (let directory_start_pos = sint (directory_start_sector * word_of_int (sector_size (the_disk s)))
      in do { (res, s) \<leftarrow> fat_seek Directory_stream directory_start_pos s;
              if res \<noteq> OK then Some (- EIO, s)
              else count_items_loop io 0 (replicate sizeof_fat_directory_item 0) s })"

definition fat16_sector_to_absolute :: "('d, 'z) fs_state_scheme \<Rightarrow> int \<Rightarrow> int" where
  "fat16_sector_to_absolute s sector = to_int (sector * sector_size (the_disk s))"

definition root_dir_sector_pos :: "u8 list \<Rightarrow> int" where
  "root_dir_sector_pos h = fat_copies h * sectors_per_fat h + reserved_sectors h"

definition root_dir_size :: "u8 list \<Rightarrow> int" where
  "root_dir_size h = root_dir_entries h * int sizeof_fat_directory_item"

definition fat16_get_root_directory :: "'d bus \<Rightarrow> ('d, 'z) fs_state_scheme \<Rightarrow> (int \<times> ('d, 'z) fs_state_scheme) option" where
  "fat16_get_root_directory io s =
     do { p \<leftarrow> fs_private (the_disk s);
          let pos = root_dir_sector_pos (fat_header p);
          let size = root_dir_size (fat_header p);
          if sector_size (the_disk s) = 0 then None
          else do {
            (total_items, s) \<leftarrow> fat16_get_total_items_for_directory io (word_of_int pos) s;
            case kzalloc (word_of_int size) (fs_heap s) of
              (None, h) \<Rightarrow> Some (- ENOMEM, s\<lparr>fs_heap := h\<rparr>)
            | (Some (addr, dir), h) \<Rightarrow>
                let s = s\<lparr>fs_heap := h\<rparr>; err = (\<lambda>s. Some (- EIO, s\<lparr>fs_heap := kfree addr (fs_heap s)\<rparr>))
                in if directory_stream p = None then err s
                   else do {
                     (res, s) \<leftarrow> fat_seek Directory_stream (fat16_sector_to_absolute s pos) s;
                     if res \<noteq> OK then err s
                     else do {
                       (res, dir, s) \<leftarrow> fat_read io Directory_stream dir size s;
                       if res \<noteq> OK then err s
                       else do {
                         p \<leftarrow> fs_private (the_disk s);
                         Some (OK, set_private (Some (p\<lparr>root_directory :=
                           \<lparr>dir_item = Some (addr, dir), dir_total = total_items, dir_sector_pos = pos,
                            dir_ending_sector_pos = pos + size sdiv sector_size (the_disk s)\<rparr>\<rparr>)) s) } } } } }"

text \<open>
  The size of \<open>struct fat_private\<close> is 92 bytes: the 62 bytes of the header, two of padding, four words of
  the root directory and three pointers. A stream of its own reads the header.
\<close>

definition fat16_read_header :: "'d bus \<Rightarrow> disk_stream \<Rightarrow> ('d, 'z) fs_state_scheme \<Rightarrow>
    (int \<times> ('d, 'z) fs_state_scheme) option" where
  "fat16_read_header io stream s =
     do { p \<leftarrow> fs_private (the_disk s);
          (res, header, stream, d) \<leftarrow> streamer_read io stream (fat_header p) (int sizeof_fat_h) (replicate 512 0) (fs_dev s);
          let s = set_private (Some (p\<lparr>fat_header := header\<rparr>)) (s\<lparr>fs_dev := d\<rparr>);
          if res \<noteq> OK then Some (- EIO, s)
          else if extended_signature header \<noteq> TOYOS_FAT16_SIGNATURE then Some (- EFSNOTUS, s)
          else do { (res, s) \<leftarrow> fat16_get_root_directory io s; Some (if res \<noteq> OK then - EIO else OK, s) } }"

definition fat16_resolve :: "'d bus \<Rightarrow> ('d, 'z) fs_state_scheme \<Rightarrow> (int \<times> ('d, 'z) fs_state_scheme) option" where
  "fat16_resolve io s =
     (case kzalloc 92 (fs_heap s) of
        (None, h) \<Rightarrow> Some (- ENOMEM, s\<lparr>fs_heap := h\<rparr>)
      | (Some (addr, _), h) \<Rightarrow>
          let (private, h) = fat16_init_private (the_disk s) addr h;
              s = s\<lparr>the_disk := (the_disk s)\<lparr>fs_private := Some private, disk_fs := Some Fat16_fs\<rparr>\<rparr>;
              (stream, h) = streamer_new (disk_id (the_disk s)) h;
              s = s\<lparr>fs_heap := h\<rparr>
          in do { (res, s) \<leftarrow>
                    (case stream of
                       None \<Rightarrow> Some (- ENOMEM, s)
                     | Some stream \<Rightarrow>
                         do { (res, s) \<leftarrow> fat16_read_header io stream s;
                              Some (res, s\<lparr>fs_heap := streamer_close stream (fs_heap s)\<rparr>) });
                  Some (res, if res < 0 then set_private None (s\<lparr>fs_heap := kfree addr (fs_heap s)\<rparr>) else s) })"

subsection \<open>Clusters\<close>

definition fat16_clone_directory_item :: "u8 list \<Rightarrow> int \<Rightarrow> heap \<Rightarrow> ((u32 \<times> u8 list) option \<times> heap) option" where
  "fat16_clone_directory_item item n h =
     (if n < int sizeof_fat_directory_item then Some (None, h)
      else case kzalloc (word_of_int n) h of
             (None, h) \<Rightarrow> Some (None, h)
           | (Some (addr, item_copy), h) \<Rightarrow>
               do { item_copy \<leftarrow> memcpy item_copy item n; Some (Some (addr, item_copy), h) })"

definition fat16_get_first_cluster :: "u8 list \<Rightarrow> u32" where
  "fat16_get_first_cluster item = ucast (high_16_bits_first_cluster item OR low_16_bits_first_cluster item)"

definition fat16_cluster_to_sector :: "fat_private \<Rightarrow> int \<Rightarrow> int" where
  "fat16_cluster_to_sector private cluster =
     to_int (dir_ending_sector_pos (root_directory private) + (cluster - 2) * sectors_per_cluster (fat_header private))"

definition fat16_get_first_fat_sector :: "fat_private \<Rightarrow> u32" where
  "fat16_get_first_fat_sector private = word_of_int (reserved_sectors (fat_header private))"

text \<open>The position of an entry of the table, with the unsigned arithmetic of the code.\<close>

definition fat_entry_position :: "fat_private \<Rightarrow> ('d, 'z) fs_state_scheme \<Rightarrow> int \<Rightarrow> int" where
  "fat_entry_position private s cluster =
     sint (fat16_get_first_fat_sector private * word_of_int (sector_size (the_disk s)) +
           word_of_int (cluster * TOYOS_FAT16_FAT_ENTRY_SIZE) :: u32)"

definition fat16_get_fat_entry :: "'d bus \<Rightarrow> int \<Rightarrow> ('d, 'z) fs_state_scheme \<Rightarrow> (int \<times> ('d, 'z) fs_state_scheme) option" where
  "fat16_get_fat_entry io cluster s =
     do { private \<leftarrow> fs_private (the_disk s);
          if fat_read_stream private = None then Some (-100, s)
          else do {
            (res, s) \<leftarrow> fat_seek Table_stream (fat_entry_position private s cluster) s;
            if res < 0 then Some (res, s)
            else do {
              (res, result, s) \<leftarrow> fat_read io Table_stream [0, 0] 2 s;
              if res < 0 then Some (res, s) else Some (uint (field16 result 0), s) } } }"

fun cluster_loop :: "'d bus \<Rightarrow> nat \<Rightarrow> int \<Rightarrow> ('d, 'z) fs_state_scheme \<Rightarrow> (int \<times> ('d, 'z) fs_state_scheme) option" where
  "cluster_loop io 0 cluster_to_use s = Some (cluster_to_use, s)"
| "cluster_loop io (Suc n) cluster_to_use s =
     do { (ent, s) \<leftarrow> fat16_get_fat_entry io cluster_to_use s;
          if ent = 0xff8 \<or> ent = 0xfff then Some (- EIO, s)
          else if ent = TOYOS_FAT16_BAD_SECTOR then Some (- EIO, s)
          else if ent = 0xff0 \<or> ent = 0xff6 then Some (- EIO, s)
          else if ent = 0x00 then Some (- EIO, s)
          else cluster_loop io n ent s }"

definition size_of_cluster_bytes :: "fat_private \<Rightarrow> ('d, 'z) fs_state_scheme \<Rightarrow> int" where
  "size_of_cluster_bytes private s = to_int (sectors_per_cluster (fat_header private) * sector_size (the_disk s))"

definition fat16_get_cluster_for_offset :: "'d bus \<Rightarrow> int \<Rightarrow> int \<Rightarrow> ('d, 'z) fs_state_scheme \<Rightarrow>
    (int \<times> ('d, 'z) fs_state_scheme) option" where
  "fat16_get_cluster_for_offset io starting_cluster offset s =
     do { private \<leftarrow> fs_private (the_disk s);
          let size = size_of_cluster_bytes private s;
          if size = 0 then None else cluster_loop io (nat (offset sdiv size)) starting_cluster s }"

partial_function (option) fat16_read_internal_from_stream ::
    "'d bus \<Rightarrow> fat_stream \<Rightarrow> int \<Rightarrow> int \<Rightarrow> int \<Rightarrow> u8 list \<Rightarrow> ('d, 'z) fs_state_scheme \<Rightarrow>
     (int \<times> u8 list \<times> ('d, 'z) fs_state_scheme) option" where
  "fat16_read_internal_from_stream io stream cluster offset n out s =
     do { private \<leftarrow> fs_private (the_disk s);
          let size = size_of_cluster_bytes private s;
          (cluster_to_use, s) \<leftarrow> fat16_get_cluster_for_offset io cluster offset s;
          if cluster_to_use < 0 then Some (cluster_to_use, out, s)
          else let starting_sector = fat16_cluster_to_sector private cluster_to_use;
                   offset_from_cluster = offset smod size;
                   starting_pos = to_int (starting_sector * sector_size (the_disk s) + offset_from_cluster);
                   total_to_read = (if n > size then size else n)
               in do {
                 (res, s) \<leftarrow> fat_seek stream starting_pos s;
                 if res \<noteq> OK then Some (res, out, s)
                 else do {
                   (res, out, s) \<leftarrow> fat_read io stream out total_to_read s;
                   if res \<noteq> OK then Some (res, out, s)
                   else if n - total_to_read > 0
                   then do {
                     (res, rest, s) \<leftarrow> fat16_read_internal_from_stream io stream cluster (offset + total_to_read)
                       (n - total_to_read) (drop (nat total_to_read) out) s;
                     Some (res, take (nat total_to_read) out @ rest, s) }
                   else Some (res, out, s) } } }"

definition fat16_read_internal :: "'d bus \<Rightarrow> int \<Rightarrow> int \<Rightarrow> int \<Rightarrow> u8 list \<Rightarrow> ('d, 'z) fs_state_scheme \<Rightarrow>
    (int \<times> u8 list \<times> ('d, 'z) fs_state_scheme) option" where
  "fat16_read_internal io starting_cluster offset n out s =
     fat16_read_internal_from_stream io Cluster_stream starting_cluster offset n out s"

subsection \<open>Directories\<close>

definition fat16_free_directory :: "fat_dir_ref \<Rightarrow> heap \<Rightarrow> heap option" where
  "fat16_free_directory directory h =
     (case directory of
        Dir_null \<Rightarrow> Some h
      | Dir_freed \<Rightarrow> None
      | Dir_at addr dir \<Rightarrow>
          let h = (case dir_item dir of None \<Rightarrow> h | Some (p, _) \<Rightarrow> kfree p h) in Some (kfree addr h))"

definition fat16_fat_item_free :: "fat_item \<Rightarrow> heap \<Rightarrow> heap option" where
  "fat16_fat_item_free item h =
     do { h \<leftarrow> (case fi_union item of
                  Fat_dir directory \<Rightarrow> fat16_free_directory directory h
                | Fat_file None \<Rightarrow> Some (kfree 0 h)
                | Fat_file (Some (p, _)) \<Rightarrow> Some (kfree p h));
          Some (kfree (fi_addr item) h) }"

text \<open>
  The size of \<open>struct fat_directory\<close> is 16. When counting the items fails, the negative number becomes a
  size close to \<open>2\<^sup>3\<^sup>2\<close>, and \<open>kzalloc\<close> clears the whole memory. When reading them fails, the directory is freed
  and the pointer to it is returned all the same.
\<close>

definition fat16_load_fat_directory :: "'d bus \<Rightarrow> u8 list \<Rightarrow> ('d, 'z) fs_state_scheme \<Rightarrow>
    (fat_dir_ref \<times> ('d, 'z) fs_state_scheme) option" where
  "fat16_load_fat_directory io item s =
     (if item_attribute item AND FAT_FILE_SUBDIRECTORY = 0 then Some (Dir_null, s)
      else do {
        fat_private \<leftarrow> fs_private (the_disk s);
        case kzalloc 16 (fs_heap s) of
          (None, h) \<Rightarrow> Some (Dir_null, s\<lparr>fs_heap := h\<rparr>)
        | (Some (directory, _), h) \<Rightarrow>
            let s = s\<lparr>fs_heap := h\<rparr>;
                cluster = uint (fat16_get_first_cluster item);
                cluster_sector = fat16_cluster_to_sector fat_private cluster
            in do {
              (n, s) \<leftarrow> fat16_get_total_items_for_directory io (word_of_int cluster_sector) s;
              let directory_size = n * int sizeof_fat_directory_item;
              if n < 0 then None
              else case kzalloc (word_of_int directory_size) (fs_heap s) of
                (None, h) \<Rightarrow> Some (Dir_freed, s\<lparr>fs_heap := kfree directory h\<rparr>)
              | (Some (addr, items), h) \<Rightarrow>
                  do { (res, items, s) \<leftarrow> fat16_read_internal io cluster 0x00 directory_size items (s\<lparr>fs_heap := h\<rparr>);
                       let dir = \<lparr>dir_item = Some (addr, items), dir_total = n, dir_sector_pos = 0,
                                  dir_ending_sector_pos = 0\<rparr>;
                       if res \<noteq> OK
                       then do { h \<leftarrow> fat16_free_directory (Dir_at directory dir) (fs_heap s);
                                 Some (Dir_freed, s\<lparr>fs_heap := h\<rparr>) }
                       else Some (Dir_at directory dir, s) } } })"

definition fat16_new_fat_item_for_directory_item :: "'d bus \<Rightarrow> u8 list \<Rightarrow> ('d, 'z) fs_state_scheme \<Rightarrow>
    (fat_item option \<times> ('d, 'z) fs_state_scheme) option" where
  "fat16_new_fat_item_for_directory_item io item s =
     (case kzalloc 8 (fs_heap s) of
        (None, h) \<Rightarrow> Some (None, s\<lparr>fs_heap := h\<rparr>)
      | (Some (f_item, _), h) \<Rightarrow>
          let s = s\<lparr>fs_heap := h\<rparr>
          in if item_attribute item AND FAT_FILE_SUBDIRECTORY \<noteq> 0
             then do { (directory, s) \<leftarrow> fat16_load_fat_directory io item s;
                       Some (Some \<lparr>fi_addr = f_item, fi_union = Fat_dir directory\<rparr>, s) }
             else do { (item, h) \<leftarrow> fat16_clone_directory_item item (int sizeof_fat_directory_item) (fs_heap s);
                       Some (Some \<lparr>fi_addr = f_item, fi_union = Fat_file item\<rparr>, s\<lparr>fs_heap := h\<rparr>) })"

text \<open>The output pointer is a position in the output buffer; it is left on the terminator.\<close>

fun proper_string_loop :: "u8 list \<Rightarrow> nat \<Rightarrow> u8 list \<Rightarrow> nat \<Rightarrow> nat \<Rightarrow> (u8 list \<times> nat) option" where
  "proper_string_loop out p [] i n = None"
| "proper_string_loop out p (c # inp) i n =
     (if c \<noteq> 0x00 \<and> c \<noteq> 0x20
      then do { out \<leftarrow> wr out p c;
                if i \<ge> n - 1 then Some (out, p + 1) else proper_string_loop out (p + 1) inp (i + 1) n }
      else Some (out, p))"

definition fat16_to_proper_string :: "u8 list \<Rightarrow> nat \<Rightarrow> u8 list \<Rightarrow> nat \<Rightarrow> (u8 list \<times> nat) option" where
  "fat16_to_proper_string out p inp n =
     do { (out, p) \<leftarrow> proper_string_loop out p inp 0 n; out \<leftarrow> wr out p 0x00; Some (out, p) }"

definition fat16_get_full_relative_filename :: "u8 list \<Rightarrow> u8 list \<Rightarrow> int \<Rightarrow> u8 list option" where
  "fat16_get_full_relative_filename item out max_len =
     do { out \<leftarrow> memset out 0x00 (word_of_int max_len);
          (out, p) \<leftarrow> fat16_to_proper_string out 0 (item_filename item) 8;
          if item ! 8 \<noteq> 0x00 \<and> item ! 8 \<noteq> 0x20
          then do { out \<leftarrow> wr out p 46; (out, p) \<leftarrow> fat16_to_proper_string out (p + 1) (item_ext item) 3; Some out }
          else Some out }"

text \<open>The search goes on after a match; the last match is the result.\<close>

fun find_item_loop :: "'d bus \<Rightarrow> u8 list \<Rightarrow> nat \<Rightarrow> nat \<Rightarrow> u8 list \<Rightarrow> u8 list \<Rightarrow> fat_item option \<Rightarrow> ('d, 'z) fs_state_scheme \<Rightarrow>
    (fat_item option \<times> ('d, 'z) fs_state_scheme) option" where
  "find_item_loop io items i 0 name tmp_filename f_item s = Some (f_item, s)"
| "find_item_loop io items i (Suc n) name tmp_filename f_item s =
     do { item \<leftarrow> rd_bytes items (i * sizeof_fat_directory_item) sizeof_fat_directory_item;
          tmp_filename \<leftarrow> fat16_get_full_relative_filename item tmp_filename (int TOYOS_MAX_PATH);
          c \<leftarrow> istrncmp tmp_filename name (int TOYOS_MAX_PATH);
          (f_item, s) \<leftarrow> (if c = 0 then fat16_new_fat_item_for_directory_item io item s else Some (f_item, s));
          find_item_loop io items (i + 1) n name tmp_filename f_item s }"

definition fat16_find_item_in_directory :: "'d bus \<Rightarrow> fat_directory \<Rightarrow> u8 list \<Rightarrow> ('d, 'z) fs_state_scheme \<Rightarrow>
    (fat_item option \<times> ('d, 'z) fs_state_scheme) option" where
  "fat16_find_item_in_directory io directory name s =
     find_item_loop io (case dir_item directory of None \<Rightarrow> [] | Some (_, items) \<Rightarrow> items) 0 (nat (dir_total directory))
       name (replicate TOYOS_MAX_PATH 0) None s"

fun directory_entry_loop :: "'d bus \<Rightarrow> path_part list \<Rightarrow> fat_item \<Rightarrow> ('d, 'z) fs_state_scheme \<Rightarrow>
    (fat_item option \<times> ('d, 'z) fs_state_scheme) option" where
  "directory_entry_loop io [] current_item s = Some (Some current_item, s)"
| "directory_entry_loop io (next_part # parts) current_item s =
     (case fi_union current_item of
        Fat_file _ \<Rightarrow> Some (None, s)
      | Fat_dir (Dir_at _ directory) \<Rightarrow>
          do { (tmp_item, s) \<leftarrow> fat16_find_item_in_directory io directory (pp_part next_part) s;
               case tmp_item of
                 None \<Rightarrow> Some (None, s)
               | Some tmp_item \<Rightarrow>
                   do { h \<leftarrow> fat16_fat_item_free current_item (fs_heap s);
                        directory_entry_loop io parts tmp_item (s\<lparr>fs_heap := h\<rparr>) } }
      | Fat_dir _ \<Rightarrow> None)"

definition fat16_get_directory_entry :: "'d bus \<Rightarrow> path_part list \<Rightarrow> ('d, 'z) fs_state_scheme \<Rightarrow>
    (fat_item option \<times> ('d, 'z) fs_state_scheme) option" where
  "fat16_get_directory_entry io path s =
     do { fat_private \<leftarrow> fs_private (the_disk s);
          part \<leftarrow> rd path 0;
          (root_item, s) \<leftarrow> fat16_find_item_in_directory io (root_directory fat_private) (pp_part part) s;
          case root_item of
            None \<Rightarrow> Some (None, s)
          | Some root_item \<Rightarrow> directory_entry_loop io (drop 1 path) root_item s }"

subsection \<open>The table of clusters\<close>

definition fat16_set_fat_entry :: "'d bus \<Rightarrow> int \<Rightarrow> int \<Rightarrow> ('d, 'z) fs_state_scheme \<Rightarrow>
    (int \<times> ('d, 'z) fs_state_scheme) option" where
  "fat16_set_fat_entry io cluster v s =
     do { private \<leftarrow> fs_private (the_disk s);
          if fat_read_stream private = None then Some (- EIO, s)
          else do {
            (res, s) \<leftarrow> fat_seek Table_stream (fat_entry_position private s cluster) s;
            if res \<noteq> OK then Some (- EIO, s)
            else do {
              (res, s) \<leftarrow> fat_write io Table_stream (word_bytes (word_of_int v)) 2 s;
              Some (if res \<noteq> OK then - EIO else OK, s) } } }"

fun allocate_loop :: "'d bus \<Rightarrow> int \<Rightarrow> nat \<Rightarrow> int \<Rightarrow> ('d, 'z) fs_state_scheme \<Rightarrow> (int \<times> ('d, 'z) fs_state_scheme) option" where
  "allocate_loop io i 0 current_cluster s = Some (- ENOMEM, s)"
| "allocate_loop io i (Suc n) current_cluster s =
     do { (ent, s) \<leftarrow> fat16_get_fat_entry io i s;
          if ent = TOYOS_FAT16_UNUSED
          then do { (res, s) \<leftarrow> fat16_set_fat_entry io current_cluster i s;
                    if res \<noteq> OK then Some (- EIO, s)
                    else do { (res, s) \<leftarrow> fat16_set_fat_entry io i 0xfff s;
                              Some (if res \<noteq> OK then - EIO else i, s) } }
          else allocate_loop io (i + 1) n current_cluster s }"

definition fat16_allocate_cluster :: "'d bus \<Rightarrow> int \<Rightarrow> ('d, 'z) fs_state_scheme \<Rightarrow>
    (int \<times> ('d, 'z) fs_state_scheme) option" where
  "fat16_allocate_cluster io current_cluster s =
     do { p \<leftarrow> fs_private (the_disk s);
          allocate_loop io 2 (nat (number_of_sectors (fat_header p) - 2)) current_cluster s }"

definition fat16_get_directory_sector :: "fat_private \<Rightarrow> u8 list \<Rightarrow> int" where
  "fat16_get_directory_sector private item =
     (if item_attribute item AND FAT_FILE_SUBDIRECTORY \<noteq> 0
      then fat16_cluster_to_sector private (uint (fat16_get_first_cluster item))
      else reserved_sectors (fat_header private) + fat_copies (fat_header private) * sectors_per_fat (fat_header private))"

fun directory_offset_loop :: "u32 \<Rightarrow> u32 \<Rightarrow> nat \<Rightarrow> nat \<Rightarrow> int" where
  "directory_offset_loop base item i 0 = - EIO"
| "directory_offset_loop base item i (Suc n) =
     (if base + of_nat (i * sizeof_fat_directory_item) = item then int (i * sizeof_fat_directory_item)
      else directory_offset_loop base item (i + 1) n)"

definition fat16_get_directory_offset :: "fat_private \<Rightarrow> u32 \<times> u8 list \<Rightarrow> int" where
  "fat16_get_directory_offset private item =
     (if item_attribute (snd item) AND FAT_FILE_SUBDIRECTORY \<noteq> 0 then 0
      else directory_offset_loop (case dir_item (root_directory private) of None \<Rightarrow> 0 | Some (base, _) \<Rightarrow> base)
             (fst item) 0 (nat (dir_total (root_directory private))))"

subsection \<open>The operations of the file system\<close>

text \<open>A pointer or an error code: \<open>ERROR(value)\<close> and \<open>ISERROR\<close> of \<^verbatim>\<open>kernel.h\<close>.\<close>

definition fat16_open :: "'d bus \<Rightarrow> disk_ptr \<Rightarrow> path_part list \<Rightarrow> u32 \<Rightarrow> ('d, 'z) fs_state_scheme \<Rightarrow>
    ((int + fat_file_descriptor) \<times> ('d, 'z) fs_state_scheme) option" where
  "fat16_open io dsk path mode s =
     (if dsk = Disk_NULL \<or> path = [] then Some (Inl (- EINVARG), s)
      else if mode \<noteq> FILE_MODE_READ \<and> mode \<noteq> FILE_MODE_WRITE then Some (Inl (- EINVARG), s)
      else case kzalloc 8 (fs_heap s) of
             (None, h) \<Rightarrow> Some (Inl (- ENOMEM), s\<lparr>fs_heap := h\<rparr>)
           | (Some (descriptor, _), h) \<Rightarrow>
               do { (item, s) \<leftarrow> fat16_get_directory_entry io path (s\<lparr>fs_heap := h\<rparr>);
                    case item of
                      None \<Rightarrow> Some (Inl (- EIO), s\<lparr>fs_heap := kfree descriptor (fs_heap s)\<rparr>)
                    | Some item \<Rightarrow> Some (Inr \<lparr>ffd_addr = descriptor, ffd_item = item, ffd_pos = 0\<rparr>, s) })"

text \<open>The item of a descriptor as a directory item: the union read as a file.\<close>

definition descriptor_item :: "fat_file_descriptor \<Rightarrow> (u32 \<times> u8 list) option" where
  "descriptor_item descriptor = (case fi_union (ffd_item descriptor) of Fat_file item \<Rightarrow> item | Fat_dir _ \<Rightarrow> None)"

fun read_loop :: "'d bus \<Rightarrow> u8 list \<Rightarrow> nat \<Rightarrow> int \<Rightarrow> u32 \<Rightarrow> u32 \<Rightarrow> u8 list \<Rightarrow> ('d, 'z) fs_state_scheme \<Rightarrow>
    (int \<times> u8 list \<times> ('d, 'z) fs_state_scheme) option" where
  "read_loop io item 0 offset n nmemb out s = Some (sint nmemb, out, s)"
| "read_loop io item (Suc k) offset n nmemb out s =
     do { (res, out, s) \<leftarrow> fat16_read_internal io (sint (fat16_get_first_cluster item)) offset (sint n) out s;
          if res < 0 then Some (0, out, s)
          else read_loop io item k (to_int (to_int (offset + uint n) + res)) n nmemb out s }"

definition fat16_read :: "'d bus \<Rightarrow> disk_ptr \<Rightarrow> fat_file_descriptor \<Rightarrow> u32 \<Rightarrow> u32 \<Rightarrow> u8 list \<Rightarrow> ('d, 'z) fs_state_scheme \<Rightarrow>
    (int \<times> u8 list \<times> ('d, 'z) fs_state_scheme) option" where
  "fat16_read io dsk descriptor n nmemb out s =
     (if dsk = Disk_NULL then Some (- EINVARG, out, s)
      else do { (_, item) \<leftarrow> descriptor_item descriptor;
                read_loop io item (unat nmemb) (sint (ffd_pos descriptor)) n nmemb out s })"

definition fat16_seek :: "fat_file_descriptor \<Rightarrow> u32 \<Rightarrow> u32 \<Rightarrow> (int \<times> fat_file_descriptor) option" where
  "fat16_seek descriptor offset seek_mode =
     (case fi_union (ffd_item descriptor) of
        Fat_dir _ \<Rightarrow> Some (- EINVARG, descriptor)
      | Fat_file item \<Rightarrow>
          do { (_, dir_item) \<leftarrow> item;
               if offset > item_filesize dir_item then Some (- EIO, descriptor)
               else if seek_mode = SEEK_SET then Some (OK, descriptor\<lparr>ffd_pos := offset\<rparr>)
               else if seek_mode = SEEK_CUR then Some (OK, descriptor\<lparr>ffd_pos := ffd_pos descriptor + offset\<rparr>)
               else if seek_mode = SEEK_END then Some (OK, descriptor\<lparr>ffd_pos := item_filesize dir_item + offset\<rparr>)
               else Some (- EINVARG, descriptor) })"

definition fat16_stat :: "disk_ptr \<Rightarrow> fat_file_descriptor \<Rightarrow> file_stat \<Rightarrow> (int \<times> file_stat) option" where
  "fat16_stat dsk descriptor stat =
     (if dsk = Disk_NULL then Some (- EINVARG, stat)
      else case fi_union (ffd_item descriptor) of
             Fat_dir _ \<Rightarrow> Some (- EINVARG, stat)
           | Fat_file item \<Rightarrow>
               do { (_, dir_item) \<leftarrow> item;
                    Some (OK, \<lparr>stat_flags = (if item_attribute dir_item AND FAT_FILE_READ_ONLY \<noteq> 0
                                               then FILE_STAT_READ_ONLY else 0),
                               stat_filesize = item_filesize dir_item\<rparr>) })"

text \<open>
  The loop of \<open>fat16_write\<close>. The comparison of the remaining bytes with the rest of the sector is
  unsigned; a chunk of zero bytes makes the loop run forever.
\<close>

partial_function (option) write_loop :: "'d bus \<Rightarrow> u32 \<Rightarrow> u32 \<Rightarrow> int \<Rightarrow> int \<Rightarrow> u8 list \<Rightarrow> ('d, 'z) fs_state_scheme \<Rightarrow>
    (int \<times> u32 \<times> ('d, 'z) fs_state_scheme) option" where
  "write_loop io total_bytes bytes_written cluster offset inp s =
     (if total_bytes = 0 then Some (OK, bytes_written, s)
      else do {
        fs_priv \<leftarrow> fs_private (the_disk s);
        (current_cluster, s) \<leftarrow> fat16_get_cluster_for_offset io cluster offset s;
        if current_cluster < 0 then Some (- EIO, bytes_written, s)
        else let starting_sector = fat16_cluster_to_sector fs_priv current_cluster;
                 size = size_of_cluster_bytes fs_priv s;
                 offset_from_cluster = offset smod size;
                 starting_pos = to_int (starting_sector * sector_size (the_disk s) + offset_from_cluster);
                 room = sector_size (the_disk s) - offset_from_cluster;
                 bytes_to_write = (if total_bytes > word_of_int room then room else sint total_bytes)
             in do {
               (res, s) \<leftarrow> fat_seek Cluster_stream starting_pos s;
               if res \<noteq> OK then Some (- EIO, bytes_written, s)
               else do {
                 (res, s) \<leftarrow> fat_write io Cluster_stream (drop (unat bytes_written) inp) bytes_to_write s;
                 if res \<noteq> OK then Some (- EIO, bytes_written, s)
                 else let total_bytes = total_bytes - word_of_int bytes_to_write;
                          bytes_written = bytes_written + word_of_int bytes_to_write;
                          offset = to_int (offset + bytes_to_write)
                      in if offset_from_cluster + bytes_to_write \<ge> size
                         then do {
                           (next_cluster, s) \<leftarrow> fat16_get_fat_entry io current_cluster s;
                           if next_cluster = 0xfff \<or> next_cluster = 0xff8
                           then do { (next_cluster, s) \<leftarrow> fat16_allocate_cluster io current_cluster s;
                                     if next_cluster < 0 then Some (- EIO, bytes_written, s)
                                     else write_loop io total_bytes bytes_written next_cluster offset inp s }
                           else write_loop io total_bytes bytes_written next_cluster offset inp s }
                         else write_loop io total_bytes bytes_written cluster offset inp s } } })"

definition with_item :: "fat_file_descriptor \<Rightarrow> u32 \<times> u8 list \<Rightarrow> fat_file_descriptor" where
  "with_item descriptor item = descriptor\<lparr>ffd_item := (ffd_item descriptor)\<lparr>fi_union := Fat_file (Some item)\<rparr>\<rparr>"

text \<open>The update of the directory entry on the disk, after the data have been written.\<close>

definition write_directory_entry :: "'d bus \<Rightarrow> u32 \<times> u8 list \<Rightarrow> ('d, 'z) fs_state_scheme \<Rightarrow>
    (int \<times> ('d, 'z) fs_state_scheme) option" where
  "write_directory_entry io item s =
     do { fs_priv \<leftarrow> fs_private (the_disk s);
          let dir_sector = fat16_get_directory_sector fs_priv (snd item);
          let dir_offset = fat16_get_directory_offset fs_priv item;
          if dir_sector < 0 then Some (- EIO, s)
          else if dir_offset < 0 then Some (- EIO, s)
          else do {
            (res, s) \<leftarrow> fat_seek Directory_stream (to_int (dir_sector * sector_size (the_disk s) + dir_offset)) s;
            if res \<noteq> OK then Some (- EIO, s)
            else do { (res, s) \<leftarrow> fat_write io Directory_stream (snd item) (int sizeof_fat_directory_item) s;
                      Some (if res \<noteq> OK then - EIO else OK, s) } } }"

definition fat16_write :: "'d bus \<Rightarrow> disk_ptr \<Rightarrow> fat_file_descriptor \<Rightarrow> u32 \<Rightarrow> u32 \<Rightarrow> u8 list \<Rightarrow> ('d, 'z) fs_state_scheme \<Rightarrow>
    (int \<times> fat_file_descriptor \<times> ('d, 'z) fs_state_scheme) option" where
  "fat16_write io dsk descriptor n nmemb inp s =
     (if dsk = Disk_NULL then Some (- EINVARG, descriptor, s)
      else do {
        (addr, item) \<leftarrow> descriptor_item descriptor;
        if item_attribute item AND FAT_FILE_READ_ONLY \<noteq> 0 then Some (- ERDONLY, descriptor, s)
        else do {
          (res, bytes_written, s) \<leftarrow>
            write_loop io (n * nmemb) 0 (sint (fat16_get_first_cluster item)) (sint (ffd_pos descriptor)) inp s;
          if res \<noteq> OK then Some (- EIO, descriptor, s)
          else let item = (if ffd_pos descriptor + bytes_written > item_filesize item
                           then set_item_filesize (ffd_pos descriptor + bytes_written) item else item);
                   descriptor = with_item descriptor (addr, item)
               in do {
                 (res, s) \<leftarrow> write_directory_entry io (addr, item) s;
                 if res \<noteq> OK then Some (- EIO, descriptor, s)
                 else Some (sint bytes_written, descriptor\<lparr>ffd_pos := ffd_pos descriptor + bytes_written\<rparr>, s) } } })"

definition fat16_close :: "fat_file_descriptor \<Rightarrow> ('d, 'z) fs_state_scheme \<Rightarrow> (int \<times> ('d, 'z) fs_state_scheme) option" where
  "fat16_close descriptor s =
     do { h \<leftarrow> fat16_fat_item_free (ffd_item descriptor) (fs_heap s);
          Some (OK, s\<lparr>fs_heap := kfree (ffd_addr descriptor) h\<rparr>) }"

end
