(* ===== verification/File.thy ===== *)
theory File
  imports Fat16
begin

section \<open>Files\<close>

text \<open>
  \<^verbatim>\<open>src/src/fs/file.c\<close>: the table of file systems, the table of open files and the calls the kernel uses,
  and \<open>disk_search_and_init\<close> of \<^verbatim>\<open>src/src/disk/disk.c\<close>, which asks every file system whether the disk is its own.
  The function pointers of a \<open>struct filesystem\<close> are the functions \<open>fs_op_\<dots>\<close> of its value.
\<close>

record file_descriptor =
  fd_addr :: u32
  fd_index :: int
  fd_fs :: filesystem
  fd_private :: fat_file_descriptor
  fd_disk :: disk_ptr

record 'd file_state = "'d fs_state" +
  filesystems :: "filesystem option list"
  file_descriptors :: "file_descriptor option list"

subsection \<open>The operations of a file system\<close>

fun fs_op_resolve :: "filesystem \<Rightarrow> 'd bus \<Rightarrow> ('d, 'z) fs_state_scheme \<Rightarrow> (int \<times> ('d, 'z) fs_state_scheme) option" where
  "fs_op_resolve Fat16_fs = fat16_resolve"

fun fs_op_open :: "filesystem \<Rightarrow> 'd bus \<Rightarrow> disk_ptr \<Rightarrow> path_part list \<Rightarrow> u32 \<Rightarrow> ('d, 'z) fs_state_scheme \<Rightarrow>
    ((int + fat_file_descriptor) \<times> ('d, 'z) fs_state_scheme) option" where
  "fs_op_open Fat16_fs = fat16_open"

fun fs_op_read :: "filesystem \<Rightarrow> 'd bus \<Rightarrow> disk_ptr \<Rightarrow> fat_file_descriptor \<Rightarrow> u32 \<Rightarrow> u32 \<Rightarrow> u8 list \<Rightarrow>
    ('d, 'z) fs_state_scheme \<Rightarrow> (int \<times> u8 list \<times> ('d, 'z) fs_state_scheme) option" where
  "fs_op_read Fat16_fs = fat16_read"

fun fs_op_write :: "filesystem \<Rightarrow> 'd bus \<Rightarrow> disk_ptr \<Rightarrow> fat_file_descriptor \<Rightarrow> u32 \<Rightarrow> u32 \<Rightarrow> u8 list \<Rightarrow>
    ('d, 'z) fs_state_scheme \<Rightarrow> (int \<times> fat_file_descriptor \<times> ('d, 'z) fs_state_scheme) option" where
  "fs_op_write Fat16_fs = fat16_write"

fun fs_op_seek :: "filesystem \<Rightarrow> fat_file_descriptor \<Rightarrow> u32 \<Rightarrow> u32 \<Rightarrow> (int \<times> fat_file_descriptor) option" where
  "fs_op_seek Fat16_fs = fat16_seek"

fun fs_op_stat :: "filesystem \<Rightarrow> disk_ptr \<Rightarrow> fat_file_descriptor \<Rightarrow> file_stat \<Rightarrow> (int \<times> file_stat) option" where
  "fs_op_stat Fat16_fs = fat16_stat"

fun fs_op_close :: "filesystem \<Rightarrow> fat_file_descriptor \<Rightarrow> ('d, 'z) fs_state_scheme \<Rightarrow>
    (int \<times> ('d, 'z) fs_state_scheme) option" where
  "fs_op_close Fat16_fs = fat16_close"

definition fat16_init :: filesystem where
  "fat16_init = Fat16_fs"

subsection \<open>The table of file systems\<close>

text \<open>The index of the first null entry of a table.\<close>

fun first_null :: "'a option list \<Rightarrow> nat option" where
  "first_null [] = None"
| "first_null (None # xs) = Some 0"
| "first_null (Some _ # xs) = map_option Suc (first_null xs)"

definition fs_get_free_filesystem :: "('d, 'z) file_state_scheme \<Rightarrow> nat option" where
  "fs_get_free_filesystem s = first_null (filesystems s)"

definition fs_insert_filesystem :: "filesystem \<Rightarrow> ('d, 'z) file_state_scheme \<Rightarrow> ('d, 'z) file_state_scheme option" where
  "fs_insert_filesystem fs s =
     (case fs_get_free_filesystem s of
        None \<Rightarrow> None
      | Some i \<Rightarrow> Some (s\<lparr>filesystems := (filesystems s)[i := Some fs]\<rparr>))"

definition fs_static_load :: "('d, 'z) file_state_scheme \<Rightarrow> ('d, 'z) file_state_scheme option" where
  "fs_static_load s = fs_insert_filesystem fat16_init s"

definition fs_load :: "('d, 'z) file_state_scheme \<Rightarrow> ('d, 'z) file_state_scheme option" where
  "fs_load s = fs_static_load s"

definition fs_init :: "('d, 'z) file_state_scheme \<Rightarrow> ('d, 'z) file_state_scheme option" where
  "fs_init s = fs_load (s\<lparr>filesystems := replicate TOYOS_MAX_FILESYSTEMS None,
                           file_descriptors := replicate TOYOS_MAX_FILE_DESCRIPTORS None\<rparr>)"

fun resolve_loop :: "'d bus \<Rightarrow> filesystem option list \<Rightarrow> ('d, 'z) fs_state_scheme \<Rightarrow>
    (filesystem option \<times> ('d, 'z) fs_state_scheme) option" where
  "resolve_loop io [] s = Some (None, s)"
| "resolve_loop io (None # fss) s = resolve_loop io fss s"
| "resolve_loop io (Some fs # fss) s =
     do { (res, s) \<leftarrow> fs_op_resolve fs io s; if res = OK then Some (Some fs, s) else resolve_loop io fss s }"

definition fs_resolve :: "'d bus \<Rightarrow> ('d, 'z) file_state_scheme \<Rightarrow> (filesystem option \<times> ('d, 'z) file_state_scheme) option" where
  "fs_resolve io s = resolve_loop io (filesystems s) s"

definition disk_search_and_init :: "'d bus \<Rightarrow> ('d, 'z) file_state_scheme \<Rightarrow> ('d, 'z) file_state_scheme option" where
  "disk_search_and_init io s =
     do { (fs, s) \<leftarrow> fs_resolve io (s\<lparr>the_disk := \<lparr>disk_type = DISK_TYPE_REAL, sector_size = TOYOS_SECTOR_SIZE,
                                       disk_id = 0, disk_fs = None, fs_private = None\<rparr>\<rparr>);
          Some (s\<lparr>the_disk := (the_disk s)\<lparr>disk_fs := fs\<rparr>\<rparr>) }"

subsection \<open>Open files\<close>

definition file_get_mode_by_string :: "u8 list \<Rightarrow> u32 option" where
  "file_get_mode_by_string str =
     do { r \<leftarrow> strncmp (Some str) (Some [114, 0]) 1;
          if r = 0 then Some FILE_MODE_READ
          else do { r \<leftarrow> strncmp (Some str) (Some [119, 0]) 1;
                    if r = 0 then Some FILE_MODE_WRITE
                    else do { r \<leftarrow> strncmp (Some str) (Some [97, 0]) 1;
                              Some (if r = 0 then FILE_MODE_APPEND else FILE_MODE_INVALID) } } }"

text \<open>The new descriptor is filled by \<open>fopen\<close> at once; it is given the values here.\<close>

definition file_new_descriptor :: "filesystem \<Rightarrow> fat_file_descriptor \<Rightarrow> disk_ptr \<Rightarrow> ('d, 'z) file_state_scheme \<Rightarrow>
    int \<times> ('d, 'z) file_state_scheme" where
  "file_new_descriptor fs private dsk s =
     (case first_null (file_descriptors s) of
        None \<Rightarrow> (- ENOFILEMEM, s)
      | Some i \<Rightarrow>
          case kzalloc 16 (fs_heap s) of
            (None, h) \<Rightarrow> (- ENOMEM, s\<lparr>fs_heap := h\<rparr>)
          | (Some (p, _), h) \<Rightarrow>
              (int i + 1, s\<lparr>fs_heap := h, file_descriptors := (file_descriptors s)[i := Some
                 \<lparr>fd_addr = p, fd_index = int i + 1, fd_fs = fs, fd_private = private, fd_disk = dsk\<rparr>]\<rparr>))"

definition file_get_descriptor :: "int \<Rightarrow> ('d, 'z) file_state_scheme \<Rightarrow> file_descriptor option option" where
  "file_get_descriptor file_desc_id s =
     (if file_desc_id \<le> 0 \<or> file_desc_id \<ge> int TOYOS_MAX_FILE_DESCRIPTORS then Some None
      else rd (file_descriptors s) (nat (file_desc_id - 1)))"

definition set_descriptor :: "int \<Rightarrow> file_descriptor option \<Rightarrow> ('d, 'z) file_state_scheme \<Rightarrow> ('d, 'z) file_state_scheme" where
  "set_descriptor fd desc s = s\<lparr>file_descriptors := (file_descriptors s)[nat (fd - 1) := desc]\<rparr>"

text \<open>\<open>fopen\<close> before its error codes are turned into 0. The parsed path is never freed.\<close>

definition fopen_result :: "'d bus \<Rightarrow> u8 list \<Rightarrow> u8 list \<Rightarrow> ('d, 'z) file_state_scheme \<Rightarrow>
    (int \<times> ('d, 'z) file_state_scheme) option" where
  "fopen_result io filename mode_str s =
     do { (root_path, h) \<leftarrow> path_parser_parse filename (fs_heap s);
          let s = s\<lparr>fs_heap := h\<rparr>;
          case root_path of
            None \<Rightarrow> Some (- EINVARG, s)
          | Some root_path \<Rightarrow>
              if pr_first root_path = [] then Some (- EINVARG, s)
              else let dsk = disk_get (drive_no root_path)
                   in if dsk = Disk_NULL then Some (- EIO, s)
                      else case disk_fs (the_disk s) of
                             None \<Rightarrow> Some (- EIO, s)
                           | Some fs \<Rightarrow>
                               do { mode \<leftarrow> file_get_mode_by_string mode_str;
                                    if mode = FILE_MODE_INVALID then Some (- EIO, s)
                                    else do { (p, s) \<leftarrow> fs_op_open fs io dsk (pr_first root_path) mode s;
                                              case p of
                                                Inl e \<Rightarrow> Some (e, s)
                                              | Inr private \<Rightarrow> Some (file_new_descriptor fs private dsk s) } } }"

definition fopen :: "'d bus \<Rightarrow> u8 list \<Rightarrow> u8 list \<Rightarrow> ('d, 'z) file_state_scheme \<Rightarrow>
    (int \<times> ('d, 'z) file_state_scheme) option" where
  "fopen io filename mode_str s =
     do { (res, s) \<leftarrow> fopen_result io filename mode_str s; Some (if res < 0 then 0 else res, s) }"

definition fread :: "'d bus \<Rightarrow> u8 list \<Rightarrow> u32 \<Rightarrow> u32 \<Rightarrow> int \<Rightarrow> ('d, 'z) file_state_scheme \<Rightarrow>
    (int \<times> u8 list \<times> ('d, 'z) file_state_scheme) option" where
  "fread io ptr n nmemb fd s =
     (if n = 0 \<or> nmemb = 0 \<or> fd < 0 then Some (- EINVARG, ptr, s)
      else do { desc \<leftarrow> file_get_descriptor fd s;
                case desc of
                  None \<Rightarrow> Some (- EINVARG, ptr, s)
                | Some desc \<Rightarrow> fs_op_read (fd_fs desc) io (fd_disk desc) (fd_private desc) n nmemb ptr s })"

definition fwrite :: "'d bus \<Rightarrow> u8 list \<Rightarrow> u32 \<Rightarrow> u32 \<Rightarrow> int \<Rightarrow> ('d, 'z) file_state_scheme \<Rightarrow>
    (int \<times> ('d, 'z) file_state_scheme) option" where
  "fwrite io ptr n nmemb fd s =
     (if n = 0 \<or> nmemb = 0 \<or> fd < 0 then Some (- EINVARG, s)
      else do { desc \<leftarrow> file_get_descriptor fd s;
                case desc of
                  None \<Rightarrow> Some (- EINVARG, s)
                | Some desc \<Rightarrow>
                    do { (res, private, s) \<leftarrow>
                           fs_op_write (fd_fs desc) io (fd_disk desc) (fd_private desc) n nmemb ptr s;
                         Some (res, set_descriptor fd (Some (desc\<lparr>fd_private := private\<rparr>)) s) } })"

definition fseek :: "int \<Rightarrow> int \<Rightarrow> u32 \<Rightarrow> ('d, 'z) file_state_scheme \<Rightarrow> (int \<times> ('d, 'z) file_state_scheme) option" where
  "fseek fd offset whence s =
     (if fd < 0 then Some (- EINVARG, s)
      else do { desc \<leftarrow> file_get_descriptor fd s;
                case desc of
                  None \<Rightarrow> Some (- EINVARG, s)
                | Some desc \<Rightarrow>
                    do { (res, private) \<leftarrow> fs_op_seek (fd_fs desc) (fd_private desc) (word_of_int offset) whence;
                         Some (res, set_descriptor fd (Some (desc\<lparr>fd_private := private\<rparr>)) s) } })"

definition fstat :: "int \<Rightarrow> file_stat \<Rightarrow> ('d, 'z) file_state_scheme \<Rightarrow> (int \<times> file_stat) option" where
  "fstat fd stat s =
     (if fd < 0 then Some (- EINVARG, stat)
      else do { desc \<leftarrow> file_get_descriptor fd s;
                case desc of
                  None \<Rightarrow> Some (- EINVARG, stat)
                | Some desc \<Rightarrow> fs_op_stat (fd_fs desc) (fd_disk desc) (fd_private desc) stat })"

definition fclose :: "int \<Rightarrow> ('d, 'z) file_state_scheme \<Rightarrow> (int \<times> ('d, 'z) file_state_scheme) option" where
  "fclose fd s =
     (if fd < 0 then Some (- EINVARG, s)
      else do { desc \<leftarrow> file_get_descriptor fd s;
                case desc of
                  None \<Rightarrow> Some (- EINVARG, s)
                | Some desc \<Rightarrow>
                    do { (res, s) \<leftarrow> fs_op_close (fd_fs desc) (fd_private desc) s;
                         if res < 0 then Some (res, s)
                         else Some (OK, set_descriptor fd None (s\<lparr>fs_heap := kfree (fd_addr desc) (fs_heap s)\<rparr>)) } })"

end
