(* ===== verification/Elf.thy ===== *)
theory Elf
  imports File
begin

section \<open>The ELF loader\<close>

text \<open>
  \<^verbatim>\<open>src/src/loader/formats/elf.h\<close>, \<^verbatim>\<open>elf.c\<close> and \<^verbatim>\<open>elfloader.c\<close>. The image of a program is a block of physical
  memory, and its headers are read at the addresses the code computes, without a check that they lie
  inside the image. \<open>elf_file\<close> objects are kept by their address. The state adds the physical memory.
\<close>

definition PF_W :: u32 where [kernel_consts]: "PF_W = 0x02"
definition PT_LOAD :: u32 where [kernel_consts]: "PT_LOAD = 1"
definition ET_EXEC :: u16 where [kernel_consts]: "ET_EXEC = 2"
definition EI_CLASS :: u32 where [kernel_consts]: "EI_CLASS = 4"
definition EI_DATA :: u32 where [kernel_consts]: "EI_DATA = 5"
definition ELFCLASSNONE :: u8 where [kernel_consts]: "ELFCLASSNONE = 0"
definition ELFCLASS32 :: u8 where [kernel_consts]: "ELFCLASS32 = 1"
definition ELFDATANONE :: u8 where [kernel_consts]: "ELFDATANONE = 0"
definition ELFDATA2LSB :: u8 where [kernel_consts]: "ELFDATA2LSB = 1"

record elf_file =
  elf_memory :: u32
  virtual_base_address :: u32
  virtual_end_address :: u32
  physical_base_address :: u32
  physical_end_address :: u32

record 'd elf_state = "'d file_state" +
  phys :: mem
  elf_files :: "u32 \<rightharpoonup> elf_file"

subsection \<open>Headers in memory\<close>

definition mem16 :: "mem \<Rightarrow> u32 \<Rightarrow> u16" where
  "mem16 m a = bytes_word (m a) (m (a + 1))"

definition mem_bytes :: "mem \<Rightarrow> u32 \<Rightarrow> nat \<Rightarrow> u8 list" where
  "mem_bytes m a n = map (\<lambda>i. m (a + of_nat i)) [0 ..< n]"

fun mem_store :: "mem \<Rightarrow> u32 \<Rightarrow> u8 list \<Rightarrow> mem" where
  "mem_store m a [] = m"
| "mem_store m a (b # bs) = mem_store (m(a := b)) (a + 1) bs"

definition e_type :: "mem \<Rightarrow> u32 \<Rightarrow> u16" where "e_type m header = mem16 m (header + 16)"
definition e_entry :: "mem \<Rightarrow> u32 \<Rightarrow> u32" where "e_entry m header = rd32 m (header + 24)"
definition e_phoff :: "mem \<Rightarrow> u32 \<Rightarrow> u32" where "e_phoff m header = rd32 m (header + 28)"
definition e_shoff :: "mem \<Rightarrow> u32 \<Rightarrow> u32" where "e_shoff m header = rd32 m (header + 32)"
definition e_phnum :: "mem \<Rightarrow> u32 \<Rightarrow> u16" where "e_phnum m header = mem16 m (header + 44)"
definition e_shstrndx :: "mem \<Rightarrow> u32 \<Rightarrow> u16" where "e_shstrndx m header = mem16 m (header + 50)"

definition sizeof_elf32_phdr :: u32 where "sizeof_elf32_phdr = 32"
definition p_type :: "mem \<Rightarrow> u32 \<Rightarrow> u32" where "p_type m phdr = rd32 m phdr"
definition p_offset :: "mem \<Rightarrow> u32 \<Rightarrow> u32" where "p_offset m phdr = rd32 m (phdr + 4)"
definition p_vaddr :: "mem \<Rightarrow> u32 \<Rightarrow> u32" where "p_vaddr m phdr = rd32 m (phdr + 8)"
definition p_filesz :: "mem \<Rightarrow> u32 \<Rightarrow> u32" where "p_filesz m phdr = rd32 m (phdr + 16)"
definition p_memsz :: "mem \<Rightarrow> u32 \<Rightarrow> u32" where "p_memsz m phdr = rd32 m (phdr + 20)"
definition p_flags :: "mem \<Rightarrow> u32 \<Rightarrow> u32" where "p_flags m phdr = rd32 m (phdr + 24)"

definition sizeof_elf32_shdr :: u32 where "sizeof_elf32_shdr = 40"
definition sh_offset :: "mem \<Rightarrow> u32 \<Rightarrow> u32" where "sh_offset m shdr = rd32 m (shdr + 16)"

definition elf_get_entry_ptr :: "mem \<Rightarrow> u32 \<Rightarrow> u32" where "elf_get_entry_ptr m header = e_entry m header"
definition elf_get_entry :: "mem \<Rightarrow> u32 \<Rightarrow> u32" where "elf_get_entry m header = e_entry m header"

subsection \<open>Validation\<close>

definition elf_signature :: "u8 list" where
  "elf_signature = [0x7f, 69, 76, 70]"

definition elf_valid_signature :: "mem \<Rightarrow> u32 \<Rightarrow> bool" where
  "elf_valid_signature m buffer \<longleftrightarrow> memcmp (mem_bytes m buffer 4) elf_signature 4 = Some 0"

definition elf_valid_class :: "mem \<Rightarrow> u32 \<Rightarrow> bool" where
  "elf_valid_class m header \<longleftrightarrow> m (header + EI_CLASS) = ELFCLASSNONE \<or> m (header + EI_CLASS) = ELFCLASS32"

definition elf_valid_encoding :: "mem \<Rightarrow> u32 \<Rightarrow> bool" where
  "elf_valid_encoding m header \<longleftrightarrow> m (header + EI_DATA) = ELFDATANONE \<or> m (header + EI_DATA) = ELFDATA2LSB"

definition elf_is_executable :: "mem \<Rightarrow> u32 \<Rightarrow> bool" where
  "elf_is_executable m header \<longleftrightarrow> e_type m header = ET_EXEC \<and> e_entry m header \<ge> TOYOS_PROGRAM_VIRTUAL_ADDRESS"

definition elf_has_program_header :: "mem \<Rightarrow> u32 \<Rightarrow> bool" where
  "elf_has_program_header m header \<longleftrightarrow> e_phoff m header \<noteq> 0"

definition elf_header :: "elf_file \<Rightarrow> u32" where
  "elf_header file = elf_memory file"

definition elf_pheader :: "mem \<Rightarrow> u32 \<Rightarrow> u32" where
  "elf_pheader m header = (if e_phoff m header = 0 then 0 else header + e_phoff m header)"

definition elf_sheader :: "mem \<Rightarrow> u32 \<Rightarrow> u32" where
  "elf_sheader m header = header + e_shoff m header"

definition elf_program_header :: "mem \<Rightarrow> u32 \<Rightarrow> nat \<Rightarrow> u32" where
  "elf_program_header m header i = elf_pheader m header + of_nat i * sizeof_elf32_phdr"

definition elf_section :: "mem \<Rightarrow> u32 \<Rightarrow> nat \<Rightarrow> u32" where
  "elf_section m header i = elf_sheader m header + of_nat i * sizeof_elf32_shdr"

definition elf_str_table :: "mem \<Rightarrow> u32 \<Rightarrow> u32" where
  "elf_str_table m header = header + sh_offset m (elf_section m header (unat (e_shstrndx m header)))"

definition elf_validate_loaded :: "mem \<Rightarrow> u32 \<Rightarrow> int" where
  "elf_validate_loaded m header =
     (if elf_valid_signature m header \<and> elf_valid_class m header \<and> elf_valid_encoding m header \<and>
         elf_has_program_header m header then OK else - EINFORMAT)"

subsection \<open>Program headers\<close>

definition elf_process_phdr_pt_load :: "mem \<Rightarrow> u32 \<Rightarrow> elf_file \<Rightarrow> elf_file" where
  "elf_process_phdr_pt_load m phdr f =
     (let f = (if virtual_base_address f \<ge> p_vaddr m phdr \<or> virtual_base_address f = 0
               then f\<lparr>virtual_base_address := p_vaddr m phdr,
                      physical_base_address := elf_memory f + p_offset m phdr\<rparr> else f);
          end_virtual_address = p_vaddr m phdr + p_filesz m phdr
      in if virtual_end_address f \<le> end_virtual_address \<or> virtual_end_address f = 0
         then f\<lparr>virtual_end_address := end_virtual_address,
                physical_end_address := elf_memory f + p_offset m phdr + p_filesz m phdr\<rparr> else f)"

definition elf_process_pheader :: "mem \<Rightarrow> u32 \<Rightarrow> elf_file \<Rightarrow> elf_file" where
  "elf_process_pheader m phdr f = (if p_type m phdr = PT_LOAD then elf_process_phdr_pt_load m phdr f else f)"

definition elf_process_pheaders :: "mem \<Rightarrow> elf_file \<Rightarrow> elf_file" where
  "elf_process_pheaders m f =
     (let header = elf_header f
      in fold (\<lambda>i. elf_process_pheader m (elf_program_header m header i)) [0 ..< unat (e_phnum m header)] f)"

definition elf_process_loaded :: "mem \<Rightarrow> elf_file \<Rightarrow> int \<times> elf_file" where
  "elf_process_loaded m f =
     (let res = elf_validate_loaded m (elf_header f)
      in if res < 0 then (res, f) else (OK, elf_process_pheaders m f))"

definition elf_phdr_phys_address :: "mem \<Rightarrow> elf_file \<Rightarrow> u32 \<Rightarrow> u32" where
  "elf_phdr_phys_address m f phdr = elf_memory f + p_offset m phdr"

subsection \<open>Loading and closing\<close>

text \<open>
  \<open>kzalloc\<close> and \<open>fread\<close> with the buffer in physical memory; a null buffer is refused by the file
  system. The size of \<open>struct elf_file\<close> is 132 bytes; a failed allocation of it is not noticed.
\<close>

definition kzalloc_phys :: "u32 \<Rightarrow> ('d, 'z) elf_state_scheme \<Rightarrow> u32 \<times> ('d, 'z) elf_state_scheme" where
  "kzalloc_phys sz s =
     (let (p, h, m) = kzalloc_mem sz (fs_heap s) (phys s) in (p, s\<lparr>fs_heap := h, phys := m\<rparr>))"

definition fread_phys :: "'d bus \<Rightarrow> u32 \<Rightarrow> u32 \<Rightarrow> u32 \<Rightarrow> int \<Rightarrow> ('d, 'z) elf_state_scheme \<Rightarrow>
    (int \<times> ('d, 'z) elf_state_scheme) option" where
  "fread_phys io ptr n nmemb fd s =
     (if ptr = 0 then Some (- EINVARG, s)
      else do { (res, bytes, s) \<leftarrow> fread io (mem_bytes (phys s) ptr (unat n)) n nmemb fd s;
                Some (res, s\<lparr>phys := mem_store (phys s) ptr bytes\<rparr>) })"

text \<open>Between opening and closing: the file is read into memory and examined.\<close>

definition elf_read_file :: "'d bus \<Rightarrow> int \<Rightarrow> elf_file \<Rightarrow> ('d, 'z) elf_state_scheme \<Rightarrow>
    (int \<times> elf_file \<times> ('d, 'z) elf_state_scheme) option" where
  "elf_read_file io fd f s =
     do { (res, stat) \<leftarrow> fstat fd \<lparr>stat_flags = 0, stat_filesize = 0\<rparr> s;
          if res < 0 then Some (res, f, s)
          else let (p, s) = kzalloc_phys (stat_filesize stat) s; f = f\<lparr>elf_memory := p\<rparr>
               in do { (res, s) \<leftarrow> fread_phys io p (stat_filesize stat) 1 fd s;
                       if res < 0 then Some (res, f, s)
                       else let (res, f) = elf_process_loaded (phys s) f in Some (res, f, s) } }"

text \<open>The result is the status and the address of the new object; null when \<open>*file_out\<close> is not written.\<close>

definition elf_load :: "'d bus \<Rightarrow> u8 list \<Rightarrow> ('d, 'z) elf_state_scheme \<Rightarrow>
    (int \<times> u32 \<times> ('d, 'z) elf_state_scheme) option" where
  "elf_load io filename s =
     (let (elf_addr, s) = kzalloc_phys 132 s
      in do { (fd, s) \<leftarrow> fopen io filename [114, 0] s;
              if fd \<le> 0 then do { (_, s) \<leftarrow> fclose 0 s; Some (- EIO, 0, s) }
              else if elf_addr = 0 then None
              else do {
                (res, f, s) \<leftarrow> elf_read_file io fd \<lparr>elf_memory = 0, virtual_base_address = 0, virtual_end_address = 0,
                    physical_base_address = 0, physical_end_address = 0\<rparr> s;
                let s = s\<lparr>elf_files := (elf_files s)(elf_addr \<mapsto> f)\<rparr>;
                (_, s) \<leftarrow> fclose fd s;
                Some (res, if res < 0 then 0 else elf_addr, s) } })"

definition elf_close :: "u32 \<Rightarrow> ('d, 'z) elf_state_scheme \<Rightarrow> ('d, 'z) elf_state_scheme option" where
  "elf_close file s =
     (if file = 0 then Some s
      else do { f \<leftarrow> elf_files s file;
                Some (s\<lparr>fs_heap := kfree file (kfree (elf_memory f) (fs_heap s)),
                        elf_files := (elf_files s)(file := None)\<rparr>) })"

end
