(* ===== verification/Task.thy ===== *)
theory Task
  imports Elf
begin

section \<open>Tasks\<close>

text \<open>
  \<^verbatim>\<open>src/src/task/task.c\<close>, the structures of \<^verbatim>\<open>task.h\<close> and \<^verbatim>\<open>process.h\<close>, and the assembly functions the scheduler
  calls. Tasks and processes are kept by their address; a freed one is gone, and following a pointer to
  it is \<^const>\<open>None\<close>. The state adds the processor (paging registers, data segments, the registers a return
  to user mode loads), the doubly linked list of tasks and the table of processes.
\<close>

definition TOYOS_USER_DATA_SEGMENT :: u32 where [kernel_consts]: "TOYOS_USER_DATA_SEGMENT = 0x23"
definition TOYOS_USER_CODE_SEGMENT :: u32 where [kernel_consts]: "TOYOS_USER_CODE_SEGMENT = 0x1b"
definition TOYOS_DATA_SELECTOR :: u32 where [kernel_consts]: "TOYOS_DATA_SELECTOR = 0x10"
definition PROCESS_FILETYPE_ELF :: u8 where [kernel_consts]: "PROCESS_FILETYPE_ELF = 0"
definition PROCESS_FILETYPE_BINARY :: u8 where [kernel_consts]: "PROCESS_FILETYPE_BINARY = 1"

record registers =
  r_edi :: u32
  r_esi :: u32
  r_ebp :: u32
  r_ebx :: u32
  r_edx :: u32
  r_ecx :: u32
  r_eax :: u32
  r_ip :: u32
  r_cs :: u32
  r_flags :: u32
  r_esp :: u32
  r_ss :: u32

text \<open>What the processor and the entry code push: the user registers, in the order of the structure.\<close>

record interrupt_frame =
  f_edi :: u32
  f_esi :: u32
  f_ebp :: u32
  f_reserved :: u32
  f_ebx :: u32
  f_edx :: u32
  f_ecx :: u32
  f_eax :: u32
  f_ip :: u32
  f_cs :: u32
  f_flags :: u32
  f_esp :: u32
  f_ss :: u32

record task =
  page_directory :: u32
  task_registers :: registers
  task_process :: u32
  task_next_ptr :: u32
  task_prev_ptr :: u32

record process_allocation =
  alloc_ptr :: u32
  alloc_size :: u32

record keyboard_buffer =
  kb_buffer :: "u8 list"
  kb_tail :: int
  kb_head :: int

record process =
  proc_id :: u16
  proc_filename :: "u8 list"
  proc_task :: u32
  allocations :: "process_allocation list"
  proc_stack :: u32
  proc_size :: u32
  keyboard :: keyboard_buffer
  filetype :: u8
  proc_ptr :: u32
  proc_argc :: int
  proc_argv :: u32

record 'd task_state = "'d elf_state" +
  pregs :: paging_regs
  data_segments :: u32
  user_regs :: registers
  kernel_chunk :: u32
  tasks :: "u32 \<rightharpoonup> task"
  current_task :: u32
  task_tail :: u32
  task_head :: u32
  procs :: "u32 \<rightharpoonup> process"
  current_process :: u32
  processes :: "u32 list"

subsection \<open>Address spaces\<close>

text \<open>The assembly functions that load the segment registers, and \<open>kernel_page\<close> of \<^verbatim>\<open>kernel.c\<close>.\<close>

definition user_registers :: "('d, 'z) task_state_scheme \<Rightarrow> ('d, 'z) task_state_scheme" where
  "user_registers s = s\<lparr>data_segments := 0x23\<rparr>"

definition kernel_registers :: "('d, 'z) task_state_scheme \<Rightarrow> ('d, 'z) task_state_scheme" where
  "kernel_registers s = s\<lparr>data_segments := 0x10\<rparr>"

definition switch_to :: "u32 \<Rightarrow> ('d, 'z) task_state_scheme \<Rightarrow> ('d, 'z) task_state_scheme" where
  "switch_to chunk s = s\<lparr>pregs := paging_switch (phys s) chunk (pregs s)\<rparr>"

definition kernel_page :: "('d, 'z) task_state_scheme \<Rightarrow> ('d, 'z) task_state_scheme" where
  "kernel_page s = switch_to (kernel_chunk s) (kernel_registers s)"

text \<open>
  An access of the kernel through the page tables of a directory, as the processor does it: the entry of
  the directory and the entry of the table have to be present. \<open>virt_bytes\<close> are the bytes that can be
  read from an address on, up to a number.
\<close>

definition mmu :: "mem \<Rightarrow> u32 \<Rightarrow> u32 \<Rightarrow> u32 option" where
  "mmu m dir v =
     (let pde = rd32 m (dir + 4 * drop_bit 22 v);
          pte = rd32 m ((pde AND 0xfffff000) + 4 * (drop_bit 12 v AND 0x3ff))
      in if pde AND PAGING_IS_PRESENT = 0 \<or> pte AND PAGING_IS_PRESENT = 0 then None
         else Some ((pte AND 0xfffff000) + (v AND 0xfff)))"

fun virt_bytes :: "mem \<Rightarrow> u32 \<Rightarrow> u32 \<Rightarrow> nat \<Rightarrow> u8 list" where
  "virt_bytes m dir v 0 = []"
| "virt_bytes m dir v (Suc n) = (case mmu m dir v of None \<Rightarrow> [] | Some p \<Rightarrow> m p # virt_bytes m dir (v + 1) n)"

subsection \<open>The task list\<close>

definition set_next :: "u32 \<Rightarrow> u32 \<Rightarrow> ('d, 'z) task_state_scheme \<Rightarrow> ('d, 'z) task_state_scheme option" where
  "set_next t v s = do { k \<leftarrow> tasks s t; Some (s\<lparr>tasks := (tasks s)(t \<mapsto> k\<lparr>task_next_ptr := v\<rparr>)\<rparr>) }"

definition set_prev :: "u32 \<Rightarrow> u32 \<Rightarrow> ('d, 'z) task_state_scheme \<Rightarrow> ('d, 'z) task_state_scheme option" where
  "set_prev t v s = do { k \<leftarrow> tasks s t; Some (s\<lparr>tasks := (tasks s)(t \<mapsto> k\<lparr>task_prev_ptr := v\<rparr>)\<rparr>) }"

definition task_list_remove :: "u32 \<Rightarrow> ('d, 'z) task_state_scheme \<Rightarrow> ('d, 'z) task_state_scheme option" where
  "task_list_remove task s =
     (if task = 0 then Some s
      else do {
        k \<leftarrow> tasks s task;
        let next_task = (if task = current_task s
                         then (if task_next_ptr k \<noteq> 0 then task_next_ptr k else task_head s) else 0);
        s \<leftarrow> (if task_prev_ptr k \<noteq> 0 then set_next (task_prev_ptr k) (task_next_ptr k) s else Some s);
        s \<leftarrow> (if task_next_ptr k \<noteq> 0 then set_prev (task_next_ptr k) (task_prev_ptr k) s else Some s);
        let s = (if task = task_head s then s\<lparr>task_head := task_next_ptr k\<rparr> else s);
        let s = (if task = task_tail s then s\<lparr>task_tail := task_prev_ptr k\<rparr> else s);
        Some (if task = current_task s then s\<lparr>current_task := next_task\<rparr> else s) })"

definition save_registers :: "interrupt_frame \<Rightarrow> registers \<Rightarrow> registers" where
  "save_registers frame r =
     r\<lparr>r_ip := f_ip frame, r_cs := f_cs frame, r_flags := f_flags frame, r_esp := f_esp frame, r_ss := f_ss frame,
       r_eax := f_eax frame, r_ebp := f_ebp frame, r_ebx := f_ebx frame, r_ecx := f_ecx frame, r_edi := f_edi frame,
       r_edx := f_edx frame, r_esi := f_esi frame\<rparr>"

definition task_save_state :: "u32 \<Rightarrow> interrupt_frame option \<Rightarrow> ('d, 'z) task_state_scheme \<Rightarrow>
    ('d, 'z) task_state_scheme option" where
  "task_save_state task frame s =
     (case frame of
        None \<Rightarrow> Some s
      | Some frame \<Rightarrow>
          if task = 0 then Some s
          else do { k \<leftarrow> tasks s task;
                    Some (s\<lparr>tasks := (tasks s)(task \<mapsto> k\<lparr>task_registers := save_registers frame (task_registers k)\<rparr>)\<rparr>) })"

definition zero_registers :: registers where
  "zero_registers = \<lparr>r_edi = 0, r_esi = 0, r_ebp = 0, r_ebx = 0, r_edx = 0, r_ecx = 0, r_eax = 0, r_ip = 0, r_cs = 0,
     r_flags = 0, r_esp = 0, r_ss = 0\<rparr>"

definition zero_task :: task where
  "zero_task = \<lparr>page_directory = 0, task_registers = zero_registers, task_process = 0, task_next_ptr = 0, task_prev_ptr = 0\<rparr>"

definition task_init :: "u32 \<Rightarrow> u32 \<Rightarrow> ('d, 'z) task_state_scheme \<Rightarrow> (int \<times> ('d, 'z) task_state_scheme) option" where
  "task_init task process s =
     (if task = 0 \<or> process = 0 then Some (- EINVARG, s)
      else let (chunk, h, m) = paging_new_4gb (ucast (PAGING_IS_PRESENT OR PAGING_ACCESS_FROM_ALL)) (fs_heap s) (phys s);
               k = zero_task\<lparr>page_directory := chunk\<rparr>;
               s = s\<lparr>fs_heap := h, phys := m, tasks := (tasks s)(task \<mapsto> k)\<rparr>
           in if chunk = 0 then Some (- ENOMEM, s)
              else do {
                p \<leftarrow> procs s process;
                ip \<leftarrow> (if filetype p = PROCESS_FILETYPE_ELF
                       then do { f \<leftarrow> elf_files s (proc_ptr p); Some (e_entry m (elf_header f)) }
                       else Some TOYOS_PROGRAM_VIRTUAL_ADDRESS);
                Some (OK, s\<lparr>tasks := (tasks s)(task \<mapsto> k\<lparr>task_registers := zero_registers\<lparr>r_ip := ip,
                  r_ss := TOYOS_USER_DATA_SEGMENT, r_cs := TOYOS_USER_CODE_SEGMENT,
                  r_esp := TOYOS_PROGRAM_VIRTUAL_STACK_ADDRESS_START\<rparr>, task_process := process\<rparr>)\<rparr>) })"

definition task_page_task :: "u32 \<Rightarrow> ('d, 'z) task_state_scheme \<Rightarrow> (int \<times> ('d, 'z) task_state_scheme) option" where
  "task_page_task task s =
     (let s = user_registers s in do { k \<leftarrow> tasks s task; Some (OK, switch_to (page_directory k) s) })"

definition task_free :: "u32 \<Rightarrow> ('d, 'z) task_state_scheme \<Rightarrow> (int \<times> ('d, 'z) task_state_scheme) option" where
  "task_free task s =
     (if task = 0 then Some (- EINVARG, s)
      else do {
        k \<leftarrow> tasks s task;
        s \<leftarrow> task_list_remove task (s\<lparr>fs_heap := paging_free_4gb (phys s) (page_directory k) (fs_heap s)\<rparr>);
        Some (OK, s\<lparr>fs_heap := kfree task (fs_heap s), tasks := (tasks s)(task := None)\<rparr>) })"

text \<open>The new task, or an error code as a pointer. The size of \<open>struct task\<close> is 64 bytes.\<close>

definition task_append :: "u32 \<Rightarrow> ('d, 'z) task_state_scheme \<Rightarrow> ('d, 'z) task_state_scheme option" where
  "task_append task s =
     (if task_head s = 0 then Some (s\<lparr>task_head := task, task_tail := task, current_task := task\<rparr>)
      else do { s \<leftarrow> set_next (task_tail s) task s;
                s \<leftarrow> set_prev task (task_tail s) s;
                Some (s\<lparr>task_tail := task\<rparr>) })"

definition task_new :: "u32 \<Rightarrow> ('d, 'z) task_state_scheme \<Rightarrow> (u32 \<times> ('d, 'z) task_state_scheme) option" where
  "task_new process s =
     (if process = 0 then Some (word_of_int (- EINVARG), s)
      else case kzalloc 64 (fs_heap s) of
             (None, h) \<Rightarrow> Some (word_of_int (- ENOMEM), s\<lparr>fs_heap := h\<rparr>)
           | (Some (task, _), h) \<Rightarrow>
               do { (res, s) \<leftarrow> task_init task process (s\<lparr>fs_heap := h, tasks := (tasks s)(task \<mapsto> zero_task)\<rparr>);
                    if res \<noteq> OK
                    then do { (_, s) \<leftarrow> task_free task s; Some (word_of_int res, s) }
                    else do { s \<leftarrow> task_append task s; Some (task, s) } })"

definition task_get_next :: "('d, 'z) task_state_scheme \<Rightarrow> u32 option" where
  "task_get_next s =
     do { k \<leftarrow> tasks s (current_task s);
          Some (if task_next_ptr k = 0 then task_head s else task_next_ptr k) }"

text \<open>
  The destination is an object of the kernel. The buffer in between is a page of the kernel heap that is
  mapped in the address space of the task for the copy.
\<close>

definition copy_string_from_task :: "u32 \<Rightarrow> u32 \<Rightarrow> u8 list \<Rightarrow> int \<Rightarrow> ('d, 'z) task_state_scheme \<Rightarrow>
    (int \<times> u8 list \<times> ('d, 'z) task_state_scheme) option" where
  "copy_string_from_task task virtual dest n s =
     (if n \<ge> uint PAGING_PAGE_SIZE \<or> task = 0 \<or> virtual = 0 then Some (- EINVARG, dest, s)
      else let (tmp, s) = kzalloc_phys (word_of_int n) s
           in if tmp = 0 then Some (- ENOMEM, dest, s)
              else do {
                k \<leftarrow> tasks s task;
                let task_directory = directory_entry (phys s) (page_directory k);
                let old_entry = paging_get task_directory tmp (phys s);
                let (_, m) = paging_map (page_directory k) tmp tmp
                               (uint (PAGING_IS_WRITEABLE OR PAGING_IS_PRESENT OR PAGING_ACCESS_FROM_ALL)) (phys s);
                let s = switch_to (page_directory k) (s\<lparr>phys := m\<rparr>);
                str \<leftarrow> strncpy (mem_bytes m tmp (nat n)) (virt_bytes m (cr3 (pregs s)) virtual (nat n)) n;
                let s = kernel_page (s\<lparr>phys := mem_store m tmp str\<rparr>);
                let (res, m) = paging_set task_directory tmp old_entry (phys s);
                let s = s\<lparr>phys := m\<rparr>;
                if res < 0 then Some (- EIO, dest, s\<lparr>fs_heap := kfree tmp (fs_heap s)\<rparr>)
                else do { dest \<leftarrow> strncpy dest (mem_bytes m tmp (nat n)) n;
                          Some (res, dest, s\<lparr>fs_heap := kfree tmp (fs_heap s)\<rparr>) } })"

definition task_current_save_state :: "interrupt_frame option \<Rightarrow> ('d, 'z) task_state_scheme \<Rightarrow>
    ('d, 'z) task_state_scheme option" where
  "task_current_save_state frame s =
     (if current_task s = 0 then None else task_save_state (current_task s) frame s)"

definition task_switch :: "u32 \<Rightarrow> ('d, 'z) task_state_scheme \<Rightarrow> (int \<times> ('d, 'z) task_state_scheme) option" where
  "task_switch task s =
     do { k \<leftarrow> tasks s task; Some (OK, switch_to (page_directory k) (s\<lparr>current_task := task\<rparr>)) }"

definition task_page :: "('d, 'z) task_state_scheme \<Rightarrow> (int \<times> ('d, 'z) task_state_scheme) option" where
  "task_page s = task_switch (current_task s) (user_registers s)"

definition task_get_stack_item :: "u32 \<Rightarrow> int \<Rightarrow> ('d, 'z) task_state_scheme \<Rightarrow> (u32 \<times> ('d, 'z) task_state_scheme) option" where
  "task_get_stack_item task index s =
     (if index < 0 then Some (0, s)
      else if task = 0 then Some (0, s)
      else do {
        k \<leftarrow> tasks s task;
        (_, s) \<leftarrow> task_page_task task s;
        let b = virt_bytes (phys s) (cr3 (pregs s)) (r_esp (task_registers k) + 4 * word_of_int index) 4;
        if length b < 4 then None else Some (field32 b 0, kernel_page s) })"

text \<open>
  \<open>task_return\<close> and \<open>restore_general_purpose_registers\<close> of \<^verbatim>\<open>task.asm\<close>: every register is loaded from the saved
  state except the flags, which are those of the kernel (\<open>eflags\<close>) with the interrupt flag set.
\<close>

definition restore_general_purpose_registers :: "registers \<Rightarrow> registers \<Rightarrow> registers" where
  "restore_general_purpose_registers regs r =
     r\<lparr>r_edi := r_edi regs, r_esi := r_esi regs, r_ebp := r_ebp regs, r_edx := r_edx regs, r_ecx := r_ecx regs,
       r_eax := r_eax regs, r_ebx := r_ebx regs\<rparr>"

definition task_return :: "u32 \<Rightarrow> registers \<Rightarrow> ('d, 'z) task_state_scheme \<Rightarrow> ('d, 'z) task_state_scheme" where
  "task_return eflags regs s =
     s\<lparr>data_segments := r_ss regs,
       user_regs := (restore_general_purpose_registers regs (user_regs s))\<lparr>r_ss := r_ss regs, r_esp := r_esp regs,
         r_flags := eflags OR 0x200, r_cs := r_cs regs, r_ip := r_ip regs\<rparr>\<rparr>"

definition task_next :: "u32 \<Rightarrow> ('d, 'z) task_state_scheme \<Rightarrow> ('d, 'z) task_state_scheme option" where
  "task_next eflags s =
     do { next_task \<leftarrow> task_get_next s;
          if next_task = 0 then None
          else do { (_, s) \<leftarrow> task_switch next_task s;
                    k \<leftarrow> tasks s next_task;
                    Some (task_return eflags (task_registers k) s) } }"

definition task_virtual_address_to_physical :: "u32 \<Rightarrow> u32 \<Rightarrow> ('d, 'z) task_state_scheme \<Rightarrow> u32 option" where
  "task_virtual_address_to_physical task virtual_address s =
     do { k \<leftarrow> tasks s task;
          Some (paging_get_physical_address (directory_entry (phys s) (page_directory k)) virtual_address (phys s)) }"

end
