(* ===== verification/Process.thy ===== *)
theory Process
  imports Task
begin

section \<open>Processes\<close>

text \<open>
  \<^verbatim>\<open>src/src/task/process.c\<close>: loading a program into a slot of the process table, mapping it into the address
  space of its task, the allocations of a process, its arguments, termination and fork. The table
  \<open>processes\<close> holds addresses, 0 for a free slot; the objects are in \<open>procs\<close>.
\<close>

text \<open>The size of \<open>struct process\<close>, with the padding of the compiler.\<close>

definition sizeof_process :: u32 where "sizeof_process = 9364"

definition zero_process :: process where
  "zero_process = \<lparr>proc_id = 0, proc_filename = replicate TOYOS_MAX_PATH 0, proc_task = 0,
     allocations = replicate TOYOS_MAX_PROGRAM_ALLOCATIONS \<lparr>alloc_ptr = 0, alloc_size = 0\<rparr>, proc_stack = 0, proc_size = 0,
     keyboard = \<lparr>kb_buffer = replicate TOYOS_KEYBOARD_BUFFER_SIZE 0, kb_tail = 0, kb_head = 0\<rparr>,
     filetype = 0, proc_ptr = 0, proc_argc = 0, proc_argv = 0\<rparr>"

definition set_process :: "u32 \<Rightarrow> process \<Rightarrow> ('d, 'z) task_state_scheme \<Rightarrow> ('d, 'z) task_state_scheme" where
  "set_process p x s = s\<lparr>procs := (procs s)(p \<mapsto> x)\<rparr>"

definition USER_RW :: int where
  "USER_RW = uint (PAGING_IS_PRESENT OR PAGING_ACCESS_FROM_ALL OR PAGING_IS_WRITEABLE)"

text \<open>\<open>paging_map_to\<close> in the address space of the task of a process.\<close>

definition map_in_process :: "u32 \<Rightarrow> u32 \<Rightarrow> u32 \<Rightarrow> u32 \<Rightarrow> int \<Rightarrow> ('d, 'z) task_state_scheme \<Rightarrow>
    (int \<times> ('d, 'z) task_state_scheme) option" where
  "map_in_process process virt start stop flags s =
     do { p \<leftarrow> procs s process;
          k \<leftarrow> tasks s (proc_task p);
          let (res, m) = paging_map_to (page_directory k) virt start stop flags (phys s);
          Some (res, s\<lparr>phys := m\<rparr>) }"

subsection \<open>Loading\<close>

definition read_binary :: "'d bus \<Rightarrow> int \<Rightarrow> u32 \<Rightarrow> ('d, 'z) task_state_scheme \<Rightarrow> (int \<times> ('d, 'z) task_state_scheme) option" where
  "read_binary io fd process s =
     do { (res, stat) \<leftarrow> fstat fd \<lparr>stat_flags = 0, stat_filesize = 0\<rparr> s;
          if res < 0 then Some (- EIO, s)
          else let (program_data_ptr, s) = kzalloc_phys (stat_filesize stat) s
               in if program_data_ptr = 0 then Some (- ENOMEM, s)
                  else do {
                    (n, s) \<leftarrow> fread_phys io program_data_ptr (stat_filesize stat) 1 fd s;
                    if n \<noteq> 1 then Some (- EIO, s)
                    else do { p \<leftarrow> procs s process;
                              Some (OK, set_process process (p\<lparr>filetype := PROCESS_FILETYPE_BINARY,
                                proc_ptr := program_data_ptr, proc_size := stat_filesize stat\<rparr>) s) } } }"

definition process_load_binary :: "'d bus \<Rightarrow> u8 list \<Rightarrow> u32 \<Rightarrow> ('d, 'z) task_state_scheme \<Rightarrow>
    (int \<times> ('d, 'z) task_state_scheme) option" where
  "process_load_binary io filename process s =
     do { (fd, s) \<leftarrow> fopen io filename [114, 0] s;
          if fd < 0 then Some (- EIO, s)
          else do { (res, s) \<leftarrow> read_binary io fd process s; (_, s) \<leftarrow> fclose fd s; Some (res, s) } }"

definition process_load_elf :: "'d bus \<Rightarrow> u8 list \<Rightarrow> u32 \<Rightarrow> ('d, 'z) task_state_scheme \<Rightarrow>
    (int \<times> ('d, 'z) task_state_scheme) option" where
  "process_load_elf io filename process s =
     do { (res, f, s) \<leftarrow> elf_load io filename s;
          if res < 0 then Some (res, s)
          else do { p \<leftarrow> procs s process;
                    Some (res, set_process process (p\<lparr>filetype := PROCESS_FILETYPE_ELF, proc_ptr := f\<rparr>) s) } }"

definition process_load_data :: "'d bus \<Rightarrow> u8 list \<Rightarrow> u32 \<Rightarrow> ('d, 'z) task_state_scheme \<Rightarrow>
    (int \<times> ('d, 'z) task_state_scheme) option" where
  "process_load_data io filename process s =
     do { (res, s) \<leftarrow> process_load_elf io filename process s;
          if res = - EINFORMAT then process_load_binary io filename process s else Some (res, s) }"

subsection \<open>Mapping\<close>

definition process_map_binary :: "u32 \<Rightarrow> ('d, 'z) task_state_scheme \<Rightarrow> (int \<times> ('d, 'z) task_state_scheme) option" where
  "process_map_binary process s =
     do { p \<leftarrow> procs s process;
          map_in_process process TOYOS_PROGRAM_VIRTUAL_ADDRESS (proc_ptr p)
            (paging_align_address (proc_ptr p + proc_size p)) USER_RW s }"

definition segment_flags :: "mem \<Rightarrow> u32 \<Rightarrow> int" where
  "segment_flags m phdr =
     uint ((PAGING_IS_PRESENT OR PAGING_ACCESS_FROM_ALL) OR (if p_flags m phdr AND PF_W \<noteq> 0 then PAGING_IS_WRITEABLE else 0))"

definition map_segment :: "u32 \<Rightarrow> elf_file \<Rightarrow> u32 \<Rightarrow> ('d, 'z) task_state_scheme \<Rightarrow> (int \<times> ('d, 'z) task_state_scheme) option" where
  "map_segment process f phdr s =
     (let phdr_phys_address = elf_phdr_phys_address (phys s) f phdr;
          virt = paging_align_to_lower_page (p_vaddr (phys s) phdr);
          start = paging_align_to_lower_page phdr_phys_address;
          stop = paging_align_address (phdr_phys_address + p_memsz (phys s) phdr)
      in map_in_process process virt start stop (segment_flags (phys s) phdr) s)"

text \<open>\<open>n\<close> segments are left; the number of segments is taken from the header once.\<close>

fun map_elf_loop :: "u32 \<Rightarrow> elf_file \<Rightarrow> u32 \<Rightarrow> nat \<Rightarrow> ('d, 'z) task_state_scheme \<Rightarrow> (int \<times> ('d, 'z) task_state_scheme) option" where
  "map_elf_loop process f phdr 0 s = Some (OK, s)"
| "map_elf_loop process f phdr (Suc n) s =
     do { (res, s) \<leftarrow> map_segment process f phdr s;
          if res < 0 then Some (res, s)
          else if n = 0 then Some (res, s) else map_elf_loop process f (phdr + sizeof_elf32_phdr) n s }"

definition process_map_elf :: "u32 \<Rightarrow> ('d, 'z) task_state_scheme \<Rightarrow> (int \<times> ('d, 'z) task_state_scheme) option" where
  "process_map_elf process s =
     do { p \<leftarrow> procs s process;
          f \<leftarrow> elf_files s (proc_ptr p);
          let header = elf_header f;
          map_elf_loop process f (elf_pheader (phys s) header) (unat (e_phnum (phys s) header)) s }"

definition process_map_memory :: "u32 \<Rightarrow> ('d, 'z) task_state_scheme \<Rightarrow> (int \<times> ('d, 'z) task_state_scheme) option" where
  "process_map_memory process s =
     do { p \<leftarrow> procs s process;
          (res, s) \<leftarrow> (if filetype p = PROCESS_FILETYPE_ELF then process_map_elf process s
                       else if filetype p = PROCESS_FILETYPE_BINARY then process_map_binary process s
                       else None);
          if res < 0 then Some (res, s)
          else do {
            (res, s) \<leftarrow> map_in_process process TOYOS_PROGRAM_VIRTUAL_STACK_ADDRESS_END (proc_stack p)
              (paging_align_address (proc_stack p + TOYOS_USER_PROGRAM_STACK_SIZE)) USER_RW s;
            Some (if res < 0 then res else OK, s) } }"

subsection \<open>The process table\<close>

fun first_zero :: "u32 list \<Rightarrow> nat option" where
  "first_zero [] = None"
| "first_zero (x # xs) = (if x = 0 then Some 0 else map_option Suc (first_zero xs))"

definition process_get_free_slot :: "('d, 'z) task_state_scheme \<Rightarrow> int" where
  "process_get_free_slot s = (case first_zero (processes s) of None \<Rightarrow> - EISTKN | Some i \<Rightarrow> int i)"

definition process_switch :: "u32 \<Rightarrow> ('d, 'z) task_state_scheme \<Rightarrow> ('d, 'z) task_state_scheme" where
  "process_switch process s = s\<lparr>current_process := process\<rparr>"

fun first_nonzero :: "u32 list \<Rightarrow> u32 option" where
  "first_nonzero [] = None"
| "first_nonzero (x # xs) = (if x \<noteq> 0 then Some x else first_nonzero xs)"

definition process_switch_to_any :: "('d, 'z) task_state_scheme \<Rightarrow> ('d, 'z) task_state_scheme option" where
  "process_switch_to_any s = do { p \<leftarrow> first_nonzero (processes s); Some (process_switch p s) }"

definition process_unlink :: "u32 \<Rightarrow> ('d, 'z) task_state_scheme \<Rightarrow> ('d, 'z) task_state_scheme option" where
  "process_unlink process s =
     do { p \<leftarrow> procs s process;
          t \<leftarrow> wr (processes s) (unat (proc_id p)) 0;
          let s = s\<lparr>processes := t\<rparr>;
          if current_process s = process then process_switch_to_any s else Some s }"

definition process_get :: "int \<Rightarrow> ('d, 'z) task_state_scheme \<Rightarrow> u32 option" where
  "process_get process_id s =
     (if process_id < 0 \<or> process_id \<ge> int TOYOS_MAX_PROCESSES then Some 0 else rdi (processes s) process_id)"

subsection \<open>Allocations of a process\<close>

fun find_alloc :: "u32 \<Rightarrow> process_allocation list \<Rightarrow> nat option" where
  "find_alloc ptr [] = None"
| "find_alloc ptr (a # as) = (if alloc_ptr a = ptr then Some 0 else map_option Suc (find_alloc ptr as))"

definition process_find_free_allocation_index :: "process \<Rightarrow> int" where
  "process_find_free_allocation_index p = (case find_alloc 0 (allocations p) of None \<Rightarrow> - ENOMEM | Some i \<Rightarrow> int i)"

definition process_is_process_pointer :: "process \<Rightarrow> u32 \<Rightarrow> bool" where
  "process_is_process_pointer p ptr \<longleftrightarrow> find_alloc ptr (allocations p) \<noteq> None"

definition process_allocation_unjoin :: "process \<Rightarrow> u32 \<Rightarrow> process" where
  "process_allocation_unjoin p ptr =
     p\<lparr>allocations := map (\<lambda>a. if alloc_ptr a = ptr then \<lparr>alloc_ptr = 0, alloc_size = 0\<rparr> else a) (allocations p)\<rparr>"

definition process_get_allocation_by_addr :: "process \<Rightarrow> u32 \<Rightarrow> process_allocation option" where
  "process_get_allocation_by_addr p addr = map_option (\<lambda>i. allocations p ! i) (find_alloc addr (allocations p))"

definition process_free :: "u32 \<Rightarrow> u32 \<Rightarrow> ('d, 'z) task_state_scheme \<Rightarrow> ('d, 'z) task_state_scheme option" where
  "process_free process ptr s =
     do { p \<leftarrow> procs s process;
          case process_get_allocation_by_addr p ptr of
            None \<Rightarrow> Some s
          | Some allocation \<Rightarrow>
              do { (res, s) \<leftarrow> map_in_process process (alloc_ptr allocation) (alloc_ptr allocation)
                     (paging_align_address (alloc_ptr allocation + alloc_size allocation)) 0x00 s;
                   if res < 0 then Some s
                   else let s = set_process process (process_allocation_unjoin p ptr) s
                        in Some (s\<lparr>fs_heap := kfree ptr (fs_heap s)\<rparr>) } }"

definition process_malloc :: "u32 \<Rightarrow> u32 \<Rightarrow> ('d, 'z) task_state_scheme \<Rightarrow> (u32 \<times> ('d, 'z) task_state_scheme) option" where
  "process_malloc process n s =
     (let (ptr, s) = kzalloc_phys n s; out_err = (\<lambda>s. Some (0, s\<lparr>fs_heap := kfree ptr (fs_heap s)\<rparr>))
      in if ptr = 0 then Some (0, s)
         else do {
           p \<leftarrow> procs s process;
           let index = process_find_free_allocation_index p;
           if index < 0 then out_err s
           else do {
             (res, s) \<leftarrow> map_in_process process ptr ptr (paging_align_address (ptr + n)) USER_RW s;
             if res < 0 then out_err s
             else Some (ptr, set_process process
                    (p\<lparr>allocations := (allocations p)[nat index := \<lparr>alloc_ptr = ptr, alloc_size = n\<rparr>]\<rparr>) s) } })"

text \<open>Every slot is freed, the empty ones too, with the pointer the slot has at its turn.\<close>

fun terminate_allocations_loop :: "u32 \<Rightarrow> nat list \<Rightarrow> ('d, 'z) task_state_scheme \<Rightarrow> ('d, 'z) task_state_scheme option" where
  "terminate_allocations_loop process [] s = Some s"
| "terminate_allocations_loop process (i # is) s =
     do { p \<leftarrow> procs s process;
          a \<leftarrow> rd (allocations p) i;
          s \<leftarrow> process_free process (alloc_ptr a) s;
          terminate_allocations_loop process is s }"

definition process_terminate_allocations :: "u32 \<Rightarrow> ('d, 'z) task_state_scheme \<Rightarrow> (int \<times> ('d, 'z) task_state_scheme) option" where
  "process_terminate_allocations process s =
     do { s \<leftarrow> terminate_allocations_loop process [0 ..< TOYOS_MAX_PROGRAM_ALLOCATIONS] s; Some (OK, s) }"

subsection \<open>Termination\<close>

definition process_free_binary_data :: "process \<Rightarrow> ('d, 'z) task_state_scheme \<Rightarrow> (int \<times> ('d, 'z) task_state_scheme) option" where
  "process_free_binary_data p s = Some (OK, s\<lparr>fs_heap := kfree (proc_ptr p) (fs_heap s)\<rparr>)"

definition process_free_elf_data :: "process \<Rightarrow> ('d, 'z) task_state_scheme \<Rightarrow> (int \<times> ('d, 'z) task_state_scheme) option" where
  "process_free_elf_data p s = do { s \<leftarrow> elf_close (proc_ptr p) s; Some (OK, s) }"

definition process_free_program_data :: "u32 \<Rightarrow> ('d, 'z) task_state_scheme \<Rightarrow> (int \<times> ('d, 'z) task_state_scheme) option" where
  "process_free_program_data process s =
     do { p \<leftarrow> procs s process;
          if filetype p = PROCESS_FILETYPE_BINARY then process_free_binary_data p s
          else if filetype p = PROCESS_FILETYPE_ELF then process_free_elf_data p s
          else Some (- EINVARG, s) }"

text \<open>The process object itself is not freed.\<close>

definition process_terminate :: "u32 \<Rightarrow> ('d, 'z) task_state_scheme \<Rightarrow> (int \<times> ('d, 'z) task_state_scheme) option" where
  "process_terminate process s =
     do { (res, s) \<leftarrow> process_terminate_allocations process s;
          if res < 0 then Some (res, s)
          else do {
            (res, s) \<leftarrow> process_free_program_data process s;
            if res < 0 then Some (res, s)
            else do {
              p \<leftarrow> procs s process;
              (_, s) \<leftarrow> task_free (proc_task p) (s\<lparr>fs_heap := kfree (proc_stack p) (fs_heap s)\<rparr>);
              s \<leftarrow> process_unlink process s;
              Some (res, s) } } }"

subsection \<open>Arguments\<close>

definition process_get_arguments :: "u32 \<Rightarrow> ('d, 'z) task_state_scheme \<Rightarrow> (int \<times> u32) option" where
  "process_get_arguments process s = do { p \<leftarrow> procs s process; Some (proc_argc p, proc_argv p) }"

text \<open>A \<open>command_argument\<close> in memory: 512 bytes of text and the pointer to the next one.\<close>

definition argument_next :: "mem \<Rightarrow> u32 \<Rightarrow> u32" where
  "argument_next m a = rd32 m (a + 512)"

partial_function (option) process_count_command_arguments :: "mem \<Rightarrow> u32 \<Rightarrow> int option" where
  "process_count_command_arguments m current =
     (if current = 0 then Some 0
      else do { i \<leftarrow> process_count_command_arguments m (argument_next m current); Some (i + 1) })"

partial_function (option) inject_loop :: "u32 \<Rightarrow> u32 \<Rightarrow> nat \<Rightarrow> u32 \<Rightarrow> ('d, 'z) task_state_scheme \<Rightarrow>
    (int \<times> ('d, 'z) task_state_scheme) option" where
  "inject_loop process argv i current s =
     (if current = 0 then Some (OK, s)
      else do {
        (argument_str, s) \<leftarrow> process_malloc process 512 s;
        if argument_str = 0 then Some (- ENOMEM, s)
        else do {
          str \<leftarrow> strncpy (mem_bytes (phys s) argument_str 512) (mem_bytes (phys s) current 512) 512;
          let m = wr32 (mem_store (phys s) argument_str str) (word_at argv i) argument_str;
          inject_loop process argv (i + 1) (argument_next m current) (s\<lparr>phys := m\<rparr>) } })"

definition process_inject_arguments :: "u32 \<Rightarrow> u32 \<Rightarrow> ('d, 'z) task_state_scheme \<Rightarrow>
    (int \<times> ('d, 'z) task_state_scheme) option" where
  "process_inject_arguments process root_argument s =
     do { argc \<leftarrow> process_count_command_arguments (phys s) root_argument;
          if argc = 0 then Some (- EIO, s)
          else do {
            (argv, s) \<leftarrow> process_malloc process (word_of_int (4 * argc)) s;
            if argv = 0 then Some (- ENOMEM, s)
            else do {
              (res, s) \<leftarrow> inject_loop process argv 0 root_argument s;
              if res \<noteq> OK then Some (res, s)
              else do { p \<leftarrow> procs s process;
                        Some (OK, set_process process (p\<lparr>proc_argc := argc, proc_argv := argv\<rparr>) s) } } } }"

subsection \<open>Creating processes\<close>

text \<open>
  From the stack on. The result of \<open>task_new\<close> is compared with null only, an error code is taken for a task.
\<close>

definition process_set_up :: "u8 list \<Rightarrow> u32 \<Rightarrow> u32 \<Rightarrow> int \<Rightarrow> ('d, 'z) task_state_scheme \<Rightarrow>
    (int \<times> ('d, 'z) task_state_scheme) option" where
  "process_set_up filename process program_stack_ptr process_slot s =
     do { p \<leftarrow> procs s process;
          name \<leftarrow> strncpy (proc_filename p) filename (int TOYOS_MAX_PATH);
          (task, s) \<leftarrow> task_new process (set_process process
             (p\<lparr>proc_filename := name, proc_stack := program_stack_ptr, proc_id := word_of_int process_slot\<rparr>) s);
          if task = 0 then Some (sint task, s)
          else do {
            p \<leftarrow> procs s process;
            process_map_memory process (set_process process (p\<lparr>proc_task := task\<rparr>) s) } }"

definition process_abandon :: "u32 \<Rightarrow> u32 \<Rightarrow> ('d, 'z) task_state_scheme \<Rightarrow> ('d, 'z) task_state_scheme option" where
  "process_abandon process program_stack_ptr s =
     do { s \<leftarrow> (if process = 0 then Some s
                else do { p \<leftarrow> procs s process;
                          if proc_task p = 0 then Some s else do { (_, s) \<leftarrow> task_free (proc_task p) s; Some s } });
          Some (s\<lparr>fs_heap := kfree program_stack_ptr (kfree process (fs_heap s)), procs := (procs s)(process := None)\<rparr>) }"

text \<open>The status and the process, which is null when \<open>*process\<close> is not written.\<close>

definition process_load_for_slot :: "'d bus \<Rightarrow> u8 list \<Rightarrow> int \<Rightarrow> ('d, 'z) task_state_scheme \<Rightarrow>
    (int \<times> u32 \<times> ('d, 'z) task_state_scheme) option" where
  "process_load_for_slot io filename process_slot s =
     do { old \<leftarrow> process_get process_slot s;
          if old \<noteq> 0 then do { s \<leftarrow> process_abandon 0 0 s; Some (- EISTKN, 0, s) }
          else let (process, s) = kzalloc_phys sizeof_process s
               in if process = 0 then do { s \<leftarrow> process_abandon 0 0 s; Some (- ENOMEM, 0, s) }
                  else do {
                    (res, s) \<leftarrow> process_load_data io filename process (set_process process zero_process s);
                    if res < 0 then do { s \<leftarrow> process_abandon process 0 s; Some (res, 0, s) }
                    else let (stack, s) = kzalloc_phys TOYOS_USER_PROGRAM_STACK_SIZE s
                         in if stack = 0 then do { s \<leftarrow> process_abandon process 0 s; Some (- ENOMEM, 0, s) }
                            else do {
                              (res, s) \<leftarrow> process_set_up filename process stack process_slot s;
                              if res < 0 then do { s \<leftarrow> process_abandon process stack s; Some (res, 0, s) }
                              else do { t \<leftarrow> wri (processes s) process_slot process;
                                        Some (res, process, s\<lparr>processes := t\<rparr>) } } } }"

definition process_load :: "'d bus \<Rightarrow> u8 list \<Rightarrow> ('d, 'z) task_state_scheme \<Rightarrow>
    (int \<times> u32 \<times> ('d, 'z) task_state_scheme) option" where
  "process_load io filename s =
     (let process_slot = process_get_free_slot s
      in if process_slot < 0 then Some (- EISTKN, 0, s) else process_load_for_slot io filename process_slot s)"

definition process_load_and_switch :: "'d bus \<Rightarrow> u8 list \<Rightarrow> ('d, 'z) task_state_scheme \<Rightarrow>
    (int \<times> u32 \<times> ('d, 'z) task_state_scheme) option" where
  "process_load_and_switch io filename s =
     do { (res, process, s) \<leftarrow> process_load io filename s;
          Some (res, process, if res = OK then process_switch process s else s) }"

definition mem_copy :: "mem \<Rightarrow> u32 \<Rightarrow> u32 \<Rightarrow> nat \<Rightarrow> mem" where
  "mem_copy m dest src n = mem_store m dest (mem_bytes m src n)"

fun fork_allocations :: "u32 \<Rightarrow> process_allocation list \<Rightarrow> ('d, 'z) task_state_scheme \<Rightarrow> ('d, 'z) task_state_scheme option" where
  "fork_allocations child [] s = Some s"
| "fork_allocations child (a # as) s =
     (if alloc_ptr a = 0 then fork_allocations child as s
      else do { (newptr, s) \<leftarrow> process_malloc child (alloc_size a) s;
                fork_allocations child as
                  (if newptr = 0 then s
                   else s\<lparr>phys := mem_copy (phys s) newptr (alloc_ptr a) (unat (alloc_size a))\<rparr>) })"

text \<open>The result is cut to 16 bits, error codes as well; the second component is the child, null after an error.\<close>

definition process_fork :: "'d bus \<Rightarrow> ('d, 'z) task_state_scheme \<Rightarrow> (u16 \<times> u32 \<times> ('d, 'z) task_state_scheme) option" where
  "process_fork io s =
     (let parent = current_process s
      in if parent = 0 then Some (word_of_int (- EINVARG), 0, s)
         else let slot = process_get_free_slot s
              in if slot < 0 then Some (word_of_int slot, 0, s)
                 else do {
                   pp \<leftarrow> procs s parent;
                   (res, child, s) \<leftarrow> process_load_for_slot io (proc_filename pp) slot s;
                   if res < 0 then Some (word_of_int res, 0, s)
                   else do {
                     c \<leftarrow> procs s child;
                     pp \<leftarrow> procs s parent;
                     let s = s\<lparr>phys := mem_copy (phys s) (proc_stack c) (proc_stack pp) (unat TOYOS_USER_PROGRAM_STACK_SIZE)\<rparr>;
                     s \<leftarrow> fork_allocations child (allocations pp) s;
                     c \<leftarrow> procs s child;
                     k \<leftarrow> tasks s (proc_task c);
                     cur \<leftarrow> tasks s (current_task s);
                     let regs = (task_registers cur)\<lparr>r_eax := 0\<rparr>;
                     Some (proc_id c, child, s\<lparr>tasks := (tasks s)(proc_task c \<mapsto> k\<lparr>task_registers := regs\<rparr>)\<rparr>) } })"

end
