(* ===== verification/Interrupts.thy ===== *)
theory Interrupts
  imports Port_Bus
begin

section \<open>Interrupt tables and the interrupt controller\<close>

text \<open>
  \<^verbatim>\<open>src/src/idt/idt.c\<close> (the descriptor table, the callbacks and the system call handlers) and
  \<^verbatim>\<open>src/src/drivers/pic/pic8259.c\<close>. A function pointer is a value of a type \<open>'c\<close> the users of the
  tables choose; a null pointer is \<^const>\<open>None\<close>. The entry points written in assembly are parameters.
  A failing \<open>panick\<close> does not return: its value is \<^const>\<open>None\<close>.
\<close>

text \<open>The functions the kernel registers for interrupts.\<close>

datatype interrupt_cb = Cb_handle_exception | Cb_clock | Cb_keyboard | Cb_rtl8139

subsection \<open>The interrupt descriptor table\<close>

definition TOYOS_CODE_SELECTOR :: u16 where [kernel_consts]: "TOYOS_CODE_SELECTOR = 0x08"

record idt_desc =
  id_offset_1 :: u16
  id_selector :: u16
  id_zero :: u8
  id_type_attr :: u8
  id_offset_2 :: u16

record idtr_desc =
  idtr_limit :: u16
  idtr_base :: u32

definition idt_set :: "int \<Rightarrow> u32 \<Rightarrow> idt_desc list \<Rightarrow> idt_desc list option" where
  "idt_set interrupt_no address descs =
     do { desc \<leftarrow> rdi descs interrupt_no;
          wri descs interrupt_no
            (desc\<lparr>id_offset_1 := ucast (address AND 0x0000ffff), id_selector := TOYOS_CODE_SELECTOR, id_zero := 0,
                  id_type_attr := 0xee, id_offset_2 := ucast (drop_bit 16 address)\<rparr>) }"

definition idt_register_interrupt_callback :: "int \<Rightarrow> 'c \<Rightarrow> 'c option list \<Rightarrow> (int \<times> 'c option list) option" where
  "idt_register_interrupt_callback interrupt interrupt_callback callbacks =
     (if interrupt < 0 \<or> interrupt \<ge> TOYOS_TOTAL_INTERRUPTS then Some (- EINVARG, callbacks)
      else do { c \<leftarrow> wri callbacks interrupt (Some interrupt_callback); Some (OK, c) })"

fun idt_set_all :: "u32 list \<Rightarrow> int list \<Rightarrow> idt_desc list \<Rightarrow> idt_desc list option" where
  "idt_set_all table [] descs = Some descs"
| "idt_set_all table (i # is) descs =
     do { a \<leftarrow> rdi table i; descs \<leftarrow> idt_set i a descs; idt_set_all table is descs }"

fun idt_register_all :: "'c \<Rightarrow> int list \<Rightarrow> 'c option list \<Rightarrow> 'c option list option" where
  "idt_register_all cb [] callbacks = Some callbacks"
| "idt_register_all cb (i # is) callbacks =
     do { (_, callbacks) \<leftarrow> idt_register_interrupt_callback i cb callbacks; idt_register_all cb is callbacks }"

text \<open>
  \<open>table\<close> is the array of the assembly entry points, \<open>int0h\<close> and \<open>int80h\<close> two more, \<open>base\<close> the address of
  the descriptor table, \<open>exc\<close> and \<open>clock\<close> the two callbacks.
\<close>

definition idt_init ::
    "u32 list \<Rightarrow> u32 \<Rightarrow> u32 \<Rightarrow> u32 \<Rightarrow> 'c \<Rightarrow> 'c \<Rightarrow> idt_desc list \<Rightarrow> 'c option list \<Rightarrow>
     (idt_desc list \<times> idtr_desc \<times> 'c option list) option" where
  "idt_init table int0h int80h base exc clock descs callbacks =
     (let descs = map (\<lambda>_. \<lparr>id_offset_1 = 0, id_selector = 0, id_zero = 0, id_type_attr = 0, id_offset_2 = 0\<rparr>) descs;
          idtr = \<lparr>idtr_limit = of_nat (length descs * 8) - 1, idtr_base = base\<rparr>
      in do { descs \<leftarrow> idt_set_all table [0 .. TOYOS_TOTAL_INTERRUPTS - 1] descs;
              descs \<leftarrow> idt_set 0 int0h descs;
              descs \<leftarrow> idt_set 0x80 int80h descs;
              callbacks \<leftarrow> idt_register_all exc [0 .. 0x1F] callbacks;
              (_, callbacks) \<leftarrow> idt_register_interrupt_callback 0x20 clock callbacks;
              Some (descs, idtr, callbacks) })"

subsection \<open>System call handlers\<close>

definition register_sys_command :: "int \<Rightarrow> 'c \<Rightarrow> 'c option list \<Rightarrow> 'c option list option" where
  "register_sys_command cmd handler cmds =
     (if cmd < 0 \<or> cmd \<ge> TOYOS_MAX_SYSCALLS then None
      else do { old \<leftarrow> rdi cmds cmd;
                if old \<noteq> None then None else wri cmds cmd (Some handler) })"

subsection \<open>The interrupt controller\<close>

definition PIC1_COMMAND :: u16 where [kernel_consts]: "PIC1_COMMAND = 0x20"
definition PIC1_DATA :: u16 where [kernel_consts]: "PIC1_DATA = 0x21"
definition PIC2_COMMAND :: u16 where [kernel_consts]: "PIC2_COMMAND = 0xA0"
definition PIC2_DATA :: u16 where [kernel_consts]: "PIC2_DATA = 0xA1"
definition PIC_EOI :: u8 where [kernel_consts]: "PIC_EOI = 0x20"
definition ICW1_ICW4 :: u8 where [kernel_consts]: "ICW1_ICW4 = 0x01"
definition ICW1_INIT :: u8 where [kernel_consts]: "ICW1_INIT = 0x10"
definition ICW4_8086 :: u8 where [kernel_consts]: "ICW4_8086 = 0x01"
definition PIC_READ_IRR :: u8 where [kernel_consts]: "PIC_READ_IRR = 0x0a"
definition PIC_READ_ISR :: u8 where [kernel_consts]: "PIC_READ_ISR = 0x0b"
definition PIC_MASTER_OFFSET :: u8 where [kernel_consts]: "PIC_MASTER_OFFSET = 0x20"
definition PIC_SLAVE_OFFSET :: u8 where [kernel_consts]: "PIC_SLAVE_OFFSET = 0x28"

definition io_wait :: "'d bus \<Rightarrow> 'd \<Rightarrow> 'd" where
  "io_wait io d = bus_outb io 0x80 0 d"

definition pic_remap :: "'d bus \<Rightarrow> u8 \<Rightarrow> u8 \<Rightarrow> 'd \<Rightarrow> 'd" where
  "pic_remap io offset1 offset2 d =
     (let d = io_wait io (bus_outb io PIC1_COMMAND (ICW1_INIT OR ICW1_ICW4) d);
          d = io_wait io (bus_outb io PIC2_COMMAND (ICW1_INIT OR ICW1_ICW4) d);
          d = io_wait io (bus_outb io PIC1_DATA offset1 d);
          d = io_wait io (bus_outb io PIC2_DATA offset2 d);
          d = io_wait io (bus_outb io PIC1_DATA 4 d);
          d = io_wait io (bus_outb io PIC2_DATA 2 d);
          d = io_wait io (bus_outb io PIC1_DATA ICW4_8086 d);
          d = io_wait io (bus_outb io PIC2_DATA ICW4_8086 d);
          d = bus_outb io PIC1_DATA 0 d
      in bus_outb io PIC2_DATA 0 d)"

definition pic_send_eoi :: "'d bus \<Rightarrow> u8 \<Rightarrow> 'd \<Rightarrow> 'd" where
  "pic_send_eoi io irq d =
     (let d = (if irq \<ge> 8 then bus_outb io PIC2_COMMAND PIC_EOI d else d)
      in bus_outb io PIC1_COMMAND PIC_EOI d)"

definition irq_set_mask :: "'d bus \<Rightarrow> u8 \<Rightarrow> 'd \<Rightarrow> 'd" where
  "irq_set_mask io irq_line d =
     (let (port, irq_line) = (if irq_line < 8 then (PIC1_DATA, irq_line) else (PIC2_DATA, irq_line - 8));
          (v, d) = bus_insb io port d
      in bus_outb io port (v OR push_bit (unat irq_line) 1) d)"

definition irq_clear_mask :: "'d bus \<Rightarrow> u8 \<Rightarrow> 'd \<Rightarrow> 'd" where
  "irq_clear_mask io irq_line d =
     (let (port, irq_line) = (if irq_line < 8 then (PIC1_DATA, irq_line) else (PIC2_DATA, irq_line - 8));
          (v, d) = bus_insb io port d
      in bus_outb io port (v AND NOT (push_bit (unat irq_line) 1)) d)"

definition pic_disable :: "'d bus \<Rightarrow> 'd \<Rightarrow> 'd" where
  "pic_disable io d = bus_outb io PIC2_DATA 0xff (bus_outb io PIC1_DATA 0xff d)"

text \<open>The two reads are operands of one expression; the model reads the left one first.\<close>

definition pic_get_irq_reg :: "'d bus \<Rightarrow> u8 \<Rightarrow> 'd \<Rightarrow> u16 \<times> 'd" where
  "pic_get_irq_reg io ocw3 d =
     (let d = bus_outb io PIC2_COMMAND ocw3 (bus_outb io PIC1_COMMAND ocw3 d);
          (hi, d) = bus_insb io PIC2_COMMAND d;
          (lo, d) = bus_insb io PIC1_COMMAND d
      in (push_bit 8 (ucast hi) OR ucast lo, d))"

definition pic_get_irr :: "'d bus \<Rightarrow> 'd \<Rightarrow> u16 \<times> 'd" where
  "pic_get_irr io d = pic_get_irq_reg io PIC_READ_IRR d"

definition pic_get_isr :: "'d bus \<Rightarrow> 'd \<Rightarrow> u16 \<times> 'd" where
  "pic_get_isr io d = pic_get_irq_reg io PIC_READ_ISR d"

definition pic_init :: "'d bus \<Rightarrow> 'd \<Rightarrow> 'd" where
  "pic_init io d = pic_remap io PIC_MASTER_OFFSET PIC_SLAVE_OFFSET d"

end
