(* ===== verification/Bounded_Fifo.thy ===== *)
theory Bounded_Fifo
  imports Kernel_Prelude
begin

section \<open>Bounded queues\<close>

text \<open>
  The contract of a bounded first-in first-out queue, shared by the receive queues of the sockets,
  the keyboard buffer and the transmit ring of the network card. The provider shows that one put and
  one get do what they should on the abstract contents; the locale gives what follows for sequences
  of operations.
\<close>

locale bounded_fifo =
  fixes put :: "'a \<Rightarrow> 'q \<Rightarrow> 'q option"
    and get :: "'q \<Rightarrow> ('a \<times> 'q) option"
    and contents :: "'q \<Rightarrow> 'a list"
    and invar :: "'q \<Rightarrow> bool"
    and elem_ok :: "'a \<Rightarrow> bool"
    and cap :: nat
  assumes put_ok: "invar q \<Longrightarrow> elem_ok x \<Longrightarrow> length (contents q) < cap \<Longrightarrow>
      \<exists>q'. put x q = Some q' \<and> invar q' \<and> contents q' = contents q @ [x]"
    and get_ok: "invar q \<Longrightarrow> contents q = x # xs \<Longrightarrow>
      \<exists>q'. get q = Some (x, q') \<and> invar q' \<and> contents q' = xs"
    and within: "invar q \<Longrightarrow> length (contents q) \<le> cap"
begin

primrec put_all :: "'a list \<Rightarrow> 'q \<Rightarrow> 'q option" where
  "put_all [] q = Some q"
| "put_all (x # xs) q = Option.bind (put x q) (put_all xs)"

primrec get_n :: "nat \<Rightarrow> 'q \<Rightarrow> ('a list \<times> 'q) option" where
  "get_n 0 q = Some ([], q)"
| "get_n (Suc n) q =
     Option.bind (get q) (\<lambda>(x, q). Option.bind (get_n n q) (\<lambda>(xs, q). Some (x # xs, q)))"

lemma put_all_ok:
  assumes "invar q" "\<And>x. x \<in> set xs \<Longrightarrow> elem_ok x" "length (contents q) + length xs \<le> cap"
  shows "\<exists>q'. put_all xs q = Some q' \<and> invar q' \<and> contents q' = contents q @ xs"
  using assms
proof (induction xs arbitrary: q)
  case (Cons x xs)
  then obtain q1 where q1: "put x q = Some q1" "invar q1" "contents q1 = contents q @ [x]"
    using put_ok [of q x] by auto
  then obtain q' where "put_all xs q1 = Some q'" "invar q'" "contents q' = contents q1 @ xs"
    using Cons.IH [of q1] Cons.prems by auto
  then show ?case using q1 by simp
qed simp

lemma get_n_ok:
  assumes "invar q" "n \<le> length (contents q)"
  shows "\<exists>q'. get_n n q = Some (take n (contents q), q') \<and> invar q' \<and> contents q' = drop n (contents q)"
  using assms
proof (induction n arbitrary: q)
  case (Suc n)
  then obtain x xs where c: "contents q = x # xs" by (cases "contents q") auto
  then obtain q1 where q1: "get q = Some (x, q1)" "invar q1" "contents q1 = xs"
    using get_ok [of q x xs] Suc.prems by blast
  then obtain q' where "get_n n q1 = Some (take n xs, q')" "invar q'" "contents q' = drop n xs"
    using Suc.IH [of q1] Suc.prems c by auto
  then show ?case using q1 c by simp
qed simp

text \<open>What was put comes out in the same order.\<close>

lemma fifo_order:
  assumes "invar q" "contents q = []" "\<And>x. x \<in> set xs \<Longrightarrow> elem_ok x" "length xs \<le> cap"
  shows "\<exists>q1 q2. put_all xs q = Some q1 \<and> get_n (length xs) q1 = Some (xs, q2) \<and> contents q2 = []"
proof -
  obtain q1 where "put_all xs q = Some q1" "invar q1" "contents q1 = xs"
    using put_all_ok [of q xs] assms by auto
  then show ?thesis using get_n_ok [of q1 "length xs"] by auto
qed

end

end
