(* ===== verification/Keyboard.thy ===== *)
theory Keyboard
  imports Process Interrupts Bounded_Fifo
begin

section \<open>The keyboard\<close>

text \<open>
  \<^verbatim>\<open>src/src/keyboard/keyboard.c\<close> (the list of keyboards and the key buffer of every process) and
  \<^verbatim>\<open>src/src/drivers/keyboards/ps2.c\<close>. The only \<open>struct keyboard\<close> is that of the PS/2 driver. The state adds
  the interrupt callbacks and the keyboards.
\<close>

definition KEYBOARD_CAPS_LOCK_ON :: int where [kernel_consts]: "KEYBOARD_CAPS_LOCK_ON = 1"
definition KEYBOARD_CAPS_LOCK_OFF :: int where [kernel_consts]: "KEYBOARD_CAPS_LOCK_OFF = 0"
definition PS2_PORT :: u16 where [kernel_consts]: "PS2_PORT = 0x64"
definition PS2_COMMAND_ENABLE_FIRST_PORT :: u8 where [kernel_consts]: "PS2_COMMAND_ENABLE_FIRST_PORT = 0xae"
definition PS2_KEYBOARD_INPUT_PORT :: u16 where [kernel_consts]: "PS2_KEYBOARD_INPUT_PORT = 0x60"
definition PS2_ISR_KEYBOARD_INTERRUPT :: int where [kernel_consts]: "PS2_ISR_KEYBOARD_INTERRUPT = 0x21"
definition PS2_KEYBOARD_KEY_RELEASED :: u8 where [kernel_consts]: "PS2_KEYBOARD_KEY_RELEASED = 0x80"
definition PS2_KEYBOARD_CAPSLOCK :: u8 where [kernel_consts]: "PS2_KEYBOARD_CAPSLOCK = 0x3a"

datatype keyboard = Ps2_keyboard

record 'd kbd_state = "'d task_state" +
  interrupt_callbacks :: "interrupt_cb option list"
  capslock_state :: int
  keyboard_next :: "keyboard option"
  keyboard_list_head :: "keyboard option"
  keyboard_list_last :: "keyboard option"

definition keyboard_set_capslock :: "int \<Rightarrow> ('d, 'z) kbd_state_scheme \<Rightarrow> ('d, 'z) kbd_state_scheme" where
  "keyboard_set_capslock v s = s\<lparr>capslock_state := v\<rparr>"

definition keyboard_get_capslock :: "('d, 'z) kbd_state_scheme \<Rightarrow> int" where
  "keyboard_get_capslock s = capslock_state s"

subsection \<open>The key buffer\<close>

text \<open>The remainder is computed on unsigned numbers: \<open>sizeof\<close> is a \<open>size_t\<close>.\<close>

definition buffer_index :: "int \<Rightarrow> keyboard_buffer \<Rightarrow> nat" where
  "buffer_index i k = unat (word_of_int i :: u32) mod length (kb_buffer k)"

definition keyboard_get_tail_index :: "process \<Rightarrow> nat" where
  "keyboard_get_tail_index process = buffer_index (kb_tail (keyboard process)) (keyboard process)"

definition keyboard_backspace :: "process option \<Rightarrow> process option option" where
  "keyboard_backspace process =
     (case process of
        None \<Rightarrow> Some None
      | Some p \<Rightarrow>
          let p = p\<lparr>keyboard := (keyboard p)\<lparr>kb_tail := to_int (kb_tail (keyboard p) - 1)\<rparr>\<rparr>
          in do { b \<leftarrow> wr (kb_buffer (keyboard p)) (keyboard_get_tail_index p) 0x00;
                  Some (Some (p\<lparr>keyboard := (keyboard p)\<lparr>kb_buffer := b\<rparr>\<rparr>)) })"

text \<open>The two operations on the buffer of one process.\<close>

definition buffer_push :: "u8 \<Rightarrow> keyboard_buffer \<Rightarrow> keyboard_buffer option" where
  "buffer_push c k =
     do { b \<leftarrow> wr (kb_buffer k) (buffer_index (kb_tail k) k) c;
          Some (k\<lparr>kb_buffer := b, kb_tail := to_int (kb_tail k + 1)\<rparr>) }"

definition buffer_pop :: "keyboard_buffer \<Rightarrow> (u8 \<times> keyboard_buffer) option" where
  "buffer_pop k =
     do { c \<leftarrow> rd (kb_buffer k) (buffer_index (kb_head k) k);
          if c = 0x00 then Some (0, k)
          else do { b \<leftarrow> wr (kb_buffer k) (buffer_index (kb_head k) k) 0;
                    Some (c, k\<lparr>kb_buffer := b, kb_head := to_int (kb_head k + 1)\<rparr>) } }"

definition keyboard_push :: "u8 \<Rightarrow> ('d, 'z) task_state_scheme \<Rightarrow> ('d, 'z) task_state_scheme option" where
  "keyboard_push c s =
     (if current_process s = 0 then Some s
      else do { p \<leftarrow> procs s (current_process s);
                k \<leftarrow> buffer_push c (keyboard p);
                Some (set_process (current_process s) (p\<lparr>keyboard := k\<rparr>) s) })"

definition keyboard_pop :: "('d, 'z) task_state_scheme \<Rightarrow> (u8 \<times> ('d, 'z) task_state_scheme) option" where
  "keyboard_pop s =
     (if current_task s = 0 then Some (0, s)
      else do { t \<leftarrow> tasks s (current_task s);
                p \<leftarrow> procs s (task_process t);
                (c, k) \<leftarrow> buffer_pop (keyboard p);
                Some (c, set_process (task_process t) (p\<lparr>keyboard := k\<rparr>) s) })"

subsection \<open>The PS/2 driver\<close>

definition keyboard_scan_set_one :: "u8 list" where
  "keyboard_scan_set_one =
     [0x00, 0x1b, 49, 50, 51, 52, 53, 54, 55, 56, 57, 48, 45, 61, 0x08, 9, 81,
      87, 69, 82, 84, 89, 85, 73, 79, 80, 91, 93, 0x0d, 0x00, 65, 83, 68, 70,
      71, 72, 74, 75, 76, 59, 39, 96, 0x00, 92, 90, 88, 67, 86, 66, 78, 77,
      44, 46, 47, 0x00, 42, 0x00, 0x20, 0x00, 0x00, 0x00, 0x00, 0x00, 0x00, 0x00, 0x00, 0x00, 0x00,
      0x00, 55, 56, 57, 45, 52, 53, 54, 43, 49, 50, 51, 48, 46]"

definition ps2_keyboard_init :: "'d bus \<Rightarrow> ('d, 'z) kbd_state_scheme \<Rightarrow> (int \<times> ('d, 'z) kbd_state_scheme) option" where
  "ps2_keyboard_init io s =
     do { (_, c) \<leftarrow> idt_register_interrupt_callback PS2_ISR_KEYBOARD_INTERRUPT Cb_keyboard (interrupt_callbacks s);
          let s = keyboard_set_capslock KEYBOARD_CAPS_LOCK_OFF (s\<lparr>interrupt_callbacks := c\<rparr>);
          Some (OK, s\<lparr>fs_dev := bus_outb io PS2_PORT PS2_COMMAND_ENABLE_FIRST_PORT (fs_dev s)\<rparr>) }"

definition ps2_keyboard_scancode_to_char :: "u8 \<Rightarrow> ('d, 'z) kbd_state_scheme \<Rightarrow> u8 option" where
  "ps2_keyboard_scancode_to_char scancode s =
     (if unat scancode > length keyboard_scan_set_one then Some 0
      else do { c \<leftarrow> rd keyboard_scan_set_one (unat scancode);
                Some (if keyboard_get_capslock s = KEYBOARD_CAPS_LOCK_OFF \<and> sint c \<ge> 65 \<and> sint c \<le> 90
                      then c + 32 else c) })"

text \<open>After a released key the function returns without going back to the address space of the task.\<close>

definition ps2_keyboard_handle_interrupt :: "'d bus \<Rightarrow> ('d, 'z) kbd_state_scheme \<Rightarrow> ('d, 'z) kbd_state_scheme option" where
  "ps2_keyboard_handle_interrupt io s =
     (let s = kernel_page s;
          (scancode, d) = bus_insb io PS2_KEYBOARD_INPUT_PORT (fs_dev s);
          (_, d) = bus_insb io PS2_KEYBOARD_INPUT_PORT d;
          s = s\<lparr>fs_dev := d\<rparr>
      in if scancode AND PS2_KEYBOARD_KEY_RELEASED \<noteq> 0 then Some s
         else let s = (if scancode = PS2_KEYBOARD_CAPSLOCK
                       then keyboard_set_capslock (if keyboard_get_capslock s = KEYBOARD_CAPS_LOCK_ON
                              then KEYBOARD_CAPS_LOCK_OFF else KEYBOARD_CAPS_LOCK_ON) s else s)
              in do { c \<leftarrow> ps2_keyboard_scancode_to_char scancode s;
                      s \<leftarrow> (if c \<noteq> 0 then keyboard_push c s else Some s);
                      (_, s) \<leftarrow> task_page s;
                      Some s })"

subsection \<open>The list of keyboards\<close>

fun keyboard_op_init :: "keyboard \<Rightarrow> 'd bus \<Rightarrow> ('d, 'z) kbd_state_scheme \<Rightarrow> (int \<times> ('d, 'z) kbd_state_scheme) option" where
  "keyboard_op_init Ps2_keyboard = ps2_keyboard_init"

partial_function (option) keyboard_init_loop :: "'d bus \<Rightarrow> keyboard option \<Rightarrow> ('d, 'z) kbd_state_scheme \<Rightarrow>
    ('d, 'z) kbd_state_scheme option" where
  "keyboard_init_loop io k s =
     (case k of
        None \<Rightarrow> Some s
      | Some k \<Rightarrow> do { (_, s) \<leftarrow> keyboard_op_init k io s; keyboard_init_loop io (keyboard_next s) s })"

definition keyboard_init :: "'d bus \<Rightarrow> ('d, 'z) kbd_state_scheme \<Rightarrow> ('d, 'z) kbd_state_scheme option" where
  "keyboard_init io s = keyboard_init_loop io (keyboard_list_head s) s"

definition keyboard_insert :: "'d bus \<Rightarrow> keyboard \<Rightarrow> ('d, 'z) kbd_state_scheme \<Rightarrow> (int \<times> ('d, 'z) kbd_state_scheme) option" where
  "keyboard_insert io k s =
     (let s = (if keyboard_list_last s \<noteq> None then s\<lparr>keyboard_next := Some k\<rparr> else s\<lparr>keyboard_list_head := Some k\<rparr>);
          s = s\<lparr>keyboard_list_last := Some k\<rparr>
      in keyboard_op_init k io s)"

definition ps2_register :: "'d bus \<Rightarrow> ('d, 'z) kbd_state_scheme \<Rightarrow> (int \<times> ('d, 'z) kbd_state_scheme) option" where
  "ps2_register io s = keyboard_insert io Ps2_keyboard s"

end
