(* ===== verification/Pci.thy ===== *)
theory Pci
  imports Port_Bus
begin

section \<open>The PCI bus\<close>

text \<open>
  \<^verbatim>\<open>src/src/drivers/pci/pci.c\<close>: configuration-space access through the ports 0xCF8 and 0xCFC and
  the enumeration of the devices at start-up. The registry is an array of 16 structures;
  \<^const>\<open>None\<close> is a write beyond it. The driver initialisation that enumeration calls for a RTL8139 is
  a parameter here. Messages are not modelled.
\<close>

definition PCI_CONFIG_ADDRESS :: u16 where [kernel_consts]: "PCI_CONFIG_ADDRESS = 0xCF8"
definition PCI_CONFIG_DATA :: u16 where [kernel_consts]: "PCI_CONFIG_DATA = 0xCFC"
definition PCI_VENDOR_ID :: u8 where [kernel_consts]: "PCI_VENDOR_ID = 0x00"
definition PCI_COMMAND :: u8 where [kernel_consts]: "PCI_COMMAND = 0x04"
definition PCI_REVISION_ID :: u8 where [kernel_consts]: "PCI_REVISION_ID = 0x08"
definition PCI_BAR0 :: u8 where [kernel_consts]: "PCI_BAR0 = 0x10"
definition PCI_INTERRUPT_LINE :: u8 where [kernel_consts]: "PCI_INTERRUPT_LINE = 0x3C"
definition PCI_INVALID_VENDOR :: u32 where [kernel_consts]: "PCI_INVALID_VENDOR = 0xFFFF"
definition PCI_MAX_BUS :: nat where [kernel_consts]: "PCI_MAX_BUS = 256"
definition PCI_MAX_DEVICE :: nat where [kernel_consts]: "PCI_MAX_DEVICE = 32"
definition PCI_MAX_DEVICES :: nat where [kernel_consts]: "PCI_MAX_DEVICES = 16"
definition RTL8139_VENDOR_ID :: u16 where [kernel_consts]: "RTL8139_VENDOR_ID = 0x10EC"
definition RTL8139_DEVICE_ID :: u16 where [kernel_consts]: "RTL8139_DEVICE_ID = 0x8139"

record pci_device =
  pd_bus :: u8
  pd_device :: u8
  pd_function :: u8
  pd_vendor_id :: u16
  pd_device_id :: u16
  pd_command :: u16
  pd_status :: u16
  pd_revision_id :: u8
  pd_prog_if :: u8
  pd_subclass :: u8
  pd_class_code :: u8
  pd_header_type :: u8
  pd_interrupt_line :: u8
  pd_interrupt_pin :: u8
  pd_bar :: "u32 list"

subsection \<open>Configuration space\<close>

text \<open>The address word; device and function are bit fields of 5 and 3 bits.\<close>

definition pci_config_address :: "u8 \<Rightarrow> u8 \<Rightarrow> u8 \<Rightarrow> u8 \<Rightarrow> u32" where
  "pci_config_address bus device function offset =
     push_bit 31 1 OR push_bit 16 (ucast bus) OR push_bit 11 (ucast (take_bit 5 device)) OR
     push_bit 8 (ucast (take_bit 3 function)) OR ucast (offset AND 0xFC)"

definition pci_config_read_32 :: "'d bus \<Rightarrow> u8 \<Rightarrow> u8 \<Rightarrow> u8 \<Rightarrow> u8 \<Rightarrow> 'd \<Rightarrow> u32 \<times> 'd" where
  "pci_config_read_32 io bus device function offset d =
     (let d = bus_outl io PCI_CONFIG_ADDRESS (pci_config_address bus device function offset) d
      in bus_insl io PCI_CONFIG_DATA d)"

definition pci_config_write_32 :: "'d bus \<Rightarrow> u8 \<Rightarrow> u8 \<Rightarrow> u8 \<Rightarrow> u8 \<Rightarrow> u32 \<Rightarrow> 'd \<Rightarrow> 'd" where
  "pci_config_write_32 io bus device function offset value d =
     (let d = bus_outl io PCI_CONFIG_ADDRESS (pci_config_address bus device function offset) d
      in bus_outl io PCI_CONFIG_DATA value d)"

text \<open>The names of the device classes, for the boot messages.\<close>

definition pci_class_names :: "string list" where
  "pci_class_names =
     [''Unclassified'', ''Mass Storage'', ''Network'', ''Display'', ''Multimedia'', ''Memory'', ''Bridge'',
      ''Communication'', ''System Peripheral'', ''Input Device'', ''Docking Station'', ''Processor'',
      ''Serial Bus'', ''Wireless'', ''Intelligent I/O'', ''Satellite Communication'',
      ''Encryption/Decryption'', ''Data Acquisition'']"

definition pci_get_class_name :: "u8 \<Rightarrow> string" where
  "pci_get_class_name class_code =
     (if unat class_code < length pci_class_names then pci_class_names ! unat class_code else ''Unknown'')"

text \<open>The loop over the six base address registers.\<close>

fun pci_read_bars :: "'d bus \<Rightarrow> u8 \<Rightarrow> u8 \<Rightarrow> u8 \<Rightarrow> nat list \<Rightarrow> u32 list \<Rightarrow> 'd \<Rightarrow> u32 list \<times> 'd" where
  "pci_read_bars io bus device function [] bar d = (bar, d)"
| "pci_read_bars io bus device function (i # is) bar d =
     (let (v, d) = pci_config_read_32 io bus device function (PCI_BAR0 + of_nat (i * 4)) d
      in pci_read_bars io bus device function is (bar[i := v]) d)"

definition pci_read_device_info ::
    "'d bus \<Rightarrow> u8 \<Rightarrow> u8 \<Rightarrow> u8 \<Rightarrow> pci_device \<Rightarrow> 'd \<Rightarrow> int \<times> pci_device \<times> 'd" where
  "pci_read_device_info io bus device function dev d =
     (let (vendor_device, d) = pci_config_read_32 io bus device function PCI_VENDOR_ID d
      in if vendor_device AND 0xFFFF = PCI_INVALID_VENDOR then (-1, dev, d)
         else
           let dev = dev\<lparr>pd_bus := bus, pd_device := device, pd_function := function,
                         pd_vendor_id := ucast (vendor_device AND 0xFFFF),
                         pd_device_id := ucast (drop_bit 16 vendor_device AND 0xFFFF)\<rparr>;
               (cmd_status, d) = pci_config_read_32 io bus device function PCI_COMMAND d;
               dev = dev\<lparr>pd_command := ucast (cmd_status AND 0xFFFF),
                         pd_status := ucast (drop_bit 16 cmd_status AND 0xFFFF)\<rparr>;
               (class_info, d) = pci_config_read_32 io bus device function PCI_REVISION_ID d;
               dev = dev\<lparr>pd_revision_id := ucast (class_info AND 0xFF),
                         pd_prog_if := ucast (drop_bit 8 class_info AND 0xFF),
                         pd_subclass := ucast (drop_bit 16 class_info AND 0xFF),
                         pd_class_code := ucast (drop_bit 24 class_info AND 0xFF)\<rparr>;
               (misc_info, d) = pci_config_read_32 io bus device function 0x0C d;
               dev = dev\<lparr>pd_header_type := ucast (drop_bit 16 misc_info AND 0xFF)\<rparr>;
               (interrupt_info, d) = pci_config_read_32 io bus device function PCI_INTERRUPT_LINE d;
               dev = dev\<lparr>pd_interrupt_line := ucast (interrupt_info AND 0xFF),
                         pd_interrupt_pin := ucast (drop_bit 8 interrupt_info AND 0xFF)\<rparr>;
               (bar, d) = pci_read_bars io bus device function [0 ..< 6] (pd_bar dev) d
           in (0, dev\<lparr>pd_bar := bar\<rparr>, d))"

subsection \<open>The registry\<close>

record pci_registry =
  pci_devices :: "pci_device list"
  pci_device_count :: int

text \<open>
  One round of the double loop of \<open>pci_enumerate_devices\<close>: \<open>device\<close> is the local structure, \<open>init\<close> the
  driver initialisation, called with the index of the registry entry it gets a pointer to. Its result is only
  reported.
\<close>

type_synonym 'd pci_init = "nat \<Rightarrow> pci_device \<Rightarrow> 'd \<Rightarrow> (int \<times> 'd) option"

definition pci_enumerate_step ::
    "'d bus \<Rightarrow> 'd pci_init \<Rightarrow> nat \<Rightarrow> nat \<Rightarrow> pci_device \<times> pci_registry \<times> 'd \<Rightarrow>
     (pci_device \<times> pci_registry \<times> 'd) option" where
  "pci_enumerate_step io init bus dev = (\<lambda>(device, r, d).
     let (res, device, d) = pci_read_device_info io (of_nat bus) (of_nat dev) 0 device d
     in if res = 0
        then do { devices \<leftarrow> wr (pci_devices r) (nat (pci_device_count r)) device;
                  let r = r\<lparr>pci_devices := devices, pci_device_count := pci_device_count r + 1\<rparr>;
                  d \<leftarrow> (if pd_vendor_id device = RTL8139_VENDOR_ID \<and> pd_device_id device = RTL8139_DEVICE_ID
                       then do { (_, d) \<leftarrow> init (nat (pci_device_count r - 1)) device d; Some d } else Some d);
                  Some (device, r, d) }
        else Some (device, r, d))"

fun pci_enumerate_loop ::
    "'d bus \<Rightarrow> 'd pci_init \<Rightarrow> (nat \<times> nat) list \<Rightarrow> pci_device \<times> pci_registry \<times> 'd \<Rightarrow>
     (pci_device \<times> pci_registry \<times> 'd) option" where
  "pci_enumerate_loop io init [] st = Some st"
| "pci_enumerate_loop io init ((bus, dev) # locs) st =
     do { st \<leftarrow> pci_enumerate_step io init bus dev st; pci_enumerate_loop io init locs st }"

definition pci_enumerate_devices ::
    "'d bus \<Rightarrow> 'd pci_init \<Rightarrow> pci_device \<Rightarrow> pci_registry \<Rightarrow> 'd \<Rightarrow> (int \<times> pci_registry \<times> 'd) option" where
  "pci_enumerate_devices io init device r d =
     do { (device, r, d) \<leftarrow> pci_enumerate_loop io init
            (List.product [0 ..< PCI_MAX_BUS] [0 ..< PCI_MAX_DEVICE])
            (device, r\<lparr>pci_device_count := 0\<rparr>, d);
          Some (pci_device_count r, r, d) }"

text \<open>The result is the index of the entry whose address is returned, or \<^const>\<open>None\<close> for null.\<close>

fun pci_find_device_loop :: "pci_device list \<Rightarrow> nat list \<Rightarrow> u16 \<Rightarrow> u16 \<Rightarrow> nat option option" where
  "pci_find_device_loop devs [] vendor_id device_id = Some None"
| "pci_find_device_loop devs (i # is) vendor_id device_id =
     do { dev \<leftarrow> rd devs i;
          if pd_vendor_id dev = vendor_id \<and> pd_device_id dev = device_id then Some (Some i)
          else pci_find_device_loop devs is vendor_id device_id }"

definition pci_find_device :: "pci_registry \<Rightarrow> u16 \<Rightarrow> u16 \<Rightarrow> nat option option" where
  "pci_find_device r vendor_id device_id =
     pci_find_device_loop (pci_devices r) [0 ..< nat (pci_device_count r)] vendor_id device_id"

fun pci_find_class_loop ::
    "pci_device list \<Rightarrow> nat list \<Rightarrow> u8 \<Rightarrow> pci_device list \<Rightarrow> int \<Rightarrow> nat \<Rightarrow> (nat \<times> pci_device list) option" where
  "pci_find_class_loop devs [] class_code out m found = Some (found, out)"
| "pci_find_class_loop devs (i # is) class_code out m found =
     (if int found < m
      then do { dev \<leftarrow> rd devs i;
                if pd_class_code dev = class_code
                then do { out \<leftarrow> wr out found dev; pci_find_class_loop devs is class_code out m (Suc found) }
                else pci_find_class_loop devs is class_code out m found }
      else Some (found, out))"

definition pci_find_devices_by_class ::
    "pci_registry \<Rightarrow> u8 \<Rightarrow> pci_device list \<Rightarrow> int \<Rightarrow> (int \<times> pci_device list) option" where
  "pci_find_devices_by_class r class_code devices max_devices =
     do { (found, out) \<leftarrow> pci_find_class_loop (pci_devices r) [0 ..< nat (pci_device_count r)]
                            class_code devices max_devices 0;
          Some (int found, out) }"

subsection \<open>The host bridge\<close>

text \<open>
  The documented behaviour of the configuration mechanism. A write to the port 0xCF8 latches an address: bit 31
  enables the mechanism, bits 24 to 30 are reserved, and the bus, the device, the function and the number of a
  32-bit register are in the bits 16 to 23, 11 to 15, 8 to 10 and 2 to 7. While an enabled address is
  latched, a read of the port 0xCFC yields the register it names and changes no register, and a write changes no
  register of another function. \<open>conf\<close> is the configuration space, by bus, device, function and offset, and
  \<open>addr\<close> the latched address, as functions of the state of the devices.
\<close>

type_synonym config_space = "nat \<Rightarrow> nat \<Rightarrow> nat \<Rightarrow> nat \<Rightarrow> u32"

definition address_enabled :: "nat \<Rightarrow> bool" where
  "address_enabled a \<longleftrightarrow> a div 2 ^ 24 = 128 \<and> a mod 4 = 0"

definition addressed :: "nat \<Rightarrow> nat \<times> nat \<times> nat" where
  "addressed a = (a div 2 ^ 16 mod 256, a div 2 ^ 11 mod 32, a div 2 ^ 8 mod 8)"

definition pci_host :: "'d bus \<Rightarrow> ('d \<Rightarrow> config_space) \<Rightarrow> ('d \<Rightarrow> u32) \<Rightarrow> bool" where
  "pci_host io conf addr \<longleftrightarrow>
     (\<forall>d v. conf (bus_outl io 0xCF8 v d) = conf d \<and> addr (bus_outl io 0xCF8 v d) = v) \<and>
     (\<forall>d. address_enabled (unat (addr d)) \<longrightarrow>
        (case addressed (unat (addr d)) of (b, dv, f) \<Rightarrow>
           fst (bus_insl io 0xCFC d) = conf d b dv f (4 * (unat (addr d) div 4 mod 64)) \<and>
           conf (snd (bus_insl io 0xCFC d)) = conf d \<and>
           (\<forall>v b' dv' f'. (b', dv', f') \<noteq> (b, dv, f) \<longrightarrow>
              conf (bus_outl io 0xCFC v d) b' dv' f' = conf d b' dv' f')))"

text \<open>What the registry should hold for a device.\<close>

definition present :: "config_space \<Rightarrow> nat \<times> nat \<Rightarrow> bool" where
  "present c = (\<lambda>(b, dv). c b dv 0 0 AND 0xFFFF \<noteq> 0xFFFF)"

definition device_info :: "config_space \<Rightarrow> nat \<times> nat \<Rightarrow> pci_device" where
  "device_info c = (\<lambda>(b, dv). let r = c b dv 0 in
     \<lparr>pd_bus = of_nat b, pd_device = of_nat dv, pd_function = 0,
      pd_vendor_id = ucast (r 0), pd_device_id = ucast (drop_bit 16 (r 0)),
      pd_command = ucast (r 4), pd_status = ucast (drop_bit 16 (r 4)),
      pd_revision_id = ucast (r 8), pd_prog_if = ucast (drop_bit 8 (r 8)),
      pd_subclass = ucast (drop_bit 16 (r 8)), pd_class_code = ucast (drop_bit 24 (r 8)),
      pd_header_type = ucast (drop_bit 16 (r 0xC)),
      pd_interrupt_line = ucast (r 0x3C), pd_interrupt_pin = ucast (drop_bit 8 (r 0x3C)),
      pd_bar = [r 0x10, r 0x14, r 0x18, r 0x1C, r 0x20, r 0x24]\<rparr>)"

definition locations :: "(nat \<times> nat) list" where
  "locations = List.product [0 ..< PCI_MAX_BUS] [0 ..< PCI_MAX_DEVICE]"

subsection \<open>Reading one device\<close>

lemma ucast_and_FFFF: "ucast (x AND 0xFFFF) = (ucast x :: u16)" for x :: u32
proof -
  have m: "(0xFFFF :: u32) = mask 16" by (simp add: mask_eq_exp_minus_1)
  show ?thesis unfolding m by (rule bit_word_eqI) (auto simp: bit_simps)
qed

lemma ucast_and_FF: "ucast (x AND 0xFF) = (ucast x :: u8)" for x :: u32
proof -
  have m: "(0xFF :: u32) = mask 8" by (simp add: mask_eq_exp_minus_1)
  show ?thesis unfolding m by (rule bit_word_eqI) (auto simp: bit_simps)
qed

lemma bit_address:
  "bit (pci_config_address b dv f off) n \<longleftrightarrow>
     n = 31 \<or> (16 \<le> n \<and> n < 24 \<and> bit b (n - 16)) \<or> (11 \<le> n \<and> n < 16 \<and> bit dv (n - 11)) \<or>
     (8 \<le> n \<and> n < 11 \<and> bit f (n - 8)) \<or> (2 \<le> n \<and> n < 8 \<and> bit off n)"
proof -
  have m: "bit (off AND 0xFC) k \<longleftrightarrow> 2 \<le> k \<and> bit off k" for k
  proof -
    have m: "(0xFC :: u8) = NOT (mask 2)" by (simp add: mask_eq_exp_minus_1)
    show ?thesis unfolding m by (auto simp: bit_simps dest: bit_imp_le_length)
  qed
  have e: "bit (push_bit 31 1 :: u32) n \<longleftrightarrow> n = 31"
    unfolding bit_push_bit_iff bit_1_iff by auto
  have b: "bit (push_bit 16 (ucast b) :: u32) n \<longleftrightarrow> 16 \<le> n \<and> n < 24 \<and> bit b (n - 16)"
    by (auto simp: bit_simps dest: bit_imp_le_length)
  have d: "bit (push_bit 11 (ucast (take_bit 5 dv)) :: u32) n \<longleftrightarrow> 11 \<le> n \<and> n < 16 \<and> bit dv (n - 11)"
    by (auto simp: bit_simps dest: bit_imp_le_length)
  have f: "bit (push_bit 8 (ucast (take_bit 3 f)) :: u32) n \<longleftrightarrow> 8 \<le> n \<and> n < 11 \<and> bit f (n - 8)"
    by (auto simp: bit_simps dest: bit_imp_le_length)
  have o: "bit (ucast (off AND 0xFC) :: u32) n \<longleftrightarrow> 2 \<le> n \<and> n < 8 \<and> bit off n"
    by (auto simp: bit_unsigned_iff m dest: bit_imp_le_length)
  show ?thesis unfolding pci_config_address_def bit_or_iff e b d f o by blast
qed

lemma address_enabled_config: "address_enabled (unat (pci_config_address b dv f off))"
proof -
  let ?a = "pci_config_address b dv f off"
  have e: "bit (push_bit 7 1 :: u32) n \<longleftrightarrow> n = 7" for n unfolding bit_push_bit_iff bit_1_iff by auto
  have "drop_bit 24 ?a = push_bit 7 1"
  proof (rule bit_word_eqI)
    fix n
    assume "n < LENGTH(32)"
    then show "bit (drop_bit 24 ?a) n = bit (push_bit 7 1 :: u32) n" unfolding e bit_drop_bit_eq comp_def bit_address by auto
  qed
  moreover have "take_bit 2 ?a = 0" by (rule bit_word_eqI) (auto simp: bit_take_bit_iff bit_address)
  ultimately have "unat (drop_bit 24 ?a) = 128" "unat (take_bit 2 ?a) = 0" by simp_all
  then show ?thesis
    unfolding address_enabled_def by (simp add: drop_bit_eq_div take_bit_eq_mod unat_div unat_mod)
qed

lemma unat_field_u8: "unat (ucast (drop_bit k x) :: u8) = unat x div 2 ^ k mod 256" for x :: u32
proof -
  have "unat (drop_bit k x) = unat x div 2 ^ k" unfolding unat_drop_bit_eq by (simp add: drop_bit_eq_div)
  then show ?thesis by (simp add: unsigned_ucast_eq take_bit_eq_mod)
qed

lemma addressed_config:
  "addressed (unat (pci_config_address b dv f off)) = (unat b, unat dv mod 32, unat f mod 8)"
  "4 * (unat (pci_config_address b dv f off) div 4 mod 64) = 4 * (unat off div 4)"
proof -
  let ?a = "pci_config_address b dv f off"
  have "ucast (drop_bit 16 ?a) = b" "take_bit 5 (ucast (drop_bit 11 ?a)) = take_bit 5 dv"
    "take_bit 3 (ucast (drop_bit 8 ?a)) = take_bit 3 f" "take_bit 6 (ucast (drop_bit 2 ?a)) = drop_bit 2 off"
    by (rule bit_word_eqI, auto simp: bit_simps bit_address dest: bit_imp_le_length)+
  then have u: "unat (ucast (drop_bit 16 ?a) :: u8) = unat b" "unat (take_bit 5 (ucast (drop_bit 11 ?a) :: u8)) = unat (take_bit 5 dv)"
    "unat (take_bit 3 (ucast (drop_bit 8 ?a) :: u8)) = unat (take_bit 3 f)"
    "unat (take_bit 6 (ucast (drop_bit 2 ?a) :: u8)) = unat (drop_bit 2 off)" by simp_all
  have m: "k mod 256 mod 32 = k mod 32" "k mod 256 mod 8 = k mod 8" "k mod 256 mod 64 = k mod 64" for k :: nat
    by (simp_all add: mod_mod_cancel)
  show "addressed (unat ?a) = (unat b, unat dv mod 32, unat f mod 8)"
    using u(1-3) unfolding addressed_def unsigned_take_bit_eq by (simp add: take_bit_eq_mod unat_field_u8 m unat_mod)
  show "4 * (unat ?a div 4 mod 64) = 4 * (unat off div 4)"
    using u(4) unfolding unsigned_take_bit_eq unat_drop_bit_eq unat_field_u8 by (simp add: take_bit_eq_mod drop_bit_eq_div m)
qed

text \<open>A state invariant that the accesses of the enumeration keep.\<close>

definition config_reads_keep :: "'d bus \<Rightarrow> ('d \<Rightarrow> bool) \<Rightarrow> bool" where
  "config_reads_keep io ok \<longleftrightarrow>
     (\<forall>d v. ok d \<longrightarrow> ok (bus_outl io 0xCF8 v d) \<and> ok (snd (bus_insl io 0xCFC d)))"

lemma pci_hostE:
  assumes "pci_host io conf addr" "config_reads_keep io ok" "ok d"
  obtains d' where "pci_config_read_32 io b dv f off d =
      (conf d (unat b) (unat dv mod 32) (unat f mod 8) (4 * (unat off div 4)), d')" "conf d' = conf d" "ok d'"
proof -
  let ?a = "pci_config_address b dv f off" let ?d = "bus_outl io 0xCF8 ?a d"
  have a: "conf ?d = conf d" "addr ?d = ?a" using assms(1) by (simp_all add: pci_host_def)
  have "fst (bus_insl io 0xCFC ?d) = conf d (unat b) (unat dv mod 32) (unat f mod 8) (4 * (unat off div 4))"
    "conf (snd (bus_insl io 0xCFC ?d)) = conf d"
    using assms(1)[unfolded pci_host_def, THEN conjunct2, rule_format, of ?d] address_enabled_config [of b dv f off]
      addressed_config [of b dv f off] by (simp_all add: a)
  moreover have "ok (snd (bus_insl io 0xCFC ?d))" using assms(2,3) by (simp add: config_reads_keep_def)
  ultimately show thesis
    by (intro that [of "snd (bus_insl io 0xCFC ?d)"])
      (simp_all add: pci_config_read_32_def PCI_CONFIG_ADDRESS_def PCI_CONFIG_DATA_def prod_eq_iff)
qed

lemma pci_config_write_host:
  assumes "pci_host io conf addr" "(b', dv', f') \<noteq> (unat b, unat dv mod 32, unat f mod 8)"
  shows "conf (pci_config_write_32 io b dv f off v d) b' dv' f' = conf d b' dv' f'"
proof -
  let ?a = "pci_config_address b dv f off" let ?d = "bus_outl io 0xCF8 ?a d"
  have a: "conf ?d = conf d" "addr ?d = ?a" using assms(1) by (simp_all add: pci_host_def)
  have "conf (bus_outl io 0xCFC v ?d) b' dv' f' = conf ?d b' dv' f'"
    using assms(1)[unfolded pci_host_def, THEN conjunct2, rule_format, of ?d] assms(2)
      address_enabled_config [of b dv f off] addressed_config(1) [of b dv f off] by (simp add: a(2))
  then show ?thesis by (simp add: pci_config_write_32_def PCI_CONFIG_ADDRESS_def PCI_CONFIG_DATA_def a(1))
qed

lemma pci_read_bars_host:
  assumes step: "\<And>off d. P d \<Longrightarrow> \<exists>d'. pci_config_read_32 io b dv f off d = (r (4 * (unat off div 4)), d') \<and> P d'"
    and "length bar = 6" "P d"
  shows "\<exists>d'. pci_read_bars io b dv f [0 ..< 6] bar d =
    ([r 0x10, r 0x14, r 0x18, r 0x1C, r 0x20, r 0x24], d') \<and> P d'"
proof -
  obtain d1 where 1: "pci_config_read_32 io b dv f 0x10 d = (r 0x10, d1)" "P d1" using step [of d "0x10"] assms(3) by auto
  obtain d2 where 2: "pci_config_read_32 io b dv f 0x14 d1 = (r 0x14, d2)" "P d2" using step [of d1 "0x14"] 1 by auto
  obtain d3 where 3: "pci_config_read_32 io b dv f 0x18 d2 = (r 0x18, d3)" "P d3" using step [of d2 "0x18"] 2 by auto
  obtain d4 where 4: "pci_config_read_32 io b dv f 0x1C d3 = (r 0x1C, d4)" "P d4" using step [of d3 "0x1C"] 3 by auto
  obtain d5 where 5: "pci_config_read_32 io b dv f 0x20 d4 = (r 0x20, d5)" "P d5" using step [of d4 "0x20"] 4 by auto
  obtain d6 where 6: "pci_config_read_32 io b dv f 0x24 d5 = (r 0x24, d6)" "P d6" using step [of d5 "0x24"] 5 by auto
  obtain x0 x1 x2 x3 x4 x5 where bar: "bar = [x0, x1, x2, x3, x4, x5]"
    using assms(2) by (auto simp: numeral_eq_Suc length_Suc_conv)
  have idx: "[0 ..< 6] = [0, 1, 2, 3, 4, 5 :: nat]" by (simp add: upt_rec)
  show ?thesis unfolding idx bar using 1 2 3 4 5 6 by (simp add: PCI_BAR0_def)
qed

lemma pci_read_device_info_host:
  assumes host: "pci_host io conf addr" "config_reads_keep io ok" "ok d" and "length (pd_bar dev) = 6" "b < 256" "dv < 32"
  shows "\<exists>d'. conf d' = conf d \<and> ok d' \<and> pci_read_device_info io (of_nat b) (of_nat dv) 0 dev d =
    (if present (conf d) (b, dv) then (0, device_info (conf d) (b, dv), d') else (-1, dev, d'))"
proof -
  let ?r = "conf d b dv 0" let ?P = "\<lambda>d'. conf d' = conf d \<and> ok d'"
  have u: "unat (of_nat b :: u8) = b" "unat (of_nat dv :: u8) mod 32 = dv" using assms(5,6) by (simp_all add: unat_of_nat)
  have step: "\<exists>d'. pci_config_read_32 io (of_nat b) (of_nat dv) 0 off d0 = (?r (4 * (unat off div 4)), d') \<and> ?P d'"
    if "?P d0" for off d0
    using pci_hostE [OF host(1,2), of d0 "of_nat b" "of_nat dv" 0 off] that u by auto
  obtain d1 where 1: "pci_config_read_32 io (of_nat b) (of_nat dv) 0 0 d = (?r 0, d1)" "?P d1"
    using step [of d 0] host(3) by auto
  obtain d2 where 2: "pci_config_read_32 io (of_nat b) (of_nat dv) 0 4 d1 = (?r 4, d2)" "?P d2"
    using step [of d1 4] 1 by auto
  obtain d3 where 3: "pci_config_read_32 io (of_nat b) (of_nat dv) 0 8 d2 = (?r 8, d3)" "?P d3"
    using step [of d2 8] 2 by auto
  obtain d4 where 4: "pci_config_read_32 io (of_nat b) (of_nat dv) 0 0x0C d3 = (?r 0x0C, d4)" "?P d4"
    using step [of d3 "0x0C"] 3 by auto
  obtain d5 where 5: "pci_config_read_32 io (of_nat b) (of_nat dv) 0 0x3C d4 = (?r 0x3C, d5)" "?P d5"
    using step [of d4 "0x3C"] 4 by auto
  obtain d6 where 6: "pci_read_bars io (of_nat b) (of_nat dv) 0 [0 ..< 6] (pd_bar dev) d5 =
      ([?r 0x10, ?r 0x14, ?r 0x18, ?r 0x1C, ?r 0x20, ?r 0x24], d6)" "?P d6"
    using pci_read_bars_host [of ?P io "of_nat b" "of_nat dv" 0 ?r, OF step assms(4) 5(2)] by blast
  show ?thesis
  proof (cases "present (conf d) (b, dv)")
    case True
    then show ?thesis
      using 1 2 3 4 5 6 by (intro exI [of _ d6])
        (simp add: pci_read_device_info_def present_def device_info_def kernel_consts Let_def
          ucast_and_FFFF ucast_and_FF del: upt_rec_numeral)
  next
    case False
    then show ?thesis
      using 1 by (intro exI [of _ d1]) (simp add: pci_read_device_info_def present_def kernel_consts)
  qed
qed

lemma length_bar_device_info [simp]: "length (pd_bar (device_info c l)) = 6"
  by (cases l) (simp add: device_info_def Let_def)

subsection \<open>Enumeration\<close>

text \<open>
  What enumeration relies on of the driver initialisation, for the cards it calls it on: in a state with the
  invariant \<open>ok\<close> it returns, keeps the invariant, and changes the configuration of its own device only.
\<close>

definition is_rtl8139 :: "pci_device \<Rightarrow> bool" where
  "is_rtl8139 dev \<longleftrightarrow> pd_vendor_id dev = 0x10EC \<and> pd_device_id dev = 0x8139"

definition cards :: "config_space \<Rightarrow> (nat \<times> nat) list \<Rightarrow> pci_device set" where
  "cards c locs = {dev \<in> device_info c ` set (filter (present c) locs). is_rtl8139 dev}"

definition init_local :: "('d \<Rightarrow> config_space) \<Rightarrow> ('d \<Rightarrow> bool) \<Rightarrow> pci_device set \<Rightarrow> 'd pci_init \<Rightarrow> bool" where
  "init_local conf ok devs init \<longleftrightarrow>
     (\<forall>i d. \<forall>dev \<in> devs. ok d \<longrightarrow>
        (\<exists>res d'. init i dev d = Some (res, d') \<and> ok d' \<and>
           (\<forall>b dv f. (b, dv) \<noteq> (unat (pd_bus dev), unat (pd_device dev)) \<longrightarrow> conf d' b dv f = conf d b dv f)))"

definition valid_locs :: "(nat \<times> nat) list \<Rightarrow> bool" where
  "valid_locs locs \<longleftrightarrow> distinct locs \<and> (\<forall>(b, dv) \<in> set locs. b < 256 \<and> dv < 32)"

lemma device_info_loc [simp]:
  "pd_bus (device_info c (b, dv)) = of_nat b" "pd_device (device_info c (b, dv)) = of_nat dv"
  by (simp_all add: device_info_def Let_def)

definition agree :: "config_space \<Rightarrow> config_space \<Rightarrow> (nat \<times> nat) list \<Rightarrow> bool" where
  "agree c c' locs \<longleftrightarrow> (\<forall>(b, dv) \<in> set locs. c' b dv 0 = c b dv 0)"

lemma agree_info:
  "agree c c' ((b, dv) # locs) \<Longrightarrow> device_info c' (b, dv) = device_info c (b, dv)"
  "agree c c' ((b, dv) # locs) \<Longrightarrow> present c' (b, dv) = present c (b, dv)"
  by (simp_all add: agree_def device_info_def present_def)

lemma init_local_step:
  assumes "init_local conf ok (cards c ((b, dv) # locs)) init" "valid_locs ((b, dv) # locs)" "agree c (conf d) ((b, dv) # locs)"
    and "ok d" "present c (b, dv)" "is_rtl8139 (device_info c (b, dv))"
  obtains res d' where "init i (device_info c (b, dv)) d = Some (res, d')" "ok d'" "agree c (conf d') locs"
proof -
  have u: "unat (of_nat b :: u8) = b" "unat (of_nat dv :: u8) = dv" using assms(2) by (simp_all add: valid_locs_def unat_of_nat)
  let ?dev = "device_info c (b, dv)"
  have "?dev \<in> cards c ((b, dv) # locs)" using assms(5,6) by (simp add: cards_def)
  then have "\<exists>res d'. init i ?dev d = Some (res, d') \<and> ok d' \<and>
      (\<forall>b' dv' f. (b', dv') \<noteq> (unat (pd_bus ?dev), unat (pd_device ?dev)) \<longrightarrow> conf d' b' dv' f = conf d b' dv' f)"
    using assms(1,4) unfolding init_local_def by blast
  then obtain res d' where d': "init i ?dev d = Some (res, d')" "ok d'"
    "\<forall>b' dv' f. (b', dv') \<noteq> (b, dv) \<longrightarrow> conf d' b' dv' f = conf d b' dv' f"
    unfolding device_info_loc u by blast
  have "l \<noteq> (b, dv)" if "l \<in> set locs" for l using that assms(2) by (auto simp: valid_locs_def)
  then have "agree c (conf d') locs" using assms(3) d'(3) by (fastforce simp: agree_def)
  then show thesis using d' that by blast
qed

lemma cards_mono: "cards c locs \<subseteq> cards c (l # locs)"
  by (auto simp: cards_def)

lemma init_local_mono: "init_local conf ok devs init \<Longrightarrow> devs' \<subseteq> devs \<Longrightarrow> init_local conf ok devs' init"
  by (auto simp: init_local_def)

lemma take_list_update_append: "n < length xs \<Longrightarrow> take (Suc n) (xs[n := x]) = take n xs @ [x]"
  by (simp add: take_Suc_conv_app_nth)

lemma enumerate_loop_spec:
  assumes host: "pci_host io conf addr" "config_reads_keep io ok"
    and "init_local conf ok (cards c locs) init" "ok d"
    and "valid_locs locs" "agree c (conf d) locs" "length (pd_bar dev) = 6"
      "length (pci_devices r) = 16" "pci_device_count r = int n" "n \<le> 16"
  shows "if n + length (filter (present c) locs) \<le> 16
    then \<exists>dev' r' d'. pci_enumerate_loop io init locs (dev, r, d) = Some (dev', r', d') \<and>
           length (pci_devices r') = 16 \<and> pci_device_count r' = int (n + length (filter (present c) locs)) \<and>
           take (n + length (filter (present c) locs)) (pci_devices r') =
             take n (pci_devices r) @ map (device_info c) (filter (present c) locs) \<and> ok d'
    else pci_enumerate_loop io init locs (dev, r, d) = None"
  using assms(3-)
proof (induction locs arbitrary: dev r d n)
  case (Cons l locs)
  obtain b dv where l: "l = (b, dv)" by force
  have vl: "valid_locs locs" "b < 256" "dv < 32" using Cons.prems(3) l by (simp_all add: valid_locs_def)
  note loc = init_local_mono [OF Cons.prems(1) cards_mono]
  obtain d1 where d1: "conf d1 = conf d" "ok d1" "pci_read_device_info io (of_nat b) (of_nat dv) 0 dev d =
      (if present c l then (0, device_info c l, d1) else (-1, dev, d1))"
    using pci_read_device_info_host [OF host Cons.prems(2,5) vl(2,3)] agree_info [of c "conf d" b dv locs]
      Cons.prems(4) l by auto
  have ag1: "agree c (conf d1) ((b, dv) # locs)" using Cons.prems(4) d1(1) l by simp
  show ?case
  proof (cases "present c l")
    case False
    have "pci_enumerate_loop io init (l # locs) (dev, r, d) = pci_enumerate_loop io init locs (dev, r, d1)"
      using False d1(3) l by (simp add: pci_enumerate_step_def)
    moreover have "agree c (conf d1) locs" using ag1 by (simp add: agree_def)
    ultimately show ?thesis using Cons.IH [OF loc d1(2) vl(1), of dev r n] False Cons.prems(5-8) by (simp split: if_splits)
  next
    case True
    show ?thesis
    proof (cases "n < 16")
      case False
      then have "pci_enumerate_loop io init (l # locs) (dev, r, d) = None"
        using True d1(3) l Cons.prems(6,7) by (simp add: pci_enumerate_step_def wr_def)
      then show ?thesis using False True by simp
    next
      case n: True
      define r1 where "r1 = r\<lparr>pci_devices := (pci_devices r)[n := device_info c l], pci_device_count := int (Suc n)\<rparr>"
      obtain d2 where d2: "(if is_rtl8139 (device_info c l) then do { (_, d) \<leftarrow> init n (device_info c l) d1; Some d } else Some d1) = Some d2"
        "ok d2" "agree c (conf d2) locs"
      proof (cases "is_rtl8139 (device_info c l)")
        case rtl: True
        obtain res d' where "init n (device_info c (b, dv)) d1 = Some (res, d')" "ok d'" "agree c (conf d') locs"
          by (rule init_local_step [OF Cons.prems(1,3) [unfolded l] ag1 d1(2)]) (use True rtl l in simp_all)
        then show thesis using that rtl l by simp
      qed (use d1(2) ag1 that in \<open>simp add: agree_def\<close>)
      have "pci_enumerate_step io init b dv (dev, r, d) = Some (device_info c l, r1, d2)"
        using True d1(3) l Cons.prems(6,7) n d2(1)
        by (cases "is_rtl8139 (device_info c l)")
          (auto simp: pci_enumerate_step_def wr_def r1_def is_rtl8139_def kernel_consts add.commute Let_def bind_eq_Some_conv)
      then have "pci_enumerate_loop io init (l # locs) (dev, r, d) = pci_enumerate_loop io init locs (device_info c l, r1, d2)"
        by (simp add: l)
      moreover have "take (Suc n) (pci_devices r1) = take n (pci_devices r) @ [device_info c l]"
        using n Cons.prems(6) by (simp add: r1_def take_list_update_append)
      ultimately show ?thesis
        using Cons.IH [OF loc d2(2) vl(1) d2(3), of "device_info c l" r1 "Suc n"] True Cons.prems(6) n
        by (auto simp: r1_def)
    qed
  qed
qed simp

lemma valid_locations: "valid_locs locations"
  by (auto simp: valid_locs_def locations_def distinct_product PCI_MAX_BUS_def PCI_MAX_DEVICE_def)

subsection \<open>Properties of the PCI driver\<close>

lemma pci_enumerate_spec:
  assumes "pci_host io conf addr" "config_reads_keep io ok" "init_local conf ok (cards (conf d) locations) init" "ok d"
    and "length (pd_bar dev) = 6" "length (pci_devices r) = 16"
  defines "devs \<equiv> filter (present (conf d)) locations"
  shows "if length devs \<le> 16
    then \<exists>r' d'. pci_enumerate_devices io init dev r d = Some (int (length devs), r', d') \<and> pci_device_count r' = int (length devs) \<and>
           take (length devs) (pci_devices r') = map (device_info (conf d)) devs \<and> ok d'
    else pci_enumerate_devices io init dev r d = None"
proof -
  have "agree (conf d) (conf d) locations" by (simp add: agree_def)
  then show ?thesis
    using enumerate_loop_spec [OF assms(1-4) valid_locations _ assms(5), of "r\<lparr>pci_device_count := 0\<rparr>" 0] assms(6)
    by (auto simp: devs_def pci_enumerate_devices_def locations_def [symmetric] split: if_splits)
qed

definition blank_device :: pci_device where
  "blank_device = \<lparr>pd_bus = 0, pd_device = 0, pd_function = 0, pd_vendor_id = 0, pd_device_id = 0,
     pd_command = 0, pd_status = 0, pd_revision_id = 0, pd_prog_if = 0, pd_subclass = 0, pd_class_code = 0,
     pd_header_type = 0, pd_interrupt_line = 0, pd_interrupt_pin = 0, pd_bar = replicate 6 0\<rparr>"

definition empty_registry :: pci_registry where
  "empty_registry = \<lparr>pci_devices = replicate 16 blank_device, pci_device_count = 0\<rparr>"

text \<open>
  (C40) A 17th device overruns the registry: enumeration has no check against its 16 entries and writes
  beyond the array, also when every driver initialisation it calls returns.
\<close>

theorem pci_enumerate_overruns_registry:
  assumes "pci_host io conf addr" "config_reads_keep io ok" "init_local conf ok (cards (conf d) locations) init" "ok d"
    and "length (pd_bar dev) = 6" "length (pci_devices r) = 16"
    and "16 < length (filter (present (conf d)) locations)"
  shows "pci_enumerate_devices io init dev r d = None"
  using pci_enumerate_spec [OF assms(1-6)] assms(7) by simp

text \<open>A host bridge with a device at every place, all of them with zeros in their registers.\<close>

definition full_bus :: "u32 bus" where
  "full_bus = idle_bus\<lparr>bus_outl := (\<lambda>p v d. if p = 0xCF8 then v else d)\<rparr>"

theorem pci_enumerate_overruns_registry_witness:
  "pci_enumerate_devices full_bus (\<lambda>_ _ d. Some (0, d)) blank_device empty_registry 0 = None"
proof (rule pci_enumerate_overruns_registry [where conf = "\<lambda>_ _ _ _ _. 0" and addr = id and ok = "\<lambda>_. True"])
  show "16 < length (filter (present ((\<lambda>_ _ _ _ _. 0) (0 :: u32))) locations)"
  proof -
    have "filter (present (\<lambda>_ _ _ _. 0)) locations = locations" by (simp add: present_def filter_id_conv case_prod_beta)
    moreover have "length locations = 8192" by (simp add: locations_def kernel_consts)
    ultimately show ?thesis by simp
  qed
qed (simp_all add: pci_host_def full_bus_def idle_bus_def config_reads_keep_def init_local_def blank_device_def empty_registry_def
      case_prod_beta)

end
