(* ===== verification/Net_Base.thy ===== *)
theory Net_Base
  imports Kernel_Heap C_String Pci
begin

section \<open>Network buffers and devices\<close>

text \<open>
  \<^verbatim>\<open>src/src/sys/net/byteorder.h\<close> and \<^verbatim>\<open>netdev.c\<close>: byte order, packet buffers and the registry
  of network devices, and the state the whole network stack works on. A device object lives at the
  address \<open>kzalloc\<close> gave it; the state maps these addresses to the objects. What a device's
  operations do is the driver's business: the operations are a parameter of the stack, found through
  the \<open>ops\<close> pointer of the device, and they may change the whole state. The state \<open>'d\<close> is the
  driver's own. Console messages are omitted.
\<close>

subsection \<open>Byte order\<close>

definition ntohs :: "u16 \<Rightarrow> u16" where
  "ntohs netshort = push_bit 8 (netshort AND 0xFF) OR (drop_bit 8 netshort AND 0xFF)"

definition htons :: "u16 \<Rightarrow> u16" where
  "htons hostshort = push_bit 8 (hostshort AND 0xFF) OR (drop_bit 8 hostshort AND 0xFF)"

definition ntohl :: "u32 \<Rightarrow> u32" where
  "ntohl netlong =
     push_bit 24 (netlong AND 0xFF) OR push_bit 16 (drop_bit 8 netlong AND 0xFF) OR
     push_bit 8 (drop_bit 16 netlong AND 0xFF) OR (drop_bit 24 netlong AND 0xFF)"

definition htonl :: "u32 \<Rightarrow> u32" where
  "htonl hostlong =
     push_bit 24 (hostlong AND 0xFF) OR push_bit 16 (drop_bit 8 hostlong AND 0xFF) OR
     push_bit 8 (drop_bit 16 hostlong AND 0xFF) OR (drop_bit 24 hostlong AND 0xFF)"

subsection \<open>Packet buffers\<close>

text \<open>
  A \<open>struct netbuf\<close> with its own address and the bytes its data pointer refers to, up to the end of
  the object. The chain pointer is never used.
\<close>

record netbuf =
  nb_addr :: u32
  nb_data_addr :: u32
  nb_data :: "u8 list"
  nb_len :: u16
  nb_total_len :: u16

definition netbuf_alloc :: "u16 \<Rightarrow> heap \<Rightarrow> netbuf option \<times> heap" where
  "netbuf_alloc sz h =
     (case kzalloc 12 h of
        (None, h) \<Rightarrow> (None, h)
      | (Some (buf, _), h) \<Rightarrow>
          (case kzalloc (ucast sz) h of
             (None, h) \<Rightarrow> (None, kfree buf h)
           | (Some (data, bytes), h) \<Rightarrow>
               (Some \<lparr>nb_addr = buf, nb_data_addr = data, nb_data = bytes, nb_len = 0, nb_total_len = sz\<rparr>, h)))"

definition netbuf_free :: "netbuf option \<Rightarrow> heap \<Rightarrow> heap" where
  "netbuf_free buf h =
     (case buf of None \<Rightarrow> h
      | Some buf \<Rightarrow>
          let h = (if nb_data_addr buf \<noteq> 0 then kfree (nb_data_addr buf) h else h)
          in kfree (nb_addr buf) h)"

text \<open>\<open>memcpy\<close> to a position inside an object.\<close>

definition memcpy_at :: "u8 list \<Rightarrow> nat \<Rightarrow> u8 list \<Rightarrow> int \<Rightarrow> u8 list option" where
  "memcpy_at dest i src len =
     (if i \<le> length dest then do { d \<leftarrow> memcpy (drop i dest) src len; Some (take i dest @ d) } else None)"

lemma memcpy_at_eq [obj_simps]:
  "i + nat n \<le> length dest \<Longrightarrow> nat n \<le> length src \<Longrightarrow>
   memcpy_at dest i src n = Some (take i dest @ take (nat n) src @ drop (i + nat n) dest)"
  by (simp add: memcpy_at_def memcpy_eq add.commute)

subsection \<open>Devices\<close>

definition NETDEV_NAME_MAX :: nat where [kernel_consts]: "NETDEV_NAME_MAX = 32"
definition NETDEV_STATE_DOWN :: u32 where [kernel_consts]: "NETDEV_STATE_DOWN = 0"
definition NETDEV_STATE_UP :: u32 where [kernel_consts]: "NETDEV_STATE_UP = 1"
definition ETH_ADDR_LEN :: nat where [kernel_consts]: "ETH_ADDR_LEN = 6"
definition MAX_NETDEVS :: int where [kernel_consts]: "MAX_NETDEVS = 8"

record netdev_stats =
  rx_packets :: u32
  tx_packets :: u32
  rx_bytes :: u32
  tx_bytes :: u32
  rx_errors :: u32
  tx_errors :: u32
  rx_dropped :: u32
  tx_dropped :: u32
  rx_crc_errors :: u32
  rx_fifo_errors :: u32
  tx_fifo_errors :: u32
  collisions :: u32

definition zero_stats :: netdev_stats where
  "zero_stats = \<lparr>rx_packets = 0, tx_packets = 0, rx_bytes = 0, tx_bytes = 0, rx_errors = 0, tx_errors = 0,
     rx_dropped = 0, tx_dropped = 0, rx_crc_errors = 0, rx_fifo_errors = 0, tx_fifo_errors = 0, collisions = 0\<rparr>"

text \<open>The PCI device of a network device is the index of its entry in the PCI registry.\<close>

record netdev =
  nd_name :: "u8 list"
  nd_flags :: u32
  nd_state :: u32
  nd_pci_dev :: "nat option"
  nd_iobase :: u16
  nd_irq :: u8
  nd_hwaddr :: "u8 list"
  nd_ops :: u32
  nd_driver_data :: u32
  nd_stats :: netdev_stats
  nd_netif :: u32
  nd_ip_config :: u32

text \<open>The object \<open>kzalloc\<close> delivers.\<close>

definition zero_netdev :: netdev where
  "zero_netdev = \<lparr>nd_name = replicate NETDEV_NAME_MAX 0, nd_flags = 0, nd_state = 0, nd_pci_dev = None,
     nd_iobase = 0, nd_irq = 0, nd_hwaddr = replicate ETH_ADDR_LEN 0, nd_ops = 0, nd_driver_data = 0,
     nd_stats = zero_stats, nd_netif = 0, nd_ip_config = 0\<rparr>"

subsection \<open>The state of the network stack\<close>

record arp_cache_entry =
  ac_ip :: "u8 list"
  ac_mac :: "u8 list"
  ac_valid :: int

record socket_packet =
  sp_data :: "u8 list"
  sp_len :: int
  sp_src_ip :: "u8 list"
  sp_src_port :: u16

record socket =
  so_in_use :: int
  so_type :: int
  so_bound_port :: u16
  so_recv_queue :: "socket_packet list"
  so_recv_head :: int
  so_recv_tail :: int
  so_recv_count :: int

record 'd net =
  net_heap :: heap
  net_devs :: "u32 \<rightharpoonup> netdev"
  netdevs :: "u32 list"
  netdev_count :: int
  eth_counter :: int
  net_arp_cache :: "arp_cache_entry list"
  net_arp_next :: int
  ip_id_counter :: u16
  sockets :: "socket list"
  net_drv :: 'd

text \<open>
  The operations of a driver. A null function pointer is \<^const>\<open>None\<close>; the pointer to the table
  itself is a \<open>u32\<close>, and the parameter \<open>ops\<close> of the stack gives the table it refers to.
\<close>

record 'd netdev_ops =
  ops_open :: "(u32 \<Rightarrow> 'd net \<Rightarrow> (int \<times> 'd net) option) option"
  ops_close :: "(u32 \<Rightarrow> 'd net \<Rightarrow> (int \<times> 'd net) option) option"
  ops_transmit :: "(u32 \<Rightarrow> netbuf \<Rightarrow> 'd net \<Rightarrow> (int \<times> 'd net) option) option"
  ops_set_rx_mode :: "(u32 \<Rightarrow> 'd net \<Rightarrow> (int \<times> 'd net) option) option"
  ops_get_stats :: "(u32 \<Rightarrow> 'd net \<Rightarrow> (netdev_stats \<times> 'd net) option) option"

type_synonym 'd ops_table = "u32 \<rightharpoonup> 'd netdev_ops"

definition upd_dev :: "u32 \<Rightarrow> (netdev \<Rightarrow> netdev) \<Rightarrow> 'd net \<Rightarrow> 'd net option" where
  "upd_dev dev f s = do { d \<leftarrow> net_devs s dev; Some (s\<lparr>net_devs := (net_devs s)(dev \<mapsto> f d)\<rparr>) }"

subsection \<open>The device registry\<close>

text \<open>The static counter of \<open>generate_device_name\<close> is passed and returned.\<close>

definition generate_device_name :: "u8 list \<Rightarrow> u8 list \<Rightarrow> int \<Rightarrow> (u8 list \<times> int) option" where
  "generate_device_name dest template ctr =
     do { c \<leftarrow> strncmp (Some template) (Some [101, 116, 104, 0]) 3;
          if c = 0
          then do { dest \<leftarrow> strcpy dest template;
                    n \<leftarrow> itoa ctr;
                    (dest, _) \<leftarrow> strcat dest n;
                    Some (dest, to_int (ctr + 1)) }
          else do { dest \<leftarrow> strncpy dest template (int NETDEV_NAME_MAX - 1);
                    dest \<leftarrow> wr dest (NETDEV_NAME_MAX - 1) 0;
                    Some (dest, ctr) } }"

definition netdev_create ::
    "u8 list \<Rightarrow> u32 \<Rightarrow> (nat \<times> pci_device) option \<Rightarrow> u32 \<Rightarrow> 'd net \<Rightarrow> (u32 \<times> 'd net) option" where
  "netdev_create name ops pci_dev driver_data s =
     (if netdev_count s \<ge> MAX_NETDEVS then Some (0, s)
      else case kzalloc 120 (net_heap s) of
             (None, h) \<Rightarrow> Some (0, s\<lparr>net_heap := h\<rparr>)
           | (Some (dev, _), h) \<Rightarrow>
               do { (nm, ctr) \<leftarrow> generate_device_name (nd_name zero_netdev) name (eth_counter s);
                    let d = zero_netdev\<lparr>nd_name := nm, nd_flags := 0, nd_state := NETDEV_STATE_DOWN,
                              nd_pci_dev := map_option fst pci_dev, nd_ops := ops, nd_driver_data := driver_data\<rparr>;
                    d \<leftarrow> (case pci_dev of None \<Rightarrow> Some d
                         | Some (_, p) \<Rightarrow> do { bar0 \<leftarrow> rd (pd_bar p) 0;
                             Some (d\<lparr>nd_iobase := ucast (bar0 AND 0xFFFFFFFC), nd_irq := pd_interrupt_line p\<rparr>) });
                    let d = d\<lparr>nd_stats := zero_stats\<rparr>;
                    reg \<leftarrow> wr (netdevs s) (nat (netdev_count s)) dev;
                    Some (dev, s\<lparr>net_heap := h, eth_counter := ctr, net_devs := (net_devs s)(dev \<mapsto> d),
                                 netdevs := reg, netdev_count := netdev_count s + 1\<rparr>) })"

text \<open>The entries after position \<open>j\<close> move down by one.\<close>

fun netdev_shift :: "u32 list \<Rightarrow> nat \<Rightarrow> nat \<Rightarrow> u32 list option" where
  "netdev_shift reg j 0 = Some reg"
| "netdev_shift reg j (Suc n) = do { d \<leftarrow> rd reg (j + 1); reg \<leftarrow> wr reg j d; netdev_shift reg (j + 1) n }"

fun netdev_remove :: "u32 list \<Rightarrow> int \<Rightarrow> u32 \<Rightarrow> nat \<Rightarrow> nat \<Rightarrow> (u32 list \<times> int) option" where
  "netdev_remove reg count dev i 0 = Some (reg, count)"
| "netdev_remove reg count dev i (Suc n) =
     do { d \<leftarrow> rd reg i;
          if d = dev then do { reg \<leftarrow> netdev_shift reg i n; Some (reg, count - 1) }
          else netdev_remove reg count dev (Suc i) n }"

definition netdev_destroy :: "u32 \<Rightarrow> 'd net \<Rightarrow> 'd net option" where
  "netdev_destroy dev s =
     (if dev = 0 then Some s
      else do { (reg, count) \<leftarrow> netdev_remove (netdevs s) (netdev_count s) dev 0 (nat (netdev_count s));
                Some (s\<lparr>netdevs := reg, netdev_count := count, net_heap := kfree dev (net_heap s),
                        net_devs := (net_devs s)(dev := None)\<rparr>) })"

fun netdev_by_name_loop :: "'d net \<Rightarrow> u8 list \<Rightarrow> nat \<Rightarrow> nat \<Rightarrow> u32 option" where
  "netdev_by_name_loop s name i 0 = Some 0"
| "netdev_by_name_loop s name i (Suc n) =
     do { dev \<leftarrow> rd (netdevs s) i;
          d \<leftarrow> net_devs s dev;
          c \<leftarrow> strncmp (Some (nd_name d)) (Some name) (int NETDEV_NAME_MAX);
          if c = 0 then Some dev else netdev_by_name_loop s name (Suc i) n }"

definition netdev_get_by_name :: "'d net \<Rightarrow> u8 list \<Rightarrow> u32 option" where
  "netdev_get_by_name s name = netdev_by_name_loop s name 0 (nat (netdev_count s))"

definition netdev_get_by_index :: "'d net \<Rightarrow> int \<Rightarrow> u32 option" where
  "netdev_get_by_index s index =
     (if index < 0 \<or> index \<ge> netdev_count s then Some 0 else rd (netdevs s) (nat index))"

definition netdev_get_count :: "'d net \<Rightarrow> int" where
  "netdev_get_count s = netdev_count s"

subsection \<open>Bringing devices up and down\<close>

text \<open>The number of devices is read once: a driver's \<open>open\<close> does not register devices.\<close>

fun bring_all_up_loop :: "'d ops_table \<Rightarrow> nat \<Rightarrow> nat \<Rightarrow> int \<Rightarrow> 'd net \<Rightarrow> (int \<times> 'd net) option" where
  "bring_all_up_loop ops i 0 successful s = Some (successful, s)"
| "bring_all_up_loop ops i (Suc n) successful s =
     do { dev \<leftarrow> rd (netdevs s) i;
          (successful, s) \<leftarrow>
            (if dev = 0 then Some (successful, s)
             else do { d \<leftarrow> net_devs s dev;
                       case Option.bind (ops (nd_ops d)) ops_open of
                         None \<Rightarrow> Some (successful, s)
                       | Some opn \<Rightarrow>
                           do { (result, s) \<leftarrow> opn dev s;
                                if result = 0
                                then do { s \<leftarrow> upd_dev dev (\<lambda>d. d\<lparr>nd_state := NETDEV_STATE_UP\<rparr>) s;
                                          Some (successful + 1, s) }
                                else Some (successful, s) } });
          bring_all_up_loop ops (Suc i) n successful s }"

definition netdev_bring_all_up :: "'d ops_table \<Rightarrow> 'd net \<Rightarrow> (int \<times> 'd net) option" where
  "netdev_bring_all_up ops s = bring_all_up_loop ops 0 (nat (netdev_count s)) 0 s"

definition netdev_bring_up :: "'d ops_table \<Rightarrow> u8 list \<Rightarrow> 'd net \<Rightarrow> (int \<times> 'd net) option" where
  "netdev_bring_up ops name s =
     do { dev \<leftarrow> netdev_get_by_name s name;
          if dev = 0 then Some (-1, s)
          else do { d \<leftarrow> net_devs s dev;
                    case Option.bind (ops (nd_ops d)) ops_open of
                      None \<Rightarrow> Some (-1, s)
                    | Some opn \<Rightarrow>
                        if nd_state d = NETDEV_STATE_UP then Some (0, s)
                        else do { (result, s) \<leftarrow> opn dev s;
                                  if result = 0
                                  then do { s \<leftarrow> upd_dev dev (\<lambda>d. d\<lparr>nd_state := NETDEV_STATE_UP\<rparr>) s;
                                            Some (result, s) }
                                  else Some (result, s) } } }"

definition netdev_bring_down :: "'d ops_table \<Rightarrow> u8 list \<Rightarrow> 'd net \<Rightarrow> (int \<times> 'd net) option" where
  "netdev_bring_down ops name s =
     do { dev \<leftarrow> netdev_get_by_name s name;
          if dev = 0 then Some (-1, s)
          else do { d \<leftarrow> net_devs s dev;
                    case Option.bind (ops (nd_ops d)) ops_close of
                      None \<Rightarrow> Some (-1, s)
                    | Some cls \<Rightarrow>
                        if nd_state d = NETDEV_STATE_DOWN then Some (0, s)
                        else do { (result, s) \<leftarrow> cls dev s;
                                  if result = 0
                                  then do { s \<leftarrow> upd_dev dev (\<lambda>d. d\<lparr>nd_state := NETDEV_STATE_DOWN\<rparr>) s;
                                            Some (result, s) }
                                  else Some (result, s) } } }"

subsection \<open>Computing on explicit lists\<close>

named_theorems cell_simps \<open>accesses to lists with explicit elements\<close>

lemma rd_Cons [cell_simps]:
  "rd (x # xs) 0 = Some x" "rd (x # xs) (Suc i) = rd xs i" "rd (x # xs) (numeral k) = rd xs (pred_numeral k)"
  by (simp_all add: rd_def numeral_eq_Suc)

lemma wr_Cons [cell_simps]:
  "wr (x # xs) 0 v = Some (v # xs)"
  "wr (x # xs) (Suc i) v = map_option (Cons x) (wr xs i v)"
  "wr (x # xs) (numeral k) v = map_option (Cons x) (wr xs (pred_numeral k) v)"
  by (simp_all add: wr_def numeral_eq_Suc)

lemma wr_bytes_Cons [cell_simps]:
  "wr_bytes xs 0 [] = Some xs"
  "wr_bytes (x # xs) 0 (v # vs) = map_option (Cons v) (wr_bytes xs 0 vs)"
  "wr_bytes (x # xs) (Suc i) vs = map_option (Cons x) (wr_bytes xs i vs)"
  "wr_bytes (x # xs) (numeral k) vs = map_option (Cons x) (wr_bytes xs (pred_numeral k) vs)"
  by (simp_all add: wr_bytes_def numeral_eq_Suc)

lemma wr16_bytes [cell_simps]: "wr16 xs i w = wr_bytes xs i (word_bytes w)"
  by (simp add: wr16_def)

lemma rd16_bytes [cell_simps]:
  "rd16 xs i = do { lo \<leftarrow> rd xs i; hi \<leftarrow> rd xs (Suc i); Some (bytes_word lo hi) }"
  by (simp add: rd16_def)

lemma memcpy_at_bytes [cell_simps]:
  "nat n \<le> length src \<Longrightarrow> i + nat n \<le> length dest \<Longrightarrow> memcpy_at dest i src n = wr_bytes dest i (take (nat n) src)"
  by (simp add: memcpy_at_eq wr_bytes_def min_absorb2)

lemma wr_bytes_all: "length vs = length xs \<Longrightarrow> wr_bytes xs 0 vs = Some vs"
  by (simp add: wr_bytes_def)

lemma bytes_word_word_bytes [simp]: "word_bytes w = [lo, hi] \<Longrightarrow> bytes_word lo hi = w"
  by (auto simp: word_bytes_def)

subsection \<open>Byte order is an involution\<close>

lemma mask_FF_u16: "(0xFF :: u16) = mask 8"
  by (simp add: mask_eq_exp_minus_1)

lemma mask_FF_u32: "(0xFF :: u32) = mask 8"
  by (simp add: mask_eq_exp_minus_1)

lemma bit_htons: "bit (htons w) n \<longleftrightarrow> n < 8 \<and> bit w (8 + n) \<or> 8 \<le> n \<and> n < 16 \<and> bit w (n - 8)"
  unfolding htons_def mask_FF_u16 by (auto simp: bit_simps not_le dest: bit_imp_le_length)

lemma ntohs_eq_htons: "ntohs = htons"
  by (rule ext) (simp add: ntohs_def htons_def)

lemma htons_htons [simp]: "htons (htons w) = w"
  by (rule bit_word_eqI) (auto simp: bit_htons)

lemma ntohs_htons [simp]: "ntohs (htons w) = w"
  by (simp add: ntohs_eq_htons)

lemma htons_ntohs [simp]: "htons (ntohs w) = w"
  by (simp add: ntohs_eq_htons)

text \<open>A 16-bit field in network byte order: the high byte first.\<close>

lemma word_bytes_htons: "word_bytes (htons w) = [ucast (drop_bit 8 w), ucast w]"
proof -
  have "ucast (htons w) = (ucast (drop_bit 8 w) :: u8)"
    by (rule bit_word_eqI) (auto simp: bit_htons bit_simps)
  moreover have "ucast (drop_bit 8 (htons w)) = (ucast w :: u8)"
    by (rule bit_word_eqI) (auto simp: bit_htons bit_simps)
  ultimately show ?thesis by (simp add: word_bytes_def)
qed

subsection \<open>Ownership of packet buffers\<close>

text \<open>
  The heap holds the two pages of a buffer beside the allocations \<open>L\<close>.
\<close>

definition owns :: "netbuf \<Rightarrow> (u32 \<times> nat) set \<Rightarrow> heap \<Rightarrow> bool" where
  "owns b L h \<longleftrightarrow>
     heap_ok h \<and> heap_live h = insert (nb_addr b, 4096) (insert (nb_data_addr b, 4096) L) \<and>
     nb_addr b \<noteq> nb_data_addr b \<and> nb_data_addr b \<noteq> 0 \<and> (nb_addr b, 4096) \<notin> L \<and> (nb_data_addr b, 4096) \<notin> L"

lemma unat_ucast_u16: "unat (ucast (w :: u16) :: u32) = unat w"
  using unat_less_power [of w] by (simp add: unsigned_ucast_eq take_bit_eq_mod)

lemma netbuf_alloc_ok:
  assumes "heap_ok h" "0 < unat sz" "unat sz \<le> 4096" "2 \<le> free_blocks h"
  obtains b h' where "netbuf_alloc sz h = (Some b, h')" "nb_data b = replicate (unat sz) 0" "nb_len b = 0"
    "nb_total_len b = sz" "owns b (heap_live h) h'" "free_blocks h = free_blocks h' + 2"
proof -
  obtain a h1 where a: "kzalloc 12 h = (Some (a, replicate (unat (12 :: u32)) 0), h1)" "(a, 4096) \<notin> heap_live h"
    "heap_live h1 = insert (a, 4096) (heap_live h)" "heap_ok h1" "free_blocks h = Suc (free_blocks h1)"
    by (rule kzalloc_page [of h 12]) (use assms in auto)
  obtain d h2 where d: "kzalloc (ucast sz) h1 = (Some (d, replicate (unat sz) 0), h2)" "d \<noteq> 0"
    "(d, 4096) \<notin> heap_live h1" "heap_live h2 = insert (d, 4096) (heap_live h1)" "heap_ok h2"
    "free_blocks h1 = Suc (free_blocks h2)" "\<And>q k. (q, k) \<in> heap_live h1 \<Longrightarrow> d \<noteq> q"
    by (rule kzalloc_page [of h1 "ucast sz"]) (use assms a in \<open>auto simp: unat_ucast_u16\<close>)
  have "d \<noteq> a" using d(7) [of a 4096] a(3) by simp
  with a d show thesis
    by (intro that [of "\<lparr>nb_addr = a, nb_data_addr = d, nb_data = replicate (unat sz) 0, nb_len = 0, nb_total_len = sz\<rparr>" h2])
      (auto simp: netbuf_alloc_def owns_def)
qed

lemma netbuf_free_ok:
  assumes "owns b L h"
  shows "heap_ok (netbuf_free (Some b) h)" "heap_live (netbuf_free (Some b) h) = L"
proof -
  let ?h = "kfree (nb_data_addr b) h"
  have o: "heap_ok h" "heap_live h = insert (nb_addr b, 4096) (insert (nb_data_addr b, 4096) L)"
    "nb_addr b \<noteq> nb_data_addr b" "nb_data_addr b \<noteq> 0" "(nb_addr b, 4096) \<notin> L" "(nb_data_addr b, 4096) \<notin> L"
    using assms unfolding owns_def by blast+
  have 1: "heap_ok ?h" "heap_live ?h = insert (nb_addr b, 4096) L"
    using kernel_allocator.release_ok [of h "nb_data_addr b" 4096] o by auto
  have "heap_ok (kfree (nb_addr b) ?h)" "heap_live (kfree (nb_addr b) ?h) = L"
    using kernel_allocator.release_ok [of ?h "nb_addr b" 4096] 1 o by auto
  then show "heap_ok (netbuf_free (Some b) h)" "heap_live (netbuf_free (Some b) h) = L"
    using o(4) by (simp_all add: netbuf_free_def)
qed

text \<open>Two buffers, released in either order.\<close>

lemma owns_other:
  assumes "owns c (heap_live h1) h2" "owns b L h1" "heap_ok h3" "heap_live h3 = heap_live h2"
  shows "owns b (insert (nb_addr c, 4096) (insert (nb_data_addr c, 4096) L)) h3"
  using assms kernel_allocator.live_shape unfolding owns_def by auto

lemma owns_cong:
  "owns b L h \<Longrightarrow> nb_addr c = nb_addr b \<Longrightarrow> nb_data_addr c = nb_data_addr b \<Longrightarrow> owns c L h"
  by (simp add: owns_def)

end
