(* ===== verification/Net_Checksum.thy ===== *)
theory Net_Checksum
  imports Net_Base
begin

section \<open>The Internet checksum\<close>

text \<open>
  \<open>ip_checksum\<close> of \<^verbatim>\<open>src/src/sys/net/ip.c\<close>, used for IP headers and ICMP messages. The reference is
  RFC 1071: the complement of the sum of the 16-bit words of the data with end-around carry.
\<close>

subsection \<open>The code\<close>

function cksum_sum :: "u8 list \<Rightarrow> nat \<Rightarrow> int \<Rightarrow> u32 \<Rightarrow> u32 option" where
  "cksum_sum data i len acc =
     (if len > 1 then do { w \<leftarrow> rd16 data i; cksum_sum data (i + 2) (len - 2) (acc + ucast w) }
      else if len = 1 then do { b \<leftarrow> rd data i; Some (acc + ucast b) }
      else Some acc)"
  by pat_completeness auto
termination
  by (relation "measure (\<lambda>(data, i, len, acc). nat len)") auto

declare cksum_sum.simps [simp del]

lemma unat_halves:
  "unat ((w :: u32) AND 0xFFFF) = unat w mod 65536" "unat (drop_bit 16 w) = unat w div 65536"
proof -
  have m: "(0xFFFF :: u32) = mask 16" by (simp add: mask_eq_exp_minus_1)
  show "unat (w AND 0xFFFF) = unat w mod 65536"
    unfolding m take_bit_eq_mask [symmetric] by (simp add: take_bit_eq_mod unat_mod_eq)
  show "unat (drop_bit 16 w) = unat w div 65536" by (simp add: unat_drop_bit_eq) (simp add: drop_bit_eq_div)
qed

lemma high_half_less: "drop_bit 16 (w :: u32) \<noteq> 0 \<Longrightarrow> (w AND 0xFFFF) + drop_bit 16 w < w"
proof -
  assume nz: "drop_bit 16 w \<noteq> 0"
  note lo = unat_halves(1) [of w] and hi = unat_halves(2) [of w]
  then have "0 < unat w div 65536" using nz by (metis gr0I unat_eq_0)
  moreover have "unat w = 65536 * (unat w div 65536) + unat w mod 65536" by simp
  ultimately have lt: "unat w mod 65536 + unat w div 65536 < unat w" by linarith
  then have "unat ((w AND 0xFFFF) + drop_bit 16 w) = unat w mod 65536 + unat w div 65536"
    using unat_less_power [of w] lo hi by (simp add: unat_word_ariths)
  then show ?thesis using lt by (simp add: word_less_nat_alt)
qed

function cksum_fold :: "u32 \<Rightarrow> u32" where
  "cksum_fold acc =
     (if drop_bit 16 acc \<noteq> 0 then cksum_fold ((acc AND 0xFFFF) + drop_bit 16 acc) else acc)"
  by pat_completeness auto
termination
  by (relation "measure unat") (auto simp: word_less_nat_alt [symmetric] high_half_less)

declare cksum_fold.simps [simp del]

definition ip_checksum :: "u8 list \<Rightarrow> int \<Rightarrow> u16 option" where
  "ip_checksum data len =
     do { acc \<leftarrow> cksum_sum data 0 len 0; Some (ucast (NOT (cksum_fold acc))) }"

subsection \<open>The sum of the words\<close>

text \<open>The 16-bit words of a byte sequence, an odd byte at the end padded with zero.\<close>

fun words_of :: "u8 list \<Rightarrow> u16 list" where
  "words_of [] = []"
| "words_of [b] = [bytes_word b 0]"
| "words_of (lo # hi # bs) = bytes_word lo hi # words_of bs"

definition word_sum :: "u8 list \<Rightarrow> nat" where
  "word_sum bs = sum_list (map unat (words_of bs))"

lemma length_words_of: "length (words_of bs) = (length bs + 1) div 2"
  by (induction bs rule: words_of.induct) auto

lemma word_sum_simps [simp]:
  "word_sum [] = 0" "word_sum [b] = unat b"
  "word_sum (lo # hi # bs) = unat (bytes_word lo hi) + word_sum bs"
  by (simp_all add: word_sum_def unat_bytes_word)

lemma word_sum_bound: "word_sum bs \<le> 65535 * ((length bs + 1) div 2)"
proof -
  have "sum_list (map unat ws) \<le> 65535 * length ws" for ws :: "u16 list"
  proof (induction ws)
    case (Cons w ws)
    then show ?case using unat_less_power [of w] by simp
  qed simp
  then show ?thesis by (metis word_sum_def length_words_of)
qed

lemma unat_add_u32: "unat (a :: u32) + unat b < 2 ^ 32 \<Longrightarrow> unat (a + b) = unat a + unat b"
  by (simp add: unat_word_ariths)

lemma drop_two:
  "i + 1 < length d \<Longrightarrow> 1 < n \<Longrightarrow> take n (drop i d) = d ! i # d ! (i + 1) # take (n - 2) (drop (i + 2) d)"
proof -
  assume "i + 1 < length d" "1 < n"
  then have "drop i d = d ! i # d ! (i + 1) # drop (i + 2) d"
    by (metis Cons_nth_drop_Suc Suc_eq_plus1 add_2_eq_Suc' add_lessD1)
  then show ?thesis using \<open>1 < n\<close> by (cases n; cases "n - 1") auto
qed

lemma cksum_sum_eq:
  "0 \<le> len \<Longrightarrow> i + nat len \<le> length d \<Longrightarrow> unat s + word_sum (take (nat len) (drop i d)) < 2 ^ 32 \<Longrightarrow>
   \<exists>t. cksum_sum d i len s = Some t \<and> unat t = unat s + word_sum (take (nat len) (drop i d))"
proof (induction d i len s rule: cksum_sum.induct)
  case (1 d i len s)
  consider "1 < len" | "len = 1" | "len = 0" using 1(2) by linarith
  then show ?case
  proof cases
    case 1
    let ?w = "bytes_word (d ! i) (d ! (i + 1))"
    have i: "i + 1 < length d" using \<open>1 < len\<close> "1.prems" by linarith
    then have r: "rd16 d i = Some ?w" by (rule rd16_Some)
    have split: "take (nat len) (drop i d) = d ! i # d ! (i + 1) # take (nat (len - 2)) (drop (i + 2) d)"
      using drop_two [OF i, of "nat len"] \<open>1 < len\<close> by (simp add: nat_diff_distrib)
    have u: "unat (s + ucast ?w) = unat s + unat ?w"
      using "1.prems"(3) split by (subst unat_add_u32) (simp_all add: unat_ucast_u16)
    have bounds: "0 \<le> len - 2" "i + 2 + nat (len - 2) \<le> length d" using \<open>1 < len\<close> "1.prems" by linarith+
    obtain t where "cksum_sum d (i + 2) (len - 2) (s + ucast ?w) = Some t"
      "unat t = unat (s + ucast ?w) + word_sum (take (nat (len - 2)) (drop (i + 2) d))"
      using "1.IH" [OF \<open>1 < len\<close> r bounds] "1.prems" u split by auto
    then show ?thesis using \<open>1 < len\<close> r u split by (subst cksum_sum.simps) simp
  next
    case 2
    then have i: "i < length d" using "1.prems" by simp
    then have "take 1 (drop i d) = [d ! i]" by (simp add: take_Suc_conv_app_nth)
    moreover have "unat (ucast (d ! i) :: u32) = unat (d ! i)"
      using unat_less_power [of "d ! i"] by (simp add: unsigned_ucast_eq take_bit_eq_mod)
    ultimately show ?thesis
      using 2 "1.prems"(3) i by (subst cksum_sum.simps) (simp add: rd_Some unat_add_u32)
  next
    case 3
    then show ?thesis by (subst cksum_sum.simps) simp
  qed
qed

subsection \<open>Folding the carries\<close>

text \<open>
  Folding computes the representative of the sum modulo 65535 in 1..65535, and 0 only for 0.
\<close>

definition oc_rep :: "nat \<Rightarrow> nat" where
  "oc_rep n = (if n = 0 then 0 else Suc ((n - 1) mod 65535))"

lemma oc_rep_le: "oc_rep n \<le> 65535"
  using mod_less_divisor [of 65535 "n - 1"] by (auto simp: oc_rep_def Suc_le_eq simp del: One_nat_def)

lemma oc_rep_small: "n \<le> 65535 \<Longrightarrow> oc_rep n = n"
  by (cases n) (simp_all add: oc_rep_def)

lemma oc_rep_fold: "oc_rep (n mod 65536 + n div 65536) = oc_rep n"
proof (cases "n = 0")
  case False
  define q r where "q = n div 65536" and "r = n mod 65536"
  have n: "n = 65535 * q + (r + q)" using div_mult_mod_eq [of n 65536] by (simp add: q_def r_def)
  with False have "0 < r + q" by auto
  then have "n - 1 = 65535 * q + (r + q - 1)" using n by simp
  then have "(n - 1) mod 65535 = (r + q - 1) mod 65535" by (metis mod_mult_self4)
  with False \<open>0 < r + q\<close> show ?thesis by (simp add: oc_rep_def q_def r_def)
qed (simp add: oc_rep_def)

lemma unat_cksum_fold: "unat (cksum_fold s) = oc_rep (unat s)"
proof (induction s rule: cksum_fold.induct)
  case (1 s)
  note lo = unat_halves(1) [of s] and hi = unat_halves(2) [of s]
  show ?case
  proof (cases "drop_bit 16 s = 0")
    case True
    then have "unat s div 65536 = 0" using hi by simp
    then have "unat s \<le> 65535" by simp
    then show ?thesis using True by (subst cksum_fold.simps) (simp add: oc_rep_small)
  next
    case False
    have "unat s div 65536 < 65536"
      using unat_less_power [of s] by (simp add: less_mult_imp_div_less)
    then have "unat ((s AND 0xFFFF) + drop_bit 16 s) = unat s mod 65536 + unat s div 65536"
      using lo hi by (subst unat_add_u32) (auto intro: less_trans [OF add_strict_mono [of _ 65536]])
    then show ?thesis using 1 [OF False] False by (subst cksum_fold.simps) (simp add: oc_rep_fold)
  qed
qed

lemma ucast_not_fold:
  assumes "unat w \<le> 65535"
  shows "unat (ucast (NOT w) :: u16) = 65535 - unat (w :: u32)"
proof -
  have "(ucast (NOT w) :: u16) = NOT (ucast w)" by (rule bit_word_eqI) (auto simp: bit_simps)
  moreover have "unat (ucast w :: u16) = unat w"
    using assms by (simp add: unsigned_ucast_eq take_bit_eq_mod)
  moreover have "NOT v = 65535 - v" for v :: u16 by (simp add: not_eq_complement)
  ultimately show ?thesis
    using unat_sub [of "ucast w :: u16" 65535] by (simp add: word_le_nat_alt assms)
qed

lemma ip_checksum_eq:
  assumes "0 \<le> len" "nat len \<le> length d" "len \<le> 131072"
  obtains c where "ip_checksum d len = Some c" "unat c = 65535 - oc_rep (word_sum (take (nat len) d))"
proof -
  have "word_sum (take (nat len) d) \<le> 65535 * ((nat len + 1) div 2)"
    using word_sum_bound [of "take (nat len) d"] assms(2) by (simp add: min_absorb2)
  also have "\<dots> \<le> 65535 * 65536" using assms(3) by (intro mult_le_mono2) (simp add: div_le_mono nat_le_iff)
  finally have small: "word_sum (take (nat len) d) < 2 ^ 32" by simp
  obtain t where t: "cksum_sum d 0 len 0 = Some t" "unat t = word_sum (take (nat len) d)"
    using cksum_sum_eq [of len 0 d 0] assms small by auto
  then have "unat (ucast (NOT (cksum_fold t)) :: u16) = 65535 - oc_rep (word_sum (take (nat len) d))"
    using oc_rep_le by (subst ucast_not_fold) (simp_all add: unat_cksum_fold)
  then show thesis using that t(1) by (simp add: ip_checksum_def)
qed

subsection \<open>The reference\<close>

text \<open>Addition with end-around carry, and the checksum of RFC 1071 over the words of a message.\<close>

definition oc_add :: "u16 \<Rightarrow> u16 \<Rightarrow> u16" where
  "oc_add a b = (if unat a + unat b < 65536 then a + b else a + b + 1)"

definition rfc1071 :: "u8 list \<Rightarrow> u16" where
  "rfc1071 bs = NOT (foldl oc_add 0 (words_of bs))"

lemma oc_rep_add: "oc_rep (oc_rep m + n) = oc_rep (m + n)"
proof (cases "m = 0")
  case False
  then have "oc_rep m + n = Suc ((m - 1) mod 65535 + n)" by (simp add: oc_rep_def)
  then have "oc_rep (oc_rep m + n) = Suc (((m - 1) mod 65535 + n) mod 65535)" by (simp add: oc_rep_def)
  also have "\<dots> = Suc ((m - 1 + n) mod 65535)" by (simp add: mod_add_left_eq)
  also have "m - 1 + n = m + n - 1" using False by simp
  finally show ?thesis using False by (simp add: oc_rep_def)
qed (simp add: oc_rep_def)

lemma unat_oc_add: "unat (oc_add a b) = oc_rep (unat a + unat b)"
proof (cases "unat a + unat b < 65536")
  case True
  then show ?thesis by (simp add: oc_add_def unat_word_ariths oc_rep_small)
next
  case False
  have lt: "unat a < 65536" "unat b < 65536" using unat_less_power [of a] unat_less_power [of b] by simp_all
  define k where "k = unat a + unat b - 65536"
  have k: "unat a + unat b = k + 65536" "k < 65535" using False lt by (auto simp: k_def)
  then have "unat (a + b) = k" by (simp add: unat_word_ariths)
  then have "unat (a + b + 1) = Suc k" using k(2) by (simp add: unat_word_ariths)
  moreover have "oc_rep (k + 65536) = Suc k"
    using k(2) mod_add_self2 [of k 65535] by (simp add: oc_rep_def)
  ultimately show ?thesis using False k(1) by (simp add: oc_add_def)
qed

lemma unat_foldl_oc_add: "unat (foldl oc_add a ws) = oc_rep (unat a + sum_list (map unat ws))"
proof (induction ws arbitrary: a)
  case Nil
  then show ?case using unat_less_power [of a] by (simp add: oc_rep_small)
next
  case (Cons w ws)
  then show ?case by (simp add: unat_oc_add oc_rep_add add.assoc)
qed

lemma unat_not_u16: "unat (NOT (w :: u16)) = 65535 - unat w"
proof -
  have "NOT w = 65535 - w" by (simp add: not_eq_complement)
  moreover have "w \<le> 65535" using unat_less_power [of w] by (simp add: word_le_nat_alt)
  ultimately show ?thesis by (simp add: unat_sub)
qed

lemma ip_checksum_rfc:
  assumes "0 \<le> len" "nat len \<le> length d" "len \<le> 131072"
  shows "ip_checksum d len = Some (rfc1071 (take (nat len) d))"
proof -
  obtain c where c: "ip_checksum d len = Some c" "unat c = 65535 - oc_rep (word_sum (take (nat len) d))"
    by (rule ip_checksum_eq [OF assms])
  then have "unat c = unat (rfc1071 (take (nat len) d))"
    by (simp add: rfc1071_def unat_not_u16 unat_foldl_oc_add word_sum_def)
  then show ?thesis using c(1) word_eq_unatI by simp
qed

lemma rfc1071_eq: "unat (rfc1071 bs) = 65535 - oc_rep (word_sum bs)"
  by (simp add: rfc1071_def unat_not_u16 unat_foldl_oc_add word_sum_def)

subsection \<open>Storing and verifying the checksum\<close>

lemma word_sum_append: "even (length xs) \<Longrightarrow> word_sum (xs @ ys) = word_sum xs + word_sum ys"
  by (induction xs rule: words_of.induct) auto

lemma wr16_eq:
  "wr16 xs k w = Some ys \<longleftrightarrow> k + 2 \<le> length xs \<and> ys = take k xs @ word_bytes w @ drop (k + 2) xs"
  by (auto simp: wr16_def wr_bytes_def)

lemma word_sum_field:
  "even (length xs) \<Longrightarrow> word_sum (xs @ word_bytes w @ ys) = word_sum xs + unat w + word_sum ys"
  by (simp add: word_sum_append word_bytes_def)

text \<open>Zero verification means that the sum of the words is a positive multiple of 65535.\<close>

lemma rfc1071_zero_iff: "rfc1071 bs = 0 \<longleftrightarrow> 0 < word_sum bs \<and> word_sum bs mod 65535 = 0"
proof -
  have "rfc1071 bs = 0 \<longleftrightarrow> oc_rep (word_sum bs) = 65535"
    using rfc1071_eq [of bs] oc_rep_le [of "word_sum bs"] by (metis diff_self_eq_0 diff_is_0_eq le_antisym unat_0 word_eq_unatI)
  also have "\<dots> \<longleftrightarrow> 0 < word_sum bs \<and> word_sum bs mod 65535 = 0"
  proof (cases "word_sum bs")
    case (Suc n)
    have "n mod 65535 = 65534 \<longleftrightarrow> Suc n mod 65535 = 0" by (simp add: mod_Suc)
    then show ?thesis using Suc by (simp add: oc_rep_def)
  qed (simp add: oc_rep_def)
  finally show ?thesis .
qed

lemma rfc1071_verifies:
  assumes "even (length xs)"
  shows "rfc1071 (xs @ word_bytes (rfc1071 (xs @ word_bytes 0 @ ys)) @ ys) = 0"
proof -
  define n where "n = word_sum xs + word_sum ys"
  define c where "c = rfc1071 (xs @ word_bytes 0 @ ys)"
  have c: "unat c = 65535 - oc_rep n"
    by (simp add: c_def rfc1071_eq word_sum_field [OF assms] n_def)
  have s: "word_sum (xs @ word_bytes c @ ys) = n + unat c" by (simp add: word_sum_field [OF assms] n_def)
  have "0 < n + unat c \<and> (n + unat c) mod 65535 = 0"
  proof (cases n)
    case 0
    then show ?thesis using c by (simp add: oc_rep_def)
  next
    case (Suc m)
    define q r where "q = m div 65535" and "r = m mod 65535"
    then have qr: "m = 65535 * q + r" "r \<le> 65534" using mod_less_divisor [of 65535 m] by simp_all
    have "unat c = 65534 - r" using c Suc by (simp add: oc_rep_def r_def)
    then have "n + unat c = 65535 * q + 65535" using Suc qr by simp
    then show ?thesis by (simp add: mod_mult_self4)
  qed
  then show ?thesis using s by (simp add: rfc1071_zero_iff c_def)
qed

lemma mod_shift: "(a + m + b) mod p = (a + n + b) mod (p :: nat) \<Longrightarrow> m mod p = n mod p"
  by (auto simp: nat_mod_eq_iff)

lemma word_cong:
  assumes "unat (w :: u16) mod 65535 = unat v mod 65535" "w \<noteq> v"
  shows "{w, v} = {0, 0xFFFF}"
proof -
  have m: "n mod 65535 = (if n = 65535 then 0 else n)" if "n < 65536" for n :: nat
    using that by (auto simp: mod_less)
  have "unat w \<noteq> unat v" using assms(2) word_eq_unatI by blast
  then have "unat w = 65535 \<and> unat v = 0 \<or> unat w = 0 \<and> unat v = 65535"
    using assms(1) m [of "unat w"] m [of "unat v"] unat_less_power [of w] unat_less_power [of v]
    by (auto split: if_splits)
  then have "w = 0xFFFF \<and> v = 0 \<or> w = 0 \<and> v = 0xFFFF"
    by (auto intro!: word_eq_unatI)
  then show ?thesis by auto
qed

subsection \<open>Properties of the checksum\<close>

text \<open>
  (C32) On every message of up to 128 KiB \<open>ip_checksum\<close>, which adds into 32 bits and folds the carries at
  the end, computes the checksum of RFC 1071.
\<close>

theorem ip_checksum_is_rfc1071:
  assumes "0 \<le> len" "len \<le> int (length d)" "len \<le> 131072"
  shows "ip_checksum d len = Some (NOT (foldl oc_add 0 (words_of (take (nat len) d))))"
  using ip_checksum_rfc [of len d] assms by (simp add: rfc1071_def nat_le_iff)

theorem ip_checksum_is_rfc1071_witness:
  "ip_checksum [0x45, 0, 0, 0x54, 0xff] 5 = Some (NOT (foldl oc_add 0 (words_of [0x45, 0, 0, 0x54, 0xff])))"
  using ip_checksum_is_rfc1071 [of 5 "[0x45, 0, 0, 0x54, 0xff]"] by simp

text \<open>
  (C33) A message whose checksum field, at an even offset, was cleared, then filled with what \<open>ip_checksum\<close>
  returned, verifies: \<open>ip_checksum\<close> over it is 0.
\<close>

theorem ip_checksum_verifies:
  assumes "even k" "k + 2 \<le> nat len" "len \<le> int (length d)" "len \<le> 131072"
    and "wr16 d k 0 = Some d0" "ip_checksum d0 len = Some c" "wr16 d0 k c = Some d1"
  shows "ip_checksum d1 len = Some 0"
proof -
  have k: "k + 2 \<le> length d" using assms(2,3) by linarith
  then have d0: "d0 = take k d @ word_bytes 0 @ drop (k + 2) d" using assms(5) by (simp add: wr16_eq)
  with k assms(7) have d1: "d1 = take k d @ word_bytes c @ drop (k + 2) d"
    by (simp add: wr16_eq min_absorb2)
  let ?ys = "take (nat len - (k + 2)) (drop (k + 2) d)"
  have t: "take (nat len) (take k d @ word_bytes w @ drop (k + 2) d) = take k d @ word_bytes w @ ?ys" for w
    using k assms(2) by (simp add: min_absorb2)
  have l: "0 \<le> len" "nat len \<le> length d0" "nat len \<le> length d1"
    using k assms(2,3) by (auto simp: d0 d1 nat_le_iff min_absorb2)
  have "c = rfc1071 (take k d @ word_bytes 0 @ ?ys)"
    using ip_checksum_rfc [OF l(1,2) assms(4)] assms(6) d0 t by simp
  moreover have "even (length (take k d))" using k assms(1) by (simp add: min_absorb2)
  ultimately show ?thesis
    using ip_checksum_rfc [OF l(1,3) assms(4)] d1 t rfc1071_verifies by simp
qed

theorem ip_checksum_verifies_witness:
  "ip_checksum [0x45, 0, 0xba, 0xff] 4 = Some 0"
proof (rule ip_checksum_verifies [of 2 4 "[0x45, 0, 7, 7]"])
  have "cksum_fold 0x45 = 0x45" by (simp add: cksum_fold.simps)
  then show "ip_checksum [0x45, 0, 0, 0] 4 = Some 0xffba"
    by (simp add: ip_checksum_def cksum_sum.simps rd16_def rd_def bytes_word_def)
qed (simp_all add: wr16_def wr_bytes_def word_bytes_def drop_bit_eq_div)

text \<open>
  (C34) Verification detects every change of a single aligned 16-bit word, except between the two
  representations 0 and 0xFFFF of zero.
\<close>

theorem ip_checksum_detects:
  assumes "even k" "k + 2 \<le> nat len" "len \<le> int (length d)" "len \<le> 131072" "ip_checksum d len = Some 0"
    and "rd16 d k = Some w" "w \<noteq> v" "{w, v} \<noteq> {0, 0xFFFF}" "wr16 d k v = Some d'"
  shows "ip_checksum d' len \<noteq> Some 0"
proof
  assume bad: "ip_checksum d' len = Some 0"
  have k: "k + 2 \<le> length d" using assms(2,3) by linarith
  let ?xs = "take k d" and ?ys = "take (nat len - (k + 2)) (drop (k + 2) d)"
  have d: "d = ?xs @ word_bytes w @ drop (k + 2) d"
    using rd16_Some [of k d] assms(6) k by (simp add: Cons_nth_drop_Suc)
  have d': "d' = ?xs @ word_bytes v @ drop (k + 2) d" using assms(9) by (simp add: wr16_eq)
  have t: "take (nat len) (?xs @ word_bytes u @ drop (k + 2) d) = ?xs @ word_bytes u @ ?ys" for u
    using k assms(2) by (simp add: min_absorb2)
  have l: "0 \<le> len" "nat len \<le> length d" "nat len \<le> length d'"
    using k assms(2,3) by (auto simp: d' nat_le_iff min_absorb2)
  have "take (nat len) d = ?xs @ word_bytes w @ ?ys" "take (nat len) d' = ?xs @ word_bytes v @ ?ys"
    using arg_cong [OF d, of "take (nat len)"] arg_cong [OF d', of "take (nat len)"] unfolding t .
  then have "rfc1071 (?xs @ word_bytes w @ ?ys) = 0" "rfc1071 (?xs @ word_bytes v @ ?ys) = 0"
    using ip_checksum_rfc [OF l(1,2) assms(4)] ip_checksum_rfc [OF l(1,3) assms(4)] assms(5) bad by simp_all
  then have "(word_sum ?xs + unat w + word_sum ?ys) mod 65535 = (word_sum ?xs + unat v + word_sum ?ys) mod 65535"
    using k assms(1) by (simp add: rfc1071_zero_iff word_sum_field min_absorb2)
  then have "unat w mod 65535 = unat v mod 65535" by (rule mod_shift)
  then show False using assms(7,8) by (auto dest: word_cong)
qed

theorem ip_checksum_detects_witness: "ip_checksum [0x45, 1, 0xba, 0xff] 4 \<noteq> Some 0"
proof (rule ip_checksum_detects [where k = 0 and d = "[0x45, 0, 0xba, 0xff]" and w = "0x45" and v = "0x145"])
  have "cksum_fold 0xffff = 0xffff" by (simp add: cksum_fold.simps)
  then show "ip_checksum [0x45, 0, 0xba, 0xff] 4 = Some 0"
    by (simp add: ip_checksum_def cksum_sum.simps rd16_def rd_def bytes_word_def)
qed (simp_all add: rd16_def rd_def bytes_word_def wr16_def wr_bytes_def word_bytes_def drop_bit_eq_div doubleton_eq_iff)

end
