(* ===== verification/Net_Socket.thy ===== *)
theory Net_Socket
  imports Net_Base Bounded_Fifo
begin

section \<open>UDP sockets\<close>

text \<open>
  The socket table of \<^verbatim>\<open>src/src/sys/net/socket.c\<close>: creation, binding, delivery of received
  datagrams, reception and closing. \<open>socket_sendto\<close>, which goes down the stack, is in the theory of
  the stack. A descriptor is a C \<open>int\<close>; the functions return the table they leave behind.
\<close>

definition MAX_SOCKETS :: nat where [kernel_consts]: "MAX_SOCKETS = 16"
definition SOCKET_RECV_QUEUE_SIZE :: int where [kernel_consts]: "SOCKET_RECV_QUEUE_SIZE = 8"
definition SOCKET_MAX_PACKET_SIZE :: int where [kernel_consts]: "SOCKET_MAX_PACKET_SIZE = 1500"
definition SOCK_DGRAM :: int where [kernel_consts]: "SOCK_DGRAM = 2"

definition zero_packet :: socket_packet where
  "zero_packet = \<lparr>sp_data = replicate 1500 0, sp_len = 0, sp_src_ip = replicate 4 0, sp_src_port = 0\<rparr>"

definition zero_socket :: socket where
  "zero_socket = \<lparr>so_in_use = 0, so_type = 0, so_bound_port = 0, so_recv_queue = replicate 8 zero_packet,
     so_recv_head = 0, so_recv_tail = 0, so_recv_count = 0\<rparr>"

subsection \<open>Operations\<close>

fun socket_create_loop :: "int \<Rightarrow> socket list \<Rightarrow> nat \<Rightarrow> nat \<Rightarrow> (int \<times> socket list) option" where
  "socket_create_loop ty ss i 0 = Some (-1, ss)"
| "socket_create_loop ty ss i (Suc n) =
     do { s \<leftarrow> rd ss i;
          if so_in_use s = 0 then Some (int i, ss[i := zero_socket\<lparr>so_in_use := 1, so_type := ty\<rparr>])
          else socket_create_loop ty ss (Suc i) n }"

definition socket_create :: "int \<Rightarrow> socket list \<Rightarrow> (int \<times> socket list) option" where
  "socket_create ty ss =
     (if ty \<noteq> SOCK_DGRAM then Some (-1, ss) else socket_create_loop ty ss 0 MAX_SOCKETS)"

text \<open>The socket of a descriptor, or nothing when the descriptor is invalid.\<close>

definition socket_get :: "int \<Rightarrow> socket list \<Rightarrow> socket option option" where
  "socket_get sockfd ss =
     (if sockfd < 0 \<or> sockfd \<ge> int MAX_SOCKETS then Some None
      else do { s \<leftarrow> rd ss (nat sockfd); Some (if so_in_use s = 0 then None else Some s) })"

fun socket_port_taken :: "u16 \<Rightarrow> socket list \<Rightarrow> nat \<Rightarrow> nat \<Rightarrow> bool option" where
  "socket_port_taken port ss i 0 = Some False"
| "socket_port_taken port ss i (Suc n) =
     do { s \<leftarrow> rd ss i;
          if so_in_use s \<noteq> 0 \<and> so_bound_port s = port then Some True
          else socket_port_taken port ss (Suc i) n }"

definition socket_bind :: "int \<Rightarrow> u16 \<Rightarrow> socket list \<Rightarrow> (int \<times> socket list) option" where
  "socket_bind sockfd port ss =
     do { g \<leftarrow> socket_get sockfd ss;
          case g of None \<Rightarrow> Some (-1, ss)
          | Some s \<Rightarrow>
              if so_bound_port s \<noteq> 0 then Some (-1, ss)
              else do { taken \<leftarrow> socket_port_taken port ss 0 MAX_SOCKETS;
                        if taken then Some (-1, ss)
                        else Some (0, ss[nat sockfd := s\<lparr>so_bound_port := port\<rparr>]) } }"

text \<open>
  A datagram enters the ring of a socket. \<open>data\<close> holds at least \<open>len\<close> bytes; what exceeds the slot is
  cut off.
\<close>

definition socket_enqueue :: "u8 list \<Rightarrow> int \<Rightarrow> u8 list \<Rightarrow> u16 \<Rightarrow> socket \<Rightarrow> socket option" where
  "socket_enqueue data len src_ip src_port s =
     do { pkt \<leftarrow> rdi (so_recv_queue s) (so_recv_head s);
          let copy_len = (if len > SOCKET_MAX_PACKET_SIZE then SOCKET_MAX_PACKET_SIZE else len);
          d \<leftarrow> memcpy (sp_data pkt) data copy_len;
          ip \<leftarrow> memcpy (sp_src_ip pkt) src_ip 4;
          q \<leftarrow> wri (so_recv_queue s) (so_recv_head s)
                 \<lparr>sp_data = d, sp_len = copy_len, sp_src_ip = ip, sp_src_port = src_port\<rparr>;
          Some (s\<lparr>so_recv_queue := q, so_recv_head := (so_recv_head s + 1) smod SOCKET_RECV_QUEUE_SIZE,
                  so_recv_count := so_recv_count s + 1\<rparr>) }"

fun socket_deliver_loop ::
    "u16 \<Rightarrow> u8 list \<Rightarrow> int \<Rightarrow> u8 list \<Rightarrow> u16 \<Rightarrow> socket list \<Rightarrow> nat \<Rightarrow> nat \<Rightarrow> (int \<times> socket list) option" where
  "socket_deliver_loop port data len src_ip src_port ss i 0 = Some (-1, ss)"
| "socket_deliver_loop port data len src_ip src_port ss i (Suc n) =
     do { s \<leftarrow> rd ss i;
          if so_in_use s \<noteq> 0 \<and> so_bound_port s = port
          then if so_recv_count s \<ge> SOCKET_RECV_QUEUE_SIZE then Some (-1, ss)
               else do { s \<leftarrow> socket_enqueue data len src_ip src_port s; Some (0, ss[i := s]) }
          else socket_deliver_loop port data len src_ip src_port ss (Suc i) n }"

definition socket_deliver_udp ::
    "u16 \<Rightarrow> u8 list \<Rightarrow> int \<Rightarrow> u8 list \<Rightarrow> u16 \<Rightarrow> socket list \<Rightarrow> (int \<times> socket list) option" where
  "socket_deliver_udp port data len src_ip src_port ss =
     socket_deliver_loop port data len src_ip src_port ss 0 MAX_SOCKETS"

text \<open>The oldest packet of a ring and the ring without it.\<close>

definition socket_dequeue :: "socket \<Rightarrow> (socket_packet \<times> socket) option" where
  "socket_dequeue s =
     do { pkt \<leftarrow> rdi (so_recv_queue s) (so_recv_tail s);
          Some (pkt, s\<lparr>so_recv_tail := (so_recv_tail s + 1) smod SOCKET_RECV_QUEUE_SIZE,
                       so_recv_count := so_recv_count s - 1\<rparr>) }"

text \<open>
  The output arguments of \<open>socket_recvfrom\<close> are optional pointers: the caller's buffer, the place for
  the sender's address and the place for the sender's port.
\<close>

definition socket_recvfrom ::
    "int \<Rightarrow> u8 list option \<Rightarrow> int \<Rightarrow> u8 list option \<Rightarrow> u16 option \<Rightarrow> socket list \<Rightarrow>
     (int \<times> u8 list option \<times> u8 list option \<times> u16 option \<times> socket list) option" where
  "socket_recvfrom sockfd buf max_len src_ip_out src_port_out ss =
     do { g \<leftarrow> socket_get sockfd ss;
          case (g, buf) of
            (Some s, Some b) \<Rightarrow>
              if max_len \<le> 0 then Some (-1, buf, src_ip_out, src_port_out, ss)
              else if so_recv_count s = 0 then Some (0, buf, src_ip_out, src_port_out, ss)
              else do { (pkt, s) \<leftarrow> socket_dequeue s;
                        let copy_len = (if sp_len pkt > max_len then max_len else sp_len pkt);
                        b \<leftarrow> memcpy b (sp_data pkt) copy_len;
                        ip \<leftarrow> (case src_ip_out of None \<Rightarrow> Some None
                              | Some p \<Rightarrow> map_option Some (memcpy p (sp_src_ip pkt) 4));
                        Some (copy_len, Some b, ip, map_option (\<lambda>_. sp_src_port pkt) src_port_out,
                              ss[nat sockfd := s]) }
          | _ \<Rightarrow> Some (-1, buf, src_ip_out, src_port_out, ss) }"

definition socket_close :: "int \<Rightarrow> socket list \<Rightarrow> (int \<times> socket list) option" where
  "socket_close sockfd ss =
     do { g \<leftarrow> socket_get sockfd ss;
          case g of None \<Rightarrow> Some (-1, ss) | Some s \<Rightarrow> Some (0, ss[nat sockfd := zero_socket]) }"

subsection \<open>The receive queue is a bounded queue\<close>

text \<open>A datagram as the owner of the socket sees it: payload, sender address, sender port.\<close>

type_synonym datagram = "u8 list \<times> u8 list \<times> u16"

definition datagram_of :: "socket_packet \<Rightarrow> datagram" where
  "datagram_of p = (take (nat (sp_len p)) (sp_data p), sp_src_ip p, sp_src_port p)"

definition packet_ok :: "socket_packet \<Rightarrow> bool" where
  "packet_ok p \<longleftrightarrow> length (sp_data p) = 1500 \<and> 0 \<le> sp_len p \<and> sp_len p \<le> 1500 \<and> length (sp_src_ip p) = 4"

definition socket_ok :: "socket \<Rightarrow> bool" where
  "socket_ok s \<longleftrightarrow>
     length (so_recv_queue s) = 8 \<and> (\<forall>p \<in> set (so_recv_queue s). packet_ok p) \<and>
     0 \<le> so_recv_tail s \<and> so_recv_tail s < 8 \<and> 0 \<le> so_recv_count s \<and> so_recv_count s \<le> 8 \<and>
     so_recv_head s = (so_recv_tail s + so_recv_count s) mod 8"

definition received :: "socket \<Rightarrow> datagram list" where
  "received s =
     map (\<lambda>k. datagram_of (so_recv_queue s ! ((nat (so_recv_tail s) + k) mod 8))) [0 ..< nat (so_recv_count s)]"

definition datagram_ok :: "datagram \<Rightarrow> bool" where
  "datagram_ok = (\<lambda>(d, ip, port). length d \<le> 1500 \<and> length ip = 4)"

definition put_datagram :: "datagram \<Rightarrow> socket \<Rightarrow> socket option" where
  "put_datagram = (\<lambda>(d, ip, port) s. socket_enqueue d (int (length d)) ip port s)"

definition get_datagram :: "socket \<Rightarrow> (datagram \<times> socket) option" where
  "get_datagram s = map_option (\<lambda>(p, s). (datagram_of p, s)) (socket_dequeue s)"

lemma ring_distinct:
  assumes "k < c" "c < 8"
  shows "(t + k) mod 8 \<noteq> (t + c) mod (8 :: nat)"
proof
  assume "(t + k) mod 8 = (t + c) mod 8"
  then have "8 dvd c - k" using mod_eq_dvd_iff_nat [of "t + k" "t + c" 8] assms by simp
  then show False using assms by (auto dest: dvd_imp_le)
qed

lemma socket_okD:
  assumes "socket_ok s"
  obtains t c where "so_recv_tail s = int t" "so_recv_count s = int c" "t < 8" "c \<le> 8"
    "so_recv_head s = int ((t + c) mod 8)" "length (so_recv_queue s) = 8"
    "\<And>i. i < 8 \<Longrightarrow> packet_ok (so_recv_queue s ! i)"
proof -
  have "so_recv_head s = int ((nat (so_recv_tail s) + nat (so_recv_count s)) mod 8)"
    using assms by (simp add: socket_ok_def zmod_int)
  then show thesis using assms that [of "nat (so_recv_tail s)" "nat (so_recv_count s)"] by (auto simp: socket_ok_def)
qed

lemma received_eq:
  "so_recv_tail s = int t \<Longrightarrow> so_recv_count s = int c \<Longrightarrow>
   received s = map (\<lambda>k. datagram_of (so_recv_queue s ! ((t + k) mod 8))) [0 ..< c]"
  by (simp add: received_def)

lemma length_received: "socket_ok s \<Longrightarrow> int (length (received s)) = so_recv_count s"
  by (simp add: received_def socket_ok_def)

lemma smod_8: "0 \<le> x \<Longrightarrow> x smod 8 = x mod (8 :: int)"
  by (simp add: signed_modulo_int_def sgn_if)

lemma socket_enqueue_ok:
  assumes ok: "socket_ok s" and room: "so_recv_count s < 8"
    and args: "0 \<le> len" "nat len \<le> length data" "4 \<le> length src_ip"
  shows "\<exists>q h. socket_enqueue data len src_ip src_port s =
      Some (s\<lparr>so_recv_queue := q, so_recv_head := h, so_recv_count := so_recv_count s + 1\<rparr>) \<and>
    socket_ok (s\<lparr>so_recv_queue := q, so_recv_head := h, so_recv_count := so_recv_count s + 1\<rparr>) \<and>
    received (s\<lparr>so_recv_queue := q, so_recv_head := h, so_recv_count := so_recv_count s + 1\<rparr>) =
      received s @ [(take (min (nat len) 1500) data, take 4 src_ip, src_port)]"
proof -
  obtain t c where tc: "so_recv_tail s = int t" "so_recv_count s = int c" "t < 8" "c \<le> 8"
    "so_recv_head s = int ((t + c) mod 8)" "length (so_recv_queue s) = 8"
    "\<And>i. i < 8 \<Longrightarrow> packet_ok (so_recv_queue s ! i)"
    using socket_okD [OF ok] by metis
  let ?h = "(t + c) mod 8"
  let ?p = "so_recv_queue s ! ?h"
  define n where "n = (if len > 1500 then 1500 else len)"
  have copy_len: "(if len > SOCKET_MAX_PACKET_SIZE then SOCKET_MAX_PACKET_SIZE else len) = n"
    by (simp add: n_def SOCKET_MAX_PACKET_SIZE_def)
  have n: "0 \<le> n" "n \<le> 1500" "nat n \<le> length data" "nat n = min (nat len) 1500"
    using args by (auto simp: n_def)
  have p: "length (sp_data ?p) = 1500" "length (sp_src_ip ?p) = 4"
    using tc(7) [of ?h] by (simp_all add: packet_ok_def)
  let ?new = "\<lparr>sp_data = take (nat n) data @ drop (nat n) (sp_data ?p), sp_len = n,
                sp_src_ip = take 4 src_ip, sp_src_port = src_port\<rparr>"
  let ?q = "(so_recv_queue s)[?h := ?new]"
  let ?h' = "(int ?h + 1) mod 8"
  let ?s = "s\<lparr>so_recv_queue := ?q, so_recv_head := ?h', so_recv_count := so_recv_count s + 1\<rparr>"
  have "rdi (so_recv_queue s) (so_recv_head s) = Some ?p" using tc(5,6) by (simp add: rdi_def rd_def)
  then have run: "socket_enqueue data len src_ip src_port s = Some ?s"
    using tc n p args(3) unfolding socket_enqueue_def Let_def copy_len
    by (simp add: SOCKET_RECV_QUEUE_SIZE_def memcpy_eq wri_def wr_def smod_8)
  have new: "packet_ok ?new" using n p args by (simp add: packet_ok_def)
  have "?h' = (int t + (int c + 1)) mod 8" by (simp add: zmod_int mod_simps add.assoc)
  moreover have "\<forall>p \<in> set ?q. packet_ok p" using ok new by (auto simp: socket_ok_def dest!: set_update_subset_insert [THEN subsetD])
  ultimately have ok': "socket_ok ?s" using ok room tc by (simp add: socket_ok_def)
  have "?q ! ((t + k) mod 8) = so_recv_queue s ! ((t + k) mod 8)" if "k < c" for k
    using ring_distinct [of k c t] that room tc(2) by simp
  moreover have "received ?s = map (\<lambda>k. datagram_of (?q ! ((t + k) mod 8))) [0 ..< Suc c]"
    using received_eq [of ?s t "Suc c"] tc(1,2) by simp
  ultimately have "received ?s = received s @ [datagram_of ?new]"
    using tc(6) by (simp add: received_eq [OF tc(1,2)])
  moreover have "datagram_of ?new = (take (min (nat len) 1500) data, take 4 src_ip, src_port)"
    using n by (simp add: datagram_of_def)
  ultimately show ?thesis using run ok' by auto
qed

lemma socket_dequeue_ok:
  assumes ok: "socket_ok s" and r: "received s = x # xs"
  shows "\<exists>p t. socket_dequeue s = Some (p, s\<lparr>so_recv_tail := t, so_recv_count := so_recv_count s - 1\<rparr>) \<and>
    packet_ok p \<and> datagram_of p = x \<and>
    socket_ok (s\<lparr>so_recv_tail := t, so_recv_count := so_recv_count s - 1\<rparr>) \<and>
    received (s\<lparr>so_recv_tail := t, so_recv_count := so_recv_count s - 1\<rparr>) = xs"
proof -
  obtain t c where tc: "so_recv_tail s = int t" "so_recv_count s = int c" "t < 8" "c \<le> 8"
    "so_recv_head s = int ((t + c) mod 8)" "length (so_recv_queue s) = 8"
    "\<And>i. i < 8 \<Longrightarrow> packet_ok (so_recv_queue s ! i)"
    using socket_okD [OF ok] by metis
  have "0 < length (received s)" using r by simp
  then have "c \<noteq> 0" using received_eq [OF tc(1,2)] by simp
  then obtain d where d: "c = Suc d" by (cases c) auto
  let ?t = "(int t + 1) mod 8"
  let ?s = "s\<lparr>so_recv_tail := ?t, so_recv_count := so_recv_count s - 1\<rparr>"
  have run: "socket_dequeue s = Some (so_recv_queue s ! t, ?s)"
    using tc by (simp add: socket_dequeue_def rdi_def rd_def SOCKET_RECV_QUEUE_SIZE_def smod_8)
  have t: "?t = int ((t + 1) mod 8)" by (simp add: zmod_int add.commute)
  have "((t + 1) mod 8 + k) mod 8 = (t + Suc k) mod 8" for k by (simp add: mod_simps)
  then have "received ?s = map (\<lambda>k. datagram_of (so_recv_queue s ! ((t + Suc k) mod 8))) [0 ..< d]"
    using received_eq [of ?s "(t + 1) mod 8" d] tc(2) d t by simp
  moreover have "received s = datagram_of (so_recv_queue s ! t) #
      map (\<lambda>k. datagram_of (so_recv_queue s ! ((t + Suc k) mod 8))) [0 ..< d]"
    using received_eq [OF tc(1,2)] tc(3) d by (simp only: d map_upt_Suc) simp
  ultimately have "datagram_of (so_recv_queue s ! t) = x" "received ?s = xs" using r by auto
  moreover have "socket_ok ?s"
    using ok tc d t by (simp add: socket_ok_def zmod_int mod_simps add.assoc add.left_commute)
  ultimately show ?thesis using run tc(3,7) by blast
qed

interpretation socket_fifo: bounded_fifo put_datagram get_datagram received socket_ok datagram_ok 8
proof
  fix s and x :: datagram
  assume s: "socket_ok s" "datagram_ok x" "length (received s) < 8"
  obtain d ip port where x: "x = (d, ip, port)" by (cases x)
  show "\<exists>q'. put_datagram x s = Some q' \<and> socket_ok q' \<and> received q' = received s @ [x]"
    using socket_enqueue_ok [OF s(1), of "int (length d)" d ip port] s length_received [OF s(1)]
    by (auto simp: x datagram_ok_def put_datagram_def)
next
  fix s x xs
  assume "socket_ok s" "received s = x # xs"
  then show "\<exists>q'. get_datagram s = Some (x, q') \<and> socket_ok q' \<and> received q' = xs"
    using socket_dequeue_ok by (fastforce simp: get_datagram_def)
next
  fix s
  assume "socket_ok s"
  then show "length (received s) \<le> 8" using length_received [of s] by (simp add: socket_ok_def)
qed

subsection \<open>The socket table\<close>

text \<open>
  The table has its 16 entries, every receive queue is in order, and no two sockets in use are bound
  to the same port (port 0 means unbound).
\<close>

definition table_ok :: "socket list \<Rightarrow> bool" where
  "table_ok ss \<longleftrightarrow>
     length ss = 16 \<and> (\<forall>s \<in> set ss. socket_ok s) \<and>
     (\<forall>i < 16. \<forall>j < 16. so_in_use (ss ! i) \<noteq> 0 \<longrightarrow> so_in_use (ss ! j) \<noteq> 0 \<longrightarrow>
        so_bound_port (ss ! i) \<noteq> 0 \<longrightarrow> so_bound_port (ss ! i) = so_bound_port (ss ! j) \<longrightarrow> i = j)"

lemma table_okD:
  assumes "table_ok ss"
  shows "length ss = 16" "\<And>i. i < 16 \<Longrightarrow> socket_ok (ss ! i)"
    "\<And>i j. i < 16 \<Longrightarrow> j < 16 \<Longrightarrow> so_in_use (ss ! i) \<noteq> 0 \<Longrightarrow> so_in_use (ss ! j) \<noteq> 0 \<Longrightarrow>
       so_bound_port (ss ! i) \<noteq> 0 \<Longrightarrow> so_bound_port (ss ! i) = so_bound_port (ss ! j) \<Longrightarrow> i = j"
  using assms unfolding table_ok_def by (blast, metis nth_mem, blast)

text \<open>Replacing one socket keeps the table in order when its binding is still unique.\<close>

lemma table_ok_update:
  assumes "table_ok ss" "i < 16" "socket_ok s"
    and port: "so_in_use s \<noteq> 0 \<Longrightarrow> so_bound_port s \<noteq> 0 \<Longrightarrow>
      (so_in_use (ss ! i) \<noteq> 0 \<and> so_bound_port s = so_bound_port (ss ! i)) \<or>
      (\<forall>j < 16. so_in_use (ss ! j) \<noteq> 0 \<longrightarrow> so_bound_port (ss ! j) \<noteq> so_bound_port s)"
  shows "table_ok (ss[i := s])"
proof -
  note t = table_okD [OF assms(1)]
  have uniq: "so_bound_port (ss ! j) \<noteq> so_bound_port s"
    if "so_in_use s \<noteq> 0" "so_bound_port s \<noteq> 0" "j < 16" "j \<noteq> i" "so_in_use (ss ! j) \<noteq> 0" for j
    using port [OF that(1,2)] t(3) [OF assms(2) that(3)] that(2-5) by metis
  have "j = k" if jk: "j < 16" "k < 16" and used: "so_in_use (ss[i := s] ! j) \<noteq> 0" "so_in_use (ss[i := s] ! k) \<noteq> 0"
    and same: "so_bound_port (ss[i := s] ! j) \<noteq> 0" "so_bound_port (ss[i := s] ! j) = so_bound_port (ss[i := s] ! k)" for j k
  proof -
    have n: "ss[i := s] ! m = (if m = i then s else ss ! m)" for m using t(1) assms(2) by (simp add: nth_list_update_if)
    consider "j = i" "k = i" | "j = i" "k \<noteq> i" | "j \<noteq> i" "k = i" | "j \<noteq> i" "k \<noteq> i" by blast
    then show "j = k"
    proof cases
      case 2
      then show ?thesis using uniq [of k] jk used same n by simp
    next
      case 3
      then show ?thesis using uniq [of j] jk used same n by simp
    next
      case 4
      then show ?thesis using t(3) [OF jk] used same n by simp
    qed simp
  qed
  moreover have "\<forall>x \<in> set (ss[i := s]). socket_ok x"
    using assms(1,3) by (auto simp: table_ok_def dest!: set_update_subset_insert [THEN subsetD])
  ultimately show ?thesis
    unfolding table_ok_def using t(1) by (intro conjI allI impI) simp_all
qed

lemma zero_socket_ok: "socket_ok (zero_socket\<lparr>so_in_use := u, so_type := ty\<rparr>)" "socket_ok zero_socket"
  by (simp_all add: socket_ok_def zero_socket_def zero_packet_def packet_ok_def)

lemma received_fresh: "received (zero_socket\<lparr>so_in_use := u, so_type := ty\<rparr>) = []"
  by (simp add: received_def zero_socket_def)

lemma ex_from_Suc: "(\<exists>j \<ge> i. j < Suc (i + n) \<and> P j) \<longleftrightarrow> P i \<or> (\<exists>j \<ge> Suc i. j < Suc (i + n) \<and> P j)"
  by (metis Suc_leD Suc_leI le_add1 le_imp_less_Suc le_neq_implies_less le_refl)

lemma socket_create_loop_cases:
  "i + n \<le> length ss \<Longrightarrow>
   (\<exists>j. i \<le> j \<and> j < i + n \<and> so_in_use (ss ! j) = 0 \<and>
      socket_create_loop ty ss i n = Some (int j, ss[j := zero_socket\<lparr>so_in_use := 1, so_type := ty\<rparr>])) \<or>
   (\<forall>j. i \<le> j \<and> j < i + n \<longrightarrow> so_in_use (ss ! j) \<noteq> 0) \<and> socket_create_loop ty ss i n = Some (-1, ss)"
proof (induction n arbitrary: i)
  case (Suc n)
  show ?case
  proof (cases "so_in_use (ss ! i) = 0")
    case True
    then show ?thesis using Suc.prems by (intro disjI1 exI [of _ i]) (simp add: rd_def)
  next
    case False
    moreover have "\<forall>j. i \<le> j \<and> j < i + Suc n \<longrightarrow> j = i \<or> Suc i \<le> j \<and> j < Suc i + n" by auto
    ultimately show ?thesis using Suc.IH [of "Suc i"] Suc.prems by (auto simp: rd_def)
  qed
qed simp

lemma socket_port_taken_eq:
  "i + n \<le> length ss \<Longrightarrow> socket_port_taken port ss i n =
     Some (\<exists>j. i \<le> j \<and> j < i + n \<and> so_in_use (ss ! j) \<noteq> 0 \<and> so_bound_port (ss ! j) = port)"
proof (induction n arbitrary: i)
  case (Suc n)
  show ?case using Suc.IH [of "Suc i"] Suc.prems by (simp add: rd_def ex_from_Suc)
qed simp

lemma socket_get_eq:
  "length ss = 16 \<Longrightarrow> socket_get fd ss =
     Some (if 0 \<le> fd \<and> fd < 16 \<and> so_in_use (ss ! nat fd) \<noteq> 0 then Some (ss ! nat fd) else None)"
  by (auto simp: socket_get_def MAX_SOCKETS_def rd_def)

text \<open>Delivery goes to the first socket bound to the port.\<close>

lemma socket_deliver_loop_found:
  assumes "j < length ss" "so_in_use (ss ! j) \<noteq> 0" "so_bound_port (ss ! j) = port"
    and "\<And>k. i \<le> k \<Longrightarrow> k < j \<Longrightarrow> \<not> (so_in_use (ss ! k) \<noteq> 0 \<and> so_bound_port (ss ! k) = port)"
  shows "i \<le> j \<Longrightarrow> j < i + n \<Longrightarrow> socket_deliver_loop port data len ip sp ss i n =
    (if so_recv_count (ss ! j) \<ge> 8 then Some (-1, ss)
     else do { s \<leftarrow> socket_enqueue data len ip sp (ss ! j); Some (0, ss[j := s]) })"
  using assms
proof (induction n arbitrary: i)
  case (Suc n)
  show ?case
  proof (cases "i = j")
    case True
    then show ?thesis using Suc.prems by (simp add: rd_def SOCKET_RECV_QUEUE_SIZE_def)
  next
    case False
    then have "\<not> (so_in_use (ss ! i) \<noteq> 0 \<and> so_bound_port (ss ! i) = port)" using Suc.prems by simp
    then have "socket_deliver_loop port data len ip sp ss i (Suc n) = socket_deliver_loop port data len ip sp ss (Suc i) n"
      using Suc.prems by (auto simp: rd_def)
    then show ?thesis using Suc.IH [of "Suc i"] False Suc.prems by simp
  qed
qed simp

lemma socket_deliver_loop_none:
  "i + n \<le> length ss \<Longrightarrow>
   (\<And>k. i \<le> k \<Longrightarrow> k < i + n \<Longrightarrow> \<not> (so_in_use (ss ! k) \<noteq> 0 \<and> so_bound_port (ss ! k) = port)) \<Longrightarrow>
   socket_deliver_loop port data len ip sp ss i n = Some (-1, ss)"
proof (induction n arbitrary: i)
  case (Suc n)
  then have "\<not> (so_in_use (ss ! i) \<noteq> 0 \<and> so_bound_port (ss ! i) = port)" by simp
  then have "socket_deliver_loop port data len ip sp ss i (Suc n) = socket_deliver_loop port data len ip sp ss (Suc i) n"
    using Suc.prems(1) by (auto simp: rd_def)
  then show ?case using Suc.IH [of "Suc i"] Suc.prems by simp
qed simp

subsection \<open>What each operation does to the table\<close>

lemma socket_create_ok:
  assumes "table_ok ss"
  shows "\<exists>r ss'. socket_create ty ss = Some (r, ss') \<and> table_ok ss'"
proof -
  note t = table_okD [OF assms]
  have "table_ok (ss[j := zero_socket\<lparr>so_in_use := 1, so_type := ty\<rparr>])" if "j < 16" for j
    using assms that zero_socket_ok(1) by (rule table_ok_update) (simp add: zero_socket_def)
  then show ?thesis
    using socket_create_loop_cases [of 0 MAX_SOCKETS ss ty] t(1) assms
    by (auto simp: socket_create_def MAX_SOCKETS_def)
qed

lemma socket_bind_cases:
  assumes "table_ok ss"
  shows "socket_bind fd port ss = Some (-1, ss) \<or>
    (0 \<le> fd \<and> fd < 16 \<and> so_in_use (ss ! nat fd) \<noteq> 0 \<and> so_bound_port (ss ! nat fd) = 0 \<and>
     (\<forall>j < 16. so_in_use (ss ! j) \<noteq> 0 \<longrightarrow> so_bound_port (ss ! j) \<noteq> port) \<and>
     socket_bind fd port ss = Some (0, ss[nat fd := (ss ! nat fd)\<lparr>so_bound_port := port\<rparr>]))"
  using table_okD(1) [OF assms] socket_port_taken_eq [of 0 16 ss port]
  by (auto simp: socket_bind_def socket_get_eq MAX_SOCKETS_def)

lemma socket_ok_port: "socket_ok (s\<lparr>so_bound_port := p\<rparr>) = socket_ok s"
  by (simp add: socket_ok_def)

lemma socket_bind_ok:
  assumes "table_ok ss"
  shows "\<exists>r ss'. socket_bind fd port ss = Some (r, ss') \<and> table_ok ss'"
  using socket_bind_cases [OF assms, of fd port]
proof (elim disjE conjE)
  assume b: "0 \<le> fd" "fd < 16" "\<forall>j < 16. so_in_use (ss ! j) \<noteq> 0 \<longrightarrow> so_bound_port (ss ! j) \<noteq> port"
  then have "table_ok (ss[nat fd := (ss ! nat fd)\<lparr>so_bound_port := port\<rparr>])"
    using assms table_okD(2) [OF assms, of "nat fd"] by (intro table_ok_update) (simp_all add: socket_ok_port)
  moreover assume "socket_bind fd port ss = Some (0, ss[nat fd := (ss ! nat fd)\<lparr>so_bound_port := port\<rparr>])"
  ultimately show ?thesis by blast
qed (use assms in blast)

lemma socket_close_ok:
  assumes "table_ok ss"
  shows "\<exists>r ss'. socket_close fd ss = Some (r, ss') \<and> table_ok ss'"
proof -
  have "table_ok (ss[j := zero_socket])" if "j < 16" for j
    using assms that zero_socket_ok(2) by (rule table_ok_update) (simp add: zero_socket_def)
  then show ?thesis
    using table_okD(1) [OF assms] assms by (auto simp: socket_close_def socket_get_eq)
qed

text \<open>The first socket bound to a port, if there is one.\<close>

lemma first_bound:
  assumes "\<exists>j < n. P (j :: nat)"
  obtains j where "j < n" "P j" "\<And>k. k < j \<Longrightarrow> \<not> P k"
  using assms exists_least_iff [of "\<lambda>j. j < n \<and> P j"] by (metis less_trans)

lemma socket_deliver_ok:
  assumes t: "table_ok ss" and args: "0 \<le> len" "nat len \<le> length data" "4 \<le> length ip"
  shows "\<exists>r ss'. socket_deliver_udp port data len ip sp ss = Some (r, ss') \<and> table_ok ss'"
proof (cases "\<exists>j < 16. so_in_use (ss ! j) \<noteq> 0 \<and> so_bound_port (ss ! j) = port")
  case True
  then obtain j where j: "j < 16" "so_in_use (ss ! j) \<noteq> 0 \<and> so_bound_port (ss ! j) = port"
    "\<And>k. k < j \<Longrightarrow> \<not> (so_in_use (ss ! k) \<noteq> 0 \<and> so_bound_port (ss ! k) = port)"
    by (rule first_bound) blast
  have run: "socket_deliver_udp port data len ip sp ss =
    (if so_recv_count (ss ! j) \<ge> 8 then Some (-1, ss)
     else do { s \<leftarrow> socket_enqueue data len ip sp (ss ! j); Some (0, ss[j := s]) })"
    using socket_deliver_loop_found [of j ss port 0 16] j table_okD(1) [OF t]
    by (simp add: socket_deliver_udp_def MAX_SOCKETS_def)
  show ?thesis
  proof (cases "so_recv_count (ss ! j) \<ge> 8")
    case False
    then obtain q h where q: "socket_enqueue data len ip sp (ss ! j) =
        Some ((ss ! j)\<lparr>so_recv_queue := q, so_recv_head := h, so_recv_count := so_recv_count (ss ! j) + 1\<rparr>)"
      "socket_ok ((ss ! j)\<lparr>so_recv_queue := q, so_recv_head := h, so_recv_count := so_recv_count (ss ! j) + 1\<rparr>)"
      using socket_enqueue_ok [OF table_okD(2) [OF t j(1)] _ args, of sp] by auto
    then have "table_ok (ss[j := (ss ! j)\<lparr>so_recv_queue := q, so_recv_head := h, so_recv_count := so_recv_count (ss ! j) + 1\<rparr>])"
      using t j by (intro table_ok_update) simp_all
    then show ?thesis using run q(1) False by simp
  qed (use run t in simp)
next
  case False
  then show ?thesis
    using socket_deliver_loop_none [of 0 16 ss port] table_okD(1) [OF t] t
    by (simp add: socket_deliver_udp_def MAX_SOCKETS_def)
qed

text \<open>
  Reception, on a valid descriptor with a datagram waiting: the oldest one, cut off at the size of the
  caller's buffer.
\<close>

lemma socket_recvfrom_waiting:
  assumes t: "table_ok ss" and fd: "0 \<le> fd" "fd < 16" "so_in_use (ss ! nat fd) \<noteq> 0"
    and r: "received (ss ! nat fd) = (d, ip, port) # rest" and m: "0 < m" "nat m \<le> length b" "4 \<le> length ib"
  shows "\<exists>ss'. socket_recvfrom fd (Some b) m (Some ib) (Some pb) ss =
      Some (min m (int (length d)), Some (take (nat m) d @ drop (min (nat m) (length d)) b), Some (ip @ drop 4 ib), Some port, ss') \<and>
    table_ok ss' \<and> received (ss' ! nat fd) = rest \<and> (\<forall>j. j \<noteq> nat fd \<longrightarrow> ss' ! j = ss ! j) \<and>
    so_in_use (ss' ! nat fd) = so_in_use (ss ! nat fd) \<and> so_bound_port (ss' ! nat fd) = so_bound_port (ss ! nat fd)"
proof -
  let ?s = "ss ! nat fd"
  have n: "nat fd < 16" "length ss = 16" using fd table_okD(1) [OF t] by auto
  note ok = table_okD(2) [OF t n(1)]
  obtain p tl where p: "socket_dequeue ?s = Some (p, ?s\<lparr>so_recv_tail := tl, so_recv_count := so_recv_count ?s - 1\<rparr>)"
    "packet_ok p" "datagram_of p = (d, ip, port)"
    "socket_ok (?s\<lparr>so_recv_tail := tl, so_recv_count := so_recv_count ?s - 1\<rparr>)"
    "received (?s\<lparr>so_recv_tail := tl, so_recv_count := so_recv_count ?s - 1\<rparr>) = rest"
    using socket_dequeue_ok [OF ok r] by blast
  define k where "k = (if sp_len p > m then m else sp_len p)"
  have dg: "take (nat (sp_len p)) (sp_data p) = d" "sp_src_ip p = ip" "sp_src_port p = port"
    using p(3) by (simp_all add: datagram_of_def)
  have len: "length d = nat (sp_len p)" "0 \<le> sp_len p" "length (sp_data p) = 1500" "sp_len p \<le> 1500" "length ip = 4"
    using p(2) dg by (auto simp: packet_ok_def)
  have k: "k = min m (int (length d))" "take (nat k) (sp_data p) = take (nat m) d" "nat k = min (nat m) (length d)"
    using len m(1) dg(1) by (auto simp: k_def min_def)
  have kb: "nat k \<le> length b" "nat k \<le> 1500" using m(2) len(4) by (auto simp: k_def)
  have "memcpy b (sp_data p) k = Some (take (nat m) d @ drop (nat k) b)"
    using memcpy_eq [of k b "sp_data p"] kb k(2) len(3) by simp
  moreover have "memcpy ib (sp_src_ip p) 4 = Some (ip @ drop 4 ib)"
    using m(3) len(5) dg(2) by (simp add: memcpy_eq)
  moreover have "so_recv_count ?s \<noteq> 0" using length_received [OF ok] r by auto
  ultimately have run: "socket_recvfrom fd (Some b) m (Some ib) (Some pb) ss =
      Some (k, Some (take (nat m) d @ drop (nat k) b), Some (ip @ drop 4 ib), Some port,
            ss[nat fd := ?s\<lparr>so_recv_tail := tl, so_recv_count := so_recv_count ?s - 1\<rparr>])"
    using fd n m(1) p(1) dg(3) by (simp add: socket_recvfrom_def socket_get_eq k_def [symmetric] Let_def)
  have "table_ok (ss[nat fd := ?s\<lparr>so_recv_tail := tl, so_recv_count := so_recv_count ?s - 1\<rparr>])"
    using t n(1) p(4) fd(3) by (intro table_ok_update) simp_all
  then show ?thesis
    using run k(1,3) p(5) n
    by (intro exI [of _ "ss[nat fd := ?s\<lparr>so_recv_tail := tl, so_recv_count := so_recv_count ?s - 1\<rparr>]"]
        conjI allI impI) simp_all
qed

text \<open>
  No call of this file faults on a table with the invariant: receiving with any of the output pointers null,
  and into buffers as long as the caller says.
\<close>

lemma socket_recvfrom_total:
  assumes t: "table_ok ss" and b: "\<And>x. b = Some x \<Longrightarrow> nat m \<le> length x" "\<And>x. ib = Some x \<Longrightarrow> 4 \<le> length x"
  shows "socket_recvfrom fd b m ib pb ss \<noteq> None"
proof (cases "0 \<le> fd \<and> fd < 16 \<and> so_in_use (ss ! nat fd) \<noteq> 0 \<and> 0 < m \<and> so_recv_count (ss ! nat fd) \<noteq> 0 \<and> b \<noteq> None")
  case True
  then obtain x where x: "b = Some x" "nat m \<le> length x" using b(1) by auto
  define s where "s = ss ! nat fd"
  define p where "p = so_recv_queue s ! nat (so_recv_tail s)"
  have "nat fd < 16" using True by (simp add: nat_less_iff)
  then have so: "socket_ok s" unfolding s_def by (rule table_okD(2) [OF t])
  then have tail: "nat (so_recv_tail s) < 8" "length (so_recv_queue s) = 8" "0 \<le> so_recv_tail s" by (auto simp: socket_ok_def)
  then have p: "packet_ok p" using so by (simp add: socket_ok_def p_def)
  have deq: "\<exists>s'. socket_dequeue s = Some (p, s')"
    using tail by (simp add: socket_dequeue_def rdi_def rd_def p_def)
  define n where "n = (if sp_len p > m then m else sp_len p)"
  have "nat n \<le> length x" "nat n \<le> length (sp_data p)" using x(2) p by (auto simp: n_def packet_ok_def)
  then have "memcpy x (sp_data p) n \<noteq> None" by (simp add: memcpy_eq)
  moreover have "memcpy y (sp_src_ip p) 4 \<noteq> None" if "ib = Some y" for y
    using b(2) [OF that] p by (simp add: memcpy_eq packet_ok_def)
  moreover have "socket_get fd ss = Some (Some s)" using True table_okD(1) [OF t] by (simp add: socket_get_eq s_def)
  ultimately show ?thesis
    using True x(1) deq by (cases ib) (auto simp: socket_recvfrom_def s_def n_def Let_def)
next
  case False
  then show ?thesis using table_okD(1) [OF t] by (auto simp: socket_recvfrom_def socket_get_eq split: option.splits)
qed

subsection \<open>Properties of the sockets\<close>

text \<open>The operations of the socket layer as steps on the table, in any order.\<close>

inductive socket_step :: "socket list \<Rightarrow> socket list \<Rightarrow> bool" where
  step_create: "socket_create ty ss = Some (r, ss') \<Longrightarrow> socket_step ss ss'"
| step_bind: "socket_bind fd port ss = Some (r, ss') \<Longrightarrow> socket_step ss ss'"
| step_deliver: "0 \<le> len \<Longrightarrow> nat len \<le> length data \<Longrightarrow> 4 \<le> length ip \<Longrightarrow>
    socket_deliver_udp port data len ip sp ss = Some (r, ss') \<Longrightarrow> socket_step ss ss'"
| step_recv: "socket_recvfrom fd buf m ib pb ss = Some (r, out, ip, port, ss') \<Longrightarrow> socket_step ss ss'"
| step_close: "socket_close fd ss = Some (r, ss') \<Longrightarrow> socket_step ss ss'"

inductive_cases socket_stepE: "socket_step ss ss'"

lemma received_nonempty:
  assumes "socket_ok s" "so_recv_count s \<noteq> 0"
  obtains d ip port rest where "received s = (d, ip, port) # rest"
proof -
  have "received s \<noteq> []" using length_received [OF assms(1)] assms(2) by auto
  then obtain x rest where "received s = x # rest" by (cases "received s") auto
  then show thesis using that by (cases x) auto
qed

lemma socket_recvfrom_table:
  assumes t: "table_ok ss" and run: "socket_recvfrom fd buf m ib pb ss = Some (r, out, ip, port, ss')"
  shows "table_ok ss'"
proof (cases "0 \<le> fd \<and> fd < 16 \<and> so_in_use (ss ! nat fd) \<noteq> 0 \<and> buf \<noteq> None \<and> 0 < m \<and> so_recv_count (ss ! nat fd) \<noteq> 0")
  case True
  let ?s = "ss ! nat fd"
  have n: "nat fd < 16" "length ss = 16" using True table_okD(1) [OF t] by auto
  obtain d i q rest where "received ?s = (d, i, q) # rest"
    using received_nonempty table_okD(2) [OF t n(1)] True by metis
  then obtain p tl where p: "socket_dequeue ?s = Some (p, ?s\<lparr>so_recv_tail := tl, so_recv_count := so_recv_count ?s - 1\<rparr>)"
    "socket_ok (?s\<lparr>so_recv_tail := tl, so_recv_count := so_recv_count ?s - 1\<rparr>)"
    using socket_dequeue_ok [OF table_okD(2) [OF t n(1)]] by metis
  then have "ss' = ss[nat fd := ?s\<lparr>so_recv_tail := tl, so_recv_count := so_recv_count ?s - 1\<rparr>]"
    using run True n
    by (auto simp: socket_recvfrom_def socket_get_eq Let_def split: option.splits bind_splits if_splits)
  moreover have "table_ok (ss[nat fd := ?s\<lparr>so_recv_tail := tl, so_recv_count := so_recv_count ?s - 1\<rparr>])"
    using t n(1) p(2) True by (intro table_ok_update) simp_all
  ultimately show ?thesis by simp
next
  case False
  then have "ss' = ss"
    using run table_okD(1) [OF t]
    by (auto simp: socket_recvfrom_def socket_get_eq Let_def split: option.splits bind_splits if_splits)
  then show ?thesis using t by simp
qed

lemma socket_step_table: "socket_step ss ss' \<Longrightarrow> table_ok ss \<Longrightarrow> table_ok ss'"
proof (induction rule: socket_step.induct)
  case (step_create ty ss r ss')
  show ?case using socket_create_ok [OF step_create(2), of ty] step_create(1) by simp
next
  case (step_bind fd port ss r ss')
  show ?case using socket_bind_ok [OF step_bind(2), of fd port] step_bind(1) by simp
next
  case (step_deliver len data ip port sp ss r ss')
  show ?case
    using socket_deliver_ok [OF step_deliver(5,1,2,3), of port sp] step_deliver(4) by simp
next
  case (step_recv fd buf m ib pb ss r out ip port ss')
  show ?case using socket_recvfrom_table [OF step_recv(2,1)] .
next
  case (step_close fd ss r ss')
  show ?case using socket_close_ok [OF step_close(2), of fd] step_close(1) by simp
qed

lemma table_ok_start: "table_ok (replicate 16 zero_socket)"
  by (auto simp: table_ok_def zero_socket_ok) (simp add: zero_socket_def)

lemma socket_reach_table: "socket_step\<^sup>*\<^sup>* (replicate 16 zero_socket) ss \<Longrightarrow> table_ok ss"
  by (induction rule: rtranclp_induct) (auto simp: table_ok_start intro: socket_step_table)

lemma socket_deliver_bound:
  assumes t: "table_ok ss" and i: "i < 16" "so_in_use (ss ! i) \<noteq> 0" "so_bound_port (ss ! i) = port" "port \<noteq> 0"
    and args: "0 \<le> len" "nat len \<le> length data" "4 \<le> length ip"
  shows "length (received (ss ! i)) < 8 \<Longrightarrow>
      \<exists>ss'. socket_deliver_udp port data len ip sp ss = Some (0, ss') \<and> table_ok ss' \<and>
        received (ss' ! i) = received (ss ! i) @ [(take (min (nat len) 1500) data, take 4 ip, sp)] \<and>
        so_in_use (ss' ! i) = so_in_use (ss ! i) \<and> so_bound_port (ss' ! i) = port \<and>
        (\<forall>j. j \<noteq> i \<longrightarrow> ss' ! j = ss ! j)"
    and "length (received (ss ! i)) = 8 \<Longrightarrow> socket_deliver_udp port data len ip sp ss = Some (-1, ss)"
proof -
  let ?s = "ss ! i"
  have len: "length ss = 16" by (rule table_okD(1) [OF t])
  have only: "\<not> (so_in_use (ss ! k) \<noteq> 0 \<and> so_bound_port (ss ! k) = port)" if "k < i" for k
    using table_okD(3) [OF t i(1), of k] i that by auto
  have run: "socket_deliver_udp port data len ip sp ss =
    (if so_recv_count ?s \<ge> 8 then Some (-1, ss)
     else do { s \<leftarrow> socket_enqueue data len ip sp ?s; Some (0, ss[i := s]) })"
    using socket_deliver_loop_found [of i ss port 0 16] i len only by (simp add: socket_deliver_udp_def MAX_SOCKETS_def)
  note cnt = length_received [OF table_okD(2) [OF t i(1)]]
  show "socket_deliver_udp port data len ip sp ss = Some (-1, ss)" if "length (received ?s) = 8"
    using run cnt that by simp
  assume room: "length (received ?s) < 8"
  then obtain q h where q: "socket_enqueue data len ip sp ?s =
        Some (?s\<lparr>so_recv_queue := q, so_recv_head := h, so_recv_count := so_recv_count ?s + 1\<rparr>)"
      "socket_ok (?s\<lparr>so_recv_queue := q, so_recv_head := h, so_recv_count := so_recv_count ?s + 1\<rparr>)"
      "received (?s\<lparr>so_recv_queue := q, so_recv_head := h, so_recv_count := so_recv_count ?s + 1\<rparr>) =
        received ?s @ [(take (min (nat len) 1500) data, take 4 ip, sp)]"
    using socket_enqueue_ok [OF table_okD(2) [OF t i(1)] _ args, of sp] cnt by auto
  let ?ss = "ss[i := ?s\<lparr>so_recv_queue := q, so_recv_head := h, so_recv_count := so_recv_count ?s + 1\<rparr>]"
  have "table_ok ?ss" using t i(1,2) q(2) by (intro table_ok_update) simp_all
  then show "\<exists>ss'. socket_deliver_udp port data len ip sp ss = Some (0, ss') \<and> table_ok ss' \<and>
        received (ss' ! i) = received ?s @ [(take (min (nat len) 1500) data, take 4 ip, sp)] \<and>
        so_in_use (ss' ! i) = so_in_use ?s \<and> so_bound_port (ss' ! i) = port \<and> (\<forall>j. j \<noteq> i \<longrightarrow> ss' ! j = ss ! j)"
    using run q(1,3) room cnt i len by (intro exI [of _ ?ss]) simp
qed

text \<open>
  A sender's and a receiver's whole traffic: the datagrams of a list delivered one after the other,
  and \<open>n\<close> receptions into a buffer of 1500 bytes.
\<close>

fun deliver_all :: "u16 \<Rightarrow> datagram list \<Rightarrow> socket list \<Rightarrow> socket list option" where
  "deliver_all port [] ss = Some ss"
| "deliver_all port ((d, ip, sp) # ds) ss =
     do { (_, ss) \<leftarrow> socket_deliver_udp port d (int (length d)) ip sp ss; deliver_all port ds ss }"

fun recv_all :: "int \<Rightarrow> nat \<Rightarrow> socket list \<Rightarrow> (datagram list \<times> socket list) option" where
  "recv_all fd 0 ss = Some ([], ss)"
| "recv_all fd (Suc n) ss =
     do { (r, buf, ip, sp, ss) \<leftarrow>
            socket_recvfrom fd (Some (replicate 1500 0)) 1500 (Some (replicate 4 0)) (Some 0) ss;
          (ds, ss) \<leftarrow> recv_all fd n ss;
          Some ((take (nat r) (the buf), the ip, the sp) # ds, ss) }"

lemma deliver_all_ok:
  "table_ok ss \<Longrightarrow> i < 16 \<Longrightarrow> so_in_use (ss ! i) \<noteq> 0 \<Longrightarrow> so_bound_port (ss ! i) = port \<Longrightarrow> port \<noteq> 0 \<Longrightarrow>
   \<forall>d \<in> set ds. datagram_ok d \<Longrightarrow> length (received (ss ! i)) + length ds \<le> 8 \<Longrightarrow>
   \<exists>ss'. deliver_all port ds ss = Some ss' \<and> table_ok ss' \<and> received (ss' ! i) = received (ss ! i) @ ds \<and>
     so_in_use (ss' ! i) \<noteq> 0"
proof (induction port ds ss rule: deliver_all.induct)
  case (2 port d ip sp ds ss)
  have d: "length d \<le> 1500" "length ip = 4" using "2.prems"(6) by (auto simp: datagram_ok_def)
  obtain ss1 where s1: "socket_deliver_udp port d (int (length d)) ip sp ss = Some (0, ss1)" "table_ok ss1"
    "received (ss1 ! i) = received (ss ! i) @ [(d, ip, sp)]" "so_in_use (ss1 ! i) \<noteq> 0" "so_bound_port (ss1 ! i) = port"
    using socket_deliver_bound(1) [OF "2.prems"(1-5), of "int (length d)" d ip sp] "2.prems" d by auto
  then obtain ss' where "deliver_all port ds ss1 = Some ss'" "table_ok ss'"
    "received (ss' ! i) = received (ss1 ! i) @ ds" "so_in_use (ss' ! i) \<noteq> 0"
    using "2.IH" [OF s1(1), of 0 ss1] "2.prems" by auto
  then show ?case using s1 by simp
qed simp

lemma recv_all_ok:
  "table_ok ss \<Longrightarrow> i < 16 \<Longrightarrow> so_in_use (ss ! i) \<noteq> 0 \<Longrightarrow> received (ss ! i) = ds \<Longrightarrow>
   \<forall>d \<in> set ds. datagram_ok d \<Longrightarrow>
   \<exists>ss'. recv_all (int i) (length ds) ss = Some (ds, ss') \<and> table_ok ss' \<and> received (ss' ! i) = []"
proof (induction ds arbitrary: ss)
  case (Cons x ds)
  obtain d ip sp where x: "x = (d, ip, sp)" by (cases x)
  have d: "length d \<le> 1500" "length ip = 4" using Cons.prems(5) x by (auto simp: datagram_ok_def)
  obtain ss1 where s1: "socket_recvfrom (int i) (Some (replicate 1500 0)) 1500 (Some (replicate 4 0)) (Some 0) ss =
      Some (int (length d), Some (d @ replicate (1500 - length d) 0), Some ip, Some sp, ss1)"
    "table_ok ss1" "received (ss1 ! i) = ds" "so_in_use (ss1 ! i) \<noteq> 0"
    using socket_recvfrom_waiting [of ss "int i" d ip sp ds 1500 "replicate 1500 0" "replicate 4 0" 0] Cons.prems x d
    by (auto simp: min_def)
  then obtain ss' where "recv_all (int i) (length ds) ss1 = Some (ds, ss')" "table_ok ss'" "received (ss' ! i) = []"
    using Cons.IH [of ss1] Cons.prems by auto
  then show ?case using s1 x by simp
qed simp

text \<open>A table whose first socket is bound to the echo port, for the concrete instances.\<close>

definition echo_table :: "socket list" where
  "echo_table = zero_socket\<lparr>so_in_use := 1, so_type := 2, so_bound_port := 7\<rparr> # replicate 15 zero_socket"

lemma echo_table_steps:
  "socket_step (replicate 16 zero_socket) (zero_socket\<lparr>so_in_use := 1, so_type := 2\<rparr> # replicate 15 zero_socket)"
  "socket_step (zero_socket\<lparr>so_in_use := 1, so_type := 2\<rparr> # replicate 15 zero_socket) echo_table"
proof -
  have "socket_create 2 (replicate 16 zero_socket) =
      Some (0, zero_socket\<lparr>so_in_use := 1, so_type := 2\<rparr> # replicate 15 zero_socket)"
    by (simp add: socket_create_def SOCK_DGRAM_def MAX_SOCKETS_def numeral_eq_Suc rd_def) (simp add: zero_socket_def)
  then show "socket_step (replicate 16 zero_socket) (zero_socket\<lparr>so_in_use := 1, so_type := 2\<rparr> # replicate 15 zero_socket)"
    by (rule step_create)
  let ?ss = "zero_socket\<lparr>so_in_use := 1, so_type := 2\<rparr> # replicate 15 zero_socket"
  have "socket_port_taken 7 ?ss 0 16 = Some False"
    by (simp add: socket_port_taken_eq nth_Cons) (simp add: zero_socket_def split: nat.splits)
  then have "socket_bind 0 7 ?ss = Some (0, echo_table)"
    by (simp add: socket_bind_def socket_get_eq MAX_SOCKETS_def echo_table_def) (simp add: zero_socket_def)
  then show "socket_step ?ss echo_table" by (rule step_bind)
qed

lemma echo_table_reach: "socket_step\<^sup>*\<^sup>* (replicate 16 zero_socket) echo_table"
  using echo_table_steps by (meson r_into_rtranclp rtranclp.rtrancl_into_rtrancl)

lemma echo_table_first:
  "so_in_use (echo_table ! 0) = 1" "so_bound_port (echo_table ! 0) = 7" "received (echo_table ! 0) = []"
  by (simp_all add: echo_table_def received_def zero_socket_def)

text \<open>
  (C26) Whatever sequence of socket calls runs after boot, the table keeps its invariant: it has 16 entries; every
  receive queue has 8 slots, from 0 to 8 packets in it, its tail at one of the slots and its head as many slots
  further round as there are packets; every slot holds a 1500 byte buffer, a length from 0 to 1500 and a 4 byte
  address; and no two sockets in use are bound to the same port.
\<close>

theorem socket_table_invariant:
  assumes "socket_step\<^sup>*\<^sup>* (replicate 16 zero_socket) ss"
  shows "length ss = 16 \<and>
    (\<forall>i < 16. length (so_recv_queue (ss ! i)) = 8 \<and> 0 \<le> so_recv_count (ss ! i) \<and> so_recv_count (ss ! i) \<le> 8 \<and>
       0 \<le> so_recv_tail (ss ! i) \<and> so_recv_tail (ss ! i) < 8 \<and>
       so_recv_head (ss ! i) = (so_recv_tail (ss ! i) + so_recv_count (ss ! i)) mod 8 \<and>
       (\<forall>p \<in> set (so_recv_queue (ss ! i)).
          length (sp_data p) = 1500 \<and> 0 \<le> sp_len p \<and> sp_len p \<le> 1500 \<and> length (sp_src_ip p) = 4)) \<and>
    (\<forall>i < 16. \<forall>j < 16. so_in_use (ss ! i) \<noteq> 0 \<and> so_in_use (ss ! j) \<noteq> 0 \<and> so_bound_port (ss ! i) \<noteq> 0 \<and>
       so_bound_port (ss ! i) = so_bound_port (ss ! j) \<longrightarrow> i = j)"
proof -
  note t = socket_reach_table [OF assms]
  have "socket_ok (ss ! i)" if "i < 16" for i using table_okD(2) [OF t that] .
  then show ?thesis
    using table_okD(1,3) [OF t] unfolding socket_ok_def packet_ok_def by (intro conjI) blast+
qed

theorem socket_table_invariant_witness:
  "length echo_table = 16 \<and> so_recv_count (echo_table ! 0) \<le> 8 \<and>
   so_recv_head (echo_table ! 0) = (so_recv_tail (echo_table ! 0) + so_recv_count (echo_table ! 0)) mod 8"
  using socket_table_invariant [OF echo_table_reach] by simp

text \<open>
  (C30) The receive ring of a bound socket implements a bounded first-in first-out queue: a datagram for its
  port is appended while there are fewer than 8, and refused without any change of the table when
  there are 8; no other socket is affected.
\<close>

theorem socket_delivery_refines_fifo:
  assumes "socket_step\<^sup>*\<^sup>* (replicate 16 zero_socket) ss" "i < 16" "so_in_use (ss ! i) \<noteq> 0" "so_bound_port (ss ! i) \<noteq> 0"
    and "0 \<le> len" "nat len \<le> length data" "length ip = 4"
  shows "if length (received (ss ! i)) < 8
    then \<exists>ss'. socket_deliver_udp (so_bound_port (ss ! i)) data len ip sp ss = Some (0, ss') \<and>
        received (ss' ! i) = received (ss ! i) @ [(take (min (nat len) 1500) data, ip, sp)] \<and>
        (\<forall>j. j \<noteq> i \<longrightarrow> ss' ! j = ss ! j)
    else socket_deliver_udp (so_bound_port (ss ! i)) data len ip sp ss = Some (-1, ss)"
proof -
  note t = socket_reach_table [OF assms(1)]
  have "length (received (ss ! i)) \<le> 8" by (rule socket_fifo.within [OF table_okD(2) [OF t assms(2)]])
  then show ?thesis
    using socket_deliver_bound [OF t assms(2,3) refl assms(4-6), of ip sp] assms(7) by auto
qed

theorem socket_delivery_refines_fifo_witness:
  "\<exists>ss'. socket_deliver_udp 7 [104, 105] 2 [10, 0, 2, 2] 4000 echo_table = Some (0, ss') \<and>
     received (ss' ! 0) = [([104, 105], [10, 0, 2, 2], 4000)]"
  using socket_delivery_refines_fifo [OF echo_table_reach, of 0 2 "[104, 105]" "[10, 0, 2, 2]" 4000]
  by (auto simp: echo_table_first)

text \<open>
  (C28) Up to 8 datagrams delivered to a bound socket with an empty queue are received complete, with their
  sender's address and port, in the order of their arrival, and leave the queue empty.
\<close>

theorem socket_receives_in_order:
  assumes "socket_step\<^sup>*\<^sup>* (replicate 16 zero_socket) ss" "i < 16" "so_in_use (ss ! i) \<noteq> 0" "so_bound_port (ss ! i) \<noteq> 0"
    and "received (ss ! i) = []" "length ds \<le> 8" "\<forall>(d, ip, sp) \<in> set ds. length d \<le> 1500 \<and> length ip = 4"
  shows "\<exists>ss1 ss2. deliver_all (so_bound_port (ss ! i)) ds ss = Some ss1 \<and>
    recv_all (int i) (length ds) ss1 = Some (ds, ss2) \<and> received (ss2 ! i) = []"
proof -
  have ds: "\<forall>d \<in> set ds. datagram_ok d" using assms(7) by (auto simp: datagram_ok_def)
  obtain ss1 where s1: "deliver_all (so_bound_port (ss ! i)) ds ss = Some ss1" "table_ok ss1"
    "received (ss1 ! i) = ds" "so_in_use (ss1 ! i) \<noteq> 0"
    using deliver_all_ok [OF socket_reach_table [OF assms(1)] assms(2,3) refl assms(4) ds] assms(5,6) by auto
  then show ?thesis using recv_all_ok [OF s1(2) assms(2) s1(4) s1(3) ds] by auto
qed

theorem socket_receives_in_order_witness:
  "\<exists>ss1 ss2. deliver_all 7 [([1], [10, 0, 2, 2], 80), ([2, 3], [10, 0, 2, 3], 81)] echo_table = Some ss1 \<and>
    recv_all (int 0) (length [([1], [10, 0, 2, 2], 80), ([2, 3], [10, 0, 2, 3], 81)]) ss1 =
      Some ([([1], [10, 0, 2, 2], 80), ([2, 3], [10, 0, 2, 3], 81)], ss2) \<and> received (ss2 ! 0) = []"
  using socket_receives_in_order [OF echo_table_reach, of 0 "[([1], [10, 0, 2, 2], 80), ([2, 3], [10, 0, 2, 3], 81)]"]
  unfolding echo_table_first(2) by (simp add: echo_table_first del: deliver_all.simps recv_all.simps)

text \<open>
  Port 0 stands for an unbound socket, but delivery compares ports only: a datagram to port 0 is queued on
  the first socket that is in use and not yet bound.
\<close>

theorem socket_unbound_receives_port_0:
  "\<exists>ss'. socket_deliver_udp 0 [1] 1 [10, 0, 2, 2] 9
       (zero_socket\<lparr>so_in_use := 1, so_type := 2\<rparr> # replicate 15 zero_socket) = Some (0, ss') \<and>
     received (ss' ! 0) = [([1], [10, 0, 2, 2], 9)]"
proof -
  let ?s = "zero_socket\<lparr>so_in_use := 1, so_type := 2\<rparr>"
  obtain q h where "socket_enqueue [1] 1 [10, 0, 2, 2] 9 ?s =
      Some (?s\<lparr>so_recv_queue := q, so_recv_head := h, so_recv_count := so_recv_count ?s + 1\<rparr>)"
    "received (?s\<lparr>so_recv_queue := q, so_recv_head := h, so_recv_count := so_recv_count ?s + 1\<rparr>) =
      received ?s @ [([1], [10, 0, 2, 2], 9)]"
    using socket_enqueue_ok [OF zero_socket_ok(1) [of 2 1], of 1 "[1]" "[10, 0, 2, 2]" 9]
    by (auto simp: zero_socket_def)
  then show ?thesis
    using socket_deliver_loop_found [of 0 "?s # replicate 15 zero_socket" 0 0 16]
    by (auto simp: socket_deliver_udp_def MAX_SOCKETS_def received_fresh) (simp_all add: zero_socket_def)
qed

end
