(* ===== verification/Net_Stack.thy ===== *)
theory Net_Stack
  imports Net_Checksum Net_Socket
begin

section \<open>The protocol stack\<close>

text \<open>
  Ethernet, ARP, IPv4, ICMP and UDP (\<^verbatim>\<open>ethernet.c\<close>, \<^verbatim>\<open>arp.c\<close>, \<^verbatim>\<open>ip.c\<close>, \<^verbatim>\<open>icmp.c\<close>,
  \<^verbatim>\<open>udp.c\<close> under \<^verbatim>\<open>src/src/sys/net\<close>), \<open>netdev_rx\<close> and \<open>socket_sendto\<close>. Headers are read and
  written at their offsets in the packet buffer; an access outside the buffer is \<^const>\<open>None\<close>, and so
  is following a null pointer. A pointer into a packet is the rest of the packet from there.
\<close>

definition ETH_TYPE_IPV4 :: u16 where [kernel_consts]: "ETH_TYPE_IPV4 = 0x0800"
definition ETH_TYPE_ARP :: u16 where [kernel_consts]: "ETH_TYPE_ARP = 0x0806"
definition ARP_HW_ETHERNET :: u16 where [kernel_consts]: "ARP_HW_ETHERNET = 1"
definition ARP_PRO_IPV4 :: u16 where [kernel_consts]: "ARP_PRO_IPV4 = 0x0800"
definition ARP_OP_REQUEST :: u16 where [kernel_consts]: "ARP_OP_REQUEST = 1"
definition ARP_OP_REPLY :: u16 where [kernel_consts]: "ARP_OP_REPLY = 2"
definition IP_PROTO_ICMP :: u8 where [kernel_consts]: "IP_PROTO_ICMP = 1"
definition IP_PROTO_TCP :: u8 where [kernel_consts]: "IP_PROTO_TCP = 6"
definition IP_PROTO_UDP :: u8 where [kernel_consts]: "IP_PROTO_UDP = 17"
definition IP_DEFAULT_TTL :: u8 where [kernel_consts]: "IP_DEFAULT_TTL = 64"
definition IP_FLAG_DF :: u16 where [kernel_consts]: "IP_FLAG_DF = 0x4000"
definition ICMP_TYPE_ECHO_REPLY :: u8 where [kernel_consts]: "ICMP_TYPE_ECHO_REPLY = 0"
definition ICMP_TYPE_ECHO_REQUEST :: u8 where [kernel_consts]: "ICMP_TYPE_ECHO_REQUEST = 8"

text \<open>The address of this host.\<close>

definition our_ip :: "u8 list" where
  "our_ip = [10, 0, 2, 15]"

subsection \<open>The ARP cache\<close>

definition ARP_CACHE_SIZE :: nat where [kernel_consts]: "ARP_CACHE_SIZE = 16"

text \<open>The search both cache functions do: the first valid entry for the address.\<close>

fun arp_cache_find :: "arp_cache_entry list \<Rightarrow> u8 list \<Rightarrow> nat \<Rightarrow> nat \<Rightarrow> nat option option" where
  "arp_cache_find cache ip i 0 = Some None"
| "arp_cache_find cache ip i (Suc n) =
     do { e \<leftarrow> rd cache i;
          if ac_valid e \<noteq> 0 \<and> ac_ip e = ip then Some (Some i) else arp_cache_find cache ip (Suc i) n }"

definition arp_cache_update :: "u8 list \<Rightarrow> u8 list \<Rightarrow> 'd net \<Rightarrow> 'd net option" where
  "arp_cache_update ip mac s =
     do { ip4 \<leftarrow> rd_bytes ip 0 4;
          found \<leftarrow> arp_cache_find (net_arp_cache s) ip4 0 ARP_CACHE_SIZE;
          case found of
            Some i \<Rightarrow>
              do { e \<leftarrow> rd (net_arp_cache s) i;
                   m \<leftarrow> memcpy (ac_mac e) mac 6;
                   Some (s\<lparr>net_arp_cache := (net_arp_cache s)[i := e\<lparr>ac_mac := m\<rparr>]\<rparr>) }
          | None \<Rightarrow>
              do { e \<leftarrow> rdi (net_arp_cache s) (net_arp_next s);
                   a \<leftarrow> memcpy (ac_ip e) ip 4;
                   m \<leftarrow> memcpy (ac_mac e) mac 6;
                   c \<leftarrow> wri (net_arp_cache s) (net_arp_next s) \<lparr>ac_ip = a, ac_mac = m, ac_valid = 1\<rparr>;
                   Some (s\<lparr>net_arp_cache := c, net_arp_next := (net_arp_next s + 1) smod int ARP_CACHE_SIZE\<rparr>) } }"

definition arp_cache_lookup :: "u8 list \<Rightarrow> u8 list \<Rightarrow> 'd net \<Rightarrow> (int \<times> u8 list) option" where
  "arp_cache_lookup ip mac_out s =
     do { ip4 \<leftarrow> rd_bytes ip 0 4;
          found \<leftarrow> arp_cache_find (net_arp_cache s) ip4 0 ARP_CACHE_SIZE;
          case found of
            Some i \<Rightarrow> do { e \<leftarrow> rd (net_arp_cache s) i; m \<leftarrow> memcpy mac_out (ac_mac e) 6; Some (0, m) }
          | None \<Rightarrow> Some (-1, mac_out) }"

definition is_our_ip :: "u8 list \<Rightarrow> bool option" where
  "is_our_ip ip = do { ip4 \<leftarrow> rd_bytes ip 0 4; Some (ip4 = our_ip) }"

subsection \<open>Sending\<close>

definition ethernet_tx ::
    "'d ops_table \<Rightarrow> u32 \<Rightarrow> u8 list \<Rightarrow> u16 \<Rightarrow> netbuf \<Rightarrow> 'd net \<Rightarrow> (int \<times> 'd net) option" where
  "ethernet_tx ops dev dest_mac ethertype payload s =
     (let (frame_buf, h) = netbuf_alloc (14 + nb_len payload) (net_heap s); s = s\<lparr>net_heap := h\<rparr>
      in do { fb \<leftarrow> frame_buf;
              d \<leftarrow> net_devs s dev;
              f \<leftarrow> memcpy_at (nb_data fb) 0 dest_mac 6;
              f \<leftarrow> memcpy_at f 6 (nd_hwaddr d) 6;
              f \<leftarrow> wr16 f 12 (htons ethertype);
              f \<leftarrow> memcpy_at f 14 (nb_data payload) (uint (nb_len payload));
              o' \<leftarrow> ops (nd_ops d);
              transmit \<leftarrow> ops_transmit o';
              transmit dev (fb\<lparr>nb_data := f, nb_len := 14 + nb_len payload\<rparr>) s })"

text \<open>
  \<open>request\<close> is the received ARP packet. Filling in the packet is a definition of its own here and in
  the other sending functions.
\<close>

definition arp_fill_reply :: "u8 list \<Rightarrow> u8 list \<Rightarrow> u8 list \<Rightarrow> u8 list option" where
  "arp_fill_reply r hwaddr request =
     do { r \<leftarrow> wr16 r 0 (htons ARP_HW_ETHERNET);
          r \<leftarrow> wr16 r 2 (htons ARP_PRO_IPV4);
          r \<leftarrow> wr r 4 6;
          r \<leftarrow> wr r 5 4;
          r \<leftarrow> wr16 r 6 (htons ARP_OP_REPLY);
          r \<leftarrow> memcpy_at r 8 hwaddr 6;
          r \<leftarrow> memcpy_at r 14 our_ip 4;
          r \<leftarrow> memcpy_at r 18 (drop 8 request) 6;
          memcpy_at r 24 (drop 14 request) 4 }"

definition arp_send_reply :: "'d ops_table \<Rightarrow> u32 \<Rightarrow> u8 list \<Rightarrow> 'd net \<Rightarrow> (int \<times> 'd net) option" where
  "arp_send_reply ops dev request s =
     (case netbuf_alloc 28 (net_heap s) of
        (None, h) \<Rightarrow> Some (-1, s\<lparr>net_heap := h\<rparr>)
      | (Some rb, h) \<Rightarrow>
          do { d \<leftarrow> net_devs s dev;
               r \<leftarrow> arp_fill_reply (nb_data rb) (nd_hwaddr d) request;
               let rb = rb\<lparr>nb_data := r, nb_len := 28\<rparr>;
               (res, s) \<leftarrow> ethernet_tx ops dev (drop 8 request) ETH_TYPE_ARP rb (s\<lparr>net_heap := h\<rparr>);
               Some (res, s\<lparr>net_heap := netbuf_free (Some rb) (net_heap s)\<rparr>) })"

definition ip_fill_header :: "u8 list \<Rightarrow> u16 \<Rightarrow> u16 \<Rightarrow> u8 \<Rightarrow> u8 list \<Rightarrow> u8 list option" where
  "ip_fill_header p total_len ident protocol dst_ip =
     do { p \<leftarrow> wr p 0 (push_bit 4 4 OR 5);
          p \<leftarrow> wr p 1 0;
          p \<leftarrow> wr16 p 2 (htons total_len);
          p \<leftarrow> wr16 p 4 (htons ident);
          p \<leftarrow> wr16 p 6 (htons IP_FLAG_DF);
          p \<leftarrow> wr p 8 IP_DEFAULT_TTL;
          p \<leftarrow> wr p 9 protocol;
          p \<leftarrow> memcpy_at p 12 our_ip 4;
          p \<leftarrow> memcpy_at p 16 dst_ip 4;
          p \<leftarrow> wr16 p 10 0;
          c \<leftarrow> ip_checksum p 20;
          wr16 p 10 c }"

definition ip_tx ::
    "'d ops_table \<Rightarrow> u32 \<Rightarrow> u8 list \<Rightarrow> u8 \<Rightarrow> netbuf \<Rightarrow> 'd net \<Rightarrow> (int \<times> 'd net) option" where
  "ip_tx ops dev dst_ip protocol payload s =
     (let total_len = 20 + nb_len payload
      in case netbuf_alloc total_len (net_heap s) of
           (None, h) \<Rightarrow> Some (-1, s\<lparr>net_heap := h\<rparr>)
         | (Some ib, h) \<Rightarrow>
             do { p \<leftarrow> ip_fill_header (nb_data ib) total_len (ip_id_counter s) protocol dst_ip;
                  let s = s\<lparr>net_heap := h, ip_id_counter := ip_id_counter s + 1\<rparr>;
                  p \<leftarrow> memcpy_at p 20 (nb_data payload) (uint (nb_len payload));
                  let ib = ib\<lparr>nb_data := p, nb_len := total_len\<rparr>;
                  (found, dst_mac) \<leftarrow> arp_cache_lookup dst_ip (replicate 6 0) s;
                  if found < 0 then Some (-1, s\<lparr>net_heap := netbuf_free (Some ib) (net_heap s)\<rparr>)
                  else do { (res, s) \<leftarrow> ethernet_tx ops dev dst_mac ETH_TYPE_IPV4 ib s;
                            Some (res, s\<lparr>net_heap := netbuf_free (Some ib) (net_heap s)\<rparr>) } })"

definition udp_fill_header :: "u8 list \<Rightarrow> u16 \<Rightarrow> u16 \<Rightarrow> u16 \<Rightarrow> u8 list option" where
  "udp_fill_header u src_port dst_port udp_len =
     do { u \<leftarrow> wr16 u 0 (htons src_port);
          u \<leftarrow> wr16 u 2 (htons dst_port);
          u \<leftarrow> wr16 u 4 (htons udp_len);
          wr16 u 6 0 }"

definition udp_tx ::
    "'d ops_table \<Rightarrow> u32 \<Rightarrow> u8 list \<Rightarrow> u16 \<Rightarrow> u16 \<Rightarrow> netbuf \<Rightarrow> 'd net \<Rightarrow> (int \<times> 'd net) option" where
  "udp_tx ops dev dst_ip src_port dst_port payload s =
     (let udp_len = 8 + nb_len payload
      in case netbuf_alloc udp_len (net_heap s) of
           (None, h) \<Rightarrow> Some (-1, s\<lparr>net_heap := h\<rparr>)
         | (Some ub, h) \<Rightarrow>
             do { u \<leftarrow> udp_fill_header (nb_data ub) src_port dst_port udp_len;
                  u \<leftarrow> memcpy_at u 8 (nb_data payload) (uint (nb_len payload));
                  let ub = ub\<lparr>nb_data := u, nb_len := udp_len\<rparr>;
                  (res, s) \<leftarrow> ip_tx ops dev dst_ip IP_PROTO_UDP ub (s\<lparr>net_heap := h\<rparr>);
                  Some (res, s\<lparr>net_heap := netbuf_free (Some ub) (net_heap s)\<rparr>) })"

text \<open>\<open>icmp_len\<close> is the length of the request, a 16-bit value held in an \<open>int\<close>.\<close>

definition icmp_fill_reply :: "u8 list \<Rightarrow> u8 list \<Rightarrow> int \<Rightarrow> u8 list option" where
  "icmp_fill_reply r request icmp_len =
     do { r \<leftarrow> memcpy_at r 0 request icmp_len;
          r \<leftarrow> wr r 0 ICMP_TYPE_ECHO_REPLY;
          r \<leftarrow> wr r 1 0;
          r \<leftarrow> wr16 r 2 0;
          c \<leftarrow> ip_checksum r icmp_len;
          wr16 r 2 c }"

definition icmp_echo_reply ::
    "'d ops_table \<Rightarrow> u32 \<Rightarrow> u8 list \<Rightarrow> u8 list \<Rightarrow> int \<Rightarrow> 'd net \<Rightarrow> (int \<times> 'd net) option" where
  "icmp_echo_reply ops dev ip_hdr request icmp_len s =
     (case netbuf_alloc (word_of_int icmp_len) (net_heap s) of
        (None, h) \<Rightarrow> Some (-1, s\<lparr>net_heap := h\<rparr>)
      | (Some rb, h) \<Rightarrow>
          do { r \<leftarrow> icmp_fill_reply (nb_data rb) request icmp_len;
               let rb = rb\<lparr>nb_data := r, nb_len := word_of_int icmp_len\<rparr>;
               (res, s) \<leftarrow> ip_tx ops dev (drop 12 ip_hdr) IP_PROTO_ICMP rb (s\<lparr>net_heap := h\<rparr>);
               Some (res, s\<lparr>net_heap := netbuf_free (Some rb) (net_heap s)\<rparr>) })"

subsection \<open>Receiving\<close>

definition arp_rx :: "'d ops_table \<Rightarrow> u32 \<Rightarrow> netbuf \<Rightarrow> 'd net \<Rightarrow> (int \<times> 'd net) option" where
  "arp_rx ops dev buf s =
     (if nb_len buf < 28 then Some (-1, s)
      else do { let arp = nb_data buf;
                _ \<leftarrow> rd_bytes arp 0 28;
                hwtype \<leftarrow> rd16 arp 0;
                if ntohs hwtype \<noteq> ARP_HW_ETHERNET then Some (-1, s)
                else do {
                  protype \<leftarrow> rd16 arp 2;
                  if ntohs protype \<noteq> ARP_PRO_IPV4 then Some (-1, s)
                  else do {
                    s \<leftarrow> arp_cache_update (drop 14 arp) (drop 8 arp) s;
                    opcode \<leftarrow> rd16 arp 6;
                    if ntohs opcode = ARP_OP_REQUEST
                    then do { ours \<leftarrow> is_our_ip (drop 24 arp);
                              if ours then arp_send_reply ops dev arp s else Some (0, s) }
                    else if ntohs opcode = ARP_OP_REPLY then Some (0, s)
                    else Some (-1, s) } } })"

definition icmp_rx ::
    "'d ops_table \<Rightarrow> u32 \<Rightarrow> u8 list \<Rightarrow> netbuf \<Rightarrow> 'd net \<Rightarrow> (int \<times> 'd net) option" where
  "icmp_rx ops dev ip_hdr buf s =
     (if nb_len buf < 8 then Some (-1, s)
      else do { c \<leftarrow> ip_checksum (nb_data buf) (uint (nb_len buf));
                if c \<noteq> 0 then Some (-1, s)
                else do {
                  ty \<leftarrow> rd (nb_data buf) 0;
                  if ty = ICMP_TYPE_ECHO_REQUEST
                  then icmp_echo_reply ops dev ip_hdr (nb_data buf) (uint (nb_len buf)) s
                  else Some (0, s) } })"

definition udp_rx :: "u8 list \<Rightarrow> netbuf \<Rightarrow> 'd net \<Rightarrow> (int \<times> 'd net) option" where
  "udp_rx ip_hdr buf s =
     (if nb_len buf < 8 then Some (-1, s)
      else do { sp \<leftarrow> rd16 (nb_data buf) 0;
                dp \<leftarrow> rd16 (nb_data buf) 2;
                ul \<leftarrow> rd16 (nb_data buf) 4;
                let src_port = ntohs sp;
                let dst_port = ntohs dp;
                let udp_len = ntohs ul;
                if udp_len < 8 \<or> udp_len > nb_len buf then Some (-1, s)
                else do { (_, ss) \<leftarrow> socket_deliver_udp dst_port (drop 8 (nb_data buf)) (uint udp_len - 8)
                                     (drop 12 ip_hdr) src_port (sockets s);
                          Some (0, s\<lparr>sockets := ss\<rparr>) } })"

definition ip_rx :: "'d ops_table \<Rightarrow> u32 \<Rightarrow> netbuf \<Rightarrow> 'd net \<Rightarrow> (int \<times> 'd net) option" where
  "ip_rx ops dev buf s =
     (if nb_len buf < 20 then Some (-1, s)
      else do {
        let ip = nb_data buf;
        v \<leftarrow> rd ip 0;
        if drop_bit 4 v AND 0x0F \<noteq> 4 then Some (-1, s)
        else do {
          let hdr_len = uint (v AND 0x0F) * 4;
          if hdr_len < 20 then Some (-1, s)
          else do {
            c \<leftarrow> ip_checksum ip hdr_len;
            if c \<noteq> 0 then Some (-1, s)
            else do {
              ours \<leftarrow> is_our_ip (drop 16 ip);
              if \<not> ours then Some (-1, s)
              else do {
                tl \<leftarrow> rd16 ip 2;
                protocol \<leftarrow> rd ip 9;
                let plen = ntohs tl - word_of_int hdr_len;
                let payload = \<lparr>nb_addr = 0, nb_data_addr = nb_data_addr buf + word_of_int hdr_len,
                               nb_data = drop (nat hdr_len) ip, nb_len = plen, nb_total_len = plen\<rparr>;
                if protocol = IP_PROTO_ICMP then icmp_rx ops dev ip payload s
                else if protocol = IP_PROTO_UDP then udp_rx ip payload s
                else if protocol = IP_PROTO_TCP then Some (0, s)
                else Some (-1, s) } } } } })"

text \<open>The Ethernet header is stripped from the buffer itself, whose data pointer moves.\<close>

definition ethernet_rx ::
    "'d ops_table \<Rightarrow> u32 \<Rightarrow> netbuf \<Rightarrow> 'd net \<Rightarrow> (int \<times> netbuf \<times> 'd net) option" where
  "ethernet_rx ops dev buf s =
     do { _ \<leftarrow> rd_bytes (nb_data buf) 0 14;
          et \<leftarrow> rd16 (nb_data buf) 12;
          let buf = buf\<lparr>nb_data := drop 14 (nb_data buf), nb_data_addr := nb_data_addr buf + 14,
                        nb_len := nb_len buf - 14\<rparr>;
          if ntohs et = 0x0800 then do { (res, s) \<leftarrow> ip_rx ops dev buf s; Some (res, buf, s) }
          else if ntohs et = 0x0806 then do { (res, s) \<leftarrow> arp_rx ops dev buf s; Some (res, buf, s) }
          else Some (-1, buf, s) }"

definition netdev_rx ::
    "'d ops_table \<Rightarrow> u32 \<Rightarrow> netbuf option \<Rightarrow> 'd net \<Rightarrow> (int \<times> netbuf option \<times> 'd net) option" where
  "netdev_rx ops dev buf s =
     (case buf of None \<Rightarrow> Some (-1, None, s)
      | Some b \<Rightarrow>
          if dev = 0 then Some (-1, Some b, s)
          else do {
            s \<leftarrow> upd_dev dev (\<lambda>d. d\<lparr>nd_stats := (nd_stats d)\<lparr>rx_packets := rx_packets (nd_stats d) + 1,
                    rx_bytes := rx_bytes (nd_stats d) + ucast (nb_len b)\<rparr>\<rparr>) s;
            (res, b, s) \<leftarrow> ethernet_rx ops dev b s;
            Some (if res < 0 then -1 else 0, Some b, s) })"

subsection \<open>Sending from a socket\<close>

definition socket_sendto ::
    "'d ops_table \<Rightarrow> int \<Rightarrow> u8 list option \<Rightarrow> int \<Rightarrow> u8 list \<Rightarrow> u16 \<Rightarrow> 'd net \<Rightarrow> (int \<times> 'd net) option" where
  "socket_sendto ops sockfd buf len dst_ip dst_port s =
     do { g \<leftarrow> socket_get sockfd (sockets s);
          case (g, buf) of
            (Some so, Some b) \<Rightarrow>
              if len \<le> 0 \<or> len > SOCKET_MAX_PACKET_SIZE then Some (-1, s)
              else do {
                dev \<leftarrow> netdev_get_by_index s 0;
                if dev = 0 then Some (-1, s)
                else case netbuf_alloc (word_of_int len) (net_heap s) of
                       (None, h) \<Rightarrow> Some (-1, s\<lparr>net_heap := h\<rparr>)
                     | (Some pb, h) \<Rightarrow>
                         do { p \<leftarrow> memcpy_at (nb_data pb) 0 b len;
                              let pb = pb\<lparr>nb_data := p, nb_len := word_of_int len\<rparr>;
                              (res, s) \<leftarrow> udp_tx ops dev dst_ip (so_bound_port so) dst_port pb (s\<lparr>net_heap := h\<rparr>);
                              let s = s\<lparr>net_heap := netbuf_free (Some pb) (net_heap s)\<rparr>;
                              Some (if res < 0 then -1 else len, s) } }
          | _ \<Rightarrow> Some (-1, s) }"

subsection \<open>The ARP cache is a bounded map\<close>

text \<open>
  The cache has its 16 entries of a 4-byte and a 6-byte address, and at most one valid entry for an
  IP address.
\<close>

definition arp_ok :: "'d net \<Rightarrow> bool" where
  "arp_ok s \<longleftrightarrow>
     length (net_arp_cache s) = 16 \<and> 0 \<le> net_arp_next s \<and> net_arp_next s < 16 \<and>
     (\<forall>e \<in> set (net_arp_cache s). length (ac_ip e) = 4 \<and> length (ac_mac e) = 6) \<and>
     (\<forall>i < 16. \<forall>j < 16. ac_valid (net_arp_cache s ! i) \<noteq> 0 \<and> ac_valid (net_arp_cache s ! j) \<noteq> 0 \<and>
        ac_ip (net_arp_cache s ! i) = ac_ip (net_arp_cache s ! j) \<longrightarrow> i = j)"

text \<open>The link-layer address the cache holds for an IP address.\<close>

definition arp_map :: "'d net \<Rightarrow> u8 list \<Rightarrow> u8 list option" where
  "arp_map s ip =
     map_option ac_mac (List.find (\<lambda>e. ac_valid e \<noteq> 0 \<and> ac_ip e = ip) (net_arp_cache s))"

lemma arp_cache_find_eq:
  "i + n \<le> length c \<Longrightarrow> arp_cache_find c ip i n =
     Some (List.find (\<lambda>j. ac_valid (c ! j) \<noteq> 0 \<and> ac_ip (c ! j) = ip) [i ..< i + n])"
proof (induction n arbitrary: i)
  case (Suc n)
  then show ?case using upt_conv_Cons [of i "i + Suc n"] by (simp add: rd_def)
qed simp

lemma find_map: "List.find P (map f xs) = map_option f (List.find (\<lambda>x. P (f x)) xs)"
  by (induction xs) auto

lemma find_nth: "List.find P xs = map_option (nth xs) (List.find (\<lambda>j. P (xs ! j)) [0 ..< length xs])"
proof (induction xs)
  case (Cons x xs)
  have "List.find (\<lambda>j. P ((x # xs) ! j)) [0 ..< length (x # xs)] =
      (if P x then Some 0 else map_option Suc (List.find (\<lambda>j. P (xs ! j)) [0 ..< length xs]))"
    by (simp add: upt_conv_Cons map_Suc_upt [symmetric] find_map o_def del: upt_Suc)
  then show ?case using Cons by (simp add: option.map_comp o_def)
qed simp

lemma find_unique:
  assumes "i < length xs" "P (xs ! i)" "\<And>j. j < length xs \<Longrightarrow> P (xs ! j) \<Longrightarrow> j = i"
  shows "List.find P xs = Some (xs ! i)"
  unfolding find_Some_iff using assms by (intro exI [of _ i]) (metis less_irrefl less_trans)

lemma arp_okD:
  assumes "arp_ok s"
  shows "length (net_arp_cache s) = 16" "0 \<le> net_arp_next s" "net_arp_next s < 16"
    "\<And>i. i < 16 \<Longrightarrow> length (ac_ip (net_arp_cache s ! i)) = 4 \<and> length (ac_mac (net_arp_cache s ! i)) = 6"
    "\<And>i j. i < 16 \<Longrightarrow> j < 16 \<Longrightarrow> ac_valid (net_arp_cache s ! i) \<noteq> 0 \<Longrightarrow> ac_valid (net_arp_cache s ! j) \<noteq> 0 \<Longrightarrow>
       ac_ip (net_arp_cache s ! i) = ac_ip (net_arp_cache s ! j) \<Longrightarrow> i = j"
  using assms by (auto simp: arp_ok_def)

text \<open>The index of the valid entry for an address, or that there is none.\<close>

lemma arp_cache_find_cases:
  assumes "arp_ok s"
  obtains (hit) i where "arp_cache_find (net_arp_cache s) ip 0 16 = Some (Some i)" "i < 16"
      "ac_valid (net_arp_cache s ! i) \<noteq> 0" "ac_ip (net_arp_cache s ! i) = ip" "arp_map s ip = Some (ac_mac (net_arp_cache s ! i))"
    | (miss) "arp_cache_find (net_arp_cache s) ip 0 16 = Some None" "arp_map s ip = None"
      "\<And>i. i < 16 \<Longrightarrow> \<not> (ac_valid (net_arp_cache s ! i) \<noteq> 0 \<and> ac_ip (net_arp_cache s ! i) = ip)"
proof (cases "List.find (\<lambda>j. ac_valid (net_arp_cache s ! j) \<noteq> 0 \<and> ac_ip (net_arp_cache s ! j) = ip) [0 ..< 16]")
  case None
  then show thesis
    using miss arp_okD(1) [OF assms]
    by (auto simp: arp_map_def find_nth [of _ "net_arp_cache s"] arp_cache_find_eq find_None_iff)
next
  case (Some i)
  then have "i < 16" "ac_valid (net_arp_cache s ! i) \<noteq> 0" "ac_ip (net_arp_cache s ! i) = ip"
    by (auto simp: find_Some_iff)
  then show thesis
    using hit Some arp_okD(1) [OF assms]
    by (auto simp: arp_map_def find_nth [of _ "net_arp_cache s"] arp_cache_find_eq)
qed

lemma arp_lookup_eq:
  assumes "arp_ok s" "4 \<le> length ip" "length out = 6"
  shows "arp_cache_lookup ip out s =
    Some (case arp_map s (take 4 ip) of None \<Rightarrow> (-1, out) | Some m \<Rightarrow> (0, m))"
  using assms(1)
proof (cases rule: arp_cache_find_cases [where ip = "take 4 ip"])
  case (hit i)
  then show ?thesis
    using assms arp_okD(1) [OF assms(1)] arp_okD(4) [OF assms(1), of i]
    by (simp add: arp_cache_lookup_def ARP_CACHE_SIZE_def rd_bytes_def rd_def memcpy_eq)
next
  case miss
  then show ?thesis using assms(2) by (simp add: arp_cache_lookup_def ARP_CACHE_SIZE_def rd_bytes_def)
qed

lemma arp_map_length: "arp_ok s \<Longrightarrow> arp_map s ip = Some m \<Longrightarrow> length m = 6"
  by (cases rule: arp_cache_find_cases [where s = s and ip = ip]) (auto dest: arp_okD(4))

text \<open>The entry at position \<open>k\<close> now belongs to the address \<open>ip\<close> and no other entry does.\<close>

lemma arp_replace:
  assumes ok: "arp_ok s" and k: "k < 16" "length ip = 4" "length m = 6" "v \<noteq> 0"
    and free: "\<And>i. i < 16 \<Longrightarrow> i \<noteq> k \<Longrightarrow> \<not> (ac_valid (net_arp_cache s ! i) \<noteq> 0 \<and> ac_ip (net_arp_cache s ! i) = ip)"
    and nxt: "0 \<le> nxt" "nxt < 16"
  defines "s' \<equiv> s\<lparr>net_arp_cache := (net_arp_cache s)[k := \<lparr>ac_ip = ip, ac_mac = m, ac_valid = v\<rparr>], net_arp_next := nxt\<rparr>"
  shows "arp_ok s'" "arp_map s' ip = Some m"
    "a \<noteq> ip \<Longrightarrow> (ac_valid (net_arp_cache s ! k) \<noteq> 0 \<Longrightarrow> ac_ip (net_arp_cache s ! k) \<noteq> a) \<Longrightarrow> arp_map s' a = arp_map s a"
proof -
  note t = arp_okD [OF ok]
  have n: "net_arp_cache s' ! i = (if i = k then \<lparr>ac_ip = ip, ac_mac = m, ac_valid = v\<rparr> else net_arp_cache s ! i)" for i
    using t(1) k(1) by (simp add: s'_def nth_list_update_if)
  have len: "length (net_arp_cache s') = 16" using t(1) by (simp add: s'_def)
  have "\<forall>i < 16. length (ac_ip (net_arp_cache s' ! i)) = 4 \<and> length (ac_mac (net_arp_cache s' ! i)) = 6"
    using t(4) k by (simp add: n)
  then have shape: "\<forall>e \<in> set (net_arp_cache s'). length (ac_ip e) = 4 \<and> length (ac_mac e) = 6"
    using len by (auto simp: in_set_conv_nth)
  have new: "ac_valid (net_arp_cache s' ! k) \<noteq> 0 \<and> ac_ip (net_arp_cache s' ! k) = ip" using k(4) by (simp add: n)
  have other: "i = k" if "i < 16" "ac_valid (net_arp_cache s' ! i) \<noteq> 0" "ac_ip (net_arp_cache s' ! i) = ip" for i
    using free [OF that(1)] that(2,3) by (cases "i = k") (simp_all add: n)
  have uniq: "i = j" if "i < 16" "j < 16" "ac_valid (net_arp_cache s' ! i) \<noteq> 0" "ac_valid (net_arp_cache s' ! j) \<noteq> 0"
      "ac_ip (net_arp_cache s' ! i) = ac_ip (net_arp_cache s' ! j)" for i j
  proof (cases "i = k \<or> j = k")
    case True
    then show ?thesis using other [OF that(1,3)] other [OF that(2,4)] that(5) new by metis
  next
    case False
    then show ?thesis using t(5) [OF that(1,2)] that(3-5) by (simp add: n)
  qed
  show ok': "arp_ok s'"
    unfolding arp_ok_def using len nxt shape uniq by (intro conjI) (simp_all add: s'_def)
  have "List.find (\<lambda>e. ac_valid e \<noteq> 0 \<and> ac_ip e = ip) (net_arp_cache s') = Some (net_arp_cache s' ! k)"
  proof (rule find_unique)
    show "k < length (net_arp_cache s')" using k(1) len by simp
  qed (use new other len in blast, use other len in metis)
  then show "arp_map s' ip = Some m" by (simp add: arp_map_def n)
  assume a: "a \<noteq> ip" "ac_valid (net_arp_cache s ! k) \<noteq> 0 \<Longrightarrow> ac_ip (net_arp_cache s ! k) \<noteq> a"
  let ?P = "\<lambda>e. ac_valid e \<noteq> 0 \<and> ac_ip e = a"
  have same: "?P (net_arp_cache s' ! i) = ?P (net_arp_cache s ! i)" for i
    using a by (cases "i = k") (auto simp: n)
  have "i \<noteq> k" if "List.find (\<lambda>j. ?P (net_arp_cache s ! j)) [0 ..< 16] = Some i" for i
    using that a(2) by (auto simp: find_Some_iff)
  then show "arp_map s' a = arp_map s a"
    unfolding arp_map_def find_nth [of _ "net_arp_cache s"] find_nth [of _ "net_arp_cache s'"] len t(1) same
    by (cases "List.find (\<lambda>j. ?P (net_arp_cache s ! j)) [0 ..< 16]") (simp_all add: n)
qed

lemma arp_cache_update_ok:
  assumes ok: "arp_ok s" and len: "4 \<le> length ip" "6 \<le> length mac"
  shows "\<exists>c n. arp_cache_update ip mac s = Some (s\<lparr>net_arp_cache := c, net_arp_next := n\<rparr>) \<and>
    arp_ok (s\<lparr>net_arp_cache := c, net_arp_next := n\<rparr>) \<and>
    arp_map (s\<lparr>net_arp_cache := c, net_arp_next := n\<rparr>) (take 4 ip) = Some (take 6 mac) \<and>
    (arp_map s (take 4 ip) \<noteq> None \<longrightarrow>
       (\<forall>a. a \<noteq> take 4 ip \<longrightarrow> arp_map (s\<lparr>net_arp_cache := c, net_arp_next := n\<rparr>) a = arp_map s a))"
  using ok
proof (cases rule: arp_cache_find_cases [where ip = "take 4 ip"])
  case (hit i)
  let ?e = "net_arp_cache s ! i"
  have "length (ac_mac ?e) = 6" using arp_okD(4) [OF ok hit(2)] by simp
  moreover have e: "?e\<lparr>ac_mac := take 6 mac\<rparr> = \<lparr>ac_ip = take 4 ip, ac_mac = take 6 mac, ac_valid = ac_valid ?e\<rparr>"
    using hit(4) by (cases ?e) simp
  ultimately have run: "arp_cache_update ip mac s =
      Some (s\<lparr>net_arp_cache := (net_arp_cache s)[i := \<lparr>ac_ip = take 4 ip, ac_mac = take 6 mac, ac_valid = ac_valid ?e\<rparr>],
              net_arp_next := net_arp_next s\<rparr>)"
    using hit(1,2) len arp_okD(1) [OF ok] e
    by (simp add: arp_cache_update_def ARP_CACHE_SIZE_def rd_bytes_def rd_def memcpy_eq)
  have free: "\<not> (ac_valid (net_arp_cache s ! j) \<noteq> 0 \<and> ac_ip (net_arp_cache s ! j) = take 4 ip)" if "j < 16" "j \<noteq> i" for j
    using arp_okD(5) [OF ok hit(2) that(1)] hit(3,4) that(2) by metis
  note r = arp_replace [OF ok hit(2) _ _ hit(3) free arp_okD(2,3) [OF ok], of "take 6 mac"]
  show ?thesis by (rule exI, rule exI, rule conjI, rule run) (use r len hit(4) in simp)
next
  case miss
  let ?k = "nat (net_arp_next s)"
  have k: "?k < 16" using arp_okD(2,3) [OF ok] by simp
  have e: "length (ac_ip (net_arp_cache s ! ?k)) = 4" "length (ac_mac (net_arp_cache s ! ?k)) = 6"
    using arp_okD(4) [OF ok k] by simp_all
  have n: "(net_arp_next s + 1) smod 16 = (net_arp_next s + 1) mod 16"
    using arp_okD(2) [OF ok] by (simp add: signed_modulo_int_def sgn_if)
  have run: "arp_cache_update ip mac s =
      Some (s\<lparr>net_arp_cache := (net_arp_cache s)[?k := \<lparr>ac_ip = take 4 ip, ac_mac = take 6 mac, ac_valid = 1\<rparr>],
              net_arp_next := (net_arp_next s + 1) mod 16\<rparr>)"
    using miss len e n arp_okD(1,2,3) [OF ok] k
    by (simp add: arp_cache_update_def ARP_CACHE_SIZE_def rd_bytes_def rdi_def wri_def rd_def wr_def memcpy_eq)
  have free: "\<not> (ac_valid (net_arp_cache s ! j) \<noteq> 0 \<and> ac_ip (net_arp_cache s ! j) = take 4 ip)" if "j < 16" "j \<noteq> ?k" for j
    by (rule miss(3) [OF that(1)])
  note r = arp_replace [OF ok k _ _ _ free, of "take 6 mac" 1 "(net_arp_next s + 1) mod 16"]
  show ?thesis by (rule exI, rule exI, rule conjI, rule run) (use r(1,2) len miss(2) in simp)
qed

end
