(* ===== verification/Syscalls.thy ===== *)
theory Syscalls
  imports Keyboard Terminal Net_Stack
begin

section \<open>System calls and interrupt handlers\<close>

text \<open>
  \<^verbatim>\<open>src/src/sys\<close> (the twenty system calls), the handlers of \<^verbatim>\<open>src/src/idt/idt.c\<close>, the output functions of
  \<^verbatim>\<open>src/src/kernel.c\<close> and \<^verbatim>\<open>src/src/locks/spinlock.c\<close>. The state \<open>kernel\<close> brings the parts together: the
  terminal writes to the hardware of the state, the network stack allocates from its heap; the network
  card is a device apart from the others, with its state in the driver.

  A handler either returns a value, or it leaves the kernel through \<open>task_return\<close> and never comes back.
  \<open>junk\<close> is what the uninitialised arrays on the kernel stack hold, \<open>eflags\<close> are the flags of the kernel,
  \<open>va\<close> is the address of an argument list, which \<open>alertk\<close> passes on instead of the arguments.
\<close>

datatype sys_cmd = Cmd0_test | Cmd1_print | Cmd2_getkey | Cmd3_putchar | Cmd4_malloc | Cmd5_free
  | Cmd6_process_load_start | Cmd7_process_exit | Cmd8_get_program_arguments | Cmd9_invoke_system_command
  | Cmd10_clear_terminal | Cmd11_get_processes | Cmd12_check_lock | Cmd13_done | Cmd14_fork | Cmd15_kill
  | Cmd16_socket | Cmd17_bind | Cmd18_sendto | Cmd19_recvfrom

record ('d, 'n) kernel = "'d kbd_state" +
  sys_commands :: "sys_cmd option list"
  lock :: u32
  terminal :: "'d term_state"
  network :: "'n net"

datatype 's outcome = Returned u32 's | To_user 's

definition VGA_COLOR_LIGHT_CYAN :: u8 where [kernel_consts]: "VGA_COLOR_LIGHT_CYAN = 11"
definition VGA_COLOR_LIGHT_BROWN :: u8 where [kernel_consts]: "VGA_COLOR_LIGHT_BROWN = 14"

subsection \<open>Output and locks\<close>

definition on_terminal :: "('d term_state \<Rightarrow> 'd term_state option) \<Rightarrow> ('d, 'n) kernel \<Rightarrow> ('d, 'n) kernel option" where
  "on_terminal f s =
     do { t \<leftarrow> f ((terminal s)\<lparr>term_dev := fs_dev s\<rparr>); Some (s\<lparr>terminal := t, fs_dev := term_dev t\<rparr>) }"

definition on_network :: "('n net \<Rightarrow> ('a \<times> 'n net) option) \<Rightarrow> ('d, 'n) kernel \<Rightarrow> ('a \<times> ('d, 'n) kernel) option" where
  "on_network f s =
     do { (x, n) \<leftarrow> f ((network s)\<lparr>net_heap := fs_heap s\<rparr>); Some (x, s\<lparr>network := n, fs_heap := net_heap n\<rparr>) }"

definition printk_colored :: "'d bus \<Rightarrow> u8 list \<Rightarrow> u8 \<Rightarrow> u8 \<Rightarrow> 'd term_state \<Rightarrow> 'd term_state option" where
  "printk_colored io str fg bg t = do { t \<leftarrow> print str fg bg t; Some (terminal_update_cursor io t) }"

definition printk :: "'d bus \<Rightarrow> u8 list \<Rightarrow> 'd term_state \<Rightarrow> 'd term_state option" where
  "printk io str t = printk_colored io str VGA_COLOR_WHITE VGA_COLOR_BLUE t"

definition alertk :: "'d bus \<Rightarrow> int \<Rightarrow> u8 list \<Rightarrow> 'd term_state \<Rightarrow> 'd term_state option" where
  "alertk io va str t =
     do { (_, t) \<leftarrow> printf_colored io str VGA_COLOR_LIGHT_BROWN VGA_COLOR_BLUE [Va_int va] t; Some t }"

text \<open>One processor, with interrupts disabled: a lock that is held is never released while another call waits for it.\<close>

definition spin_lock :: "u32 \<Rightarrow> u32 option" where
  "spin_lock locked = (if locked \<noteq> 0 then None else Some 1)"

definition spin_unlock :: "u32 \<Rightarrow> u32" where
  "spin_unlock locked = 0"

subsection \<open>Input and output\<close>

definition stack_item :: "int \<Rightarrow> ('d, 'n) kernel \<Rightarrow> (u32 \<times> ('d, 'n) kernel) option" where
  "stack_item i s = task_get_stack_item (current_task s) i s"

definition sys_command0_test :: "('d, 'n) kernel \<Rightarrow> ('d, 'n) kernel outcome option" where
  "sys_command0_test s = do { (a, s) \<leftarrow> stack_item 0 s; (b, s) \<leftarrow> stack_item 1 s; Some (Returned (a + b) s) }"

definition sys_command1_print :: "'d bus \<Rightarrow> u8 list \<Rightarrow> ('d, 'n) kernel \<Rightarrow> ('d, 'n) kernel outcome option" where
  "sys_command1_print io junk s =
     do { (msg, s) \<leftarrow> stack_item 0 s;
          (_, buf, s) \<leftarrow> copy_string_from_task (current_task s) msg (take 1024 junk) 1024 s;
          s \<leftarrow> on_terminal (printk_colored io buf VGA_COLOR_LIGHT_CYAN VGA_COLOR_BLUE) s;
          Some (Returned 0 s) }"

definition sys_command2_getkey :: "('d, 'n) kernel \<Rightarrow> ('d, 'n) kernel outcome option" where
  "sys_command2_getkey s = do { (c, s) \<leftarrow> keyboard_pop s; Some (Returned (scast c) s) }"

definition sys_command3_putchar :: "'d bus \<Rightarrow> ('d, 'n) kernel \<Rightarrow> ('d, 'n) kernel outcome option" where
  "sys_command3_putchar io s =
     do { (c, s) \<leftarrow> stack_item 0 s;
          s \<leftarrow> on_terminal (\<lambda>t. terminal_writechar (ucast c) VGA_COLOR_WHITE VGA_COLOR_BLUE (terminal_update_cursor io t)) s;
          Some (Returned 0 s) }"

definition sys_command10_clear_terminal :: "('d, 'n) kernel \<Rightarrow> ('d, 'n) kernel outcome option" where
  "sys_command10_clear_terminal s = do { s \<leftarrow> on_terminal terminal_clear_all s; Some (Returned 0 s) }"

subsection \<open>Memory\<close>

definition sys_command4_malloc :: "('d, 'n) kernel \<Rightarrow> ('d, 'n) kernel outcome option" where
  "sys_command4_malloc s =
     do { (n, s) \<leftarrow> stack_item 0 s;
          t \<leftarrow> tasks s (current_task s);
          (p, s) \<leftarrow> process_malloc (task_process t) n s;
          Some (Returned p s) }"

definition sys_command5_free :: "('d, 'n) kernel \<Rightarrow> ('d, 'n) kernel outcome option" where
  "sys_command5_free s =
     do { (p, s) \<leftarrow> stack_item 0 s;
          t \<leftarrow> tasks s (current_task s);
          s \<leftarrow> process_free (task_process t) p s;
          Some (Returned 0 s) }"

subsection \<open>Processes\<close>

text \<open>The path is put together behind whatever the uninitialised array holds.\<close>

definition program_path :: "u8 list \<Rightarrow> u8 list \<Rightarrow> u8 list option" where
  "program_path junk name =
     do { (path, _) \<leftarrow> strcat (take TOYOS_MAX_PATH junk) [48, 58, 47, 0];
          (path, _) \<leftarrow> strcat path name;
          (path, _) \<leftarrow> strcat path [46, 101, 108, 102, 0];
          Some path }"

definition enter_process :: "u32 \<Rightarrow> u32 \<Rightarrow> ('d, 'n) kernel \<Rightarrow> ('d, 'n) kernel outcome option" where
  "enter_process eflags process s =
     do { p \<leftarrow> procs s process;
          (_, s) \<leftarrow> task_switch (proc_task p) s;
          k \<leftarrow> tasks s (proc_task p);
          Some (To_user (task_return eflags (task_registers k) s)) }"

definition sys_command6_process_load_start :: "'d bus \<Rightarrow> u32 \<Rightarrow> u8 list \<Rightarrow> ('d, 'n) kernel \<Rightarrow> ('d, 'n) kernel outcome option" where
  "sys_command6_process_load_start io eflags junk s =
     do { (ptr, s) \<leftarrow> stack_item 0 s;
          (res, filename, s) \<leftarrow> copy_string_from_task (current_task s) ptr (take TOYOS_MAX_PATH junk) (int TOYOS_MAX_PATH) s;
          if res < 0 then Some (Returned 0 s)
          else do {
            path \<leftarrow> program_path junk filename;
            (res, process, s) \<leftarrow> process_load_and_switch io path s;
            if res < 0 then Some (Returned 0 s) else enter_process eflags process s } }"

definition sys_command7_process_exit :: "u32 \<Rightarrow> ('d, 'n) kernel \<Rightarrow> ('d, 'n) kernel outcome option" where
  "sys_command7_process_exit eflags s =
     do { t \<leftarrow> tasks s (current_task s);
          (_, s) \<leftarrow> process_terminate (task_process t) s;
          s \<leftarrow> task_next eflags s;
          Some (To_user s) }"

definition sys_command8_get_program_arguments :: "('d, 'n) kernel \<Rightarrow> ('d, 'n) kernel outcome option" where
  "sys_command8_get_program_arguments s =
     do { t \<leftarrow> tasks s (current_task s);
          (ptr, s) \<leftarrow> stack_item 0 s;
          arguments \<leftarrow> task_virtual_address_to_physical (current_task s) ptr s;
          (argc, argv) \<leftarrow> process_get_arguments (task_process t) s;
          Some (Returned 0 (s\<lparr>phys := wr32 (wr32 (phys s) arguments (word_of_int argc)) (arguments + 4) argv\<rparr>)) }"

definition sys_command9_invoke_system_command ::
    "'d bus \<Rightarrow> u32 \<Rightarrow> int \<Rightarrow> u8 list \<Rightarrow> ('d, 'n) kernel \<Rightarrow> ('d, 'n) kernel outcome option" where
  "sys_command9_invoke_system_command io eflags va junk s =
     do { (ptr, s) \<leftarrow> stack_item 0 s;
          arguments \<leftarrow> task_virtual_address_to_physical (current_task s) ptr s;
          if arguments = 0 then Some (Returned (word_of_int (- EINVARG)) s)
          else do {
            let program_name = mem_bytes (phys s) arguments 512;
            len \<leftarrow> strlen program_name;
            if len = 0 then Some (Returned (word_of_int (- EINVARG)) s)
            else do {
              path \<leftarrow> program_path junk program_name;
              (res, process, s) \<leftarrow> process_load_and_switch io path s;
              if res < 0
              then do { s \<leftarrow> on_terminal (alertk io va [67, 111, 109, 109, 97, 110, 100, 32, 110, 111, 116, 32, 114, 101, 99,
                               111, 103, 110, 105, 122, 101, 100, 46, 10, 10, 0]) s;
                        Some (Returned (word_of_int res) s) }
              else do {
                (res, s) \<leftarrow> process_inject_arguments process arguments s;
                if res < 0 then Some (Returned (word_of_int res) s)
                else do {
                  p \<leftarrow> procs s process;
                  (_, s) \<leftarrow> task_switch (proc_task p) s;
                  l \<leftarrow> spin_lock (lock s);
                  k \<leftarrow> tasks s (proc_task p);
                  Some (To_user (task_return eflags (task_registers k) (s\<lparr>lock := l\<rparr>))) } } } } }"

text \<open>An entry of the process list: four bytes of identifier and 64 of name; a longer name runs into the next entry.\<close>

definition sizeof_process_info :: u32 where "sizeof_process_info = 68"

definition write_process_info :: "u32 \<Rightarrow> nat \<Rightarrow> ('d, 'n) kernel \<Rightarrow> ('d, 'n) kernel option" where
  "write_process_info info pid s =
     do { let a = info + of_nat pid * sizeof_process_info;
          let m = wr32 (phys s) a (-1);
          process \<leftarrow> process_get (int pid) s;
          if process = 0 then Some (s\<lparr>phys := m\<rparr>)
          else do { p \<leftarrow> procs s process;
                    let m = wr32 m a (ucast (proc_id p));
                    if 0 \<notin> set (proc_filename p) then None
                    else Some (s\<lparr>phys := mem_store m (a + 4) (c_str (proc_filename p) @ [0])\<rparr>) } }"

fun process_info_loop :: "u32 \<Rightarrow> nat list \<Rightarrow> ('d, 'n) kernel \<Rightarrow> ('d, 'n) kernel option" where
  "process_info_loop info [] s = Some s"
| "process_info_loop info (pid # pids) s = do { s \<leftarrow> write_process_info info pid s; process_info_loop info pids s }"

definition sys_command11_get_processes :: "('d, 'n) kernel \<Rightarrow> ('d, 'n) kernel outcome option" where
  "sys_command11_get_processes s =
     do { t \<leftarrow> tasks s (current_task s);
          (info, s) \<leftarrow> process_malloc (task_process t) (sizeof_process_info * of_nat TOYOS_MAX_PROCESSES) s;
          if info = 0 then Some (Returned (word_of_int (- ENOMEM)) s)
          else do { s \<leftarrow> process_info_loop info [0 ..< TOYOS_MAX_PROCESSES] s; Some (Returned info s) } }"

definition sys_command12_check_lock :: "('d, 'n) kernel \<Rightarrow> ('d, 'n) kernel outcome option" where
  "sys_command12_check_lock s = Some (Returned (if lock s \<noteq> 0 then word_of_int (- EBUSY) else word_of_int OK) s)"

definition sys_command13_done :: "('d, 'n) kernel \<Rightarrow> ('d, 'n) kernel outcome option" where
  "sys_command13_done s = Some (Returned 0 (s\<lparr>lock := spin_unlock (lock s)\<rparr>))"

definition sys_command14_fork :: "'d bus \<Rightarrow> ('d, 'n) kernel \<Rightarrow> ('d, 'n) kernel outcome option" where
  "sys_command14_fork io s =
     do { (res, child, s) \<leftarrow> process_fork io s;
          if uint res < 0 then Some (Returned (ucast res) s)
          else do { c \<leftarrow> procs s child; Some (Returned (ucast (proc_id c)) s) } }"

definition sys_command15_kill :: "('d, 'n) kernel \<Rightarrow> ('d, 'n) kernel outcome option" where
  "sys_command15_kill s =
     (if current_task s = 0 then Some (Returned (word_of_int (- EINVARG)) s)
      else do {
        (pid, s) \<leftarrow> stack_item 0 s;
        if pid = 0 then Some (Returned (word_of_int (- EINVARG)) s)
        else do {
          process \<leftarrow> process_get (sint pid) s;
          if process = 0 then Some (Returned (word_of_int (- EINVARG)) s)
          else do { (res, s) \<leftarrow> process_terminate process s;
                    Some (Returned (if res < 0 then word_of_int res else word_of_int OK) s) } } })"

subsection \<open>Sockets\<close>

definition on_sockets :: "(socket list \<Rightarrow> (int \<times> socket list) option) \<Rightarrow> ('d, 'n) kernel \<Rightarrow> ('d, 'n) kernel outcome option" where
  "on_sockets f s =
     do { (res, ss) \<leftarrow> f (sockets (network s));
          Some (Returned (word_of_int res) (s\<lparr>network := (network s)\<lparr>sockets := ss\<rparr>\<rparr>)) }"

definition sys_command16_socket :: "('d, 'n) kernel \<Rightarrow> ('d, 'n) kernel outcome option" where
  "sys_command16_socket s = do { (ty, s) \<leftarrow> stack_item 0 s; on_sockets (socket_create (sint ty)) s }"

definition sys_command17_bind :: "('d, 'n) kernel \<Rightarrow> ('d, 'n) kernel outcome option" where
  "sys_command17_bind s =
     do { (sockfd, s) \<leftarrow> stack_item 0 s;
          (port, s) \<leftarrow> stack_item 1 s;
          on_sockets (socket_bind (sint sockfd) (ucast port)) s }"

text \<open>The packed argument structures of both calls: socket, buffer, length, address and port.\<close>

definition sys_command18_sendto :: "'n ops_table \<Rightarrow> ('d, 'n) kernel \<Rightarrow> ('d, 'n) kernel outcome option" where
  "sys_command18_sendto ops s =
     do { (user_ptr, s) \<leftarrow> stack_item 0 s;
          args \<leftarrow> task_virtual_address_to_physical (current_task s) user_ptr s;
          if args = 0 then Some (Returned (-1) s)
          else do {
            let m = phys s;
            buf_phys \<leftarrow> task_virtual_address_to_physical (current_task s) (rd32 m (args + 4)) s;
            if buf_phys = 0 then Some (Returned (-1) s)
            else do {
              let len = sint (rd32 m (args + 8));
              (res, s) \<leftarrow> on_network (socket_sendto ops (sint (rd32 m args)) (Some (mem_bytes m buf_phys (nat len))) len
                            (mem_bytes m (args + 12) 4) (mem16 m (args + 16))) s;
              Some (Returned (word_of_int res) s) } } }"

definition sys_command19_recvfrom :: "('d, 'n) kernel \<Rightarrow> ('d, 'n) kernel outcome option" where
  "sys_command19_recvfrom s =
     do { (user_ptr, s) \<leftarrow> stack_item 0 s;
          args \<leftarrow> task_virtual_address_to_physical (current_task s) user_ptr s;
          if args = 0 then Some (Returned (-1) s)
          else do {
            let m = phys s;
            buf_phys \<leftarrow> task_virtual_address_to_physical (current_task s) (rd32 m (args + 4)) s;
            if buf_phys = 0 then Some (Returned (-1) s)
            else do {
              let max_len = sint (rd32 m (args + 8));
              (res, buf, src_ip, src_port, ss) \<leftarrow> socket_recvfrom (sint (rd32 m args))
                (Some (mem_bytes m buf_phys (nat max_len))) max_len (Some (mem_bytes m (args + 12) 4)) (Some 0)
                (sockets (network s));
              b \<leftarrow> buf;
              ip \<leftarrow> src_ip;
              port \<leftarrow> src_port;
              let m = mem_store (mem_store m buf_phys b) (args + 12) (ip @ word_bytes port);
              Some (Returned (word_of_int res) (s\<lparr>phys := m, network := (network s)\<lparr>sockets := ss\<rparr>\<rparr>)) } } }"

subsection \<open>Dispatch\<close>

fun sys_command :: "'d bus \<Rightarrow> 'n ops_table \<Rightarrow> u32 \<Rightarrow> int \<Rightarrow> u8 list \<Rightarrow> sys_cmd \<Rightarrow> ('d, 'n) kernel \<Rightarrow>
    ('d, 'n) kernel outcome option" where
  "sys_command io ops eflags va junk Cmd0_test = sys_command0_test"
| "sys_command io ops eflags va junk Cmd1_print = sys_command1_print io junk"
| "sys_command io ops eflags va junk Cmd2_getkey = sys_command2_getkey"
| "sys_command io ops eflags va junk Cmd3_putchar = sys_command3_putchar io"
| "sys_command io ops eflags va junk Cmd4_malloc = sys_command4_malloc"
| "sys_command io ops eflags va junk Cmd5_free = sys_command5_free"
| "sys_command io ops eflags va junk Cmd6_process_load_start = sys_command6_process_load_start io eflags junk"
| "sys_command io ops eflags va junk Cmd7_process_exit = sys_command7_process_exit eflags"
| "sys_command io ops eflags va junk Cmd8_get_program_arguments = sys_command8_get_program_arguments"
| "sys_command io ops eflags va junk Cmd9_invoke_system_command = sys_command9_invoke_system_command io eflags va junk"
| "sys_command io ops eflags va junk Cmd10_clear_terminal = sys_command10_clear_terminal"
| "sys_command io ops eflags va junk Cmd11_get_processes = sys_command11_get_processes"
| "sys_command io ops eflags va junk Cmd12_check_lock = sys_command12_check_lock"
| "sys_command io ops eflags va junk Cmd13_done = sys_command13_done"
| "sys_command io ops eflags va junk Cmd14_fork = sys_command14_fork io"
| "sys_command io ops eflags va junk Cmd15_kill = sys_command15_kill"
| "sys_command io ops eflags va junk Cmd16_socket = sys_command16_socket"
| "sys_command io ops eflags va junk Cmd17_bind = sys_command17_bind"
| "sys_command io ops eflags va junk Cmd18_sendto = sys_command18_sendto ops"
| "sys_command io ops eflags va junk Cmd19_recvfrom = sys_command19_recvfrom"

fun register_all :: "(int \<times> sys_cmd) list \<Rightarrow> sys_cmd option list \<Rightarrow> sys_cmd option list option" where
  "register_all [] t = Some t"
| "register_all ((i, c) # cs) t = do { t \<leftarrow> register_sys_command i c t; register_all cs t }"

definition sys_register_commands :: "('d, 'n) kernel \<Rightarrow> ('d, 'n) kernel option" where
  "sys_register_commands s =
     do { t \<leftarrow> register_all [(0, Cmd0_test), (1, Cmd1_print), (2, Cmd2_getkey), (3, Cmd3_putchar), (4, Cmd4_malloc),
            (5, Cmd5_free), (6, Cmd6_process_load_start), (7, Cmd7_process_exit), (8, Cmd8_get_program_arguments),
            (9, Cmd9_invoke_system_command), (10, Cmd10_clear_terminal), (11, Cmd11_get_processes),
            (12, Cmd12_check_lock), (13, Cmd13_done), (14, Cmd14_fork), (15, Cmd15_kill), (16, Cmd16_socket),
            (17, Cmd17_bind), (18, Cmd18_sendto), (19, Cmd19_recvfrom)] (sys_commands s);
          Some (s\<lparr>sys_commands := t\<rparr>) }"

definition msg_invalid_call :: "u8 list" where
  "msg_invalid_call = [73, 110, 118, 97, 108, 105, 100, 32, 115, 121, 115, 116, 101, 109, 32, 99, 97, 108, 108, 32, 110,
     117, 109, 98, 101, 114, 58, 32, 37, 105, 10, 0]"

definition msg_no_handler :: "u8 list" where
  "msg_no_handler = [78, 111, 32, 104, 97, 110, 100, 108, 101, 114, 32, 102, 111, 114, 32, 115, 121, 115, 116, 101, 109,
     32, 99, 97, 108, 108, 32, 37, 105, 10, 0]"

definition sys_handle_command :: "'d bus \<Rightarrow> 'n ops_table \<Rightarrow> u32 \<Rightarrow> int \<Rightarrow> u8 list \<Rightarrow> int \<Rightarrow> ('d, 'n) kernel \<Rightarrow>
    ('d, 'n) kernel outcome option" where
  "sys_handle_command io ops eflags va junk cmd s =
     (if cmd < 0 \<or> cmd \<ge> TOYOS_MAX_SYSCALLS
      then do { s \<leftarrow> on_terminal (alertk io va msg_invalid_call) s; Some (Returned 0 s) }
      else do {
        handler \<leftarrow> rdi (sys_commands s) cmd;
        case handler of
          None \<Rightarrow> do { s \<leftarrow> on_terminal (alertk io va msg_no_handler) s; Some (Returned 0 s) }
        | Some handler \<Rightarrow> sys_command io ops eflags va junk handler s })"

text \<open>
  The return to the interrupted program with \<open>iret\<close>: the registers are those of the frame on the kernel stack.
\<close>

definition frame_registers :: "interrupt_frame \<Rightarrow> registers" where
  "frame_registers frame = save_registers frame zero_registers"

definition sys_handler :: "'d bus \<Rightarrow> 'n ops_table \<Rightarrow> u32 \<Rightarrow> int \<Rightarrow> u8 list \<Rightarrow> int \<Rightarrow> interrupt_frame \<Rightarrow>
    ('d, 'n) kernel \<Rightarrow> ('d, 'n) kernel outcome option" where
  "sys_handler io ops eflags va junk cmd frame s =
     do { s \<leftarrow> task_current_save_state (Some frame) (kernel_page s);
          res \<leftarrow> sys_handle_command io ops eflags va junk cmd s;
          case res of
            To_user s \<Rightarrow> Some (To_user s)
          | Returned v s \<Rightarrow> do { (_, s) \<leftarrow> task_page s; Some (Returned v s) } }"

text \<open>\<open>int80h\<close> of \<^verbatim>\<open>idt.asm\<close>: the number of the call is in EAX, and so is the result.\<close>

definition int80h :: "'d bus \<Rightarrow> 'n ops_table \<Rightarrow> u32 \<Rightarrow> int \<Rightarrow> u8 list \<Rightarrow> interrupt_frame \<Rightarrow> ('d, 'n) kernel \<Rightarrow>
    ('d, 'n) kernel option" where
  "int80h io ops eflags va junk frame s =
     do { res \<leftarrow> sys_handler io ops eflags va junk (sint (f_eax frame)) frame s;
          Some (case res of
                  To_user s \<Rightarrow> s
                | Returned v s \<Rightarrow> s\<lparr>user_regs := (frame_registers frame)\<lparr>r_eax := v\<rparr>\<rparr>) }"

definition idt_handle_exception :: "u32 \<Rightarrow> ('d, 'z) task_state_scheme \<Rightarrow> ('d, 'z) task_state_scheme option" where
  "idt_handle_exception eflags s =
     do { t \<leftarrow> tasks s (current_task s);
          (_, s) \<leftarrow> process_terminate (task_process t) s;
          task_next eflags s }"

definition idt_clock :: "'d bus \<Rightarrow> u32 \<Rightarrow> ('d, 'z) task_state_scheme \<Rightarrow> ('d, 'z) task_state_scheme option" where
  "idt_clock io eflags s = task_next eflags (s\<lparr>fs_dev := pic_send_eoi io 0 (fs_dev s)\<rparr>)"

definition no_interrupt_handler :: "'d bus \<Rightarrow> ('d, 'z) task_state_scheme \<Rightarrow> ('d, 'z) task_state_scheme" where
  "no_interrupt_handler io s = s\<lparr>fs_dev := pic_send_eoi io 0 (fs_dev s)\<rparr>"

text \<open>The callbacks; \<open>nic\<close> is the interrupt function of the network driver on the network state.\<close>

fun interrupt_callback :: "'d bus \<Rightarrow> ('n net \<Rightarrow> 'n net option) \<Rightarrow> u32 \<Rightarrow> interrupt_cb \<Rightarrow> ('d, 'n) kernel \<Rightarrow>
    ('d, 'n) kernel outcome option" where
  "interrupt_callback io nic eflags Cb_handle_exception s = do { s \<leftarrow> idt_handle_exception eflags s; Some (To_user s) }"
| "interrupt_callback io nic eflags Cb_clock s = do { s \<leftarrow> idt_clock io eflags s; Some (To_user s) }"
| "interrupt_callback io nic eflags Cb_keyboard s = do { s \<leftarrow> ps2_keyboard_handle_interrupt io s; Some (Returned 0 s) }"
| "interrupt_callback io nic eflags Cb_rtl8139 s =
     do { (_, s) \<leftarrow> on_network (\<lambda>n. do { n \<leftarrow> nic n; Some ((), n) }) s; Some (Returned 0 s) }"

definition interrupt_handler :: "'d bus \<Rightarrow> ('n net \<Rightarrow> 'n net option) \<Rightarrow> u32 \<Rightarrow> int \<Rightarrow> interrupt_frame \<Rightarrow>
    ('d, 'n) kernel \<Rightarrow> ('d, 'n) kernel option" where
  "interrupt_handler io nic eflags interrupt frame s =
     do { let s = kernel_page s;
          handler \<leftarrow> rdi (interrupt_callbacks s) interrupt;
          res \<leftarrow> (case handler of
                    None \<Rightarrow> Some (Returned 0 s)
                  | Some handler \<Rightarrow> do { s \<leftarrow> task_current_save_state (Some frame) s;
                                         interrupt_callback io nic eflags handler s });
          case res of
            To_user s \<Rightarrow> Some s
          | Returned _ s \<Rightarrow>
              do { (_, s) \<leftarrow> task_page s;
                   Some (s\<lparr>fs_dev := pic_send_eoi io (word_of_int (interrupt - 0x20)) (fs_dev s),
                           user_regs := frame_registers frame\<rparr>) } }"

end
