(* ===== verification/Gdt.thy ===== *)
theory Gdt
  imports Kernel_Config
begin

section \<open>The segment descriptor table\<close>

text \<open>
  \<^verbatim>\<open>src/src/gdt/gdt.c\<close>: the segments of the kernel are written as base, limit and access byte and encoded
  into the eight bytes the processor reads. A table is its bytes, eight for every entry; \<open>panick\<close> is \<^const>\<open>None\<close>.
  The reading of a descriptor by the processor is \<open>segment\<close>, from its documented layout.
\<close>

unbundle bit_operations_syntax

record gdt_structured =
  gs_base :: u32
  gs_limit :: u32
  gs_type :: u8

definition encode_gdt_entry :: "gdt_structured \<Rightarrow> u8 list \<Rightarrow> u8 list option" where
  "encode_gdt_entry source target =
     (if gs_limit source > 65536 \<and> gs_limit source AND 0xfff \<noteq> 0xfff then None
      else do {
        target \<leftarrow> wr target 6 0x40;
        let limit = (if gs_limit source > 65536 then drop_bit 12 (gs_limit source) else gs_limit source);
        target \<leftarrow> (if gs_limit source > 65536 then wr target 6 0xc0 else Some target);
        target \<leftarrow> wr target 0 (ucast (limit AND 0xff));
        target \<leftarrow> wr target 1 (ucast (drop_bit 8 limit AND 0xff));
        t6 \<leftarrow> rd target 6;
        target \<leftarrow> wr target 6 (t6 OR ucast (drop_bit 16 limit AND 0x0f));
        target \<leftarrow> wr target 2 (ucast (gs_base source AND 0xff));
        target \<leftarrow> wr target 3 (ucast (drop_bit 8 (gs_base source) AND 0xff));
        target \<leftarrow> wr target 4 (ucast (drop_bit 16 (gs_base source) AND 0xff));
        target \<leftarrow> wr target 7 (ucast (drop_bit 24 (gs_base source) AND 0xff));
        wr target 5 (gs_type source) })"

fun gdt_structured_to_gdt :: "u8 list \<Rightarrow> gdt_structured list \<Rightarrow> nat \<Rightarrow> u8 list option" where
  "gdt_structured_to_gdt gdt structured_gdt 0 = Some gdt"
| "gdt_structured_to_gdt gdt [] (Suc n) = None"
| "gdt_structured_to_gdt gdt (source # structured_gdt) (Suc n) =
     do { target \<leftarrow> encode_gdt_entry source gdt;
          rest \<leftarrow> gdt_structured_to_gdt (drop 8 target) structured_gdt n;
          Some (take 8 target @ rest) }"

subsection \<open>What the processor reads\<close>

record segment =
  seg_base :: u32
  seg_limit :: u32
  seg_access :: u8
  seg_32bit :: bool

definition segment_at :: "u8 list \<Rightarrow> segment" where
  "segment_at d =
     (let raw = ucast (d ! 0) OR push_bit 8 (ucast (d ! 1)) OR push_bit 16 (ucast (d ! 6 AND 0x0f)) :: u32
      in \<lparr>seg_base = ucast (d ! 2) OR push_bit 8 (ucast (d ! 3)) OR push_bit 16 (ucast (d ! 4)) OR push_bit 24 (ucast (d ! 7)),
          seg_limit = (if bit (d ! 6) 7 then push_bit 12 raw OR 0xfff else raw),
          seg_access = d ! 5, seg_32bit = bit (d ! 6) 6\<rparr>)"

definition segments :: "u8 list \<Rightarrow> nat \<Rightarrow> segment list" where
  "segments gdt n = map (\<lambda>i. segment_at (take 8 (drop (8 * i) gdt))) [0 ..< n]"

subsection \<open>Encoding\<close>

definition limit_ok :: "u32 \<Rightarrow> bool" where
  "limit_ok limit \<longleftrightarrow> limit \<le> 65536 \<or> limit AND 0xfff = 0xfff"

definition structured_segment :: "gdt_structured \<Rightarrow> segment" where
  "structured_segment g = \<lparr>seg_base = gs_base g, seg_limit = gs_limit g, seg_access = gs_type g, seg_32bit = True\<rparr>"

lemma masks: "(0xff :: u32) = mask 8" "(0x0f :: u32) = mask 4" "(0xfff :: u32) = mask 12" "(0x0f :: u8) = mask 4"
  by (simp_all add: mask_eq_exp_minus_1)

lemma join_bytes:
  "ucast (ucast (b AND 0xff) :: u8) OR push_bit 8 (ucast (ucast (drop_bit 8 b AND 0xff) :: u8)) OR
   push_bit 16 (ucast (ucast (drop_bit 16 b AND 0xff) :: u8)) OR push_bit 24 (ucast (ucast (drop_bit 24 b AND 0xff) :: u8)) = (b :: u32)"
  unfolding masks
proof (rule bit_word_eqI)
  fix n assume "n < LENGTH(32)"
  then consider "n < 8" | "8 \<le> n \<and> n < 16" | "16 \<le> n \<and> n < 24" | "24 \<le> n \<and> n < 32" by fastforce
  then show "bit (ucast (ucast (b AND mask 8) :: u8) OR push_bit 8 (ucast (ucast (drop_bit 8 b AND mask 8) :: u8)) OR
   push_bit 16 (ucast (ucast (drop_bit 16 b AND mask 8) :: u8)) OR push_bit 24 (ucast (ucast (drop_bit 24 b AND mask 8) :: u8)) :: u32) n = bit b n"
    by cases (auto simp: bit_simps)
qed

lemma join_limit:
  assumes "take_bit 20 l = (l :: u32)"
  shows "ucast (ucast (l AND 0xff) :: u8) OR push_bit 8 (ucast (ucast (drop_bit 8 l AND 0xff) :: u8)) OR
   push_bit 16 (ucast (ucast (drop_bit 16 l AND 0x0f) :: u8)) = l"
  unfolding masks
proof (rule bit_word_eqI)
  fix n assume n: "n < LENGTH(32)"
  have b: "bit l n \<longleftrightarrow> n < 20 \<and> bit l n" by (metis assms bit_take_bit_iff)
  from n consider "n < 8" | "8 \<le> n \<and> n < 16" | "16 \<le> n \<and> n < 20" | "20 \<le> n \<and> n < 32" by fastforce
  then show "bit (ucast (ucast (l AND mask 8) :: u8) OR push_bit 8 (ucast (ucast (drop_bit 8 l AND mask 8) :: u8)) OR
   push_bit 16 (ucast (ucast (drop_bit 16 l AND mask 4) :: u8)) :: u32) n = bit l n"
    by cases (use b in \<open>auto simp: bit_simps\<close>)
qed

lemma flag_bits:
  assumes "n < 4"
  shows "\<not> bit (0x40 :: int) n" "\<not> bit (0xc0 :: int) n"
proof -
  have "n = 0 \<or> n = 1 \<or> n = 2 \<or> n = 3" using assms by auto
  then show "\<not> bit (0x40 :: int) n" "\<not> bit (0xc0 :: int) n" by auto
qed

lemma high_flags:
  fixes x :: u32
  shows "(0x40 OR ucast (x AND 0x0f) :: u8) AND 0x0f = ucast (x AND 0x0f)"
    "(0xc0 OR ucast (x AND 0x0f) :: u8) AND 0x0f = ucast (x AND 0x0f)"
    "\<not> bit (0x40 OR ucast (x AND 0x0f) :: u8) 7" "bit (0xc0 OR ucast (x AND 0x0f) :: u8) 7"
    "bit (0x40 OR ucast (x AND 0x0f) :: u8) 6" "bit (0xc0 OR ucast (x AND 0x0f) :: u8) 6"
  unfolding masks by (auto intro!: bit_word_eqI simp: bit_simps flag_bits)

lemma granular_limit:
  assumes "l AND 0xfff = (0xfff :: u32)"
  shows "push_bit 12 (drop_bit 12 l) OR 0xfff = l"
proof (rule bit_word_eqI)
  fix n assume n: "n < LENGTH(32)"
  have "bit l n" if "n < 12" using arg_cong [OF assms, of "\<lambda>w. bit w n"] that n unfolding masks by (simp add: bit_simps)
  then show "bit (push_bit 12 (drop_bit 12 l) OR 0xfff) n = bit l n"
    unfolding masks using n by (auto simp: bit_simps)
qed

lemma encode_gdt_entry_eq:
  assumes "limit_ok (gs_limit g)" "8 \<le> length target"
  shows "\<exists>d. encode_gdt_entry g target = Some (d @ drop 8 target) \<and> length d = 8 \<and> segment_at d = structured_segment g"
proof -
  obtain a0 a1 a2 a3 a4 a5 a6 a7 r where t: "target = a0 # a1 # a2 # a3 # a4 # a5 # a6 # a7 # r"
    using assms(2) by (auto simp: numeral_eq_Suc Suc_le_length_iff)
  show ?thesis
  proof (cases "gs_limit g > 65536")
    case True
    then have l: "gs_limit g AND 0xfff = 0xfff" using assms(1) by (auto simp: limit_ok_def not_le [symmetric])
    have "take_bit 20 (drop_bit 12 (gs_limit g)) = drop_bit 12 (gs_limit g)"
      by (rule bit_word_eqI) (auto simp: bit_simps dest: bit_imp_le_length)
    note j = join_limit [OF this]
    show ?thesis
      using True l j granular_limit [OF l]
      by (simp add: encode_gdt_entry_def t wr_def rd_def segment_at_def structured_segment_def high_flags join_bytes Let_def)
  next
    case False
    then have "unat (gs_limit g) \<le> 65536" by (simp add: not_less word_le_nat_alt)
    then have "take_bit 20 (gs_limit g) = gs_limit g" by (simp add: word_eq_unatI unsigned_take_bit_eq take_bit_nat_eq_self)
    note j = join_limit [OF this]
    show ?thesis
      using False j
      by (simp add: encode_gdt_entry_def t wr_def rd_def segment_at_def structured_segment_def high_flags join_bytes Let_def)
  qed
qed

subsection \<open>Property\<close>

text \<open>
  (C19) \<open>gdt_structured_to_gdt\<close> writes descriptors that the processor reads back as the segments they were made
  from: base, limit with either granularity, access byte and operand size, for every entry of the table.
\<close>

theorem gdt_roundtrip:
  assumes "\<forall>g \<in> set gs. limit_ok (gs_limit g)" "length gdt = 8 * length gs"
  shows "\<exists>gdt'. gdt_structured_to_gdt gdt gs (length gs) = Some gdt' \<and> length gdt' = length gdt \<and>
    segments gdt' (length gs) = map structured_segment gs"
  using assms
proof (induction gs arbitrary: gdt)
  case (Cons g gs)
  obtain d where d: "encode_gdt_entry g gdt = Some (d @ drop 8 gdt)" "length d = 8" "segment_at d = structured_segment g"
    using encode_gdt_entry_eq [of g gdt] Cons.prems by auto
  obtain r where r: "gdt_structured_to_gdt (drop 8 gdt) gs (length gs) = Some r" "length r = length (drop 8 gdt)"
      "segments r (length gs) = map structured_segment gs"
    using Cons.IH [of "drop 8 gdt"] Cons.prems by auto
  have "segments (d @ r) (Suc (length gs)) = segment_at d # segments r (length gs)"
    unfolding segments_def upt_conv_Cons [OF zero_less_Suc] using d(2)
    by (simp add: map_Suc_upt [symmetric] del: upt_Suc)
  then show ?case using d r Cons.prems by simp
qed (simp add: segments_def)

theorem gdt_roundtrip_witness:
  "\<exists>gdt'. gdt_structured_to_gdt (replicate 24 0) [\<lparr>gs_base = 0, gs_limit = 0, gs_type = 0\<rparr>,
       \<lparr>gs_base = 0, gs_limit = 0xffffffff, gs_type = 0x9a\<rparr>, \<lparr>gs_base = 0x12345678, gs_limit = 100, gs_type = 0xe9\<rparr>] 3 = Some gdt' \<and>
     map seg_limit (segments gdt' 3) = [0, 0xffffffff, 100]"
proof -
  let ?gs = "[\<lparr>gs_base = 0, gs_limit = 0, gs_type = 0\<rparr>, \<lparr>gs_base = 0, gs_limit = 0xffffffff, gs_type = 0x9a\<rparr>,
      \<lparr>gs_base = 0x12345678, gs_limit = 100, gs_type = 0xe9\<rparr>]"
  have three: "length ?gs = 3" by simp
  have ok: "\<forall>g \<in> set ?gs. limit_ok (gs_limit g)" "length (replicate 24 0) = 8 * length ?gs" by (simp_all add: limit_ok_def)
  obtain gdt' where "gdt_structured_to_gdt (replicate 24 0) ?gs (length ?gs) = Some gdt'"
      "segments gdt' (length ?gs) = map structured_segment ?gs"
    using gdt_roundtrip [OF ok] by blast
  then show ?thesis unfolding three by (intro exI [of _ gdt']) (simp add: structured_segment_def del: gdt_structured_to_gdt.simps)
qed

end
