(* ===== verification/Kernel_Main.thy ===== *)
theory Kernel_Main
  imports Syscalls Gdt Pci
begin

section \<open>The start of the kernel\<close>

text \<open>
  \<^verbatim>\<open>src/src/kernel.c\<close>: \<open>maink\<close> brings up every component in turn, loads the shell and enters it.
  \<open>boot\<close> holds the state of the components and the tables that only the processor reads. A panic is \<^const>\<open>None\<close>.
\<close>

unbundle bit_operations_syntax

definition VGA_COLOR_LIGHT_GREEN :: u8 where [kernel_consts]: "VGA_COLOR_LIGHT_GREEN = 10"
definition TOYOS_TOTAL_GDT_SEGMENTS :: nat where [kernel_consts]: "TOYOS_TOTAL_GDT_SEGMENTS = 6"

text \<open>The structure lacks the field \<open>ss1\<close> of the processor; its size is 100 bytes.\<close>

record tss =
  tss_link :: u32
  tss_esp0 :: u32
  tss_ss0 :: u32
  tss_esp1 :: u32
  tss_esp2 :: u32
  tss_ss2 :: u32
  tss_sr3 :: u32
  tss_eip :: u32
  tss_eflags :: u32
  tss_eax :: u32
  tss_ecx :: u32
  tss_edx :: u32
  tss_ebx :: u32
  tss_esp :: u32
  tss_ebp :: u32
  tss_esi :: u32
  tss_edi :: u32
  tss_es :: u32
  tss_cs :: u32
  tss_ss :: u32
  tss_ds :: u32
  tss_fs :: u32
  tss_gs :: u32
  tss_ldtr :: u32
  tss_iopb :: u32

definition sizeof_tss :: u32 where "sizeof_tss = 100"

definition zero_tss :: tss where
  "zero_tss = \<lparr>tss_link = 0, tss_esp0 = 0, tss_ss0 = 0, tss_esp1 = 0, tss_esp2 = 0, tss_ss2 = 0, tss_sr3 = 0, tss_eip = 0,
     tss_eflags = 0, tss_eax = 0, tss_ecx = 0, tss_edx = 0, tss_ebx = 0, tss_esp = 0, tss_ebp = 0, tss_esi = 0, tss_edi = 0,
     tss_es = 0, tss_cs = 0, tss_ss = 0, tss_ds = 0, tss_fs = 0, tss_gs = 0, tss_ldtr = 0, tss_iopb = 0\<rparr>"

text \<open>The segments; \<open>tss_addr\<close> is the address of the task state segment.\<close>

definition gdt_segments :: "u32 \<Rightarrow> gdt_structured list" where
  "gdt_segments tss_addr =
     [\<lparr>gs_base = 0, gs_limit = 0, gs_type = 0\<rparr>,
      \<lparr>gs_base = 0, gs_limit = 0xffffffff, gs_type = 0x9a\<rparr>,
      \<lparr>gs_base = 0, gs_limit = 0xffffffff, gs_type = 0x92\<rparr>,
      \<lparr>gs_base = 0, gs_limit = 0xffffffff, gs_type = 0xf8\<rparr>,
      \<lparr>gs_base = 0, gs_limit = 0xffffffff, gs_type = 0xf2\<rparr>,
      \<lparr>gs_base = tss_addr, gs_limit = sizeof_tss, gs_type = 0xe9\<rparr>]"

record ('d, 'n) boot =
  kern :: "('d, 'n) kernel"
  gdt_real :: "u8 list"
  gdtr_limit :: u16
  gdtr_base :: u32
  kernel_tss :: tss
  task_register :: u16
  idt_descriptors :: "idt_desc list"
  idtr :: idtr_desc
  paging_enabled :: bool
  registry :: pci_registry

text \<open>The addresses that the linker fixes, and the contents of the memory the boot loader leaves.\<close>

record layout =
  tss_addr :: u32
  gdt_addr :: u32
  idt_addr :: u32
  interrupt_pointer_table :: "u32 list"
  int0h_addr :: u32
  int80h_addr :: u32
  heap_table_memory :: "int \<Rightarrow> u8"
  vga_memory :: "u16 list"
  stack_device :: pci_device

definition on_kernel :: "(('d, 'n) kernel \<Rightarrow> ('d, 'n) kernel option) \<Rightarrow> ('d, 'n) boot \<Rightarrow> ('d, 'n) boot option" where
  "on_kernel f b = do { k \<leftarrow> f (kern b); Some (b\<lparr>kern := k\<rparr>) }"

definition c_text :: "string \<Rightarrow> u8 list" where
  "c_text str = map (\<lambda>c. of_nat (of_char c)) str @ [0]"

definition line :: "string \<Rightarrow> u8 list" where
  "line str = c_text (str @ [CHR 0x0A])"

definition logo :: "u8 list" where
  "logo = [
    32, 32, 32, 95, 95, 95, 95, 95, 32, 32, 32, 32, 32, 32, 32, 32, 32, 32, 32, 32, 32, 32, 95, 32, 32, 95, 32,
    32, 32, 32, 32, 95, 95, 95, 32, 32, 32, 32, 32, 32, 95, 95, 95, 32, 32, 32, 10, 32, 32, 124, 95, 32, 32, 32,
    95, 124, 32, 32, 32, 32, 95, 95, 95, 32, 32, 32, 32, 32, 124, 32, 124, 124, 32, 124, 32, 32, 32, 47, 32, 95,
    32, 92, 32, 32, 32, 32, 47, 32, 95, 95, 124, 32, 32, 10, 32, 32, 32, 32, 124, 32, 124, 32, 32, 32, 32, 32, 47,
    32, 95, 32, 92, 32, 32, 32, 32, 32, 92, 95, 44, 32, 124, 32, 32, 124, 32, 40, 95, 41, 32, 124, 32, 32, 32, 92,
    95, 95, 32, 92, 32, 32, 10, 32, 32, 32, 95, 124, 95, 124, 95, 32, 32, 32, 32, 92, 95, 95, 95, 47, 32, 32, 32,
    32, 95, 124, 95, 95, 47, 32, 32, 32, 32, 92, 95, 95, 95, 47, 32, 32, 32, 32, 124, 95, 95, 95, 47, 32, 32, 10,
    32, 95, 124, 34, 34, 34, 34, 34, 124, 32, 95, 124, 34, 34, 34, 34, 34, 124, 32, 95, 124, 32, 34, 34, 34, 34,
    124, 32, 95, 124, 34, 34, 34, 34, 34, 124, 32, 95, 124, 34, 34, 34, 34, 34, 124, 32, 10, 32, 34, 96, 45, 48,
    45, 48, 45, 39, 32, 34, 96, 45, 48, 45, 48, 45, 39, 32, 34, 96, 45, 48, 45, 48, 45, 39, 32, 34, 96, 45, 48,
    45, 48, 45, 39, 32, 34, 96, 45, 48, 45, 48, 45, 39, 32, 118, 101, 114, 115, 105, 111, 110, 32, 48, 46, 48, 46,
    48, 10, 10, 0]"

definition print_toyos_logo :: "'d bus \<Rightarrow> ('d, 'n) kernel \<Rightarrow> ('d, 'n) kernel option" where
  "print_toyos_logo io k = on_terminal (printk io logo) k"

text \<open>The PCI bus is reached through the hardware in the state of the kernel.\<close>

definition kernel_bus :: "'d bus \<Rightarrow> ('d, 'n) kernel bus" where
  "kernel_bus io = \<lparr>bus_outb = (\<lambda>p v k. k\<lparr>fs_dev := bus_outb io p v (fs_dev k)\<rparr>),
     bus_outw = (\<lambda>p v k. k\<lparr>fs_dev := bus_outw io p v (fs_dev k)\<rparr>), bus_outl = (\<lambda>p v k. k\<lparr>fs_dev := bus_outl io p v (fs_dev k)\<rparr>),
     bus_insb = (\<lambda>p k. let (v, d) = bus_insb io p (fs_dev k) in (v, k\<lparr>fs_dev := d\<rparr>)),
     bus_insw = (\<lambda>p k. let (v, d) = bus_insw io p (fs_dev k) in (v, k\<lparr>fs_dev := d\<rparr>)),
     bus_insl = (\<lambda>p k. let (v, d) = bus_insl io p (fs_dev k) in (v, k\<lparr>fs_dev := d\<rparr>))\<rparr>"

definition announce :: "'d bus \<Rightarrow> string \<Rightarrow> ('d, 'n) boot \<Rightarrow> ('d, 'n) boot option" where
  "announce io str = on_kernel (on_terminal (printk_colored io (line str) VGA_COLOR_LIGHT_GREEN VGA_COLOR_BLUE))"

text \<open>The processor tables: the segments, the interrupt table, the task state segment and paging.\<close>

definition set_up_gdt :: "layout \<Rightarrow> ('d, 'n) boot \<Rightarrow> ('d, 'n) boot option" where
  "set_up_gdt l b =
     do { gdt \<leftarrow> gdt_structured_to_gdt (replicate (length (gdt_real b)) 0) (gdt_segments (tss_addr l)) TOYOS_TOTAL_GDT_SEGMENTS;
          Some (b\<lparr>gdt_real := gdt, gdtr_limit := of_nat (length gdt), gdtr_base := gdt_addr l\<rparr>) }"

definition set_up_idt :: "layout \<Rightarrow> ('d, 'n) boot \<Rightarrow> ('d, 'n) boot option" where
  "set_up_idt l b =
     do { (descs, r, callbacks) \<leftarrow> idt_init (interrupt_pointer_table l) (int0h_addr l) (int80h_addr l) (idt_addr l)
            Cb_handle_exception Cb_clock (idt_descriptors b) (interrupt_callbacks (kern b));
          Some (b\<lparr>kern := (kern b)\<lparr>interrupt_callbacks := callbacks\<rparr>, idt_descriptors := descs, idtr := r\<rparr>) }"

definition set_up_tss :: "('d, 'n) boot \<Rightarrow> ('d, 'n) boot" where
  "set_up_tss b = b\<lparr>kernel_tss := zero_tss\<lparr>tss_esp0 := 0x60000, tss_ss0 := TOYOS_DATA_SELECTOR\<rparr>, task_register := 0x28\<rparr>"

definition set_up_paging :: "('d, 'n) boot \<Rightarrow> ('d, 'n) boot" where
  "set_up_paging b =
     (let (chunk, h, m) = paging_new_4gb (ucast (PAGING_IS_WRITEABLE OR PAGING_IS_PRESENT OR PAGING_ACCESS_FROM_ALL))
                            (fs_heap (kern b)) (phys (kern b))
      in b\<lparr>kern := switch_to chunk ((kern b)\<lparr>fs_heap := h, phys := m, kernel_chunk := chunk\<rparr>), paging_enabled := True\<rparr>)"

definition start_keyboard :: "'d bus \<Rightarrow> ('d, 'n) kernel \<Rightarrow> ('d, 'n) kernel option" where
  "start_keyboard io k = do { (res, k) \<leftarrow> ps2_register io k; if res < 0 then None else keyboard_init io k }"

definition start_network :: "'d bus \<Rightarrow> 'n ops_table \<Rightarrow> ('d, 'n) kernel \<Rightarrow> ('d, 'n) kernel option" where
  "start_network io ops k =
     do { (active_interfaces, k) \<leftarrow> on_network (netdev_bring_all_up ops) k;
          on_terminal (\<lambda>t. do { (_, t) \<leftarrow> (if active_interfaces > 0
              then printf io (line ''Successfully brought up %i network interface(s)'') [Va_int active_interfaces] t
              else printf io (line ''No network interfaces were brought up'') [] t); Some t }) k }"

text \<open>The first process: the kernel leaves for it and does not come back.\<close>

definition start_shell :: "'d bus \<Rightarrow> u32 \<Rightarrow> ('d, 'n) kernel \<Rightarrow> ('d, 'n) kernel option" where
  "start_shell io eflags k =
     do { (res, process, k) \<leftarrow> process_load_and_switch io (c_text ''0:/shell.elf'') k;
          if res < 0 then None
          else do {
            k \<leftarrow> on_terminal terminal_clear_all k;
            p \<leftarrow> procs k process;
            (_, k) \<leftarrow> task_switch (proc_task p) k;
            t \<leftarrow> tasks k (proc_task p);
            Some (task_return eflags (task_registers t) k) } }"

text \<open>\<open>drv\<close> is the initialisation of the network driver, which the enumeration of the PCI bus calls.\<close>

definition maink :: "'d bus \<Rightarrow> 'n ops_table \<Rightarrow> ('d, 'n) kernel pci_init \<Rightarrow> layout \<Rightarrow> u32 \<Rightarrow> ('d, 'n) boot \<Rightarrow> ('d, 'n) boot option" where
  "maink io ops drv l eflags b =
     do { b \<leftarrow> on_kernel (on_terminal (terminal_init io (vga_memory l))) b;
          b \<leftarrow> announce io ''ToyOS kernel starting...'' b;
          b \<leftarrow> announce io ''Initializing the PIC...'' b;
          let b = b\<lparr>kern := (kern b)\<lparr>fs_dev := pic_init io (fs_dev (kern b))\<rparr>\<rparr>;
          b \<leftarrow> announce io ''Initializing the GDT...'' b;
          b \<leftarrow> set_up_gdt l b;
          b \<leftarrow> announce io ''Initializing the heap...'' b;
          h \<leftarrow> kheap_init (heap_table_memory l) (fs_heap (kern b));
          let b = b\<lparr>kern := (kern b)\<lparr>fs_heap := h\<rparr>\<rparr>;
          b \<leftarrow> announce io ''Initializing the file system...'' b;
          b \<leftarrow> on_kernel fs_init b;
          b \<leftarrow> on_kernel (disk_search_and_init io) b;
          b \<leftarrow> announce io ''Initializing the IDT...'' b;
          b \<leftarrow> set_up_idt l b;
          b \<leftarrow> announce io ''Setting up the TSS...'' b;
          let b = set_up_tss b;
          b \<leftarrow> announce io ''Setting up paging...'' b;
          let b = set_up_paging b;
          b \<leftarrow> on_kernel sys_register_commands b;
          b \<leftarrow> announce io ''Registering the PS/2 keyboard...'' b;
          b \<leftarrow> on_kernel (start_keyboard io) b;
          b \<leftarrow> announce io ''Enumerating PCI devices...'' b;
          (_, r, k) \<leftarrow> pci_enumerate_devices (kernel_bus io) drv (stack_device l) (registry b) (kern b);
          let b = b\<lparr>kern := k, registry := r\<rparr>;
          b \<leftarrow> announce io ''Bringing up network interfaces...'' b;
          b \<leftarrow> on_kernel (start_network io ops) b;
          b \<leftarrow> on_kernel (print_toyos_logo io) b;
          b \<leftarrow> announce io ''Loading the shell...'' b;
          on_kernel (start_shell io eflags) b }"

end
