(* ===== verification/Net_Wire.thy ===== *)
theory Net_Wire
  imports Net_Stack
begin

section \<open>What the stack sends and accepts\<close>

text \<open>
  Frames and headers as byte sequences, the contract of a network driver, and what the protocol
  functions do with them: every packet the stack builds is well formed, and a packet of that form is
  accepted and answered or delivered.
\<close>

subsection \<open>What goes over the wire\<close>

text \<open>Frames and headers as byte sequences.\<close>

definition eth_frame :: "u8 list \<Rightarrow> u8 list \<Rightarrow> u16 \<Rightarrow> u8 list \<Rightarrow> u8 list" where
  "eth_frame dst src ethertype payload = dst @ src @ word_bytes (htons ethertype) @ payload"

definition ip_hdr_with :: "u16 \<Rightarrow> u16 \<Rightarrow> u16 \<Rightarrow> u8 \<Rightarrow> u8 list \<Rightarrow> u8 list \<Rightarrow> u8 list" where
  "ip_hdr_with checksum total_len ident protocol src dst =
     ([0x45, 0] @ word_bytes (htons total_len) @ word_bytes (htons ident) @ word_bytes (htons 0x4000) @ [64, protocol]) @
     word_bytes checksum @ src @ dst"

definition ip_packet :: "u16 \<Rightarrow> u8 \<Rightarrow> u8 list \<Rightarrow> u8 list \<Rightarrow> u8 list \<Rightarrow> u8 list" where
  "ip_packet ident protocol src dst payload =
     (let total_len = 20 + of_nat (length payload)
      in ip_hdr_with (rfc1071 (ip_hdr_with 0 total_len ident protocol src dst)) total_len ident protocol src dst @ payload)"

definition icmp_echo :: "u8 \<Rightarrow> u8 list \<Rightarrow> u8 list" where
  "icmp_echo ty body = [ty, 0] @ word_bytes (rfc1071 ([ty, 0] @ word_bytes 0 @ body)) @ body"

definition udp_packet :: "u16 \<Rightarrow> u16 \<Rightarrow> u8 list \<Rightarrow> u8 list" where
  "udp_packet src_port dst_port payload =
     word_bytes (htons src_port) @ word_bytes (htons dst_port) @
     word_bytes (htons (8 + of_nat (length payload))) @ [0, 0] @ payload"

definition arp_packet :: "u16 \<Rightarrow> u8 list \<Rightarrow> u8 list \<Rightarrow> u8 list \<Rightarrow> u8 list \<Rightarrow> u8 list" where
  "arp_packet opcode sender_mac sender_ip target_mac target_ip =
     word_bytes (htons 1) @ word_bytes (htons 0x0800) @ [6, 4] @ word_bytes (htons opcode) @
     sender_mac @ sender_ip @ target_mac @ target_ip"

text \<open>
  The headers a received packet may have. A 16-bit field of the network is two bytes, the higher one first.
  An IPv4 header has 5 to 15 words, the length of the packet, the protocol and the addresses in their
  places, and verifies under its checksum; the type of service, the identification, the flags, the fragment
  offset, the time to live and the options may be anything. The checksum of a UDP header may be
  anything too.
\<close>

definition net_short :: "u8 list \<Rightarrow> nat \<Rightarrow> nat" where
  "net_short xs i = 256 * unat (xs ! i) + unat (xs ! (i + 1))"

definition ip_header :: "u8 \<Rightarrow> u8 list \<Rightarrow> u8 list \<Rightarrow> nat \<Rightarrow> u8 list \<Rightarrow> bool" where
  "ip_header protocol src dst n hdr \<longleftrightarrow>
     20 \<le> length hdr \<and> unat (hdr ! 0) div 16 = 4 \<and> 4 * (unat (hdr ! 0) mod 16) = length hdr \<and>
     net_short hdr 2 = length hdr + n \<and> hdr ! 9 = protocol \<and> take 4 (drop 12 hdr) = src \<and>
     take 4 (drop 16 hdr) = dst \<and> rfc1071 hdr = 0"

definition udp_header :: "u16 \<Rightarrow> u16 \<Rightarrow> nat \<Rightarrow> u8 list \<Rightarrow> bool" where
  "udp_header src_port dst_port n hdr \<longleftrightarrow>
     length hdr = 8 \<and> net_short hdr 0 = unat src_port \<and> net_short hdr 2 = unat dst_port \<and> net_short hdr 4 = 8 + n"

lemma zeros_20: "replicate (20 + n) (0 :: u8) =
    [0, 0, 0, 0, 0, 0, 0, 0, 0, 0, 0, 0, 0, 0, 0, 0, 0, 0, 0, 0] @ replicate n 0"
  by (simp add: replicate_add numeral_eq_Suc)

lemma zeros_14: "replicate (14 + n) (0 :: u8) =
    [0, 0, 0, 0, 0, 0, 0, 0, 0, 0, 0, 0, 0, 0] @ replicate n 0"
  by (simp add: replicate_add numeral_eq_Suc)

lemma zeros_8: "replicate (8 + n) (0 :: u8) = [0, 0, 0, 0, 0, 0, 0, 0] @ replicate n 0"
  by (simp add: replicate_add numeral_eq_Suc)

lemma length_4: "length xs = 4 \<longleftrightarrow> (\<exists>a b c d. xs = [a, b, c, d])"
  by (auto simp: length_Suc_conv numeral_eq_Suc)

lemma length_6: "length xs = 6 \<longleftrightarrow> (\<exists>a b c d e f. xs = [a, b, c, d, e, f])"
  by (auto simp: length_Suc_conv numeral_eq_Suc)

lemma unat_add_u16: "unat (a :: u16) + unat b < 65536 \<Longrightarrow> unat (a + b) = unat a + unat b"
  by (simp add: unat_word_ariths)

subsection \<open>Filling in headers\<close>

lemma ip_checksum_take:
  "int k \<le> int (length d) \<Longrightarrow> int k \<le> 131072 \<Longrightarrow> ip_checksum d (int k) = Some (rfc1071 (take k d))"
  using ip_checksum_rfc [of "int k" d] by simp

lemma ip_fill_header_eq:
  assumes "4 \<le> length dst"
  shows "ip_fill_header (replicate (20 + n) 0) tot ident proto dst =
    Some (ip_hdr_with (rfc1071 (ip_hdr_with 0 tot ident proto our_ip (take 4 dst))) tot ident proto our_ip (take 4 dst) @
          replicate n 0)"
proof -
  obtain a b c d where dst: "take 4 dst = [a, b, c, d]" using assms length_4 [of "take 4 dst"] by auto
  let ?h = "ip_hdr_with 0 tot ident proto our_ip (take 4 dst) @ replicate n 0"
  have "take 20 ?h = ip_hdr_with 0 tot ident proto our_ip (take 4 dst)"
    by (simp add: ip_hdr_with_def word_bytes_def our_ip_def dst)
  moreover have "20 \<le> int (length ?h)" by (simp add: ip_hdr_with_def word_bytes_def our_ip_def dst)
  ultimately have ck: "ip_checksum ?h 20 = Some (rfc1071 (ip_hdr_with 0 tot ident proto our_ip (take 4 dst)))"
    using ip_checksum_take [of 20 ?h] by simp
  have "ip_fill_header (replicate (20 + n) 0) tot ident proto dst =
      Option.bind (ip_checksum ?h 20) (wr16 ?h 10)"
    unfolding ip_fill_header_def zeros_20
    using assms by (simp add: cell_simps dst our_ip_def word_bytes_def ip_hdr_with_def IP_FLAG_DF_def IP_DEFAULT_TTL_def)
  then show ?thesis
    unfolding ck by (simp add: cell_simps ip_hdr_with_def word_bytes_def our_ip_def dst)
qed

lemma udp_fill_header_eq:
  "udp_fill_header (replicate (8 + n) 0) sp dp len =
    Some (word_bytes (htons sp) @ word_bytes (htons dp) @ word_bytes (htons len) @ [0, 0] @ replicate n 0)"
  unfolding udp_fill_header_def zeros_8 by (simp add: cell_simps word_bytes_def)

lemma arp_fill_reply_eq:
  assumes "length hw = 6" "28 \<le> length req"
  shows "arp_fill_reply (replicate 28 0) hw req =
    Some (arp_packet 2 hw our_ip (take 6 (drop 8 req)) (take 4 (drop 14 req)))"
proof -
  obtain a b c d e f where hw: "hw = [a, b, c, d, e, f]" using assms(1) length_6 [of hw] by auto
  obtain g h i j k l where mac: "take 6 (drop 8 req) = [g, h, i, j, k, l]"
    using assms(2) length_6 [of "take 6 (drop 8 req)"] by auto
  obtain m n p q where ip: "take 4 (drop 14 req) = [m, n, p, q]"
    using assms(2) length_4 [of "take 4 (drop 14 req)"] by auto
  have z: "replicate 28 (0 :: u8) = [0, 0, 0, 0, 0, 0, 0, 0, 0, 0, 0, 0, 0, 0, 0, 0, 0, 0, 0, 0, 0, 0, 0, 0, 0, 0, 0, 0]"
    by (simp add: numeral_eq_Suc)
  show ?thesis
    unfolding arp_fill_reply_def z
    using assms by (simp add: cell_simps hw mac ip our_ip_def word_bytes_def arp_packet_def ARP_HW_ETHERNET_def
        ARP_PRO_IPV4_def ARP_OP_REPLY_def)
qed

lemma icmp_fill_reply_eq:
  assumes "8 \<le> n" "n \<le> length req" "n \<le> 4096"
  shows "icmp_fill_reply (replicate n 0) req (int n) = Some (icmp_echo 0 (take (n - 4) (drop 4 req)))"
proof -
  obtain a b c d r where req: "req = a # b # c # d # r"
    using assms by (cases req; cases "tl req"; cases "tl (tl req)"; cases "tl (tl (tl req))") auto
  let ?body = "take (n - 4) r"
  have t: "take n req = [a, b, c, d] @ ?body"
    using le_Suc_ex [of 4 n] assms(1) by (auto simp: req numeral_eq_Suc)
  have l: "length ([0, 0, 0, 0] @ ?body) = n" using assms req by simp
  have "memcpy_at (replicate n 0) 0 req (int n) = Some (take n req)"
    using assms by (simp add: memcpy_at_eq)
  then have "icmp_fill_reply (replicate n 0) req (int n) =
      do { c \<leftarrow> ip_checksum ([0, 0, 0, 0] @ ?body) (int n); wr16 ([0, 0, 0, 0] @ ?body) 2 c }"
    by (simp add: icmp_fill_reply_def t cell_simps ICMP_TYPE_ECHO_REPLY_def word_bytes_def)
  also have "ip_checksum ([0, 0, 0, 0] @ ?body) (int n) = Some (rfc1071 ([0, 0, 0, 0] @ ?body))"
    using ip_checksum_take [of n "[0, 0, 0, 0] @ ?body"] assms(3) l by simp
  finally show ?thesis
    by (simp add: cell_simps icmp_echo_def word_bytes_def req)
qed

subsection \<open>The contract of a driver\<close>

text \<open>The state outside the heap, the driver and the device counters.\<close>

definition same_stack :: "'d net \<Rightarrow> 'd net \<Rightarrow> bool" where
  "same_stack s t \<longleftrightarrow>
     net_heap t = net_heap s \<and> netdevs t = netdevs s \<and> netdev_count t = netdev_count s \<and>
     eth_counter t = eth_counter s \<and> net_arp_cache t = net_arp_cache s \<and> net_arp_next t = net_arp_next s \<and>
     ip_id_counter t = ip_id_counter s \<and> sockets t = sockets s \<and>
     (\<forall>a. map_option (\<lambda>d. d\<lparr>nd_stats := zero_stats\<rparr>) (net_devs t a) =
          map_option (\<lambda>d. d\<lparr>nd_stats := zero_stats\<rparr>) (net_devs s a))"

text \<open>A frame put on the wire after others. Frames shorter than 60 bytes are padded.\<close>

definition on_wire :: "u8 list list \<Rightarrow> u8 list list \<Rightarrow> u8 list \<Rightarrow> bool" where
  "on_wire before after f \<longleftrightarrow> (\<exists>pad. length pad = 60 - length f \<and> after = before @ [f @ pad])"

text \<open>
  The contract of a network driver: in a state in which it is ready, its \<open>transmit\<close> takes a frame of at
  most \<open>mtu\<close> bytes, puts it on the wire after what it has sent before, and changes nothing else but its own
  state and the counters of its device. Whether it is ready depends only on these.
\<close>

locale net_driver =
  fixes ops :: "'d ops_table"
    and ready :: "u32 \<Rightarrow> 'd net \<Rightarrow> bool"
    and sent :: "u32 \<Rightarrow> 'd net \<Rightarrow> u8 list list"
    and mtu :: nat
  assumes ready_device: "ready dev s \<Longrightarrow>
      \<exists>d tx. net_devs s dev = Some d \<and> length (nd_hwaddr d) = 6 \<and> Option.bind (ops (nd_ops d)) ops_transmit = Some tx"
    and transmit_sends: "ready dev s \<Longrightarrow> net_devs s dev = Some d \<Longrightarrow> Option.bind (ops (nd_ops d)) ops_transmit = Some tx \<Longrightarrow>
      unat (nb_len b) \<le> mtu \<Longrightarrow> unat (nb_len b) \<le> length (nb_data b) \<Longrightarrow>
      \<exists>s'. tx dev b s = Some (0, s') \<and> same_stack s s' \<and>
        on_wire (sent dev s) (sent dev s') (take (unat (nb_len b)) (nb_data b))"
    and driver_local: "net_drv t = net_drv s \<Longrightarrow>
      map_option (\<lambda>d. d\<lparr>nd_stats := zero_stats\<rparr>) (net_devs t dev) =
      map_option (\<lambda>d. d\<lparr>nd_stats := zero_stats\<rparr>) (net_devs s dev) \<Longrightarrow>
      ready dev t = ready dev s \<and> sent dev t = sent dev s"
    and mtu_small: "mtu \<le> 4096"

text \<open>The link-layer address of a device.\<close>

definition mac_of :: "u32 \<Rightarrow> 'd net \<Rightarrow> u8 list" where
  "mac_of dev s = (case net_devs s dev of None \<Rightarrow> [] | Some d \<Rightarrow> nd_hwaddr d)"

lemma same_stack_mac: "same_stack s t \<Longrightarrow> mac_of dev t = mac_of dev s"
proof -
  assume "same_stack s t"
  then have "map_option (\<lambda>d. d\<lparr>nd_stats := zero_stats\<rparr>) (net_devs t dev) =
      map_option (\<lambda>d. d\<lparr>nd_stats := zero_stats\<rparr>) (net_devs s dev)"
    by (simp add: same_stack_def)
  then show ?thesis
    by (cases "net_devs t dev"; cases "net_devs s dev")
      (auto simp: mac_of_def dest: arg_cong [where f = nd_hwaddr])
qed

lemma mac_of_update [simp]:
  "mac_of dev (s\<lparr>net_heap := h\<rparr>) = mac_of dev s" "mac_of dev (s\<lparr>ip_id_counter := i\<rparr>) = mac_of dev s"
  "mac_of dev (s\<lparr>net_arp_cache := c\<rparr>) = mac_of dev s" "mac_of dev (s\<lparr>net_arp_next := n\<rparr>) = mac_of dev s"
  by (simp_all add: mac_of_def)

lemma arp_map_update [simp]:
  "arp_map (s\<lparr>net_heap := h\<rparr>) = arp_map s" "arp_map (s\<lparr>ip_id_counter := i\<rparr>) = arp_map s"
  "arp_ok (s\<lparr>net_heap := h\<rparr>) = arp_ok s" "arp_ok (s\<lparr>ip_id_counter := i\<rparr>) = arp_ok s"
  by (auto simp: arp_map_def arp_ok_def)

context net_driver
begin

lemma driver_update:
  "ready dev (s\<lparr>net_heap := h\<rparr>) = ready dev s" "sent dev (s\<lparr>net_heap := h\<rparr>) = sent dev s"
  "ready dev (s\<lparr>ip_id_counter := i\<rparr>) = ready dev s" "sent dev (s\<lparr>ip_id_counter := i\<rparr>) = sent dev s"
  "ready dev (s\<lparr>net_arp_cache := c\<rparr>) = ready dev s" "sent dev (s\<lparr>net_arp_cache := c\<rparr>) = sent dev s"
  "ready dev (s\<lparr>net_arp_next := n\<rparr>) = ready dev s" "sent dev (s\<lparr>net_arp_next := n\<rparr>) = sent dev s"
  using driver_local [of "s\<lparr>net_heap := h\<rparr>" s] driver_local [of "s\<lparr>ip_id_counter := i\<rparr>" s]
    driver_local [of "s\<lparr>net_arp_cache := c\<rparr>" s] driver_local [of "s\<lparr>net_arp_next := n\<rparr>" s] by simp_all

lemma ready_mac: "ready dev s \<Longrightarrow> length (mac_of dev s) = 6"
  using ready_device [of dev s] by (auto simp: mac_of_def)

lemma ethernet_tx_ok:
  assumes r: "ready dev s" and h: "heap_ok (net_heap s)" "2 \<le> free_blocks (net_heap s)"
    and p: "14 + unat (nb_len p) \<le> mtu" "unat (nb_len p) \<le> length (nb_data p)" "6 \<le> length dest"
  shows "\<exists>fb s'. ethernet_tx ops dev dest ty p s = Some (0, s') \<and>
    on_wire (sent dev s) (sent dev s') (eth_frame (take 6 dest) (mac_of dev s) ty (take (unat (nb_len p)) (nb_data p))) \<and>
    owns fb (heap_live (net_heap s)) (net_heap s') \<and> free_blocks (net_heap s) = free_blocks (net_heap s') + 2 \<and>
    same_stack (s\<lparr>net_heap := net_heap s'\<rparr>) s'"
proof -
  let ?n = "unat (nb_len p)"
  have n: "14 + ?n \<le> 4096" using p(1) mtu_small by simp
  then have len: "unat (14 + nb_len p) = 14 + ?n" by (subst unat_add_u16) simp_all
  obtain fb h' where fb: "netbuf_alloc (14 + nb_len p) (net_heap s) = (Some fb, h')"
    "nb_data fb = replicate (14 + ?n) 0" "owns fb (heap_live (net_heap s)) h'" "free_blocks (net_heap s) = free_blocks h' + 2"
    by (rule netbuf_alloc_ok [OF h(1) _ _ h(2), of "14 + nb_len p"]) (use len n in auto)
  obtain d tx where d: "net_devs s dev = Some d" "length (nd_hwaddr d) = 6"
    "Option.bind (ops (nd_ops d)) ops_transmit = Some tx"
    using ready_device [OF r] by blast
  let ?f = "eth_frame (take 6 dest) (nd_hwaddr d) ty (take ?n (nb_data p))"
  let ?b = "fb\<lparr>nb_data := ?f, nb_len := 14 + nb_len p\<rparr>"
  have lf: "length ?f = 14 + ?n" using p d by (simp add: eth_frame_def)
  obtain s' where s': "tx dev ?b (s\<lparr>net_heap := h'\<rparr>) = Some (0, s')" "same_stack (s\<lparr>net_heap := h'\<rparr>) s'"
    "on_wire (sent dev s) (sent dev s') (?f)"
    using transmit_sends [of dev "s\<lparr>net_heap := h'\<rparr>" d tx ?b] r d len lf p(1) by (auto simp: driver_update)
  obtain o' where o': "ops (nd_ops d) = Some o'" "ops_transmit o' = Some tx"
    using d(3) by (auto simp: bind_eq_Some_conv)
  have "ethernet_tx ops dev dest ty p s = Some (0, s')"
  proof -
    obtain m1 m2 m3 m4 m5 m6 where m: "take 6 dest = [m1, m2, m3, m4, m5, m6]"
      using p(3) length_6 [of "take 6 dest"] by auto
    obtain w1 w2 w3 w4 w5 w6 where w: "nd_hwaddr d = [w1, w2, w3, w4, w5, w6]"
      using d(2) length_6 [of "nd_hwaddr d"] by auto
    obtain t1 t2 where t: "word_bytes (htons ty) = [t1, t2]" by (simp add: word_bytes_def)
    have "memcpy_at (nb_data fb) 0 dest 6 = Some ([m1, m2, m3, m4, m5, m6, 0, 0, 0, 0, 0, 0, 0, 0] @ replicate ?n 0)"
      using p(3) m by (simp add: fb(2) zeros_14 cell_simps)
    moreover have "memcpy_at ([m1, m2, m3, m4, m5, m6, 0, 0, 0, 0, 0, 0, 0, 0] @ replicate ?n 0) 6 (nd_hwaddr d) 6 =
        Some ([m1, m2, m3, m4, m5, m6, w1, w2, w3, w4, w5, w6, 0, 0] @ replicate ?n 0)"
      using w by (simp add: cell_simps)
    moreover have "wr16 ([m1, m2, m3, m4, m5, m6, w1, w2, w3, w4, w5, w6, 0, 0] @ replicate ?n 0) 12 (htons ty) =
        Some ([m1, m2, m3, m4, m5, m6, w1, w2, w3, w4, w5, w6, t1, t2] @ replicate ?n 0)"
      using t by (simp add: cell_simps)
    moreover have "memcpy_at ([m1, m2, m3, m4, m5, m6, w1, w2, w3, w4, w5, w6, t1, t2] @ replicate ?n 0) 14 (nb_data p) (uint (nb_len p)) =
        Some ?f"
      using p(2) m w t by (simp add: memcpy_at_eq eth_frame_def)
    ultimately show ?thesis using fb(1) d(1) o' s'(1) by (simp add: ethernet_tx_def)
  qed
  moreover have "net_heap s' = h'" using s'(2) by (simp add: same_stack_def)
  moreover have "mac_of dev s = nd_hwaddr d" using d(1) by (simp add: mac_of_def)
  ultimately show ?thesis using s' fb by (intro exI [of _ fb] exI [of _ s']) simp
qed

end

subsection \<open>Sending\<close>

text \<open>
  A buffer allocated for a packet and released after the frame was handed over: the heap then holds
  what it held before and the two pages of the frame, which belong to the driver.
\<close>

lemma release_after_send:
  assumes "owns b L h1" "owns fb (heap_live h1) h2"
    and "nb_addr c = nb_addr b" "nb_data_addr c = nb_data_addr b"
  shows "owns fb L (netbuf_free (Some c) h2)"
proof -
  have "owns b (insert (nb_addr fb, 4096) (insert (nb_data_addr fb, 4096) L)) h2"
    by (rule owns_other [OF assms(2,1)]) (use assms(2) in \<open>simp_all add: owns_def\<close>)
  then have "owns c (insert (nb_addr fb, 4096) (insert (nb_data_addr fb, 4096) L)) h2"
    using assms(3,4) by (rule owns_cong)
  then show ?thesis
    using netbuf_free_ok assms(1,2) unfolding owns_def by (metis insertCI)
qed

lemma same_stackD:
  assumes "same_stack s t"
  shows "net_heap t = net_heap s" "net_arp_cache t = net_arp_cache s" "net_arp_next t = net_arp_next s"
    "ip_id_counter t = ip_id_counter s" "sockets t = sockets s"
  using assms by (simp_all add: same_stack_def)

lemma same_stack_heap:
  "same_stack (s\<lparr>net_heap := h\<rparr>) t \<Longrightarrow> same_stack (s\<lparr>net_heap := h'\<rparr>) (t\<lparr>net_heap := h'\<rparr>)"
  by (simp add: same_stack_def)

lemma ip_packet_length: "length dst = 4 \<Longrightarrow> length src = 4 \<Longrightarrow> length (ip_packet i p src dst d) = 20 + length d"
  by (simp add: ip_packet_def ip_hdr_with_def Let_def)

context net_driver
begin

lemma ip_tx_ok:
  assumes r: "ready dev s" and h: "heap_ok (net_heap s)" "4 \<le> free_blocks (net_heap s)"
    and p: "34 + unat (nb_len p) \<le> mtu" "unat (nb_len p) \<le> length (nb_data p)"
    and arp: "arp_ok s" "4 \<le> length dst" "arp_map s (take 4 dst) = Some mac"
  shows "\<exists>fb s'. ip_tx ops dev dst proto p s = Some (0, s') \<and>
    on_wire (sent dev s) (sent dev s') (eth_frame mac (mac_of dev s) 0x0800
      (ip_packet (ip_id_counter s) proto our_ip (take 4 dst) (take (unat (nb_len p)) (nb_data p)))) \<and>
    owns fb (heap_live (net_heap s)) (net_heap s') \<and>
    same_stack (s\<lparr>net_heap := net_heap s', ip_id_counter := ip_id_counter s + 1\<rparr>) s'"
proof -
  let ?n = "unat (nb_len p)"
  have n: "34 + ?n \<le> 4096" using p(1) mtu_small by simp
  then have len: "unat (20 + nb_len p) = 20 + ?n" by (subst unat_add_u16) simp_all
  obtain ib h1 where ib: "netbuf_alloc (20 + nb_len p) (net_heap s) = (Some ib, h1)"
    "nb_data ib = replicate (20 + ?n) 0" "owns ib (heap_live (net_heap s)) h1" "free_blocks (net_heap s) = free_blocks h1 + 2"
    by (rule netbuf_alloc_ok [OF h(1), of "20 + nb_len p"]) (use h(2) len n in auto)
  define pkt where "pkt = ip_packet (ip_id_counter s) proto our_ip (take 4 dst) (take ?n (nb_data p))"
  define hdr where "hdr = ip_hdr_with (rfc1071 (ip_hdr_with 0 (20 + nb_len p) (ip_id_counter s) proto our_ip (take 4 dst)))
    (20 + nb_len p) (ip_id_counter s) proto our_ip (take 4 dst)"
  have hl: "length hdr = 20" using arp(2) by (simp add: hdr_def ip_hdr_with_def our_ip_def)
  have pkt: "pkt = hdr @ take ?n (nb_data p)"
    using p(2) by (simp add: pkt_def ip_packet_def hdr_def Let_def)
  then have pl: "length pkt = 20 + ?n" using hl p(2) by simp
  let ?ib = "ib\<lparr>nb_data := pkt, nb_len := 20 + nb_len p\<rparr>"
  let ?s = "s\<lparr>net_heap := h1, ip_id_counter := ip_id_counter s + 1\<rparr>"
  have r': "ready dev ?s" using r by (simp add: driver_update)
  have fill: "ip_fill_header (replicate (20 + ?n) 0) (20 + nb_len p) (ip_id_counter s) proto dst = Some (hdr @ replicate ?n 0)"
    unfolding hdr_def by (rule ip_fill_header_eq [OF arp(2)])
  have copy: "memcpy_at (hdr @ replicate ?n 0) 20 (nb_data p) (uint (nb_len p)) = Some pkt"
    using p(2) hl by (simp add: memcpy_at_eq pkt)
  have found: "arp_cache_lookup dst (replicate 6 0) ?s = Some (0, mac)"
    using arp_lookup_eq [of ?s dst "replicate 6 0"] arp by simp
  have mac: "length mac = 6" by (rule arp_map_length [OF arp(1,3)])
  have ho: "heap_ok h1" using ib(3) by (simp add: owns_def)
  obtain fb s1 where s1: "ethernet_tx ops dev mac 0x0800 ?ib ?s = Some (0, s1)"
    "on_wire (sent dev ?s) (sent dev s1) (eth_frame (take 6 mac) (mac_of dev ?s) 0x0800 (take (unat (nb_len ?ib)) (nb_data ?ib)))"
    "owns fb (heap_live (net_heap ?s)) (net_heap s1)" "same_stack (?s\<lparr>net_heap := net_heap s1\<rparr>) s1"
    using ethernet_tx_ok [OF r', where p = ?ib and dest = mac and ty = "0x0800"] ho h(2) ib(4) len pl p(1) mac by auto
  have "ip_tx ops dev dst proto p s = Some (0, s1\<lparr>net_heap := netbuf_free (Some ?ib) (net_heap s1)\<rparr>)"
    using ib(1,2) fill copy found s1(1) by (simp add: ip_tx_def Let_def ETH_TYPE_IPV4_def)
  moreover have "owns fb (heap_live (net_heap s)) (netbuf_free (Some ?ib) (net_heap s1))"
    using ib(3) s1(3) by (intro release_after_send) simp_all
  moreover have "on_wire (sent dev s) (sent dev s1) (eth_frame mac (mac_of dev s) 0x0800 pkt)"
    using s1(2) mac len pl by (simp add: driver_update)
  moreover have "same_stack (s\<lparr>net_heap := netbuf_free (Some ?ib) (net_heap s1), ip_id_counter := ip_id_counter s + 1\<rparr>)
      (s1\<lparr>net_heap := netbuf_free (Some ?ib) (net_heap s1)\<rparr>)"
    using s1(4) by (simp add: same_stack_def)
  ultimately show ?thesis
    by (intro exI [of _ fb] exI [of _ "s1\<lparr>net_heap := netbuf_free (Some ?ib) (net_heap s1)\<rparr>"])
      (simp add: driver_update pkt_def [symmetric])
qed

end

lemma udp_packet_eq:
  "k = 8 + of_nat (length d) \<Longrightarrow>
    word_bytes (htons sp) @ word_bytes (htons dp) @ word_bytes (htons k) @ [0, 0] @ d = udp_packet sp dp d"
  by (simp add: udp_packet_def)

lemma udp_packet_length: "length (udp_packet sp dp d) = 8 + length d"
  by (simp add: udp_packet_def)

lemma icmp_echo_length: "length (icmp_echo ty d) = 4 + length d"
  by (simp add: icmp_echo_def)

context net_driver
begin

lemma udp_tx_ok:
  assumes r: "ready dev s" and h: "heap_ok (net_heap s)" "6 \<le> free_blocks (net_heap s)"
    and p: "42 + unat (nb_len p) \<le> mtu" "unat (nb_len p) \<le> length (nb_data p)"
    and arp: "arp_ok s" "4 \<le> length dst" "arp_map s (take 4 dst) = Some mac"
  shows "\<exists>fb s'. udp_tx ops dev dst sp dp p s = Some (0, s') \<and>
    on_wire (sent dev s) (sent dev s') (eth_frame mac (mac_of dev s) 0x0800 (ip_packet (ip_id_counter s) 17 our_ip (take 4 dst)
      (udp_packet sp dp (take (unat (nb_len p)) (nb_data p))))) \<and>
    owns fb (heap_live (net_heap s)) (net_heap s') \<and>
    same_stack (s\<lparr>net_heap := net_heap s', ip_id_counter := ip_id_counter s + 1\<rparr>) s'"
proof -
  let ?n = "unat (nb_len p)"
  have n: "42 + ?n \<le> 4096" using p(1) mtu_small by simp
  then have len: "unat (8 + nb_len p) = 8 + ?n" by (subst unat_add_u16) simp_all
  obtain ub h1 where ub: "netbuf_alloc (8 + nb_len p) (net_heap s) = (Some ub, h1)"
    "nb_data ub = replicate (8 + ?n) 0" "owns ub (heap_live (net_heap s)) h1" "free_blocks (net_heap s) = free_blocks h1 + 2"
    by (rule netbuf_alloc_ok [OF h(1), of "8 + nb_len p"]) (use h(2) len n in auto)
  define pkt where "pkt = udp_packet sp dp (take ?n (nb_data p))"
  have pl: "length pkt = 8 + ?n" using p(2) by (simp add: pkt_def udp_packet_length)
  let ?ub = "ub\<lparr>nb_data := pkt, nb_len := 8 + nb_len p\<rparr>"
  let ?s = "s\<lparr>net_heap := h1\<rparr>"
  have copy: "memcpy_at (word_bytes (htons sp) @ word_bytes (htons dp) @ word_bytes (htons (8 + nb_len p)) @ [0, 0] @ replicate ?n 0)
      8 (nb_data p) (uint (nb_len p)) = Some pkt"
    using p(2) by (simp add: memcpy_at_eq pkt_def udp_packet_def word_bytes_def)
  have ho: "heap_ok h1" using ub(3) by (simp add: owns_def)
  obtain fb s1 where s1: "ip_tx ops dev dst 17 ?ub ?s = Some (0, s1)"
    "on_wire (sent dev ?s) (sent dev s1) (eth_frame mac (mac_of dev ?s) 0x0800
      (ip_packet (ip_id_counter ?s) 17 our_ip (take 4 dst) (take (unat (nb_len ?ub)) (nb_data ?ub))))"
    "owns fb (heap_live (net_heap ?s)) (net_heap s1)"
    "same_stack (?s\<lparr>net_heap := net_heap s1, ip_id_counter := ip_id_counter ?s + 1\<rparr>) s1"
    using ip_tx_ok [of dev ?s ?ub dst mac 17] r ho h(2) ub(4) len pl p(1) arp by (auto simp: driver_update)
  let ?h = "netbuf_free (Some ?ub) (net_heap s1)"
  have "udp_tx ops dev dst sp dp p s = Some (0, s1\<lparr>net_heap := ?h\<rparr>)"
    using ub(1,2) copy s1(1) by (simp add: udp_tx_def Let_def udp_fill_header_eq IP_PROTO_UDP_def)
  moreover have "owns fb (heap_live (net_heap s)) ?h"
    using ub(3) s1(3) by (intro release_after_send) simp_all
  moreover have "same_stack (s\<lparr>net_heap := ?h, ip_id_counter := ip_id_counter s + 1\<rparr>) (s1\<lparr>net_heap := ?h\<rparr>)"
    using s1(4) by (simp add: same_stack_def)
  ultimately show ?thesis
    using s1(2) len pl
    by (intro exI [of _ fb] exI [of _ "s1\<lparr>net_heap := ?h\<rparr>"]) (simp add: driver_update pkt_def [symmetric])
qed

lemma icmp_echo_reply_ok:
  assumes r: "ready dev s" and h: "heap_ok (net_heap s)" "6 \<le> free_blocks (net_heap s)"
    and p: "34 + n \<le> mtu" "8 \<le> n" "n \<le> length req"
    and arp: "arp_ok s" "16 \<le> length hdr" "arp_map s (take 4 (drop 12 hdr)) = Some mac"
  shows "\<exists>fb s'. icmp_echo_reply ops dev hdr req (int n) s = Some (0, s') \<and>
    on_wire (sent dev s) (sent dev s') (eth_frame mac (mac_of dev s) 0x0800 (ip_packet (ip_id_counter s) 1 our_ip (take 4 (drop 12 hdr))
      (icmp_echo 0 (take (n - 4) (drop 4 req))))) \<and>
    owns fb (heap_live (net_heap s)) (net_heap s') \<and>
    same_stack (s\<lparr>net_heap := net_heap s', ip_id_counter := ip_id_counter s + 1\<rparr>) s'"
proof -
  have n: "34 + n \<le> 4096" using p(1) mtu_small by simp
  then have len: "unat (of_nat n :: u16) = n" by (simp add: unsigned_of_nat take_bit_nat_eq_self_iff)
  obtain rb h1 where rb: "netbuf_alloc (of_nat n) (net_heap s) = (Some rb, h1)"
    "nb_data rb = replicate n 0" "owns rb (heap_live (net_heap s)) h1" "free_blocks (net_heap s) = free_blocks h1 + 2"
    by (rule netbuf_alloc_ok [OF h(1), of "of_nat n"]) (use h(2) len n p(2) in auto)
  define pkt where "pkt = icmp_echo 0 (take (n - 4) (drop 4 req))"
  have pl: "length pkt = n" using p by (simp add: pkt_def icmp_echo_length)
  let ?rb = "rb\<lparr>nb_data := pkt, nb_len := of_nat n\<rparr>"
  let ?s = "s\<lparr>net_heap := h1\<rparr>"
  have fill: "icmp_fill_reply (replicate n 0) req (int n) = Some pkt"
    unfolding pkt_def by (rule icmp_fill_reply_eq) (use p n in simp_all)
  have ho: "heap_ok h1" using rb(3) by (simp add: owns_def)
  have l4: "4 \<le> length hdr - 12" using arp(2) by simp
  obtain fb s1 where s1: "ip_tx ops dev (drop 12 hdr) 1 ?rb ?s = Some (0, s1)"
    "on_wire (sent dev ?s) (sent dev s1) (eth_frame mac (mac_of dev ?s) 0x0800
      (ip_packet (ip_id_counter ?s) 1 our_ip (take 4 (drop 12 hdr)) (take (unat (nb_len ?rb)) (nb_data ?rb))))"
    "owns fb (heap_live (net_heap ?s)) (net_heap s1)"
    "same_stack (?s\<lparr>net_heap := net_heap s1, ip_id_counter := ip_id_counter ?s + 1\<rparr>) s1"
    using ip_tx_ok [of dev ?s ?rb "drop 12 hdr" mac 1] r ho h(2) rb(4) len pl p(1) arp(1,3) l4 by (auto simp: driver_update)
  let ?h = "netbuf_free (Some ?rb) (net_heap s1)"
  have "icmp_echo_reply ops dev hdr req (int n) s = Some (0, s1\<lparr>net_heap := ?h\<rparr>)"
    using rb(1,2) fill s1(1) by (simp add: icmp_echo_reply_def Let_def IP_PROTO_ICMP_def)
  moreover have "owns fb (heap_live (net_heap s)) ?h"
    using rb(3) s1(3) by (intro release_after_send) simp_all
  moreover have "same_stack (s\<lparr>net_heap := ?h, ip_id_counter := ip_id_counter s + 1\<rparr>) (s1\<lparr>net_heap := ?h\<rparr>)"
    using s1(4) by (simp add: same_stack_def)
  ultimately show ?thesis
    using s1(2) len pl
    by (intro exI [of _ fb] exI [of _ "s1\<lparr>net_heap := ?h\<rparr>"]) (simp add: driver_update pkt_def [symmetric])
qed

lemma arp_send_reply_ok:
  assumes r: "ready dev s" and h: "heap_ok (net_heap s)" "4 \<le> free_blocks (net_heap s)" "42 \<le> mtu" "28 \<le> length req"
  shows "\<exists>fb s'. arp_send_reply ops dev req s = Some (0, s') \<and>
    on_wire (sent dev s) (sent dev s') (eth_frame (take 6 (drop 8 req)) (mac_of dev s) 0x0806
      (arp_packet 2 (mac_of dev s) our_ip (take 6 (drop 8 req)) (take 4 (drop 14 req)))) \<and>
    owns fb (heap_live (net_heap s)) (net_heap s') \<and> same_stack (s\<lparr>net_heap := net_heap s'\<rparr>) s'"
proof -
  obtain rb h1 where rb: "netbuf_alloc 28 (net_heap s) = (Some rb, h1)"
    "nb_data rb = replicate 28 0" "owns rb (heap_live (net_heap s)) h1" "free_blocks (net_heap s) = free_blocks h1 + 2"
    by (rule netbuf_alloc_ok [OF h(1), of 28]) (use h(2) in auto)
  obtain d where d: "net_devs s dev = Some d" "length (nd_hwaddr d) = 6" using ready_device [OF r] by blast
  then have m: "mac_of dev s = nd_hwaddr d" by (simp add: mac_of_def)
  define pkt where "pkt = arp_packet 2 (nd_hwaddr d) our_ip (take 6 (drop 8 req)) (take 4 (drop 14 req))"
  have pl: "length pkt = 28" using h(4) d(2) by (simp add: pkt_def arp_packet_def our_ip_def)
  have fill: "arp_fill_reply (replicate 28 0) (nd_hwaddr d) req = Some pkt"
    unfolding pkt_def by (rule arp_fill_reply_eq [OF d(2) h(4)])
  let ?rb = "rb\<lparr>nb_data := pkt, nb_len := 28\<rparr>"
  let ?s = "s\<lparr>net_heap := h1\<rparr>"
  have ho: "heap_ok h1" using rb(3) by (simp add: owns_def)
  have l6: "6 \<le> length req - 8" using h(4) by simp
  obtain fb s1 where s1: "ethernet_tx ops dev (drop 8 req) 0x0806 ?rb ?s = Some (0, s1)"
    "on_wire (sent dev ?s) (sent dev s1) (eth_frame (take 6 (drop 8 req)) (mac_of dev ?s) 0x0806 (take (unat (nb_len ?rb)) (nb_data ?rb)))"
    "owns fb (heap_live (net_heap ?s)) (net_heap s1)" "same_stack (?s\<lparr>net_heap := net_heap s1\<rparr>) s1"
    using ethernet_tx_ok [of dev ?s ?rb "drop 8 req" "0x0806"] r ho h rb(4) pl l6 by (auto simp: driver_update)
  let ?h = "netbuf_free (Some ?rb) (net_heap s1)"
  have "arp_send_reply ops dev req s = Some (0, s1\<lparr>net_heap := ?h\<rparr>)"
    using rb(1,2) d(1) fill s1(1) by (simp add: arp_send_reply_def Let_def ETH_TYPE_ARP_def)
  moreover have "owns fb (heap_live (net_heap s)) ?h"
    using rb(3) s1(3) by (intro release_after_send) simp_all
  moreover have "same_stack (s\<lparr>net_heap := ?h\<rparr>) (s1\<lparr>net_heap := ?h\<rparr>)"
    using s1(4) by (simp add: same_stack_def)
  ultimately show ?thesis
    using s1(2) pl m
    by (intro exI [of _ fb] exI [of _ "s1\<lparr>net_heap := ?h\<rparr>"]) (simp add: driver_update pkt_def)
qed

end

subsection \<open>Receiving\<close>

lemma ip_hdr_verifies:
  "length src = 4 \<Longrightarrow> length dst = 4 \<Longrightarrow>
    rfc1071 (ip_hdr_with (rfc1071 (ip_hdr_with 0 tot ident proto src dst)) tot ident proto src dst) = 0"
  unfolding ip_hdr_with_def by (rule rfc1071_verifies) simp

lemma icmp_echo_verifies: "rfc1071 (icmp_echo ty body) = 0"
  unfolding icmp_echo_def by (rule rfc1071_verifies) simp

lemma rd16_net_short:
  assumes "i + 1 < length xs"
  shows "rd16 xs i = Some (htons (of_nat (net_short xs i)))"
proof -
  have "htons (bytes_word (xs ! i) (xs ! (i + 1))) = bytes_word (xs ! (i + 1)) (xs ! i)"
    by (rule bit_word_eqI) (auto simp: bit_htons bytes_word_def bit_simps dest: bit_imp_le_length)
  also have "\<dots> = of_nat (unat \<dots>)" by simp
  also have "\<dots> = of_nat (net_short xs i)" unfolding unat_bytes_word net_short_def by (simp only: add.commute)
  finally have "bytes_word (xs ! i) (xs ! (i + 1)) = htons (of_nat (net_short xs i))" by (metis htons_htons)
  then show ?thesis using assms by (simp add: rd16_Some)
qed

lemma net_short_htons:
  assumes "take 2 (drop i xs) = word_bytes (htons w)"
  shows "net_short xs i = unat w"
proof -
  have "length (take 2 (drop i xs)) = 2" using assms by simp
  then have l: "i + 1 < length xs" by simp
  have "xs ! i = take 2 (drop i xs) ! 0" "xs ! (i + 1) = take 2 (drop i xs) ! 1" using l by simp_all
  then have "xs ! i = ucast (drop_bit 8 w)" "xs ! (i + 1) = ucast w" unfolding assms word_bytes_htons by simp_all
  then show ?thesis
    using unat_bytes_word [of "ucast w" "ucast (drop_bit 8 w)"] by (simp add: net_short_def)
qed

lemma version_byte:
  assumes "unat (v :: u8) div 16 = 4"
  shows "drop_bit 4 v AND 0x0F = 4" "uint (v AND 0x0F) * 4 = int (4 * (unat v mod 16))"
proof -
  have m: "(0x0F :: u8) = mask 4" by (simp add: mask_eq_exp_minus_1)
  have "drop_bit 4 v = 4" using assms by (intro word_eq_unatI) (simp add: drop_bit_eq_div unat_div)
  then show "drop_bit 4 v AND 0x0F = 4" by simp
  have "unat (v AND 0x0F) = unat v mod 16"
    unfolding m by (simp add: take_bit_eq_mask [symmetric] take_bit_eq_mod unat_mod)
  then show "uint (v AND 0x0F) * 4 = int (4 * (unat v mod 16))" by (simp add: uint_nat)
qed

lemma ip_rx_packet:
  assumes h: "ip_header proto src our_ip n hdr" "length hdr + n < 65536"
    and buf: "nb_data buf = hdr @ d" "20 \<le> nb_len buf"
  defines "payload \<equiv> \<lparr>nb_addr = 0, nb_data_addr = nb_data_addr buf + of_nat (length hdr), nb_data = d,
                      nb_len = of_nat n, nb_total_len = of_nat n\<rparr>"
  shows "ip_rx ops dev buf s =
    (if proto = IP_PROTO_ICMP then icmp_rx ops dev (nb_data buf) payload s
     else if proto = IP_PROTO_UDP then udp_rx (nb_data buf) payload s
     else if proto = IP_PROTO_TCP then Some (0, s) else Some (-1, s))"
proof -
  note h' = h(1) [unfolded ip_header_def]
  let ?v = "hdr ! 0"
  have l: "20 \<le> length hdr" "length hdr \<le> 60" using h' by auto
  have v: "drop_bit 4 ?v AND 0x0F = 4" "uint (?v AND 0x0F) * 4 = int (length hdr)"
    using version_byte [of ?v] h' by simp_all
  have ck: "ip_checksum (nb_data buf) (int (length hdr)) = Some 0"
    using ip_checksum_take [of "length hdr" "nb_data buf"] l h' by (simp add: buf(1))
  have "take 4 (drop 16 (nb_data buf)) = our_ip" using h' l by (simp add: buf(1))
  then have ours: "is_our_ip (drop 16 (nb_data buf)) = Some True"
    using l by (simp add: is_our_ip_def rd_bytes_def buf(1) our_ip_def)
  have ne: "hdr \<noteq> []" using l by auto
  have "\<not> nb_len buf < 20" using buf(2) by (simp add: not_less)
  moreover have "rd (nb_data buf) 0 = Some ?v" "rd (nb_data buf) 9 = Some proto"
    using h' l ne by (simp_all add: buf(1) rd_def nth_append)
  moreover have "net_short (nb_data buf) 2 = length hdr + n" using h' l by (simp add: buf(1) net_short_def nth_append)
  then have "rd16 (nb_data buf) 2 = Some (htons (of_nat (length hdr + n)))"
    using rd16_net_short [of 2 "nb_data buf"] l by (simp add: buf(1) del: of_nat_add)
  ultimately show ?thesis
    using ck ours v l buf(1) by (simp add: ip_rx_def payload_def Let_def)
qed

lemma udp_rx_packet:
  assumes "udp_header sp dp (length d) uh" "8 + length d < 65536" "nb_data buf = uh @ d @ rest" "nb_len buf = 8 + of_nat (length d)"
  shows "udp_rx hdr buf s =
    do { (_, ss) \<leftarrow> socket_deliver_udp dp (d @ rest) (int (length d)) (drop 12 hdr) sp (sockets s);
         Some (0, s\<lparr>sockets := ss\<rparr>) }"
proof -
  note u = assms(1) [unfolded udp_header_def]
  have len: "unat (8 + of_nat (length d) :: u16) = 8 + length d"
    using assms(2) by (subst unat_add_u16) (simp_all add: unsigned_of_nat take_bit_nat_eq_self)
  have "\<not> nb_len buf < 8" using len assms(4) by (simp add: word_less_nat_alt)
  moreover have "uint (nb_len buf) - 8 = int (length d)" using len assms(4) by (simp add: uint_nat)
  moreover have "rd16 (nb_data buf) i = Some (htons (of_nat (net_short uh i)))" if "i < 7" for i
    using rd16_net_short [of i "nb_data buf"] u that by (simp add: assms(3) net_short_def nth_append)
  then have "rd16 (nb_data buf) 0 = Some (htons sp)" "rd16 (nb_data buf) 2 = Some (htons dp)"
    "rd16 (nb_data buf) 4 = Some (htons (nb_len buf))"
    using u assms(4) by simp_all
  moreover have "drop 8 (nb_data buf) = d @ rest" using u by (simp add: assms(3))
  ultimately show ?thesis by (simp add: udp_rx_def)
qed

text \<open>What the stack sends has these headers.\<close>

lemma ip_packet_header:
  assumes "length src = 4" "length dst = 4" "20 + length d < 65536"
  obtains hdr where "ip_packet ident proto src dst d = hdr @ d" "length hdr = 20" "ip_header proto src dst (length d) hdr"
proof -
  define tot :: u16 where "tot = 20 + of_nat (length d)"
  define hdr where "hdr = ip_hdr_with (rfc1071 (ip_hdr_with 0 tot ident proto src dst)) tot ident proto src dst"
  have tot: "unat tot = 20 + length d"
    unfolding tot_def using assms(3) by (subst unat_add_u16) (simp_all add: unsigned_of_nat take_bit_nat_eq_self)
  have l: "length hdr = 20" using assms by (simp add: hdr_def ip_hdr_with_def)
  have "net_short hdr 2 = unat tot" by (rule net_short_htons) (simp add: hdr_def ip_hdr_with_def)
  moreover have "hdr ! 0 = 0x45" "hdr ! 9 = proto" "take 4 (drop 12 hdr) = src" "take 4 (drop 16 hdr) = dst"
    using assms by (simp_all add: hdr_def ip_hdr_with_def word_bytes_def)
  moreover have "rfc1071 hdr = 0" unfolding hdr_def by (rule ip_hdr_verifies [OF assms(1,2)])
  ultimately have "ip_header proto src dst (length d) hdr" using l tot assms(2) by (simp add: ip_header_def)
  then show thesis using l by (intro that [of hdr]) (simp_all add: ip_packet_def hdr_def tot_def Let_def)
qed

lemma udp_packet_header:
  assumes "8 + length d < 65536"
  obtains uh where "udp_packet sp dp d = uh @ d" "udp_header sp dp (length d) uh"
proof -
  define len :: u16 where "len = 8 + of_nat (length d)"
  define uh where "uh = word_bytes (htons sp) @ word_bytes (htons dp) @ word_bytes (htons len) @ [0, 0]"
  have "unat len = 8 + length d"
    unfolding len_def using assms by (subst unat_add_u16) (simp_all add: unsigned_of_nat take_bit_nat_eq_self)
  moreover have "net_short uh 0 = unat sp" "net_short uh 2 = unat dp" "net_short uh 4 = unat len"
    by (rule net_short_htons, simp add: uh_def)+
  ultimately have "udp_header sp dp (length d) uh" by (simp add: udp_header_def uh_def)
  then show thesis by (intro that [of uh]) (simp_all add: udp_packet_def uh_def len_def)
qed

lemma ethernet_rx_frame:
  assumes "length dst = 6" "length src = 6" "nb_data buf = eth_frame dst src ty d"
  defines "b' \<equiv> buf\<lparr>nb_data := d, nb_data_addr := nb_data_addr buf + 14, nb_len := nb_len buf - 14\<rparr>"
  shows "ethernet_rx ops dev buf s =
    (if ty = 0x0800 then do { (res, s) \<leftarrow> ip_rx ops dev b' s; Some (res, b', s) }
     else if ty = 0x0806 then do { (res, s) \<leftarrow> arp_rx ops dev b' s; Some (res, b', s) }
     else Some (-1, b', s))"
proof -
  obtain a b where t: "word_bytes (htons ty) = [a, b]" by (simp add: word_bytes_def)
  obtain d1 d2 d3 d4 d5 d6 where d: "dst = [d1, d2, d3, d4, d5, d6]" using assms(1) length_6 [of dst] by auto
  obtain s1 s2 s3 s4 s5 s6 where s: "src = [s1, s2, s3, s4, s5, s6]" using assms(2) length_6 [of src] by auto
  have data: "nb_data buf = [d1, d2, d3, d4, d5, d6, s1, s2, s3, s4, s5, s6, a, b] @ d"
    using assms(3) by (simp add: eth_frame_def t d s)
  have "rd16 (nb_data buf) 12 = Some (htons ty)" "rd_bytes (nb_data buf) 0 14 \<noteq> None" "drop 14 (nb_data buf) = d"
    by (simp_all add: data cell_simps bytes_word_word_bytes [OF t] rd_bytes_def)
  then show ?thesis by (auto simp: ethernet_rx_def b'_def Let_def)
qed

lemma arp_rx_request:
  assumes "length smac = 6" "length sip = 4" "length tmac = 6"
    and "nb_data buf = arp_packet 1 smac sip tmac our_ip @ rest" "28 \<le> nb_len buf"
    and "arp_cache_update (drop 14 (nb_data buf)) (drop 8 (nb_data buf)) s = Some s1"
  shows "arp_rx ops dev buf s = arp_send_reply ops dev (nb_data buf) s1"
    "take 6 (drop 8 (nb_data buf)) = smac" "take 4 (drop 14 (nb_data buf)) = sip" "28 \<le> length (nb_data buf)"
proof -
  obtain a1 a2 a3 a4 a5 a6 where a: "smac = [a1, a2, a3, a4, a5, a6]" using assms(1) length_6 [of smac] by auto
  obtain b1 b2 b3 b4 where b: "sip = [b1, b2, b3, b4]" using assms(2) length_4 [of sip] by auto
  obtain c1 c2 c3 c4 c5 c6 where c: "tmac = [c1, c2, c3, c4, c5, c6]" using assms(3) length_6 [of tmac] by auto
  have data: "nb_data buf = [0, 1, 8, 0, 6, 4, 0, 1, a1, a2, a3, a4, a5, a6, b1, b2, b3, b4, c1, c2, c3, c4, c5, c6, 10, 0, 2, 15] @ rest"
    using assms(4) by (simp add: arp_packet_def a b c our_ip_def word_bytes_htons drop_bit_eq_div)
  have w: "bytes_word 0 1 = htons 1" "bytes_word 8 0 = htons 0x0800"
    by (simp_all add: bytes_word_def htons_def push_bit_eq_mult drop_bit_eq_div)
  have "rd16 (nb_data buf) 0 = Some (htons 1)" "rd16 (nb_data buf) 2 = Some (htons 0x0800)" "rd16 (nb_data buf) 6 = Some (htons 1)"
    "rd_bytes (nb_data buf) 0 28 \<noteq> None" "is_our_ip (drop 24 (nb_data buf)) = Some True"
    unfolding data by (simp_all add: cell_simps w rd_bytes_def is_our_ip_def our_ip_def)
  moreover have "\<not> nb_len buf < 28" using assms(5) by (simp add: not_less)
  ultimately show "arp_rx ops dev buf s = arp_send_reply ops dev (nb_data buf) s1"
    using assms(6) by (auto simp: arp_rx_def Let_def ARP_HW_ETHERNET_def ARP_PRO_IPV4_def ARP_OP_REQUEST_def)
qed (use assms in \<open>simp_all add: arp_packet_def our_ip_def word_bytes_def\<close>)

lemma icmp_rx_echo:
  assumes "nb_data buf = icmp_echo 8 body @ rest" "nb_len buf = of_nat (4 + length body)" "4 \<le> length body" "length body \<le> 4096"
  shows "icmp_rx ops dev hdr buf s = icmp_echo_reply ops dev hdr (nb_data buf) (int (4 + length body)) s"
proof -
  have len: "unat (nb_len buf) = 4 + length body"
    unfolding assms(2) using assms(4) by (simp only: unsigned_of_nat) (simp add: take_bit_nat_eq_self)
  have "ip_checksum (nb_data buf) (int (4 + length body)) = Some (rfc1071 (take (4 + length body) (nb_data buf)))"
    using assms(4) by (intro ip_checksum_take) (simp_all add: assms(1) icmp_echo_length)
  then have "ip_checksum (nb_data buf) (int (4 + length body)) = Some 0"
    by (simp add: assms(1) icmp_echo_length icmp_echo_verifies)
  moreover have "\<not> nb_len buf < 8" using len assms(3) by (simp add: word_less_nat_alt)
  moreover have "uint (nb_len buf) = int (4 + length body)" using len by (metis uint_nat)
  moreover have "rd (nb_data buf) 0 = Some 8" by (simp add: assms(1) icmp_echo_def rd_def)
  ultimately show ?thesis by (simp add: icmp_rx_def ICMP_TYPE_ECHO_REQUEST_def)
qed

lemma count_rx:
  assumes "net_devs s dev = Some d"
  shows "\<exists>t. upd_dev dev (\<lambda>d. d\<lparr>nd_stats := f d\<rparr>) s = Some t \<and> same_stack s t \<and> net_drv t = net_drv s \<and>
    map_option (\<lambda>d. d\<lparr>nd_stats := zero_stats\<rparr>) (net_devs t dev) =
    map_option (\<lambda>d. d\<lparr>nd_stats := zero_stats\<rparr>) (net_devs s dev)"
  using assms by (auto simp: upd_dev_def same_stack_def)

text \<open>The payload of a received frame, seen from the buffer that held the frame.\<close>

definition stripped :: "netbuf \<Rightarrow> netbuf" where
  "stripped b = b\<lparr>nb_data := drop 14 (nb_data b), nb_data_addr := nb_data_addr b + 14, nb_len := nb_len b - 14\<rparr>"

lemma same_stack_trans: "same_stack s t \<Longrightarrow> same_stack t u \<Longrightarrow> same_stack s u"
  by (simp add: same_stack_def)

lemma same_stack_arp:
  assumes "same_stack s t"
  shows "arp_map t = arp_map s" "arp_ok t = arp_ok s"
  using assms by (auto simp: same_stack_def arp_map_def arp_ok_def)

lemma of_nat_le_u16: "k \<le> n \<Longrightarrow> n < 65536 \<Longrightarrow> (of_nat k :: u16) \<le> of_nat n"
  by (simp add: word_le_nat_alt unsigned_of_nat take_bit_nat_eq_self)

lemma netdev_rx_frame:
  assumes "net_devs s dev = Some d" "dev \<noteq> 0" "length dst = 6" "length src = 6" "nb_data buf = eth_frame dst src ty p"
  obtains t where "same_stack s t" "net_drv t = net_drv s"
    "map_option (\<lambda>d. d\<lparr>nd_stats := zero_stats\<rparr>) (net_devs t dev) = map_option (\<lambda>d. d\<lparr>nd_stats := zero_stats\<rparr>) (net_devs s dev)"
    "netdev_rx ops dev (Some buf) s =
       do { (r, s') \<leftarrow> (if ty = 0x0800 then ip_rx ops dev (stripped buf) t
                        else if ty = 0x0806 then arp_rx ops dev (stripped buf) t else Some (-1, t));
            Some (if r < 0 then -1 else 0, Some (stripped buf), s') }"
    "nb_data (stripped buf) = p"
proof -
  let ?f = "\<lambda>d. (nd_stats d)\<lparr>rx_packets := rx_packets (nd_stats d) + 1, rx_bytes := rx_bytes (nd_stats d) + ucast (nb_len buf)\<rparr>"
  obtain t where t: "upd_dev dev (\<lambda>d. d\<lparr>nd_stats := ?f d\<rparr>) s = Some t" "same_stack s t" "net_drv t = net_drv s"
    "map_option (\<lambda>d. d\<lparr>nd_stats := zero_stats\<rparr>) (net_devs t dev) = map_option (\<lambda>d. d\<lparr>nd_stats := zero_stats\<rparr>) (net_devs s dev)"
    using count_rx [OF assms(1), of ?f] by blast
  have p: "drop 14 (nb_data buf) = p" using assms(3-5) by (simp add: eth_frame_def)
  then have st: "stripped buf = buf\<lparr>nb_data := p, nb_data_addr := nb_data_addr buf + 14, nb_len := nb_len buf - 14\<rparr>"
    by (simp add: stripped_def)
  have "netdev_rx ops dev (Some buf) s =
      do { (r, b, s') \<leftarrow> ethernet_rx ops dev buf t; Some (if r < 0 then -1 else 0, Some b, s') }"
    using t(1) assms(2) by (simp add: netdev_rx_def)
  then show thesis
    by (intro that [OF t(2-4)])
      (simp_all add: st ethernet_rx_frame [OF assms(3-5)] split_def)
qed

context net_driver
begin

lemma ping:
  assumes r: "ready dev s" "dev \<noteq> 0" and h: "heap_ok (net_heap s)" "6 \<le> free_blocks (net_heap s)"
    and a: "arp_ok s" "arp_map s src = Some mac" "length src = 4"
    and f: "length dmac = 6" "length smac = 6" "4 \<le> length body" "38 + length body \<le> mtu" "ip_header 1 src our_ip (4 + length body) hdr"
      "nb_data buf = eth_frame dmac smac 0x0800 (hdr @ icmp_echo 8 body @ pad)" "34 \<le> unat (nb_len buf)"
  shows "\<exists>fb s'. netdev_rx ops dev (Some buf) s = Some (0, Some (stripped buf), s') \<and>
    on_wire (sent dev s) (sent dev s') (eth_frame mac (mac_of dev s) 0x0800
      (ip_packet (ip_id_counter s) 1 our_ip src (icmp_echo 0 body))) \<and>
    owns fb (heap_live (net_heap s)) (net_heap s') \<and>
    same_stack (s\<lparr>net_heap := net_heap s', ip_id_counter := ip_id_counter s + 1\<rparr>) s'"
proof -
  obtain d where d: "net_devs s dev = Some d" using ready_device [OF r(1)] by blast
  let ?p = "hdr @ icmp_echo 8 body @ pad"
  let ?pb = "\<lparr>nb_addr = 0, nb_data_addr = nb_data_addr (stripped buf) + of_nat (length hdr), nb_data = icmp_echo 8 body @ pad,
              nb_len = of_nat (4 + length body), nb_total_len = of_nat (4 + length body)\<rparr>"
  have hl: "20 \<le> length hdr" "length hdr \<le> 60" using f(5) by (auto simp: ip_header_def)
  have n: "38 + length body \<le> 4096" using f(4) mtu_small by simp
  have src: "take 4 (drop 12 ?p) = src" "16 \<le> length ?p"
    using f(5) hl by (simp_all add: ip_header_def)
  have l: "20 \<le> nb_len (stripped buf)"
    using f(7) by (simp add: stripped_def word_le_nat_alt unat_sub)
  obtain t where t: "same_stack s t" "net_drv t = net_drv s"
    "map_option (\<lambda>d. d\<lparr>nd_stats := zero_stats\<rparr>) (net_devs t dev) = map_option (\<lambda>d. d\<lparr>nd_stats := zero_stats\<rparr>) (net_devs s dev)"
    "netdev_rx ops dev (Some buf) s =
       do { (r, s') \<leftarrow> ip_rx ops dev (stripped buf) t; Some (if r < 0 then -1 else 0, Some (stripped buf), s') }"
    and p: "nb_data (stripped buf) = ?p"
    by (rule netdev_rx_frame [OF d r(2) f(1,2,6), of ops]) simp
  note t' = driver_local [OF t(2,3)] same_stack_arp [OF t(1)] same_stack_mac [OF t(1), of dev] same_stackD [OF t(1)]
  have "ip_rx ops dev (stripped buf) t = icmp_rx ops dev ?p ?pb t"
    by (subst ip_rx_packet [OF f(5) _ p l]) (use n hl in \<open>simp_all add: p IP_PROTO_ICMP_def\<close>)
  also have "\<dots> = icmp_echo_reply ops dev ?p (nb_data ?pb) (int (4 + length body)) t"
    by (rule icmp_rx_echo [where rest = pad]) (use f(3) n in \<open>simp_all add: icmp_echo_length\<close>)
  finally have rx: "ip_rx ops dev (stripped buf) t = icmp_echo_reply ops dev ?p (nb_data ?pb) (int (4 + length body)) t" .
  have body: "take (4 + length body - 4) (drop 4 (nb_data ?pb)) = body"
    by (simp add: icmp_echo_def word_bytes_def)
  obtain fb s' where s': "icmp_echo_reply ops dev ?p (nb_data ?pb) (int (4 + length body)) t = Some (0, s')"
    "on_wire (sent dev t) (sent dev s') (eth_frame mac (mac_of dev t) 0x0800 (ip_packet (ip_id_counter t) 1 our_ip src (icmp_echo 0 body)))"
    "owns fb (heap_live (net_heap t)) (net_heap s')"
    "same_stack (t\<lparr>net_heap := net_heap s', ip_id_counter := ip_id_counter t + 1\<rparr>) s'"
    using icmp_echo_reply_ok [of dev t "4 + length body" "nb_data ?pb" ?p mac] r h a f(3,4) t' src body
    by (auto simp: icmp_echo_length)
  have "same_stack (s\<lparr>net_heap := net_heap s', ip_id_counter := ip_id_counter s + 1\<rparr>) s'"
    using s'(4) t(1) t' by (simp add: same_stack_def)
  then show ?thesis
    using t(4) rx s' t' by (intro exI [of _ fb] exI [of _ s']) simp
qed

lemma arp_request:
  assumes r: "ready dev s" "dev \<noteq> 0" and h: "heap_ok (net_heap s)" "4 \<le> free_blocks (net_heap s)" "42 \<le> mtu"
    and a: "arp_ok s" "length sip = 4" "length smac = 6" "length tmac = 6"
    and f: "length dmac = 6" "length emac = 6" "nb_data buf = eth_frame dmac emac 0x0806 (arp_packet 1 smac sip tmac our_ip @ pad)"
      "42 \<le> unat (nb_len buf)"
  shows "\<exists>fb s'. netdev_rx ops dev (Some buf) s = Some (0, Some (stripped buf), s') \<and>
    on_wire (sent dev s) (sent dev s') (eth_frame smac (mac_of dev s) 0x0806 (arp_packet 2 (mac_of dev s) our_ip smac sip)) \<and>
    arp_ok s' \<and> arp_map s' sip = Some smac \<and> owns fb (heap_live (net_heap s)) (net_heap s') \<and>
    same_stack (s\<lparr>net_heap := net_heap s', net_arp_cache := net_arp_cache s', net_arp_next := net_arp_next s'\<rparr>) s'"
proof -
  obtain d where d: "net_devs s dev = Some d" using ready_device [OF r(1)] by blast
  have l: "28 \<le> nb_len (stripped buf)"
    using f(4) by (simp add: stripped_def word_le_nat_alt unat_sub)
  obtain t where t: "same_stack s t" "net_drv t = net_drv s"
    "map_option (\<lambda>d. d\<lparr>nd_stats := zero_stats\<rparr>) (net_devs t dev) = map_option (\<lambda>d. d\<lparr>nd_stats := zero_stats\<rparr>) (net_devs s dev)"
    "netdev_rx ops dev (Some buf) s =
       do { (r, s') \<leftarrow> arp_rx ops dev (stripped buf) t; Some (if r < 0 then -1 else 0, Some (stripped buf), s') }"
    and p: "nb_data (stripped buf) = arp_packet 1 smac sip tmac our_ip @ pad"
    by (rule netdev_rx_frame [OF d r(2) f(1-3), of ops]) simp
  note t' = driver_local [OF t(2,3)] same_stack_arp [OF t(1)] same_stack_mac [OF t(1), of dev] same_stackD [OF t(1)]
  let ?q = "nb_data (stripped buf)"
  have l': "4 \<le> length (drop 14 ?q)" "6 \<le> length (drop 8 ?q)"
    using a by (simp_all add: p arp_packet_def our_ip_def)
  obtain c n where u: "arp_cache_update (drop 14 ?q) (drop 8 ?q) t = Some (t\<lparr>net_arp_cache := c, net_arp_next := n\<rparr>)"
    "arp_ok (t\<lparr>net_arp_cache := c, net_arp_next := n\<rparr>)"
    "arp_map (t\<lparr>net_arp_cache := c, net_arp_next := n\<rparr>) (take 4 (drop 14 ?q)) = Some (take 6 (drop 8 ?q))"
    using arp_cache_update_ok [of t, OF _ l'] a(1) t' by auto
  let ?t = "t\<lparr>net_arp_cache := c, net_arp_next := n\<rparr>"
  note rx = arp_rx_request [OF a(3,2,4) p l u(1)]
  obtain fb s' where s': "arp_send_reply ops dev ?q ?t = Some (0, s')"
    "on_wire (sent dev t) (sent dev s') (eth_frame smac (mac_of dev t) 0x0806 (arp_packet 2 (mac_of dev t) our_ip smac sip))"
    "owns fb (heap_live (net_heap t)) (net_heap s')" "same_stack (?t\<lparr>net_heap := net_heap s'\<rparr>) s'"
    using arp_send_reply_ok [of dev ?t ?q] r(1) h t' rx(2-4) by (auto simp: driver_update)
  have "arp_ok s'" "arp_map s' sip = Some smac"
    using same_stack_arp [OF s'(4)] u(2,3) rx(2,3) by simp_all
  moreover have "same_stack (s\<lparr>net_heap := net_heap s', net_arp_cache := net_arp_cache s', net_arp_next := net_arp_next s'\<rparr>) s'"
    using s'(4) t(1) by (simp add: same_stack_def)
  ultimately show ?thesis
    using t(4) rx(1) s' t' by (intro exI [of _ fb] exI [of _ s']) simp
qed

end

text \<open>A UDP datagram for this host reaches the socket bound to its port.\<close>

lemma udp_frame_delivered:
  assumes dev: "net_devs s dev = Some d" "dev \<noteq> 0"
    and t: "table_ok (sockets s)" "i < 16" "so_in_use (sockets s ! i) \<noteq> 0" "so_bound_port (sockets s ! i) = dp" "dp \<noteq> 0"
      "length (received (sockets s ! i)) < 8"
    and f: "length dmac = 6" "length smac = 6" "length body \<le> 1500" "ip_header 17 src our_ip (8 + length body) hdr"
      "udp_header sp dp (length body) uh"
      "nb_data buf = eth_frame dmac smac 0x0800 (hdr @ uh @ body @ pad)" "34 \<le> unat (nb_len buf)"
  shows "\<exists>ss s'. netdev_rx ops dev (Some buf) s = Some (0, Some (stripped buf), s') \<and> same_stack (s\<lparr>sockets := ss\<rparr>) s' \<and>
    net_drv s' = net_drv s \<and>
    table_ok ss \<and> received (ss ! i) = received (sockets s ! i) @ [(body, src, sp)] \<and> (\<forall>j. j \<noteq> i \<longrightarrow> ss ! j = sockets s ! j)"
proof -
  let ?p = "hdr @ uh @ body @ pad"
  let ?pb = "\<lparr>nb_addr = 0, nb_data_addr = nb_data_addr (stripped buf) + of_nat (length hdr), nb_data = uh @ body @ pad,
              nb_len = of_nat (8 + length body), nb_total_len = of_nat (8 + length body)\<rparr>"
  have hl: "20 \<le> length hdr" "length hdr \<le> 60" using f(4) by (auto simp: ip_header_def)
  obtain t where st: "same_stack s t"
    "netdev_rx ops dev (Some buf) s =
       do { (r, s') \<leftarrow> ip_rx ops dev (stripped buf) t; Some (if r < 0 then -1 else 0, Some (stripped buf), s') }"
    "net_drv t = net_drv s"
    and p: "nb_data (stripped buf) = ?p"
    by (rule netdev_rx_frame [OF dev f(1,2,6), of ops]) simp
  define ip where "ip = drop 12 ?p"
  have src: "take 4 ip = src" "4 \<le> length ip"
    using f(4) hl by (simp_all add: ip_def ip_header_def)
  have l: "20 \<le> nb_len (stripped buf)" using f(7) by (simp add: stripped_def word_le_nat_alt unat_sub)
  have "ip_rx ops dev (stripped buf) t = udp_rx ?p ?pb t"
    by (subst ip_rx_packet [OF f(4) _ p l]) (use f(3) hl in \<open>simp_all add: p IP_PROTO_ICMP_def IP_PROTO_UDP_def\<close>)
  also have "\<dots> = do { (_, ss) \<leftarrow> socket_deliver_udp dp (body @ pad) (int (length body)) ip sp (sockets t);
      Some (0, t\<lparr>sockets := ss\<rparr>) }"
    unfolding ip_def by (rule udp_rx_packet [OF f(5)]) (use f(3) in simp_all)
  finally have rx: "ip_rx ops dev (stripped buf) t =
    do { (_, ss) \<leftarrow> socket_deliver_udp dp (body @ pad) (int (length body)) ip sp (sockets s); Some (0, t\<lparr>sockets := ss\<rparr>) }"
    using same_stackD [OF st(1)] by simp
  obtain ss where ss: "socket_deliver_udp dp (body @ pad) (int (length body)) ip sp (sockets s) = Some (0, ss)" "table_ok ss"
    "received (ss ! i) = received (sockets s ! i) @ [(body, src, sp)]" "\<forall>j. j \<noteq> i \<longrightarrow> ss ! j = sockets s ! j"
    using socket_deliver_bound(1) [OF t(1-5), of "int (length body)" "body @ pad" ip sp] t(6) f(3) src by auto
  have "netdev_rx ops dev (Some buf) s = Some (0, Some (stripped buf), t\<lparr>sockets := ss\<rparr>)" using st(2) rx ss(1) by simp
  moreover have "same_stack (s\<lparr>sockets := ss\<rparr>) (t\<lparr>sockets := ss\<rparr>)" using st(1) by (simp add: same_stack_def)
  ultimately show ?thesis using ss(2-4) st(3) by (intro exI [of _ ss] exI [of _ "t\<lparr>sockets := ss\<rparr>"]) simp
qed

context net_driver
begin

lemma sendto_ok:
  assumes r: "ready dev s" "dev \<noteq> 0" "netdev_get_by_index s 0 = Some dev"
    and h: "heap_ok (net_heap s)" "8 \<le> free_blocks (net_heap s)"
    and so: "socket_get fd (sockets s) = Some (Some so)"
    and b: "b \<noteq> []" "length b \<le> 1500" "42 + length b \<le> mtu"
    and arp: "arp_ok s" "4 \<le> length dst" "arp_map s (take 4 dst) = Some mac"
  shows "\<exists>fb s'. socket_sendto ops fd (Some b) (int (length b)) dst dp s = Some (int (length b), s') \<and>
    on_wire (sent dev s) (sent dev s') (eth_frame mac (mac_of dev s) 0x0800 (ip_packet (ip_id_counter s) 17 our_ip (take 4 dst)
      (udp_packet (so_bound_port so) dp b))) \<and>
    owns fb (heap_live (net_heap s)) (net_heap s') \<and>
    same_stack (s\<lparr>net_heap := net_heap s', ip_id_counter := ip_id_counter s + 1\<rparr>) s'"
proof -
  let ?n = "length b"
  have len: "unat (of_nat ?n :: u16) = ?n" using b(2) by (simp add: unsigned_of_nat take_bit_nat_eq_self)
  obtain pb h1 where pb: "netbuf_alloc (of_nat ?n) (net_heap s) = (Some pb, h1)"
    "nb_data pb = replicate ?n 0" "owns pb (heap_live (net_heap s)) h1" "free_blocks (net_heap s) = free_blocks h1 + 2"
    by (rule netbuf_alloc_ok [OF h(1), of "of_nat ?n"]) (use h(2) len b in auto)
  let ?pb = "pb\<lparr>nb_data := b, nb_len := of_nat ?n\<rparr>"
  let ?s = "s\<lparr>net_heap := h1\<rparr>"
  have ho: "heap_ok h1" using pb(3) by (simp add: owns_def)
  obtain fb s1 where s1: "udp_tx ops dev dst (so_bound_port so) dp ?pb ?s = Some (0, s1)"
    "on_wire (sent dev s) (sent dev s1) (eth_frame mac (mac_of dev s) 0x0800
      (ip_packet (ip_id_counter s) 17 our_ip (take 4 dst) (udp_packet (so_bound_port so) dp b)))"
    "owns fb (heap_live h1) (net_heap s1)"
    "same_stack (?s\<lparr>net_heap := net_heap s1, ip_id_counter := ip_id_counter s + 1\<rparr>) s1"
    using udp_tx_ok [of dev ?s ?pb dst mac "so_bound_port so" dp] r(1) ho h(2) pb(4) len b arp by (auto simp: driver_update)
  let ?h = "netbuf_free (Some ?pb) (net_heap s1)"
  have "memcpy_at (replicate ?n 0) 0 b (int ?n) = Some b" by (simp add: memcpy_at_eq)
  then have "socket_sendto ops fd (Some b) (int ?n) dst dp s = Some (int ?n, s1\<lparr>net_heap := ?h\<rparr>)"
    using pb(1,2) s1(1) so r(2,3) b by (simp add: socket_sendto_def Let_def SOCKET_MAX_PACKET_SIZE_def)
  moreover have "owns fb (heap_live (net_heap s)) ?h"
    using pb(3) s1(3) by (intro release_after_send) simp_all
  moreover have "same_stack (s\<lparr>net_heap := ?h, ip_id_counter := ip_id_counter s + 1\<rparr>) (s1\<lparr>net_heap := ?h\<rparr>)"
    using s1(4) by (simp add: same_stack_def)
  ultimately show ?thesis
    using s1(2) by (intro exI [of _ fb] exI [of _ "s1\<lparr>net_heap := ?h\<rparr>"]) (simp add: driver_update)
qed

lemma ip_tx_unknown:
  assumes h: "heap_ok (net_heap s)" "4 \<le> free_blocks (net_heap s)"
    and p: "34 + unat (nb_len p) \<le> mtu" "unat (nb_len p) \<le> length (nb_data p)"
    and arp: "arp_ok s" "4 \<le> length dst" "arp_map s (take 4 dst) = None"
  shows "\<exists>s'. ip_tx ops dev dst proto p s = Some (-1, s')"
proof -
  let ?n = "unat (nb_len p)"
  have n: "34 + ?n \<le> 4096" using p(1) mtu_small by simp
  then have len: "unat (20 + nb_len p) = 20 + ?n" by (subst unat_add_u16) simp_all
  obtain ib h1 where ib: "netbuf_alloc (20 + nb_len p) (net_heap s) = (Some ib, h1)" "nb_data ib = replicate (20 + ?n) 0"
    by (rule netbuf_alloc_ok [OF h(1), of "20 + nb_len p"]) (use h(2) len n in auto)
  let ?s = "s\<lparr>net_heap := h1, ip_id_counter := ip_id_counter s + 1\<rparr>"
  obtain hdr where fill: "ip_fill_header (replicate (20 + ?n) 0) (20 + nb_len p) (ip_id_counter s) proto dst = Some (hdr @ replicate ?n 0)"
    "length hdr = 20"
    using ip_fill_header_eq [OF arp(2), of ?n] arp(2) by (auto simp: ip_hdr_with_def our_ip_def)
  have "memcpy_at (hdr @ replicate ?n 0) 20 (nb_data p) (uint (nb_len p)) \<noteq> None"
    using p(2) fill(2) by (simp add: memcpy_at_eq)
  moreover have "arp_cache_lookup dst (replicate 6 0) ?s = Some (-1, replicate 6 0)"
    using arp_lookup_eq [of ?s dst "replicate 6 0"] arp by simp
  ultimately show ?thesis using ib fill(1) by (auto simp: ip_tx_def Let_def)
qed

lemma udp_tx_unknown:
  assumes h: "heap_ok (net_heap s)" "6 \<le> free_blocks (net_heap s)"
    and p: "42 + unat (nb_len p) \<le> mtu" "unat (nb_len p) \<le> length (nb_data p)"
    and arp: "arp_ok s" "4 \<le> length dst" "arp_map s (take 4 dst) = None"
  shows "\<exists>s'. udp_tx ops dev dst sp dp p s = Some (-1, s')"
proof -
  let ?n = "unat (nb_len p)"
  have n: "42 + ?n \<le> 4096" using p(1) mtu_small by simp
  then have len: "unat (8 + nb_len p) = 8 + ?n" by (subst unat_add_u16) simp_all
  obtain ub h1 where ub: "netbuf_alloc (8 + nb_len p) (net_heap s) = (Some ub, h1)"
    "nb_data ub = replicate (8 + ?n) 0" "owns ub (heap_live (net_heap s)) h1" "free_blocks (net_heap s) = free_blocks h1 + 2"
    by (rule netbuf_alloc_ok [OF h(1), of "8 + nb_len p"]) (use h(2) len n in auto)
  let ?u = "word_bytes (htons sp) @ word_bytes (htons dp) @ word_bytes (htons (8 + nb_len p)) @ [0, 0] @ take ?n (nb_data p)"
  have copy: "memcpy_at (word_bytes (htons sp) @ word_bytes (htons dp) @ word_bytes (htons (8 + nb_len p)) @ [0, 0] @ replicate ?n 0)
      8 (nb_data p) (uint (nb_len p)) = Some ?u"
    using p(2) by (simp add: memcpy_at_eq word_bytes_def)
  let ?ub = "ub\<lparr>nb_data := ?u, nb_len := 8 + nb_len p\<rparr>"
  obtain s1 where "ip_tx ops dev dst 17 ?ub (s\<lparr>net_heap := h1\<rparr>) = Some (-1, s1)"
    using ip_tx_unknown [of "s\<lparr>net_heap := h1\<rparr>" ?ub dst dev 17] ub(3,4) h(2) p len arp by (auto simp: owns_def)
  then show ?thesis using ub(1,2) copy by (simp add: udp_tx_def Let_def udp_fill_header_eq IP_PROTO_UDP_def)
qed

text \<open>
  Sending never faults: on a machine without a device, or with one that is ready and room on the heap, for any
  descriptor, destination and length except the lengths the driver cannot take.
\<close>

lemma sendto_total:
  assumes dev: "netdev_get_by_index s 0 = Some dev" "dev \<noteq> 0 \<Longrightarrow> ready dev s"
    and t: "table_ok (sockets s)" and h: "heap_ok (net_heap s)" "8 \<le> free_blocks (net_heap s)" and arp: "arp_ok s" "4 \<le> length dst"
    and b: "\<And>x. b = Some x \<Longrightarrow> nat len \<le> length x" "42 + len \<le> int mtu \<or> 1500 < len"
  shows "socket_sendto ops fd b len dst dp s \<noteq> None"
proof (cases "(\<exists>so. socket_get fd (sockets s) = Some (Some so)) \<and> b \<noteq> None \<and> 0 < len \<and> len \<le> 1500 \<and> dev \<noteq> 0")
  case True
  then obtain so x where so: "socket_get fd (sockets s) = Some (Some so)" "b = Some x" "0 < len" "len \<le> 1500" "dev \<noteq> 0" by auto
  define y where "y = take (nat len) x"
  have y: "int (length y) = len" "nat len \<le> length x" using b(1) so(2,3) by (simp_all add: y_def)
  have w: "unat (word_of_int len :: u16) = nat len" using so(3,4) by (simp add: unsigned_of_int take_bit_int_eq_self nat_less_iff)
  obtain pb h1 where pb: "netbuf_alloc (word_of_int len) (net_heap s) = (Some pb, h1)"
    "nb_data pb = replicate (nat len) 0" "owns pb (heap_live (net_heap s)) h1" "free_blocks (net_heap s) = free_blocks h1 + 2"
    by (rule netbuf_alloc_ok [OF h(1), of "word_of_int len"]) (use h(2) w so in auto)
  have copy: "memcpy_at (nb_data pb) 0 x len = Some y" using y so(3) by (simp add: memcpy_at_eq pb(2) y_def)
  let ?pb = "pb\<lparr>nb_data := y, nb_len := word_of_int len\<rparr>" and ?s = "s\<lparr>net_heap := h1\<rparr>"
  have p: "42 + unat (nb_len ?pb) \<le> mtu" "unat (nb_len ?pb) \<le> length (nb_data ?pb)" using b(2) so(3,4) w y by auto
  have hh: "heap_ok (net_heap ?s)" "6 \<le> free_blocks (net_heap ?s)" using pb(3,4) h(2) by (simp_all add: owns_def)
  have "\<exists>r. udp_tx ops dev dst (so_bound_port so) dp ?pb ?s = Some r"
  proof (cases "arp_map s (take 4 dst)")
    case None
    then show ?thesis using udp_tx_unknown [OF hh p, of dst dev "so_bound_port so" dp] arp by auto
  next
    case (Some mac)
    then show ?thesis
      using udp_tx_ok [OF _ hh p, of dev dst mac "so_bound_port so" dp] dev(2) [OF so(5)] arp by (auto simp: driver_update)
  qed
  then obtain res s1 where "udp_tx ops dev dst (so_bound_port so) dp ?pb ?s = Some (res, s1)" by auto
  then show ?thesis using so pb(1) copy dev(1) by (simp add: socket_sendto_def SOCKET_MAX_PACKET_SIZE_def Let_def)
next
  case False
  then show ?thesis
    using dev(1) table_okD(1) [OF t]
    by (auto simp: socket_sendto_def socket_get_eq SOCKET_MAX_PACKET_SIZE_def split: option.splits)
qed

end

end
