(* ===== verification/Rtl8139.thy ===== *)
theory Rtl8139
  imports Net_Wire Interrupts Phys_Mem
begin

section \<open>The RTL8139 network driver\<close>

text \<open>
  \<^verbatim>\<open>src/src/drivers/net/rtl8139.c\<close>. The card is hardware: its registers answer on the bus, which is a
  parameter, and it shares memory with the driver. The state of the machine is therefore the state
  \<open>'h\<close> of the hardware together with the physical memory, and a bus operation may change both. The
  receive ring and the transmit bounce buffers are one allocation in this memory; an access of the
  driver outside it is \<^const>\<open>None\<close>. The other objects of the driver are records under their addresses.

  Messages are not modelled, but the register reads among their arguments are kept, in the order of
  the arguments.
\<close>

subsection \<open>Constants\<close>

definition NUM_TX_DESC :: nat where [kernel_consts]: "NUM_TX_DESC = 4"
definition ETH_ZLEN :: u32 where [kernel_consts]: "ETH_ZLEN = 60"
definition RX_BUF_LEN_IDX :: int where [kernel_consts]: "RX_BUF_LEN_IDX = 2"
definition TX_BUF_SIZE :: nat where [kernel_consts]: "TX_BUF_SIZE = 1536"
definition TX_FIFO_THRESH :: u32 where [kernel_consts]: "TX_FIFO_THRESH = 256"
definition RX_FIFO_THRESH :: u32 where [kernel_consts]: "RX_FIFO_THRESH = 4"
definition RX_DMA_BURST :: u32 where [kernel_consts]: "RX_DMA_BURST = 4"
definition TX_DMA_BURST :: u32 where [kernel_consts]: "TX_DMA_BURST = 4"
definition HAS_MII_XCVR :: u32 where [kernel_consts]: "HAS_MII_XCVR = 0x01"
definition HAS_CHIP_XCVR :: u32 where [kernel_consts]: "HAS_CHIP_XCVR = 0x02"
definition HAS_LNK_CHNG :: u32 where [kernel_consts]: "HAS_LNK_CHNG = 0x04"
definition MAC0 :: u16 where [kernel_consts]: "MAC0 = 0x00"
definition MAR0 :: u16 where [kernel_consts]: "MAR0 = 0x08"
definition TxStatus0 :: u16 where [kernel_consts]: "TxStatus0 = 0x10"
definition TxAddr0 :: u16 where [kernel_consts]: "TxAddr0 = 0x20"
definition RxBuf :: u16 where [kernel_consts]: "RxBuf = 0x30"
definition ChipCmd :: u16 where [kernel_consts]: "ChipCmd = 0x37"
definition RxBufPtr :: u16 where [kernel_consts]: "RxBufPtr = 0x38"
definition IntrMask :: u16 where [kernel_consts]: "IntrMask = 0x3C"
definition IntrStatus :: u16 where [kernel_consts]: "IntrStatus = 0x3E"
definition TxConfig :: u16 where [kernel_consts]: "TxConfig = 0x40"
definition RxConfig :: u16 where [kernel_consts]: "RxConfig = 0x44"
definition RxMissed :: u16 where [kernel_consts]: "RxMissed = 0x4C"
definition Cfg9346 :: u16 where [kernel_consts]: "Cfg9346 = 0x50"
definition Config1 :: u16 where [kernel_consts]: "Config1 = 0x52"
definition GPPinData :: u16 where [kernel_consts]: "GPPinData = 0x58"
definition MII_SMI :: u16 where [kernel_consts]: "MII_SMI = 0x5A"
definition HltClk :: u16 where [kernel_consts]: "HltClk = 0x5B"
definition MII_BMCR :: u8 where [kernel_consts]: "MII_BMCR = 0x62"
definition MII_BMSR :: u8 where [kernel_consts]: "MII_BMSR = 0x64"
definition NWayAdvert :: u8 where [kernel_consts]: "NWayAdvert = 0x66"
definition NWayLPAR :: u8 where [kernel_consts]: "NWayLPAR = 0x68"
definition NWayExpansion :: u8 where [kernel_consts]: "NWayExpansion = 0x6A"
definition RxBufEmpty :: u8 where [kernel_consts]: "RxBufEmpty = 0x01"
definition CmdTxEnb :: u8 where [kernel_consts]: "CmdTxEnb = 0x04"
definition CmdRxEnb :: u8 where [kernel_consts]: "CmdRxEnb = 0x08"
definition CmdReset :: u8 where [kernel_consts]: "CmdReset = 0x10"
definition RxOK :: u16 where [kernel_consts]: "RxOK = 0x0001"
definition RxErr :: u16 where [kernel_consts]: "RxErr = 0x0002"
definition TxOK :: u16 where [kernel_consts]: "TxOK = 0x0004"
definition TxErr :: u16 where [kernel_consts]: "TxErr = 0x0008"
definition RxOverflow :: u16 where [kernel_consts]: "RxOverflow = 0x0010"
definition RxUnderrun :: u16 where [kernel_consts]: "RxUnderrun = 0x0020"
definition RxFIFOOver :: u16 where [kernel_consts]: "RxFIFOOver = 0x0040"
definition PCSTimeout :: u16 where [kernel_consts]: "PCSTimeout = 0x4000"
definition PCIErr :: u16 where [kernel_consts]: "PCIErr = 0x8000"
definition TxUnderrun :: u32 where [kernel_consts]: "TxUnderrun = 0x00004000"
definition TxStatOK :: u32 where [kernel_consts]: "TxStatOK = 0x00008000"
definition TxOutOfWindow :: u32 where [kernel_consts]: "TxOutOfWindow = 0x20000000"
definition TxAborted :: u32 where [kernel_consts]: "TxAborted = 0x40000000"
definition TxCarrierLost :: u32 where [kernel_consts]: "TxCarrierLost = 0x80000000"
definition RxBadAlign :: u32 where [kernel_consts]: "RxBadAlign = 0x0002"
definition RxCRCErr :: u32 where [kernel_consts]: "RxCRCErr = 0x0004"
definition RxTooLong :: u32 where [kernel_consts]: "RxTooLong = 0x0008"
definition RxRunt :: u32 where [kernel_consts]: "RxRunt = 0x0010"
definition RxBadSymbol :: u32 where [kernel_consts]: "RxBadSymbol = 0x0020"
definition AcceptMyPhys :: u32 where [kernel_consts]: "AcceptMyPhys = 0x02"
definition AcceptMulticast :: u32 where [kernel_consts]: "AcceptMulticast = 0x04"
definition AcceptBroadcast :: u32 where [kernel_consts]: "AcceptBroadcast = 0x08"
definition PCI_COMMAND_OFFSET :: u8 where [kernel_consts]: "PCI_COMMAND_OFFSET = 0x04"
definition PCI_COMMAND_IO :: u32 where [kernel_consts]: "PCI_COMMAND_IO = 0x0001"
definition PCI_COMMAND_MASTER :: u32 where [kernel_consts]: "PCI_COMMAND_MASTER = 0x0004"
definition PCI_COMMAND_INTX_DISABLE :: u32 where [kernel_consts]: "PCI_COMMAND_INTX_DISABLE = 0x0400"
definition EE_SHIFT_CLK :: u8 where [kernel_consts]: "EE_SHIFT_CLK = 0x04"
definition EE_CS :: u8 where [kernel_consts]: "EE_CS = 0x08"
definition EE_DATA_WRITE :: u8 where [kernel_consts]: "EE_DATA_WRITE = 0x02"
definition EE_DATA_READ :: u8 where [kernel_consts]: "EE_DATA_READ = 0x01"
definition EE_ENB :: u8 where [kernel_consts]: "EE_ENB = 0x80 OR EE_CS"
definition EE_READ_CMD :: u32 where [kernel_consts]: "EE_READ_CMD = 6"
definition MDIO_DIR :: u8 where [kernel_consts]: "MDIO_DIR = 0x80"
definition MDIO_DATA_OUT :: u8 where [kernel_consts]: "MDIO_DATA_OUT = 0x04"
definition MDIO_DATA_IN :: u8 where [kernel_consts]: "MDIO_DATA_IN = 0x02"
definition MDIO_CLK :: u8 where [kernel_consts]: "MDIO_CLK = 0x01"
definition MDIO_WRITE0 :: u8 where [kernel_consts]: "MDIO_WRITE0 = MDIO_DIR"
definition MDIO_WRITE1 :: u8 where [kernel_consts]: "MDIO_WRITE1 = MDIO_DIR OR MDIO_DATA_OUT"
definition RTL8139_CAPS :: u32 where [kernel_consts]: "RTL8139_CAPS = HAS_CHIP_XCVR OR HAS_LNK_CHNG"

definition max_interrupt_work :: u32 where "max_interrupt_work = 20"
definition multicast_filter_limit :: u32 where "multicast_filter_limit = 32"

subsection \<open>State\<close>

record rtl8139 =
  rt_netdev :: u32
  rt_iobase :: u16
  rt_irq :: u8
  rt_interrupt_registered :: int
  rt_rx_ring :: u32
  rt_cur_rx :: u32
  rt_rx_buf_len :: u32
  rt_tx_lock :: u32
  rt_cur_tx :: u32
  rt_dirty_tx :: u32
  rt_tx_flag :: u32
  rt_tx_bufs :: "netbuf option list"
  rt_tx_buffer :: "u32 list"
  rt_tx_bufs_mem :: u32
  rt_trans_start :: u32
  rt_rx_config :: u32
  rt_mc_filter :: "u32 list"
  rt_phys :: "u8 list"
  rt_advertising :: u16
  rt_full_duplex :: u8
  rt_duplex_lock :: u8
  rt_link_speed :: u8
  rt_config1 :: u8
  rt_max_interrupt_work :: u32
  rt_multicast_filter_limit :: u32
  rt_flags :: u32
  rt_tx_timeout_count :: u32

definition zero_rtl8139 :: rtl8139 where
  "zero_rtl8139 = \<lparr>rt_netdev = 0, rt_iobase = 0, rt_irq = 0, rt_interrupt_registered = 0, rt_rx_ring = 0,
     rt_cur_rx = 0, rt_rx_buf_len = 0, rt_tx_lock = 0, rt_cur_tx = 0, rt_dirty_tx = 0, rt_tx_flag = 0,
     rt_tx_bufs = replicate NUM_TX_DESC None, rt_tx_buffer = replicate NUM_TX_DESC 0, rt_tx_bufs_mem = 0,
     rt_trans_start = 0, rt_rx_config = 0, rt_mc_filter = replicate 2 0, rt_phys = replicate 4 0,
     rt_advertising = 0, rt_full_duplex = 0, rt_duplex_lock = 0, rt_link_speed = 0, rt_config1 = 0,
     rt_max_interrupt_work = 0, rt_multicast_filter_limit = 0, rt_flags = 0, rt_tx_timeout_count = 0\<rparr>"

record 'h machine =
  mach_hw :: 'h
  mach_mem :: mem

record 'h rtl_drv =
  drv_rtl :: "u32 \<rightharpoonup> rtl8139"
  drv_mach :: "'h machine"
  drv_callbacks :: "interrupt_cb option list"
  drv_pci :: pci_registry

type_synonym 'h nic_bus = "'h machine bus"
type_synonym 'h nst = "'h rtl_drv net"

definition upd_mach :: "('h machine \<Rightarrow> 'h machine) \<Rightarrow> 'h nst \<Rightarrow> 'h nst" where
  "upd_mach f s = s\<lparr>net_drv := (net_drv s)\<lparr>drv_mach := f (drv_mach (net_drv s))\<rparr>\<rparr>"

definition on_mach :: "('h machine \<Rightarrow> 'a \<times> 'h machine) \<Rightarrow> 'h nst \<Rightarrow> 'a \<times> 'h nst" where
  "on_mach f s = (let (v, m) = f (drv_mach (net_drv s)) in (v, upd_mach (\<lambda>_. m) s))"

definition get_rtl :: "u32 \<Rightarrow> 'h nst \<Rightarrow> rtl8139 option" where
  "get_rtl p s = drv_rtl (net_drv s) p"

definition upd_rtl :: "u32 \<Rightarrow> (rtl8139 \<Rightarrow> rtl8139) \<Rightarrow> 'h nst \<Rightarrow> 'h nst option" where
  "upd_rtl p f s =
     do { r \<leftarrow> get_rtl p s; Some (s\<lparr>net_drv := (net_drv s)\<lparr>drv_rtl := (drv_rtl (net_drv s))(p \<mapsto> f r)\<rparr>\<rparr>) }"

definition upd_stats :: "u32 \<Rightarrow> (netdev_stats \<Rightarrow> netdev_stats) \<Rightarrow> 'h nst \<Rightarrow> 'h nst option" where
  "upd_stats dev f s = upd_dev dev (\<lambda>d. d\<lparr>nd_stats := f (nd_stats d)\<rparr>) s"

text \<open>The shared memory of a card: offsets into the allocation at \<open>rx_ring\<close>.\<close>

definition ring_size :: "rtl8139 \<Rightarrow> nat" where
  "ring_size r = unat (rt_rx_buf_len r) + 16 + TX_BUF_SIZE * NUM_TX_DESC"

definition dma_read :: "rtl8139 \<Rightarrow> nat \<Rightarrow> nat \<Rightarrow> mem \<Rightarrow> u8 list option" where
  "dma_read r i n m =
     (if rt_rx_ring r \<noteq> 0 \<and> i + n \<le> ring_size r
      then Some (map (\<lambda>k. m (rt_rx_ring r + of_nat (i + k))) [0 ..< n]) else None)"

fun mem_write :: "mem \<Rightarrow> u32 \<Rightarrow> u8 list \<Rightarrow> mem" where
  "mem_write m a [] = m"
| "mem_write m a (b # bs) = mem_write (m(a := b)) (a + 1) bs"

definition dma_write :: "rtl8139 \<Rightarrow> nat \<Rightarrow> u8 list \<Rightarrow> mem \<Rightarrow> mem option" where
  "dma_write r i bs m =
     (if rt_rx_ring r \<noteq> 0 \<and> i + length bs \<le> ring_size r
      then Some (mem_write m (rt_rx_ring r + of_nat i) bs) else None)"

subsection \<open>The serial EEPROM\<close>

definition eeprom_delay :: "'h nic_bus \<Rightarrow> u16 \<Rightarrow> 'h machine \<Rightarrow> 'h machine" where
  "eeprom_delay io ee_addr m = snd (bus_insl io ee_addr m)"

fun eeprom_command :: "'h nic_bus \<Rightarrow> u16 \<Rightarrow> u32 \<Rightarrow> nat list \<Rightarrow> 'h machine \<Rightarrow> 'h machine" where
  "eeprom_command io ee_addr read_cmd [] m = m"
| "eeprom_command io ee_addr read_cmd (i # is) m =
     (let dataval = (if bit read_cmd i then EE_DATA_WRITE else 0);
          m = eeprom_delay io ee_addr (bus_outb io ee_addr (EE_ENB OR dataval) m);
          m = eeprom_delay io ee_addr (bus_outb io ee_addr (EE_ENB OR dataval OR EE_SHIFT_CLK) m)
      in eeprom_command io ee_addr read_cmd is m)"

fun eeprom_data :: "'h nic_bus \<Rightarrow> u16 \<Rightarrow> nat \<Rightarrow> u32 \<Rightarrow> 'h machine \<Rightarrow> u32 \<times> 'h machine" where
  "eeprom_data io ee_addr 0 retval m = (retval, m)"
| "eeprom_data io ee_addr (Suc n) retval m =
     (let m = eeprom_delay io ee_addr (bus_outb io ee_addr (EE_ENB OR EE_SHIFT_CLK) m);
          (v, m) = bus_insb io ee_addr m;
          retval = push_bit 1 retval OR (if v AND EE_DATA_READ \<noteq> 0 then 1 else 0);
          m = eeprom_delay io ee_addr (bus_outb io ee_addr EE_ENB m)
      in eeprom_data io ee_addr n retval m)"

definition rtl8139_read_eeprom :: "'h nic_bus \<Rightarrow> u16 \<Rightarrow> u32 \<Rightarrow> nat \<Rightarrow> 'h machine \<Rightarrow> u32 \<times> 'h machine" where
  "rtl8139_read_eeprom io iobase location addr_len m =
     (let ee_addr = iobase + Cfg9346;
          read_cmd = location OR push_bit addr_len EE_READ_CMD;
          m = bus_outb io ee_addr (EE_ENB AND NOT EE_CS) m;
          m = bus_outb io ee_addr EE_ENB m;
          m = eeprom_command io ee_addr read_cmd (rev [0 ..< 5 + addr_len]) m;
          m = eeprom_delay io ee_addr (bus_outb io ee_addr EE_ENB m);
          (retval, m) = eeprom_data io ee_addr 16 0 m
      in (retval, bus_outb io ee_addr (NOT EE_CS) m))"

subsection \<open>MII serial management\<close>

definition mii_2_8139_map :: "u8 list" where
  "mii_2_8139_map = [MII_BMCR, MII_BMSR, 0, 0, NWayAdvert, NWayLPAR, NWayExpansion, 0]"

definition mdio_delay :: "'h nic_bus \<Rightarrow> u16 \<Rightarrow> 'h machine \<Rightarrow> 'h machine" where
  "mdio_delay io mdio_addr m = snd (bus_insl io mdio_addr m)"

text \<open>The values on the data line, each written with the clock low and then high.\<close>

fun mdio_clock_out :: "'h nic_bus \<Rightarrow> u16 \<Rightarrow> u8 list \<Rightarrow> 'h machine \<Rightarrow> 'h machine" where
  "mdio_clock_out io mdio_addr [] m = m"
| "mdio_clock_out io mdio_addr (v # vs) m =
     (let m = mdio_delay io mdio_addr (bus_outb io mdio_addr v m);
          m = mdio_delay io mdio_addr (bus_outb io mdio_addr (v OR MDIO_CLK) m)
      in mdio_clock_out io mdio_addr vs m)"

definition mdio_sync :: "'h nic_bus \<Rightarrow> u16 \<Rightarrow> 'h machine \<Rightarrow> 'h machine" where
  "mdio_sync io mdio_addr m = mdio_clock_out io mdio_addr (replicate 33 MDIO_WRITE1) m"

fun mdio_clock_in :: "'h nic_bus \<Rightarrow> u16 \<Rightarrow> nat \<Rightarrow> u32 \<Rightarrow> 'h machine \<Rightarrow> u32 \<times> 'h machine" where
  "mdio_clock_in io mdio_addr 0 retval m = (retval, m)"
| "mdio_clock_in io mdio_addr (Suc n) retval m =
     (let m = mdio_delay io mdio_addr (bus_outb io mdio_addr 0 m);
          (v, m) = bus_insb io mdio_addr m;
          retval = push_bit 1 retval OR (if v AND MDIO_DATA_IN \<noteq> 0 then 1 else 0);
          m = mdio_delay io mdio_addr (bus_outb io mdio_addr MDIO_CLK m)
      in mdio_clock_in io mdio_addr n retval m)"

definition rtl8139_mdio_read :: "'h nic_bus \<Rightarrow> rtl8139 \<Rightarrow> int \<Rightarrow> int \<Rightarrow> 'h machine \<Rightarrow> (u32 \<times> 'h machine) option" where
  "rtl8139_mdio_read io rtl phy_id location m =
     (let mdio_addr = rt_iobase rtl + MII_SMI;
          mii_cmd = push_bit 10 0xf6 OR push_bit 5 (word_of_int phy_id) OR word_of_int location :: u32
      in if phy_id > 31
         then if location < 8
              then do { reg \<leftarrow> rdi mii_2_8139_map location;
                        if reg \<noteq> 0
                        then let (v, m) = bus_insw io (rt_iobase rtl + ucast reg) m in Some (ucast v, m)
                        else Some (0, m) }
              else Some (0, m)
         else
           let m = mdio_sync io mdio_addr m;
               m = mdio_clock_out io mdio_addr
                     (map (\<lambda>i. MDIO_DIR OR (if bit mii_cmd i then MDIO_DATA_OUT else 0)) (rev [0 ..< 15])) m;
               (retval, m) = mdio_clock_in io mdio_addr 19 0 m
           in Some (drop_bit 1 retval AND 0xffff, m))"

definition rtl8139_mdio_write :: "'h nic_bus \<Rightarrow> rtl8139 \<Rightarrow> int \<Rightarrow> int \<Rightarrow> int \<Rightarrow> 'h machine \<Rightarrow> 'h machine option" where
  "rtl8139_mdio_write io rtl phy_id location val m =
     (let mdio_addr = rt_iobase rtl + MII_SMI;
          mii_cmd = push_bit 16 0x5002 OR push_bit 23 (word_of_int phy_id) OR push_bit 18 (word_of_int location) OR
                    word_of_int val :: u32
      in if phy_id > 31
         then let ioaddr = rt_iobase rtl
              in if location = 0
                 then let m = bus_outb io (ioaddr + Cfg9346) 0xC0 m;
                          m = bus_outw io (ioaddr + ucast MII_BMCR) (word_of_int val) m
                      in Some (bus_outb io (ioaddr + Cfg9346) 0 m)
                 else if location < 8
                 then do { reg \<leftarrow> rdi mii_2_8139_map location;
                           Some (if reg \<noteq> 0 then bus_outw io (ioaddr + ucast reg) (word_of_int val) m else m) }
                 else Some m
         else
           let m = mdio_sync io mdio_addr m;
               m = mdio_clock_out io mdio_addr
                     (map (\<lambda>i. if bit mii_cmd i then MDIO_WRITE1 else MDIO_WRITE0) (rev [0 ..< 32])) m
           in Some (mdio_clock_out io mdio_addr [0, 0] m))"

subsection \<open>Starting the card\<close>

definition rtl8139_get_stats :: "'h nic_bus \<Rightarrow> u32 \<Rightarrow> 'h nst \<Rightarrow> (netdev_stats \<times> 'h nst) option" where
  "rtl8139_get_stats io dev s =
     do { d \<leftarrow> net_devs s dev;
          r \<leftarrow> get_rtl (nd_driver_data d) s;
          let (missed, s) = on_mach (bus_insl io (rt_iobase r + RxMissed)) s;
          s \<leftarrow> upd_stats dev (\<lambda>st. st\<lparr>rx_dropped := rx_dropped st + missed\<rparr>) s;
          let s = upd_mach (bus_outl io (rt_iobase r + RxMissed) 0) s;
          d \<leftarrow> net_devs s dev;
          Some (nd_stats d, s) }"

definition rtl8139_set_rx_mode :: "'h nic_bus \<Rightarrow> u32 \<Rightarrow> 'h nst \<Rightarrow> (int \<times> 'h nst) option" where
  "rtl8139_set_rx_mode io dev s =
     do { d \<leftarrow> net_devs s dev;
          r \<leftarrow> get_rtl (nd_driver_data d) s;
          let ioaddr = rt_iobase r;
          let rx_mode = AcceptBroadcast OR AcceptMulticast OR AcceptMyPhys;
          let s = upd_mach (bus_outl io (ioaddr + RxConfig) (rt_rx_config r OR rx_mode)) s;
          f \<leftarrow> wr (rt_mc_filter r) 0 0xffffffff;
          f \<leftarrow> wr f 1 0xffffffff;
          s \<leftarrow> upd_rtl (nd_driver_data d) (\<lambda>r. r\<lparr>rt_mc_filter := f\<rparr>) s;
          let s = upd_mach (bus_outl io (ioaddr + MAR0) 0xffffffff) s;
          let s = upd_mach (bus_outl io (ioaddr + MAR0 + 4) 0xffffffff) s;
          Some (0, s) }"

definition rtl8139_init_ring :: "rtl8139 \<Rightarrow> rtl8139" where
  "rtl8139_init_ring r =
     r\<lparr>rt_dirty_tx := 0, rt_cur_tx := 0, rt_tx_lock := 0,
       rt_tx_bufs := map (\<lambda>_. None) [0 ..< NUM_TX_DESC],
       rt_tx_buffer := map (\<lambda>i. rt_tx_bufs_mem r + of_nat (i * TX_BUF_SIZE)) [0 ..< NUM_TX_DESC]\<rparr>"

text \<open>The loop that waits for the end of a reset gives up after 1000 rounds.\<close>

fun rtl8139_reset_wait :: "'h nic_bus \<Rightarrow> u16 \<Rightarrow> nat \<Rightarrow> 'h machine \<Rightarrow> 'h machine" where
  "rtl8139_reset_wait io ioaddr 0 m = m"
| "rtl8139_reset_wait io ioaddr (Suc n) m =
     (let (v, m) = bus_insb io (ioaddr + ChipCmd) m
      in if v AND CmdReset = 0 then m else rtl8139_reset_wait io ioaddr n m)"

text \<open>
  The second of the two words of the hardware address reads two bytes beyond the 6-byte array: the
  padding of the structure, which \<open>kzalloc\<close> cleared.
\<close>

definition hwaddr_word :: "u8 list \<Rightarrow> nat \<Rightarrow> u32 option" where
  "hwaddr_word hw i =
     do { bs \<leftarrow> rd_bytes (hw @ [0, 0]) i 4;
          Some (ucast (bs ! 0) OR push_bit 8 (ucast (bs ! 1)) OR push_bit 16 (ucast (bs ! 2)) OR push_bit 24 (ucast (bs ! 3))) }"

definition intr_mask :: u16 where
  "intr_mask = PCIErr OR PCSTimeout OR RxUnderrun OR RxOverflow OR RxFIFOOver OR TxErr OR TxOK OR RxErr OR RxOK"

text \<open>The part that looks at the link partner: it may set the duplex flag of the structure.\<close>

definition rtl8139_check_duplex :: "'h nic_bus \<Rightarrow> u32 \<Rightarrow> 'h nst \<Rightarrow> 'h nst option" where
  "rtl8139_check_duplex io p s =
     do { r \<leftarrow> get_rtl p s;
          phy \<leftarrow> rd (rt_phys r) 0;
          if uint phy \<ge> 0 \<or> rt_flags r AND HAS_MII_XCVR \<noteq> 0
          then do { (v, m) \<leftarrow> rtl8139_mdio_read io r (uint phy) 5 (drv_mach (net_drv s));
                    let s = upd_mach (\<lambda>_. m) s;
                    let mii_reg5 = (ucast v :: u16);
                    if mii_reg5 \<noteq> 0xffff \<and> (mii_reg5 AND 0x0100 = 0x0100 \<or> mii_reg5 AND 0x00C0 = 0x0040)
                    then upd_rtl p (\<lambda>r. r\<lparr>rt_full_duplex := 1\<rparr>) s
                    else Some s }
          else Some s }"

definition rtl8139_hw_start :: "'h nic_bus \<Rightarrow> u32 \<Rightarrow> 'h nst \<Rightarrow> (int \<times> 'h nst) option" where
  "rtl8139_hw_start io p s =
     do { r \<leftarrow> get_rtl p s;
          let ioaddr = rt_iobase r;
          let s = upd_mach (bus_outb io (ioaddr + ChipCmd) CmdReset) s;
          let s = upd_mach (rtl8139_reset_wait io ioaddr 1000) s;
          let s = upd_mach (bus_outb io (ioaddr + Cfg9346) 0xC0) s;
          d \<leftarrow> net_devs s (rt_netdev r);
          lo \<leftarrow> hwaddr_word (nd_hwaddr d) 0;
          let s = upd_mach (bus_outl io (ioaddr + MAC0) lo) s;
          hi \<leftarrow> hwaddr_word (nd_hwaddr d) 4;
          let s = upd_mach (bus_outl io (ioaddr + MAC0 + 4) hi) s;
          s \<leftarrow> upd_rtl p (\<lambda>r. r\<lparr>rt_cur_rx := 0\<rparr>) s;
          let s = upd_mach (bus_outb io (ioaddr + ChipCmd) (CmdRxEnb OR CmdTxEnb)) s;
          let s = upd_mach (bus_outl io (ioaddr + RxConfig) (rt_rx_config r)) s;
          let s = upd_mach (bus_outl io (ioaddr + TxConfig) (push_bit 8 TX_DMA_BURST)) s;
          s \<leftarrow> rtl8139_check_duplex io p s;
          r \<leftarrow> get_rtl p s;
          let s = (if rt_flags r AND HAS_MII_XCVR \<noteq> 0
                   then upd_mach (bus_outb io (ioaddr + Config1) (if rt_full_duplex r \<noteq> 0 then 0x60 else 0x20)) s else s);
          let s = upd_mach (bus_outb io (ioaddr + Cfg9346) 0) s;
          let s = upd_mach (bus_outl io (ioaddr + RxBuf) (rt_rx_ring r)) s;
          let s = upd_mach (bus_outl io (ioaddr + RxMissed) 0) s;
          (_, s) \<leftarrow> rtl8139_set_rx_mode io (rt_netdev r) s;
          let s = upd_mach (bus_outb io (ioaddr + ChipCmd) (CmdRxEnb OR CmdTxEnb)) s;
          let s = upd_mach (bus_outw io (ioaddr + IntrMask) intr_mask) s;
          let s = snd (on_mach (bus_insw io (ioaddr + IntrMask)) s);
          Some (0, s) }"

text \<open>One word of the EEPROM gives two bytes of the hardware address.\<close>

fun rtl8139_mac_loop :: "'h nic_bus \<Rightarrow> u32 \<Rightarrow> nat list \<Rightarrow> 'h nst \<Rightarrow> 'h nst option" where
  "rtl8139_mac_loop io p [] s = Some s"
| "rtl8139_mac_loop io p (i # is) s =
     do { r \<leftarrow> get_rtl p s;
          let (v, s) = on_mach (rtl8139_read_eeprom io (rt_iobase r) (of_nat (i + 7)) 8) s;
          let eeprom_data = (ucast v :: u16);
          d \<leftarrow> net_devs s (rt_netdev r);
          hw \<leftarrow> wr (nd_hwaddr d) (i * 2) (ucast (eeprom_data AND 0xff));
          hw \<leftarrow> wr hw (i * 2 + 1) (ucast (drop_bit 8 eeprom_data AND 0xff));
          s \<leftarrow> upd_dev (rt_netdev r) (\<lambda>d. d\<lparr>nd_hwaddr := hw\<rparr>) s;
          rtl8139_mac_loop io p is s }"

definition rtl8139_get_mac_address :: "'h nic_bus \<Rightarrow> u32 \<Rightarrow> 'h nst \<Rightarrow> 'h nst option" where
  "rtl8139_get_mac_address io p s = rtl8139_mac_loop io p [0 ..< 3] s"

subsection \<open>The operations of the device\<close>

text \<open>The allocation of the ring tries smaller sizes, down to 8192 bytes.\<close>

fun rtl8139_alloc_ring :: "u32 \<Rightarrow> nat \<Rightarrow> 'h nst \<Rightarrow> (int \<times> 'h nst) option" where
  "rtl8139_alloc_ring p idx s =
     (let rx_buf_len = push_bit idx 8192;
          (ring, h, m) = kzalloc_mem (rx_buf_len + 16 + of_nat (TX_BUF_SIZE * NUM_TX_DESC)) (net_heap s)
                           (mach_mem (drv_mach (net_drv s)));
          s = upd_mach (\<lambda>mc. mc\<lparr>mach_mem := m\<rparr>) (s\<lparr>net_heap := h\<rparr>)
      in do { s \<leftarrow> upd_rtl p (\<lambda>r. r\<lparr>rt_rx_buf_len := rx_buf_len, rt_rx_ring := ring\<rparr>) s;
              if ring = 0
              then case idx of 0 \<Rightarrow> Some (-1, s) | Suc k \<Rightarrow> rtl8139_alloc_ring p k s
              else Some (int idx, s) })"

definition rtl8139_open :: "'h nic_bus \<Rightarrow> u32 \<Rightarrow> 'h nst \<Rightarrow> (int \<times> 'h nst) option" where
  "rtl8139_open io dev s =
     do { d \<leftarrow> net_devs s dev;
          let p = nd_driver_data d;
          r \<leftarrow> get_rtl p s;
          (_, cbs) \<leftarrow> idt_register_interrupt_callback (0x20 + uint (rt_irq r)) Cb_rtl8139 (drv_callbacks (net_drv s));
          let s = s\<lparr>net_drv := (net_drv s)\<lparr>drv_callbacks := cbs\<rparr>\<rparr>;
          (rx_buf_len_idx, s) \<leftarrow> rtl8139_alloc_ring p (nat RX_BUF_LEN_IDX) s;
          r \<leftarrow> get_rtl p s;
          if rt_rx_ring r = 0 then Some (-1, s)
          else do {
            s \<leftarrow> upd_rtl p (\<lambda>r. r\<lparr>rt_tx_bufs_mem := rt_rx_ring r + rt_rx_buf_len r + 16\<rparr>) s;
            s \<leftarrow> upd_rtl p rtl8139_init_ring s;
            s \<leftarrow> upd_rtl p (\<lambda>r. r\<lparr>rt_full_duplex := rt_duplex_lock r,
                   rt_tx_flag := push_bit 11 TX_FIFO_THRESH AND 0x003f0000,
                   rt_rx_config := push_bit 13 RX_FIFO_THRESH OR push_bit 11 (word_of_int rx_buf_len_idx) OR
                                   push_bit 8 RX_DMA_BURST\<rparr>) s;
            (_, s) \<leftarrow> rtl8139_hw_start io p s;
            let s = snd (on_mach (bus_insw io (rt_iobase r + IntrStatus)) s);
            let s = snd (on_mach (bus_insb io (rt_iobase r + ChipCmd)) s);
            Some (0, s) } }"

text \<open>The buffers still queued for transmission are released.\<close>

definition free_tx_bufs :: "netbuf option list \<Rightarrow> heap \<Rightarrow> heap" where
  "free_tx_bufs bufs h = fold netbuf_free bufs h"

definition rtl8139_close :: "'h nic_bus \<Rightarrow> u32 \<Rightarrow> 'h nst \<Rightarrow> (int \<times> 'h nst) option" where
  "rtl8139_close io dev s =
     do { d \<leftarrow> net_devs s dev;
          let p = nd_driver_data d;
          r \<leftarrow> get_rtl p s;
          let ioaddr = rt_iobase r;
          let s = snd (on_mach (bus_insw io (ioaddr + IntrStatus)) s);
          let s = upd_mach (bus_outw io (ioaddr + IntrMask) 0) s;
          let s = upd_mach (bus_outb io (ioaddr + ChipCmd) 0) s;
          let (missed, s) = on_mach (bus_insl io (ioaddr + RxMissed)) s;
          s \<leftarrow> upd_stats dev (\<lambda>st. st\<lparr>rx_dropped := rx_dropped st + missed\<rparr>) s;
          let s = upd_mach (bus_outl io (ioaddr + RxMissed) 0) s;
          let s = s\<lparr>net_heap := free_tx_bufs (rt_tx_bufs r) (net_heap s)\<rparr>;
          let s = s\<lparr>net_heap := kfree (rt_rx_ring r) (net_heap s)\<rparr>;
          s \<leftarrow> upd_rtl p (\<lambda>r. r\<lparr>rt_tx_bufs := map (\<lambda>_. None) (rt_tx_bufs r), rt_rx_ring := 0\<rparr>) s;
          let s = upd_mach (bus_outb io (ioaddr + Cfg9346) 0xC0) s;
          let s = upd_mach (bus_outb io (ioaddr + Config1) (rt_config1 r OR 0x03)) s;
          let s = upd_mach (bus_outb io (ioaddr + HltClk) 72) s;
          Some (0, s) }"

definition rtl8139_transmit :: "'h nic_bus \<Rightarrow> u32 \<Rightarrow> netbuf \<Rightarrow> 'h nst \<Rightarrow> (int \<times> 'h nst) option" where
  "rtl8139_transmit io dev buf s =
     do { d \<leftarrow> net_devs s dev;
          let p = nd_driver_data d;
          r \<leftarrow> get_rtl p s;
          let ioaddr = rt_iobase r;
          let len = (ucast (nb_len buf) :: u32);
          if rt_cur_tx r - rt_dirty_tx r \<ge> of_nat NUM_TX_DESC
          then do { s \<leftarrow> upd_stats dev (\<lambda>st. st\<lparr>tx_dropped := tx_dropped st + 1\<rparr>) s; Some (-1, s) }
          else do {
            let e = unat (rt_cur_tx r mod of_nat NUM_TX_DESC);
            bufs \<leftarrow> wr (rt_tx_bufs r) e (Some buf);
            s \<leftarrow> upd_rtl p (\<lambda>r. r\<lparr>rt_tx_bufs := bufs\<rparr>) s;
            bounce \<leftarrow> rd (rt_tx_buffer r) e;
            bs \<leftarrow> rd_bytes (nb_data buf) 0 (unat len);
            m \<leftarrow> dma_write r (unat (bounce - rt_rx_ring r)) bs (mach_mem (drv_mach (net_drv s)));
            let s = upd_mach (\<lambda>mc. mc\<lparr>mach_mem := m\<rparr>) s;
            let s = upd_mach (bus_outl io (ioaddr + TxAddr0 + of_nat (e * 4)) bounce) s;
            let s = upd_mach (bus_outl io (ioaddr + TxStatus0 + of_nat (e * 4))
                                (rt_tx_flag r OR (if len \<ge> ETH_ZLEN then len else ETH_ZLEN))) s;
            s \<leftarrow> upd_rtl p (\<lambda>r. r\<lparr>rt_trans_start := 0, rt_cur_tx := rt_cur_tx r + 1\<rparr>) s;
            s \<leftarrow> upd_stats dev (\<lambda>st. st\<lparr>tx_packets := tx_packets st + 1, tx_bytes := tx_bytes st + len\<rparr>) s;
            Some (0, s) } }"

definition rtl8139_netdev_ops :: "'h nic_bus \<Rightarrow> 'h rtl_drv netdev_ops" where
  "rtl8139_netdev_ops io =
     \<lparr>ops_open = Some (rtl8139_open io), ops_close = Some (rtl8139_close io), ops_transmit = Some (rtl8139_transmit io),
      ops_set_rx_mode = Some (rtl8139_set_rx_mode io), ops_get_stats = Some (rtl8139_get_stats io)\<rparr>"

text \<open>
  The driver's table is the only one in the kernel, so every non-null pointer to a table refers to it.
\<close>

definition rtl8139_ops :: "'h nic_bus \<Rightarrow> 'h rtl_drv ops_table" where
  "rtl8139_ops io = (\<lambda>a. if a = 0 then None else Some (rtl8139_netdev_ops io))"

subsection \<open>Interrupts\<close>

text \<open>The counters of a frame received with errors.\<close>

definition rx_error_stats :: "u32 \<Rightarrow> netdev_stats \<Rightarrow> netdev_stats" where
  "rx_error_stats rx_status st =
     (let st = st\<lparr>rx_errors := rx_errors st + 1\<rparr>;
          st = (if rx_status AND (RxBadSymbol OR RxBadAlign) \<noteq> 0 then st\<lparr>rx_errors := rx_errors st + 1\<rparr> else st);
          st = (if rx_status AND (RxRunt OR RxTooLong) \<noteq> 0 then st\<lparr>rx_errors := rx_errors st + 1\<rparr> else st)
      in if rx_status AND RxCRCErr \<noteq> 0 then st\<lparr>rx_crc_errors := rx_crc_errors st + 1\<rparr> else st)"

text \<open>Copying a frame of \<open>pkt_size\<close> bytes out of the ring, in one or two pieces.\<close>

definition rx_copy :: "rtl8139 \<Rightarrow> u32 \<Rightarrow> u32 \<Rightarrow> int \<Rightarrow> mem \<Rightarrow> u8 list \<Rightarrow> u8 list option" where
  "rx_copy r ring_offset rx_size pkt_size m dest =
     (if ring_offset + rx_size > rt_rx_buf_len r
      then do { let semi_count = sint (rt_rx_buf_len r - ring_offset - 4);
                a \<leftarrow> dma_read r (unat ring_offset + 4) (nat semi_count) m;
                dest \<leftarrow> memcpy_at dest 0 a semi_count;
                b \<leftarrow> dma_read r 0 (nat (pkt_size - semi_count)) m;
                if semi_count < 0 then None else memcpy_at dest (nat semi_count) b (pkt_size - semi_count) }
      else do { a \<leftarrow> dma_read r (unat ring_offset + 4) (nat pkt_size) m;
                memcpy_at dest 0 a pkt_size })"

text \<open>
  One received frame: the value is \<^const>\<open>None\<close> inside where there is no memory for it and the loop of
  \<open>rtl8139_rx\<close> is left, and otherwise the size that advances the ring pointer.
\<close>

definition rtl8139_rx_one :: "'h nic_bus \<Rightarrow> u32 \<Rightarrow> u16 \<Rightarrow> 'h nst \<Rightarrow> (u32 option \<times> 'h nst) option" where
  "rtl8139_rx_one io p cur_rx s =
     do { r \<leftarrow> get_rtl p s;
          let m = mach_mem (drv_mach (net_drv s));
          if rt_rx_buf_len r = 0 then None
          else do {
            let ring_offset = ucast cur_rx mod rt_rx_buf_len r;
            _ \<leftarrow> dma_read r (unat ring_offset) 4 m;
            let rx_status = rd32 m (rt_rx_ring r + ring_offset);
            let rx_size = drop_bit 16 rx_status;
            if rx_status AND 0x8000 \<noteq> 0
            then do { s \<leftarrow> (if rx_status AND (RxBadSymbol OR RxRunt OR RxTooLong OR RxCRCErr OR RxBadAlign) \<noteq> 0
                           then upd_stats (rt_netdev r) (rx_error_stats rx_status) s else Some s);
                      Some (Some rx_size, s) }
            else do {
              let pkt_size = sint (rx_size - 4);
              case netbuf_alloc (word_of_int pkt_size) (net_heap s) of
                (None, h) \<Rightarrow>
                  do { s \<leftarrow> upd_stats (rt_netdev r) (\<lambda>st. st\<lparr>rx_dropped := rx_dropped st + 1\<rparr>) (s\<lparr>net_heap := h\<rparr>);
                       Some (None, s) }
              | (Some b, h) \<Rightarrow>
                  do { data \<leftarrow> rx_copy r ring_offset rx_size pkt_size m (nb_data b);
                       let b = b\<lparr>nb_data := data, nb_len := word_of_int pkt_size, nb_total_len := word_of_int pkt_size\<rparr>;
                       (res, b, s) \<leftarrow> netdev_rx (rtl8139_ops io) (rt_netdev r) (Some b) (s\<lparr>net_heap := h\<rparr>);
                       let s = (if res < 0 then s\<lparr>net_heap := netbuf_free b (net_heap s)\<rparr> else s);
                       s \<leftarrow> upd_stats (rt_netdev r) (\<lambda>st. st\<lparr>rx_bytes := rx_bytes st + word_of_int pkt_size,
                              rx_packets := rx_packets st + 1\<rparr>) s;
                       Some (Some rx_size, s) } } } }"

partial_function (option) rtl8139_rx_loop :: "'h nic_bus \<Rightarrow> u32 \<Rightarrow> u16 \<Rightarrow> u16 \<Rightarrow> 'h nst \<Rightarrow> (u16 \<times> 'h nst) option" where
  "rtl8139_rx_loop io p ioaddr cur_rx s =
     (let (v, s) = on_mach (bus_insb io (ioaddr + ChipCmd)) s
      in if v AND RxBufEmpty \<noteq> 0 then Some (cur_rx, s)
         else do { (step, s) \<leftarrow> rtl8139_rx_one io p cur_rx s;
                   case step of None \<Rightarrow> Some (cur_rx, s)
                   | Some rx_size \<Rightarrow>
                       let cur_rx = (cur_rx + ucast rx_size + 4 + 3) AND NOT 3;
                           s = upd_mach (bus_outw io (ioaddr + RxBufPtr) (cur_rx - 16)) s
                       in rtl8139_rx_loop io p ioaddr cur_rx s })"

definition rtl8139_rx :: "'h nic_bus \<Rightarrow> u32 \<Rightarrow> 'h nst \<Rightarrow> (int \<times> 'h nst) option" where
  "rtl8139_rx io p s =
     do { r \<leftarrow> get_rtl p s;
          (cur_rx, s) \<leftarrow> rtl8139_rx_loop io p (rt_iobase r) (ucast (rt_cur_rx r)) s;
          s \<leftarrow> upd_rtl p (\<lambda>r. r\<lparr>rt_cur_rx := ucast cur_rx\<rparr>) s;
          Some (0, s) }"

text \<open>
  The loop that releases transmitted frames. \<open>n\<close> is the distance of \<open>dirty_tx\<close> from \<open>cur_tx\<close>, so the loop
  condition is that it is not 0.
\<close>

definition tx_done_stats :: "'h nic_bus \<Rightarrow> u32 \<Rightarrow> u32 \<Rightarrow> 'h nst \<Rightarrow> 'h nst option" where
  "tx_done_stats io p txstatus s =
     do { r \<leftarrow> get_rtl p s;
          if txstatus AND (TxOutOfWindow OR TxAborted) \<noteq> 0
          then do {
            s \<leftarrow> upd_stats (rt_netdev r) (\<lambda>st. st\<lparr>tx_errors := tx_errors st + 1\<rparr>) s;
            s \<leftarrow> (if txstatus AND TxAborted \<noteq> 0
                  then do { s \<leftarrow> upd_stats (rt_netdev r) (\<lambda>st. st\<lparr>tx_errors := tx_errors st + 1\<rparr>) s;
                            Some (upd_mach (bus_outl io (rt_iobase r + TxConfig) (push_bit 8 TX_DMA_BURST)) s) }
                  else Some s);
            s \<leftarrow> (if txstatus AND TxCarrierLost \<noteq> 0
                  then upd_stats (rt_netdev r) (\<lambda>st. st\<lparr>tx_errors := tx_errors st + 1\<rparr>) s else Some s);
            (if txstatus AND TxOutOfWindow \<noteq> 0
             then upd_stats (rt_netdev r) (\<lambda>st. st\<lparr>tx_errors := tx_errors st + 1\<rparr>) s else Some s) }
          else do {
            s \<leftarrow> (if txstatus AND TxUnderrun \<noteq> 0
                  then do { s \<leftarrow> (if rt_tx_flag r < 0x00300000
                                 then upd_rtl p (\<lambda>r. r\<lparr>rt_tx_flag := rt_tx_flag r + 0x00020000\<rparr>) s else Some s);
                            upd_stats (rt_netdev r) (\<lambda>st. st\<lparr>tx_fifo_errors := tx_fifo_errors st + 1\<rparr>) s }
                  else Some s);
            upd_stats (rt_netdev r) (\<lambda>st. st\<lparr>collisions := collisions st + (drop_bit 24 txstatus AND 15),
              tx_bytes := tx_bytes st + (txstatus AND 0x7ff), tx_packets := tx_packets st + 1\<rparr>) s } }"

fun rtl8139_tx_clear_loop :: "'h nic_bus \<Rightarrow> u32 \<Rightarrow> u32 \<Rightarrow> nat \<Rightarrow> 'h nst \<Rightarrow> (u32 \<times> 'h nst) option" where
  "rtl8139_tx_clear_loop io p dirty_tx 0 s = Some (dirty_tx, s)"
| "rtl8139_tx_clear_loop io p dirty_tx (Suc n) s =
     do { r \<leftarrow> get_rtl p s;
          let e = unat (dirty_tx mod of_nat NUM_TX_DESC);
          let (txstatus, s) = on_mach (bus_insl io (rt_iobase r + TxStatus0 + of_nat (e * 4))) s;
          if txstatus AND (TxStatOK OR TxUnderrun OR TxAborted) = 0 then Some (dirty_tx, s)
          else do {
            s \<leftarrow> tx_done_stats io p txstatus s;
            r \<leftarrow> get_rtl p s;
            b \<leftarrow> rd (rt_tx_bufs r) e;
            let s = s\<lparr>net_heap := netbuf_free b (net_heap s)\<rparr>;
            s \<leftarrow> upd_rtl p (\<lambda>r. r\<lparr>rt_tx_bufs := (rt_tx_bufs r)[e := None]\<rparr>) s;
            rtl8139_tx_clear_loop io p (dirty_tx + 1) n s } }"

definition rtl8139_tx_clear :: "'h nic_bus \<Rightarrow> u32 \<Rightarrow> 'h nst \<Rightarrow> 'h nst option" where
  "rtl8139_tx_clear io p s =
     do { r \<leftarrow> get_rtl p s;
          (dirty_tx, s) \<leftarrow> rtl8139_tx_clear_loop io p (rt_dirty_tx r) (unat (rt_cur_tx r - rt_dirty_tx r)) s;
          upd_rtl p (\<lambda>r. r\<lparr>rt_dirty_tx := dirty_tx\<rparr>) s }"

fun tx_timeout_status :: "'h nic_bus \<Rightarrow> u16 \<Rightarrow> nat list \<Rightarrow> 'h nst \<Rightarrow> 'h nst" where
  "tx_timeout_status io ioaddr [] s = s"
| "tx_timeout_status io ioaddr (i # is) s =
     tx_timeout_status io ioaddr is (snd (on_mach (bus_insl io (ioaddr + TxStatus0 + of_nat (i * 4))) s))"

fun tx_timeout_drop :: "u32 \<Rightarrow> nat list \<Rightarrow> 'h nst \<Rightarrow> 'h nst option" where
  "tx_timeout_drop p [] s = Some s"
| "tx_timeout_drop p (i # is) s =
     do { r \<leftarrow> get_rtl p s;
          b \<leftarrow> rd (rt_tx_bufs r) i;
          s \<leftarrow> (case b of None \<Rightarrow> Some s
               | Some _ \<Rightarrow>
                   do { let s = s\<lparr>net_heap := netbuf_free b (net_heap s)\<rparr>;
                        s \<leftarrow> upd_rtl p (\<lambda>r. r\<lparr>rt_tx_bufs := (rt_tx_bufs r)[i := None]\<rparr>) s;
                        upd_stats (rt_netdev r) (\<lambda>st. st\<lparr>tx_dropped := tx_dropped st + 1\<rparr>) s });
          tx_timeout_drop p is s }"

definition rtl8139_tx_timeout :: "'h nic_bus \<Rightarrow> u32 \<Rightarrow> 'h nst \<Rightarrow> 'h nst option" where
  "rtl8139_tx_timeout io p s =
     do { r \<leftarrow> get_rtl p s;
          let ioaddr = rt_iobase r;
          let s = snd (on_mach (bus_insw io (ioaddr + IntrStatus)) s);
          let s = snd (on_mach (bus_insb io (ioaddr + ChipCmd)) s);
          let s = snd (on_mach (bus_insb io (ioaddr + GPPinData)) s);
          let s = upd_mach (bus_outw io (ioaddr + IntrMask) 0) s;
          let s = tx_timeout_status io ioaddr [0 ..< NUM_TX_DESC] s;
          s \<leftarrow> tx_timeout_drop p [0 ..< NUM_TX_DESC] s;
          (_, s) \<leftarrow> rtl8139_hw_start io p s;
          upd_rtl p (\<lambda>r. r\<lparr>rt_dirty_tx := 0, rt_cur_tx := 0, rt_tx_timeout_count := rt_tx_timeout_count r + 1\<rparr>) s }"

text \<open>At most \<open>max_interrupt_work\<close> rounds.\<close>

fun rtl8139_interrupt_loop :: "'h nic_bus \<Rightarrow> u32 \<Rightarrow> u16 \<Rightarrow> nat \<Rightarrow> 'h nst \<Rightarrow> 'h nst option" where
  "rtl8139_interrupt_loop io p ioaddr 0 s = Some s"
| "rtl8139_interrupt_loop io p ioaddr (Suc n) s =
     do { let (status, s) = on_mach (bus_insw io (ioaddr + IntrStatus)) s;
          if status = 0 \<or> status = 0xFFFF then Some s
          else do {
            let s = upd_mach (bus_outw io (ioaddr + IntrStatus) status) s;
            s \<leftarrow> (if status AND (RxOK OR RxErr) \<noteq> 0 then map_option snd (rtl8139_rx io p s) else Some s);
            s \<leftarrow> (if status AND (TxOK OR TxErr) \<noteq> 0 then rtl8139_tx_clear io p s else Some s);
            rtl8139_interrupt_loop io p ioaddr n s } }"

definition rtl8139_interrupt :: "'h nic_bus \<Rightarrow> 'h nst \<Rightarrow> 'h nst option" where
  "rtl8139_interrupt io s =
     do { rtl_dev \<leftarrow> pci_find_device (drv_pci (net_drv s)) RTL8139_VENDOR_ID RTL8139_DEVICE_ID;
          if rtl_dev = None then Some s
          else do {
            dev \<leftarrow> netdev_get_by_name s [101, 116, 104, 48, 0];
            if dev = 0 then Some s
            else do {
              d \<leftarrow> net_devs s dev;
              if nd_driver_data d = 0 then Some s
              else do { r \<leftarrow> get_rtl (nd_driver_data d) s;
                        rtl8139_interrupt_loop io (nd_driver_data d) (rt_iobase r)
                          (nat (sint (rt_max_interrupt_work r))) s } } } }"

subsection \<open>Attaching and removing the driver\<close>

definition rtl8139_init ::
    "'h nic_bus \<Rightarrow> u32 \<Rightarrow> nat \<times> pci_device \<Rightarrow> 'h nst \<Rightarrow> (int \<times> 'h nst) option" where
  "rtl8139_init io ops_addr = (\<lambda>(idx, pci_dev) s.
     do { bar0 \<leftarrow> rd (pd_bar pci_dev) 0;
          let iobase = (ucast (bar0 AND 0xFFFFFFFC) :: u16);
          let irq = pd_interrupt_line pci_dev;
          let (cmd, s) = on_mach (pci_config_read_32 io (pd_bus pci_dev) (pd_device pci_dev) (pd_function pci_dev) PCI_COMMAND_OFFSET) s;
          let cmd = (cmd OR PCI_COMMAND_IO OR PCI_COMMAND_MASTER) AND NOT PCI_COMMAND_INTX_DISABLE;
          let s = upd_mach (pci_config_write_32 io (pd_bus pci_dev) (pd_device pci_dev) (pd_function pci_dev) PCI_COMMAND_OFFSET cmd) s;
          let s = snd (on_mach (pci_config_read_32 io (pd_bus pci_dev) (pd_device pci_dev) (pd_function pci_dev) PCI_COMMAND_OFFSET) s);
          case kzalloc 120 (net_heap s) of
            (None, h) \<Rightarrow> Some (-1, s\<lparr>net_heap := h\<rparr>)
          | (Some (p, _), h) \<Rightarrow>
              do { let s = s\<lparr>net_heap := h, net_drv := (net_drv s)\<lparr>drv_rtl := (drv_rtl (net_drv s))(p \<mapsto> zero_rtl8139)\<rparr>\<rparr>;
                   (dev, s) \<leftarrow> netdev_create [101, 116, 104, 0] ops_addr (Some (idx, pci_dev)) p s;
                   if dev = 0
                   then Some (-1, s\<lparr>net_heap := kfree p (net_heap s),
                                   net_drv := (net_drv s)\<lparr>drv_rtl := (drv_rtl (net_drv s))(p := None)\<rparr>\<rparr>)
                   else do {
                     s \<leftarrow> upd_rtl p (\<lambda>r. r\<lparr>rt_netdev := dev, rt_iobase := iobase, rt_irq := irq, rt_flags := RTL8139_CAPS,
                            rt_full_duplex := 0, rt_duplex_lock := 0, rt_max_interrupt_work := max_interrupt_work,
                            rt_multicast_filter_limit := multicast_filter_limit, rt_phys := [32, -1, -1, -1]\<rparr>) s;
                     s \<leftarrow> rtl8139_get_mac_address io p s;
                     s \<leftarrow> upd_dev dev (\<lambda>d. d\<lparr>nd_state := NETDEV_STATE_DOWN, nd_iobase := iobase, nd_irq := irq\<rparr>) s;
                     Some (0, s) } } })"

definition rtl8139_cleanup :: "u32 \<Rightarrow> 'h nst \<Rightarrow> 'h nst option" where
  "rtl8139_cleanup p s =
     (if p = 0 then Some s
      else do { r \<leftarrow> get_rtl p s;
                if rt_netdev r = 0 then Some s
                else do { s \<leftarrow> netdev_destroy (rt_netdev r) s;
                          Some (s\<lparr>net_heap := kfree p (net_heap s),
                                 net_drv := (net_drv s)\<lparr>drv_rtl := (drv_rtl (net_drv s))(p := None)\<rparr>\<rparr>) } })"

subsection \<open>The multicast filter\<close>

fun crc_bits :: "nat \<Rightarrow> u8 \<Rightarrow> u32 \<Rightarrow> u32" where
  "crc_bits 0 current_octet crc = crc"
| "crc_bits (Suc n) current_octet crc =
     crc_bits n (drop_bit 1 current_octet)
       (push_bit 1 crc XOR (if bit crc 31 \<noteq> bit current_octet 0 then 0x04c11db7 else 0))"

fun rtl8139_ether_crc_loop :: "nat \<Rightarrow> u8 list \<Rightarrow> u32 \<Rightarrow> u32 option" where
  "rtl8139_ether_crc_loop 0 data crc = Some crc"
| "rtl8139_ether_crc_loop (Suc n) data crc =
     do { octet \<leftarrow> rd data 0; rtl8139_ether_crc_loop n (drop 1 data) (crc_bits 8 octet crc) }"

definition rtl8139_ether_crc :: "int \<Rightarrow> u8 list \<Rightarrow> u32 option" where
  "rtl8139_ether_crc len data = rtl8139_ether_crc_loop (nat len) data (- 1)"

definition rtl8139_set_bit :: "u32 list \<Rightarrow> int \<Rightarrow> u32 list option" where
  "rtl8139_set_bit flt bitnum =
     do { w \<leftarrow> rdi flt (bitnum div 32); wri flt (bitnum div 32) (w OR push_bit (nat (bitnum mod 32)) 1) }"

end
