(* ===== verification/Nic_Frames.thy ===== *)
theory Nic_Frames
  imports Rtl8139
begin

section \<open>Frames through the network card\<close>

text \<open>
  What the driver of \<^theory_text>\<open>Rtl8139\<close> promises of the card it drives, the interpretation of the driver
  contract on it, and the properties of the network stack down to the wire.
\<close>

subsection \<open>The card sends what the stack hands over\<close>

text \<open>
  The documented behaviour of the transmit half of the card at the I/O base \<open>base\<close>. The transmitter is on or
  off, and each of its four descriptors has an address register and belongs to the host or to the card. While
  the transmitter is on and a descriptor belongs to the host, a write to its address register sets it, and a write
  to its status register with the ownership bit (0x2000) clear and a length, in the low 13 bits, of at most 1792
  puts that many bytes on the wire, from memory at the address. \<open>txst\<close> is the state of the transmitter and \<open>wire\<close>
  the frames sent so far, as functions of the state of the hardware. What the card receives into memory in
  the meantime is seen by the driver only after it reads a register.
\<close>

record transmitter =
  tx_on :: bool
  tx_host :: "nat \<Rightarrow> bool"
  tx_addr :: "nat \<Rightarrow> u32"

definition nic_tx :: "'h nic_bus \<Rightarrow> u16 \<Rightarrow> ('h \<Rightarrow> transmitter) \<Rightarrow> ('h \<Rightarrow> u8 list list) \<Rightarrow> bool" where
  "nic_tx io base txst wire \<longleftrightarrow>
     (\<forall>m v. \<forall>e < 4. tx_on (txst (mach_hw m)) \<and> tx_host (txst (mach_hw m)) e \<longrightarrow>
        (let m' = bus_outl io (base + 0x20 + of_nat (e * 4)) v m; t = txst (mach_hw m')
         in mach_mem m' = mach_mem m \<and> wire (mach_hw m') = wire (mach_hw m) \<and> tx_on t \<and> tx_host t e \<and> tx_addr t e = v) \<and>
        (v AND 0x2000 = 0 \<and> unat (v AND 0x1FFF) \<le> 1792 \<longrightarrow>
           wire (mach_hw (bus_outl io (base + 0x10 + of_nat (e * 4)) v m)) = wire (mach_hw m) @
             [map (\<lambda>k. mach_mem m (tx_addr (txst (mach_hw m)) e + of_nat k)) [0 ..< unat (v AND 0x1FFF)]]))"

text \<open>
  The ring of a driver that was opened, with room for a frame. The driver is ready when the card's next
  descriptor can be used.
\<close>

definition rtl_ring_ok :: "rtl8139 \<Rightarrow> bool" where
  "rtl_ring_ok r \<longleftrightarrow>
     rt_rx_ring r \<noteq> 0 \<and> unat (rt_rx_ring r) + ring_size r \<le> 2 ^ 32 \<and> length (rt_tx_bufs r) = 4 \<and>
     rt_tx_buffer r = map (\<lambda>i. rt_rx_ring r + rt_rx_buf_len r + 16 + of_nat (i * 1536)) [0 ..< 4] \<and>
     rt_tx_flag r AND 0x3FFF = 0"

definition rtl_ready ::
    "'h nic_bus \<Rightarrow> ('h \<Rightarrow> transmitter) \<Rightarrow> ('h \<Rightarrow> u8 list list) \<Rightarrow> u32 \<Rightarrow> 'h nst \<Rightarrow> bool" where
  "rtl_ready io txst wire dev s \<longleftrightarrow>
     (\<exists>d r. net_devs s dev = Some d \<and> length (nd_hwaddr d) = 6 \<and> nd_ops d \<noteq> 0 \<and>
        get_rtl (nd_driver_data d) s = Some r \<and> rtl_ring_ok r \<and> rt_cur_tx r - rt_dirty_tx r < 4 \<and>
        nic_tx io (rt_iobase r) txst wire \<and>
        (let t = txst (mach_hw (drv_mach (net_drv s))) in tx_on t \<and> tx_host t (unat (rt_cur_tx r mod 4))))"

definition rtl_sent :: "('h \<Rightarrow> u8 list list) \<Rightarrow> u32 \<Rightarrow> 'h nst \<Rightarrow> u8 list list" where
  "rtl_sent wire dev s = wire (mach_hw (drv_mach (net_drv s)))"

lemma mem_write_nth:
  "unat a + length bs \<le> 2 ^ 32 \<Longrightarrow>
   mem_write m a bs b = (if unat a \<le> unat b \<and> unat b < unat a + length bs then bs ! (unat b - unat a) else m b)"
proof (induction bs arbitrary: m a)
  case (Cons x bs)
  show ?case
  proof (cases "bs = []")
    case True
    then show ?thesis by (auto simp: word_eq_unatI)
  next
    case False
    then have "unat a + 1 < 2 ^ 32" using Cons.prems by (cases bs) auto
    then have a1: "unat (a + 1) = unat a + 1" using unat_add_small [of a 1] by simp
    have le: "unat (a + 1) + length bs \<le> 2 ^ 32" using Cons.prems a1 by simp
    show ?thesis
      unfolding mem_write.simps Cons.IH [OF le] a1 using word_eq_unatI [of b a]
      by (auto simp: nth_Cons')
  qed
qed auto

lemma mem_write_read:
  assumes "unat a + length bs \<le> 2 ^ 32" "length bs \<le> n"
  shows "\<exists>pad. length pad = n - length bs \<and> map (\<lambda>k. mem_write m a bs (a + of_nat k)) [0 ..< n] = bs @ pad"
proof -
  have "map (\<lambda>k. mem_write m a bs (a + of_nat k)) [0 ..< length bs] = bs"
    using assms(1) by (intro nth_equalityI) (simp_all add: mem_write_nth unat_add_small)
  moreover have "[0 ..< n] = [0 ..< length bs] @ [length bs ..< n]"
    using assms(2) upt_add_eq_append [of 0 "length bs" "n - length bs"] by simp
  ultimately show ?thesis
    by (intro exI [of _ "map (\<lambda>k. mem_write m a bs (a + of_nat k)) [length bs ..< n]"]) simp
qed

lemma tx_len_bits:
  assumes "f AND 0x3FFF = (0 :: u32)" "unat n \<le> 1536"
  shows "unat ((f OR n) AND 0x1FFF) = unat n" "(f OR n) AND 0x2000 = 0"
proof -
  have m: "(0x1FFF :: u32) = mask 13" "(0x3FFF :: u32) = mask 14" by (simp_all add: mask_eq_exp_minus_1)
  have t: "take_bit 13 n = n" using assms(2) by (intro word_eq_unatI) (simp add: unsigned_take_bit_eq take_bit_nat_eq_self)
  have f: "f AND 0x1FFF = 0" "f AND 0x2000 = 0"
  proof -
    have "f AND 0x1FFF = (f AND 0x3FFF) AND 0x1FFF" "f AND 0x2000 = (f AND 0x3FFF) AND 0x2000" by (simp_all add: and.assoc)
    then show "f AND 0x1FFF = 0" "f AND 0x2000 = 0" unfolding assms(1) by simp_all
  qed
  have "(f OR n) AND 0x1FFF = n AND 0x1FFF" using f(1) by (simp add: bit.conj_disj_distrib2)
  also have "\<dots> = n" unfolding m using t by (simp add: take_bit_eq_mask)
  finally show "unat ((f OR n) AND 0x1FFF) = unat n" by simp
  have "(f OR n) AND 0x2000 = (n AND 0x1FFF) AND 0x2000"
    using f(2) t by (simp add: bit.conj_disj_distrib2 m take_bit_eq_mask)
  then show "(f OR n) AND 0x2000 = 0" by (simp add: and.assoc)
qed

lemma unat_ucast_16_32 [simp]: "unat (ucast (w :: u16) :: u32) = unat w"
  using unat_less_power [of w] by (simp add: unsigned_ucast_eq take_bit_nat_eq_self)

lemma rtl8139_transmit_sends:
  assumes r: "rtl_ready io txst wire dev s" and n: "unat (nb_len b) \<le> 1536" "unat (nb_len b) \<le> length (nb_data b)"
  shows "\<exists>s'. rtl8139_transmit io dev b s = Some (0, s') \<and> same_stack s s' \<and>
    on_wire (rtl_sent wire dev s) (rtl_sent wire dev s') (take (unat (nb_len b)) (nb_data b))"
proof -
  obtain d r where d: "net_devs s dev = Some d" "get_rtl (nd_driver_data d) s = Some r" "rtl_ring_ok r"
    "rt_cur_tx r - rt_dirty_tx r < 4" "nic_tx io (rt_iobase r) txst wire"
    "tx_on (txst (mach_hw (drv_mach (net_drv s))))" "tx_host (txst (mach_hw (drv_mach (net_drv s)))) (unat (rt_cur_tx r mod 4))"
    using assms(1) by (auto simp: rtl_ready_def Let_def)
  let ?p = "nd_driver_data d" and ?bs = "take (unat (nb_len b)) (nb_data b)"
  note ring = d(3) [unfolded rtl_ring_ok_def]
  define e where "e = unat (rt_cur_tx r mod 4)"
  have e: "e < 4" by (simp add: e_def unat_mod)
  define off where "off = unat (rt_rx_buf_len r) + 16 + e * 1536"
  define bounce where "bounce = rt_rx_ring r + rt_rx_buf_len r + 16 + of_nat (e * 1536)"
  have size: "off + 1536 \<le> ring_size r" using e by (simp add: off_def ring_size_def TX_BUF_SIZE_def NUM_TX_DESC_def)
  have bo: "bounce = rt_rx_ring r + of_nat off" by (simp add: bounce_def off_def algebra_simps)
  have un: "unat bounce = unat (rt_rx_ring r) + off"
    unfolding bo using ring size by (intro unat_add_small) linarith
  have off: "unat (bounce - rt_rx_ring r) = off"
  proof -
    have "unat (of_nat off :: u32) = off" using ring size unat_less_power [of "rt_rx_ring r"]
      by (simp add: unsigned_of_nat take_bit_nat_eq_self)
    then show ?thesis by (simp add: bo)
  qed
  let ?m = "mach_mem (drv_mach (net_drv s))"
  let ?m' = "mem_write ?m bounce ?bs"
  have dma: "dma_write r off ?bs ?m = Some ?m'"
    using ring size n by (simp add: dma_write_def bo)
  let ?z = "if (60 :: u32) \<le> ucast (nb_len b) then ucast (nb_len b) else 60 :: u32" and ?io = "rt_iobase r"
  define m1 where "m1 = (drv_mach (net_drv s))\<lparr>mach_mem := ?m'\<rparr>"
  define m2 where "m2 = bus_outl io (?io + 0x20 + of_nat (e * 4)) bounce m1"
  define m3 where "m3 = bus_outl io (?io + 0x10 + of_nat (e * 4)) (rt_tx_flag r OR ?z) m2"
  have run: "\<exists>s'. rtl8139_transmit io dev b s = Some (0, s') \<and> same_stack s s' \<and> drv_mach (net_drv s') = m3"
  proof -
    have "\<not> 4 \<le> rt_cur_tx r - rt_dirty_tx r" using d(4) by simp
    moreover have "rd (rt_tx_buffer r) e = Some bounce" using ring e by (simp add: rd_def bounce_def)
    moreover have "wr (rt_tx_bufs r) e (Some b) = Some ((rt_tx_bufs r)[e := Some b])" using ring e by (simp add: wr_def)
    moreover have "rd_bytes (nb_data b) 0 (unat (ucast (nb_len b) :: u32)) = Some ?bs"
      using n by (simp add: rd_bytes_def)
    ultimately show ?thesis
      using d(1,2) dma off
      by (simp add: rtl8139_transmit_def NUM_TX_DESC_def TxAddr0_def TxStatus0_def ETH_ZLEN_def e_def [symmetric] Let_def
          upd_rtl_def get_rtl_def upd_mach_def upd_stats_def upd_dev_def m1_def m2_def m3_def same_stack_def)
  qed
  have z: "unat ?z = max 60 (unat (nb_len b))"
    by (simp add: word_le_nat_alt)
  have "unat ?z \<le> 1536" unfolding z using n(1) by simp
  then have bits: "unat ((rt_tx_flag r OR ?z) AND 0x1FFF) = max 60 (unat (nb_len b))" "(rt_tx_flag r OR ?z) AND 0x2000 = 0"
    using tx_len_bits [of "rt_tx_flag r" ?z] ring z by metis+
  note nic = d(5) [unfolded nic_tx_def, rule_format, OF e]
  have m2: "mach_mem m2 = ?m'" "wire (mach_hw m2) = wire (mach_hw (drv_mach (net_drv s)))"
    "tx_on (txst (mach_hw m2))" "tx_host (txst (mach_hw m2)) e" "tx_addr (txst (mach_hw m2)) e = bounce"
    using nic [of m1 bounce] d(6,7) by (simp_all add: m2_def m1_def Let_def e_def)
  have "wire (mach_hw m3) = wire (mach_hw m2) @ [map (\<lambda>k. ?m' (bounce + of_nat k)) [0 ..< max 60 (unat (nb_len b))]]"
    using nic [of m2 "rt_tx_flag r OR ?z"] bits m2 n(1) by (simp add: m3_def)
  moreover obtain pad where "length pad = max 60 (unat (nb_len b)) - length ?bs"
      "map (\<lambda>k. ?m' (bounce + of_nat k)) [0 ..< max 60 (unat (nb_len b))] = ?bs @ pad"
    using mem_write_read [of bounce ?bs "max 60 (unat (nb_len b))" ?m] un ring size n by auto
  ultimately have "on_wire (wire (mach_hw (drv_mach (net_drv s)))) (wire (mach_hw m3)) ?bs"
    unfolding on_wire_def using m2 n by (intro exI [of _ pad]) auto
  then show ?thesis using run by (auto simp: rtl_sent_def)
qed

text \<open>The driver fulfils the contract the stack relies on, for frames of up to 1536 bytes.\<close>

interpretation rtl: net_driver "rtl8139_ops io" "rtl_ready io txst wire" "rtl_sent wire" 1536
  for io :: "'h nic_bus" and txst :: "'h \<Rightarrow> transmitter" and wire :: "'h \<Rightarrow> u8 list list"
proof
  fix dev and s :: "'h nst"
  assume "rtl_ready io txst wire dev s"
  then show "\<exists>d tx. net_devs s dev = Some d \<and> length (nd_hwaddr d) = 6 \<and>
      Option.bind (rtl8139_ops io (nd_ops d)) ops_transmit = Some tx"
    by (auto simp: rtl_ready_def rtl8139_ops_def rtl8139_netdev_ops_def)
next
  fix dev d tx and b :: netbuf and s :: "'h nst"
  assume a: "rtl_ready io txst wire dev s" "net_devs s dev = Some d" "unat (nb_len b) \<le> 1536" "unat (nb_len b) \<le> length (nb_data b)"
    and tx: "Option.bind (rtl8139_ops io (nd_ops d)) ops_transmit = Some tx"
  have "tx = rtl8139_transmit io" using tx by (auto simp: rtl8139_ops_def rtl8139_netdev_ops_def split: if_splits)
  then show "\<exists>s'. tx dev b s = Some (0, s') \<and> same_stack s s' \<and>
      on_wire (rtl_sent wire dev s) (rtl_sent wire dev s') (take (unat (nb_len b)) (nb_data b))"
    using rtl8139_transmit_sends [OF a(1,3,4)] by simp
next
  fix dev and s t :: "'h nst"
  assume a: "net_drv t = net_drv s" "map_option (\<lambda>d. d\<lparr>nd_stats := zero_stats\<rparr>) (net_devs t dev) =
      map_option (\<lambda>d. d\<lparr>nd_stats := zero_stats\<rparr>) (net_devs s dev)"
  have f: "nd_hwaddr d = nd_hwaddr d' \<and> nd_ops d = nd_ops d' \<and> nd_driver_data d = nd_driver_data d'"
    if "d\<lparr>nd_stats := zero_stats\<rparr> = d'\<lparr>nd_stats := zero_stats\<rparr>" for d d' :: netdev
    using that by (cases d; cases d') simp
  have "(\<exists>d. net_devs t dev = Some d \<and> P (nd_hwaddr d) (nd_ops d) (nd_driver_data d)) =
      (\<exists>d. net_devs s dev = Some d \<and> P (nd_hwaddr d) (nd_ops d) (nd_driver_data d))" for P
    using a(2) by (cases "net_devs t dev"; cases "net_devs s dev") (auto dest: f)
  from this [of "\<lambda>hw op p. length hw = 6 \<and> op \<noteq> 0 \<and> (\<exists>r. get_rtl p s = Some r \<and> rtl_ring_ok r \<and>
      rt_cur_tx r - rt_dirty_tx r < 4 \<and> nic_tx io (rt_iobase r) txst wire \<and>
      (let t = txst (mach_hw (drv_mach (net_drv s))) in tx_on t \<and> tx_host t (unat (rt_cur_tx r mod 4))))"]
  show "rtl_ready io txst wire dev t = rtl_ready io txst wire dev s \<and> rtl_sent wire dev t = rtl_sent wire dev s"
    using a(1) by (simp add: rtl_ready_def rtl_sent_def get_rtl_def)
qed simp

subsection \<open>The receive ring\<close>

text \<open>\<open>n\<close> bytes from position \<open>i\<close> of the receive ring, which continue at its start.\<close>

definition ring_at :: "rtl8139 \<Rightarrow> mem \<Rightarrow> nat \<Rightarrow> nat \<Rightarrow> u8 list" where
  "ring_at r m i n = map (\<lambda>k. m (rt_rx_ring r + of_nat ((i + k) mod unat (rt_rx_buf_len r)))) [0 ..< n]"

lemma unat_of_nat_u32: "n < 2 ^ 32 \<Longrightarrow> unat (of_nat n :: u32) = n"
  by (simp add: unsigned_of_nat take_bit_nat_eq_self)

lemma memcpy_at_whole: "length a = length d \<Longrightarrow> n = int (length d) \<Longrightarrow> memcpy_at d 0 a n = Some a"
  by (simp add: memcpy_at_eq)

lemma rx_copy_ok:
  assumes r: "rt_rx_ring r \<noteq> 0" "off + 4 \<le> unat (rt_rx_buf_len r)" "n \<le> unat (rt_rx_buf_len r)" "unat (rt_rx_buf_len r) \<le> 65536"
  shows "rx_copy r (of_nat off) (of_nat (n + 4)) (int n) m (replicate n 0) = Some (ring_at r m (off + 4) n)"
proof -
  let ?L = "unat (rt_rx_buf_len r)"
  let ?f = "\<lambda>i k. m (rt_rx_ring r + of_nat (i + k))"
  have u: "unat (of_nat off :: u32) = off" "unat (of_nat off + of_nat (n + 4) :: u32) = off + (n + 4)"
    using r unat_of_nat_u32 [of off] unat_of_nat_u32 [of "off + (n + 4)"] by simp_all
  have size: "?L \<le> ring_size r" by (simp add: ring_size_def)
  show ?thesis
  proof (cases "?L < off + (n + 4)")
    case True
    define k where "k = ?L - off - 4"
    have k: "off + 4 + k = ?L" "k < n" using r(2) True by (simp_all add: k_def)
    have len: "rt_rx_buf_len r = of_nat (off + 4 + k)" unfolding k(1) by simp
    have "rt_rx_buf_len r - of_nat off - 4 = of_nat k" unfolding len by simp
    then have semi: "sint (rt_rx_buf_len r - of_nat off - 4) = int k"
      using k r(4) by (simp add: sint_eq_uint_u32 uint_nat unat_of_nat_u32)
    have wrap: "(off + 4 + i) mod ?L = (if i < k then off + 4 + i else i - k)" if "i < n" for i
    proof (cases "i < k")
      case False
      then have "off + 4 + i = (i - k) + ?L" using k(1) by simp
      then have "(off + 4 + i) mod ?L = (i - k) mod ?L" by (metis mod_add_self2)
      then show ?thesis using False that r(3) by simp
    qed (use k(1) in simp)
    let ?a = "map (?f (off + 4)) [0 ..< k]" and ?b = "map (?f 0) [0 ..< n - k]"
    have "rx_copy r (of_nat off) (of_nat (n + 4)) (int n) m (replicate n 0) = Some (?a @ ?b)"
      unfolding rx_copy_def semi using True u r(1,3) k size
      by (simp add: word_less_nat_alt dma_read_def memcpy_at_eq nat_diff_distrib Let_def)
    also have "?a @ ?b = ring_at r m (off + 4) n"
      unfolding ring_at_def using k(2) wrap
      by (intro nth_equalityI) (auto simp: nth_append)
    finally show ?thesis .
  next
    case False
    then have "rx_copy r (of_nat off) (of_nat (n + 4)) (int n) m (replicate n 0) = Some (map (?f (off + 4)) [0 ..< n])"
      unfolding rx_copy_def using u r(1) size
      by (simp add: word_less_nat_alt dma_read_def memcpy_at_whole)
    also have "map (?f (off + 4)) [0 ..< n] = ring_at r m (off + 4) n"
      unfolding ring_at_def using False by (intro nth_equalityI) auto
    finally show ?thesis .
  qed
qed

text \<open>
  A frame of \<open>n\<close> bytes that the card has put into the ring at the position \<open>cur\<close> of the driver: the
  receive header with the length (the checksum of 4 bytes included), then the bytes.
\<close>

definition frame_in_ring :: "rtl8139 \<Rightarrow> mem \<Rightarrow> u16 \<Rightarrow> u8 list \<Rightarrow> bool" where
  "frame_in_ring r m cur f \<longleftrightarrow>
     (let i = unat cur mod unat (rt_rx_buf_len r); st = rd32 m (rt_rx_ring r + of_nat i)
      in i + 4 \<le> unat (rt_rx_buf_len r) \<and> drop_bit 16 st = of_nat (length f + 4) \<and> st AND 0x8000 = 0 \<and>
         ring_at r m (i + 4) (length f) = f)"

lemma rx_one_frame:
  assumes r: "get_rtl p s = Some r" "rt_rx_ring r \<noteq> 0" "unat (rt_rx_buf_len r) \<le> 65536"
    and f: "frame_in_ring r (mach_mem (drv_mach (net_drv s))) cur f" "f \<noteq> []" "length f \<le> 1536" "length f \<le> unat (rt_rx_buf_len r)"
    and h: "heap_ok (net_heap s)" "2 \<le> free_blocks (net_heap s)"
  obtains b h' where "owns b (heap_live (net_heap s)) h'" "free_blocks (net_heap s) = free_blocks h' + 2"
    "nb_data b = f" "nb_len b = of_nat (length f)"
    "rtl8139_rx_one io p cur s =
       do { (res, b', s') \<leftarrow> netdev_rx (rtl8139_ops io) (rt_netdev r) (Some b) (s\<lparr>net_heap := h'\<rparr>);
            s' \<leftarrow> upd_stats (rt_netdev r) (\<lambda>st. st\<lparr>rx_bytes := rx_bytes st + of_nat (length f), rx_packets := rx_packets st + 1\<rparr>)
                   (if res < 0 then s'\<lparr>net_heap := netbuf_free b' (net_heap s')\<rparr> else s');
            Some (Some (of_nat (length f + 4)), s') }"
proof -
  let ?n = "length f" and ?m = "mach_mem (drv_mach (net_drv s))"
  define i where "i = unat cur mod unat (rt_rx_buf_len r)"
  define st where "st = rd32 ?m (rt_rx_ring r + of_nat i)"
  have st: "i + 4 \<le> unat (rt_rx_buf_len r)" "drop_bit 16 st = of_nat (?n + 4)" "st AND 0x8000 = 0" "ring_at r ?m (i + 4) ?n = f"
    using f(1) by (simp_all add: frame_in_ring_def i_def st_def Let_def)
  have "unat (ucast cur mod rt_rx_buf_len r :: u32) = i" by (simp add: unat_mod i_def)
  then have off: "ucast cur mod rt_rx_buf_len r = of_nat i" by (metis word_of_nat_eq_iff unsigned_of_nat of_nat_unat ucast_id)
  have len: "unat (of_nat ?n :: u16) = ?n" using f(3) by (simp add: unsigned_of_nat take_bit_nat_eq_self)
  obtain b h' where b: "netbuf_alloc (of_nat ?n) (net_heap s) = (Some b, h')" "nb_data b = replicate ?n 0"
    "owns b (heap_live (net_heap s)) h'" "free_blocks (net_heap s) = free_blocks h' + 2"
    by (rule netbuf_alloc_ok [OF h(1), of "of_nat ?n"]) (use h(2) len f in auto)
  have pkt: "sint (of_nat (?n + 4) - 4 :: u32) = int ?n"
    using f(3) by (simp add: sint_eq_uint_u32 uint_nat unat_of_nat_u32)
  have nz: "rt_rx_buf_len r \<noteq> 0" using st(1) by auto
  have rd: "dma_read r i 4 ?m \<noteq> None" using r(2) st(1) by (simp add: dma_read_def ring_size_def)
  have i: "unat (of_nat i :: u32) = i" using st(1) r(3) by (intro unat_of_nat_u32) simp
  have copy: "rx_copy r (of_nat i) (of_nat (?n + 4)) (int ?n) ?m (replicate ?n 0) = Some f"
    using rx_copy_ok [OF r(2) st(1) f(4) r(3)] st(4) by simp
  let ?b = "b\<lparr>nb_data := f, nb_len := of_nat ?n, nb_total_len := of_nat ?n\<rparr>"
  show thesis
  proof (rule that [of ?b h'])
    show "owns ?b (heap_live (net_heap s)) h'" using b(3) by (rule owns_cong) simp_all
  qed (use r(1) off i nz rd st(2,3) pkt b copy in \<open>auto simp: rtl8139_rx_one_def st_def Let_def split_def\<close>)
qed

text \<open>A card that is up: its driver is ready, device and driver refer to each other, and the ring has one of its three sizes.\<close>

definition nic_up ::
    "'h nic_bus \<Rightarrow> ('h \<Rightarrow> transmitter) \<Rightarrow> ('h \<Rightarrow> u8 list list) \<Rightarrow> u32 \<Rightarrow> u32 \<Rightarrow> rtl8139 \<Rightarrow> 'h nst \<Rightarrow> bool" where
  "nic_up io txst wire dev p r s \<longleftrightarrow>
     rtl_ready io txst wire dev s \<and> dev \<noteq> 0 \<and> get_rtl p s = Some r \<and> rt_netdev r = dev \<and> rt_rx_ring r \<noteq> 0 \<and>
     rt_rx_buf_len r \<in> {8192, 16384, 32768}"

lemma nic_up_len: "nic_up io txst wire dev p r s \<Longrightarrow> unat (rt_rx_buf_len r) \<le> 65536 \<and> 1536 \<le> unat (rt_rx_buf_len r)"
  by (auto simp: nic_up_def)

lemma stats_after:
  assumes "same_stack t s'" "rtl_ready io txst wire dev t'" "net_devs t = net_devs t'"
  obtains s'' where "upd_stats dev f s' = Some s''" "same_stack s' s''" "net_drv s'' = net_drv s'"
proof -
  obtain d where "net_devs t dev = Some d" using assms(2,3) by (auto simp: rtl_ready_def)
  then have "map_option (\<lambda>d. d\<lparr>nd_stats := zero_stats\<rparr>) (net_devs s' dev) \<noteq> None"
    using assms(1) by (simp add: same_stack_def)
  then obtain d' where d': "net_devs s' dev = Some d'" by auto
  show thesis
    using count_rx [OF d', of "\<lambda>d. f (nd_stats d)"] that by (auto simp: upd_stats_def)
qed

text \<open>
  What holds after the stack handled a frame from the ring, in the cases in which it accepts it: \<open>Q\<close> is
  a property of the buffer of the frame and the state that does not depend on the counters.
\<close>

lemma rx_one_handled:
  assumes up: "nic_up io txst wire dev p r s" and h: "heap_ok (net_heap s)" "2 \<le> free_blocks (net_heap s)"
    and f: "frame_in_ring r (mach_mem (drv_mach (net_drv s))) cur f" "f \<noteq> []" "length f \<le> 1536"
    and handled: "\<And>b h'. nb_data b = f \<Longrightarrow> unat (nb_len b) = length f \<Longrightarrow> owns b (heap_live (net_heap s)) h' \<Longrightarrow>
      free_blocks (net_heap s) = free_blocks h' + 2 \<Longrightarrow> rtl_ready io txst wire dev (s\<lparr>net_heap := h'\<rparr>) \<Longrightarrow>
      \<exists>b' t s1. netdev_rx (rtl8139_ops io) dev (Some b) (s\<lparr>net_heap := h'\<rparr>) = Some (0, b', s1) \<and>
        same_stack t s1 \<and> net_devs t = net_devs s \<and> Q b h' s1"
    and stable: "\<And>b h' s1 s2. Q b h' s1 \<Longrightarrow> same_stack s1 s2 \<Longrightarrow> net_drv s2 = net_drv s1 \<Longrightarrow> Q b h' s2"
  shows "\<exists>b h' s'. rtl8139_rx_one io p cur s = Some (Some (of_nat (length f + 4)), s') \<and>
    owns b (heap_live (net_heap s)) h' \<and> Q b h' s'"
proof -
  note u = up [unfolded nic_up_def]
  obtain b h' where b: "owns b (heap_live (net_heap s)) h'" "free_blocks (net_heap s) = free_blocks h' + 2"
    "nb_data b = f" "nb_len b = of_nat (length f)"
    "rtl8139_rx_one io p cur s =
       do { (res, b', s') \<leftarrow> netdev_rx (rtl8139_ops io) (rt_netdev r) (Some b) (s\<lparr>net_heap := h'\<rparr>);
            s' \<leftarrow> upd_stats (rt_netdev r) (\<lambda>st. st\<lparr>rx_bytes := rx_bytes st + of_nat (length f), rx_packets := rx_packets st + 1\<rparr>)
                   (if res < 0 then s'\<lparr>net_heap := netbuf_free b' (net_heap s')\<rparr> else s');
            Some (Some (of_nat (length f + 4)), s') }"
    by (rule rx_one_frame [where f = f and cur = cur and s = s and p = p and r = r and io = io])
      (use u nic_up_len [OF up] f h in auto)
  have len: "unat (nb_len b) = length f"
    unfolding b(4) using f(3) by (simp add: unsigned_of_nat take_bit_nat_eq_self)
  have r: "rtl_ready io txst wire dev (s\<lparr>net_heap := h'\<rparr>)" using u rtl.driver_update by blast
  obtain b' t s1 where s1: "netdev_rx (rtl8139_ops io) dev (Some b) (s\<lparr>net_heap := h'\<rparr>) = Some (0, b', s1)"
    "same_stack t s1" "net_devs t = net_devs s" "Q b h' s1"
    using handled [OF b(3) len b(1,2) r] by blast
  obtain s' where s': "upd_stats dev (\<lambda>st. st\<lparr>rx_bytes := rx_bytes st + of_nat (length f), rx_packets := rx_packets st + 1\<rparr>) s1 = Some s'"
    "same_stack s1 s'" "net_drv s' = net_drv s1"
    using stats_after [OF s1(2), of io txst wire dev s] u s1(3) by blast
  have "rtl8139_rx_one io p cur s = Some (Some (of_nat (length f + 4)), s')"
    using b(5) u s1(1) s'(1) by simp
  then show ?thesis using b(1) stable [OF s1(4) s'(2,3)] by blast
qed

lemma ping_from_ring:
  assumes up: "nic_up io txst wire dev p r s" and h: "heap_ok (net_heap s)" "8 \<le> free_blocks (net_heap s)"
    and a: "arp_ok s" "arp_map s src = Some mac" "length src = 4"
    and f: "length dmac = 6" "length smac = 6" "4 \<le> length body" "ip_header 1 src our_ip (4 + length body) hdr"
      "18 + length hdr + length body + length pad \<le> 1536"
      "frame_in_ring r (mach_mem (drv_mach (net_drv s))) cur (eth_frame dmac smac 0x0800 (hdr @ icmp_echo 8 body @ pad))"
  shows "\<exists>s'. rtl8139_rx_one io p cur s = Some (Some (of_nat (22 + length hdr + length body + length pad)), s') \<and>
    on_wire (rtl_sent wire dev s) (rtl_sent wire dev s')
      (eth_frame mac (mac_of dev s) 0x0800 (ip_packet (ip_id_counter s) 1 our_ip src (icmp_echo 0 body)))"
proof -
  let ?f = "eth_frame dmac smac 0x0800 (hdr @ icmp_echo 8 body @ pad)"
  let ?w = "eth_frame mac (mac_of dev s) 0x0800 (ip_packet (ip_id_counter s) 1 our_ip src (icmp_echo 0 body))"
  have n: "length ?f = 18 + length hdr + length body + length pad" using f(1,2) by (simp add: eth_frame_def icmp_echo_length)
  have hl: "20 \<le> length hdr" using f(4) by (simp add: ip_header_def)
  have "\<exists>b h' s'. rtl8139_rx_one io p cur s = Some (Some (of_nat (length ?f + 4)), s') \<and>
    owns b (heap_live (net_heap s)) h' \<and> on_wire (rtl_sent wire dev s) (rtl_sent wire dev s') ?w"
  proof (rule rx_one_handled [OF up h(1) _ f(6), where Q = "\<lambda>b h' s'. on_wire (rtl_sent wire dev s) (rtl_sent wire dev s') ?w"])
    fix b h'
    assume b: "nb_data b = ?f" "unat (nb_len b) = length ?f" "owns b (heap_live (net_heap s)) h'"
      "free_blocks (net_heap s) = free_blocks h' + 2" "rtl_ready io txst wire dev (s\<lparr>net_heap := h'\<rparr>)"
    have l: "34 \<le> unat (nb_len b)" "dev \<noteq> 0" "heap_ok h'" using b(2,3) n hl up by (simp_all add: nic_up_def owns_def)
    obtain s1 where s1: "netdev_rx (rtl8139_ops io) dev (Some b) (s\<lparr>net_heap := h'\<rparr>) = Some (0, Some (stripped b), s1)"
      "on_wire (rtl_sent wire dev s) (rtl_sent wire dev s1) ?w"
      "same_stack (s\<lparr>net_heap := net_heap s1, ip_id_counter := ip_id_counter s + 1\<rparr>) s1"
      using rtl.ping [OF b(5) l(2) _ _ _ _ a(3) f(1-3) _ f(4) b(1) l(1), where mac = mac] l(3) b(4) h(2) a(1,2) f(5) hl
      by (auto simp: rtl.driver_update)
    then show "\<exists>b' t s1. netdev_rx (rtl8139_ops io) dev (Some b) (s\<lparr>net_heap := h'\<rparr>) = Some (0, b', s1) \<and>
        same_stack t s1 \<and> net_devs t = net_devs s \<and> on_wire (rtl_sent wire dev s) (rtl_sent wire dev s1) ?w"
      by (intro exI [of _ "Some (stripped b)"] exI [of _ s1]
          exI [of _ "s\<lparr>net_heap := net_heap s1, ip_id_counter := ip_id_counter s + 1\<rparr>"]) simp
  qed (use n h f(5) in \<open>auto simp: rtl_sent_def\<close>)
  then show ?thesis unfolding n by (auto simp: add.commute)
qed

lemma arp_from_ring:
  assumes up: "nic_up io txst wire dev p r s" and h: "heap_ok (net_heap s)" "6 \<le> free_blocks (net_heap s)"
    and a: "arp_ok s" "length sip = 4" "length smac = 6" "length tmac = 6"
    and f: "length dmac = 6" "length emac = 6" "length pad \<le> 1400"
      "frame_in_ring r (mach_mem (drv_mach (net_drv s))) cur (eth_frame dmac emac 0x0806 (arp_packet 1 smac sip tmac our_ip @ pad))"
  shows "\<exists>s'. rtl8139_rx_one io p cur s = Some (Some (of_nat (46 + length pad)), s') \<and>
    on_wire (rtl_sent wire dev s) (rtl_sent wire dev s')
      (eth_frame smac (mac_of dev s) 0x0806 (arp_packet 2 (mac_of dev s) our_ip smac sip)) \<and>
    arp_ok s' \<and> arp_map s' sip = Some smac"
proof -
  let ?f = "eth_frame dmac emac 0x0806 (arp_packet 1 smac sip tmac our_ip @ pad)"
  let ?Q = "\<lambda>b :: netbuf. \<lambda>h' :: heap. \<lambda>s'. on_wire (rtl_sent wire dev s) (rtl_sent wire dev s')
      (eth_frame smac (mac_of dev s) 0x0806 (arp_packet 2 (mac_of dev s) our_ip smac sip)) \<and>
    arp_ok s' \<and> arp_map s' sip = Some smac"
  have n: "length ?f = 42 + length pad"
    using f(1,2) a by (simp add: eth_frame_def arp_packet_def our_ip_def)
  have "\<exists>b h' s'. rtl8139_rx_one io p cur s = Some (Some (of_nat (length ?f + 4)), s') \<and>
    owns b (heap_live (net_heap s)) h' \<and> ?Q b h' s'"
  proof (rule rx_one_handled [OF up h(1) _ f(4), where Q = ?Q])
    fix b h'
    assume b: "nb_data b = ?f" "unat (nb_len b) = length ?f" "owns b (heap_live (net_heap s)) h'"
      "free_blocks (net_heap s) = free_blocks h' + 2" "rtl_ready io txst wire dev (s\<lparr>net_heap := h'\<rparr>)"
    have l: "42 \<le> unat (nb_len b)" "dev \<noteq> 0" "heap_ok h'" using b(2,3) n up by (simp_all add: nic_up_def owns_def)
    obtain s1 where s1: "netdev_rx (rtl8139_ops io) dev (Some b) (s\<lparr>net_heap := h'\<rparr>) = Some (0, Some (stripped b), s1)"
      "?Q b h' s1" "same_stack (s\<lparr>net_heap := net_heap s1, net_arp_cache := net_arp_cache s1, net_arp_next := net_arp_next s1\<rparr>) s1"
      using rtl.arp_request [OF b(5) l(2) _ _ _ _ a(2-4) f(1,2) b(1) l(1)] l(3) b(4) h(2) a(1)
      by (auto simp: rtl.driver_update)
    then show "\<exists>b' t s1. netdev_rx (rtl8139_ops io) dev (Some b) (s\<lparr>net_heap := h'\<rparr>) = Some (0, b', s1) \<and>
        same_stack t s1 \<and> net_devs t = net_devs s \<and> ?Q b h' s1"
      by (intro exI [of _ "Some (stripped b)"] exI [of _ s1]
          exI [of _ "s\<lparr>net_heap := net_heap s1, net_arp_cache := net_arp_cache s1, net_arp_next := net_arp_next s1\<rparr>"]) simp
  qed (use n h f(3) in \<open>auto simp: same_stack_arp rtl_sent_def\<close>)
  then show ?thesis unfolding n by (auto simp: add.commute)
qed

text \<open>A datagram is delivered, and the two pages of the buffer it was received in stay allocated.\<close>

lemma udp_from_ring:
  assumes up: "nic_up io txst wire dev p r s" and h: "heap_ok (net_heap s)" "2 \<le> free_blocks (net_heap s)"
    and t: "table_ok (sockets s)" "i < 16" "so_in_use (sockets s ! i) \<noteq> 0" "so_bound_port (sockets s ! i) = dp" "dp \<noteq> 0"
      "length (received (sockets s ! i)) < 8"
    and f: "length dmac = 6" "length smac = 6" "ip_header 17 src our_ip (8 + length body) hdr" "udp_header sp dp (length body) uh"
      "22 + length hdr + length body + length pad \<le> 1536"
      "frame_in_ring r (mach_mem (drv_mach (net_drv s))) cur (eth_frame dmac smac 0x0800 (hdr @ uh @ body @ pad))"
  shows "\<exists>b s'. rtl8139_rx_one io p cur s = Some (Some (of_nat (26 + length hdr + length body + length pad)), s') \<and>
    table_ok (sockets s') \<and> received (sockets s' ! i) = received (sockets s ! i) @ [(body, src, sp)] \<and>
    (\<forall>j. j \<noteq> i \<longrightarrow> sockets s' ! j = sockets s ! j) \<and> owns b (heap_live (net_heap s)) (net_heap s') \<and>
    same_stack (s\<lparr>net_heap := net_heap s', sockets := sockets s'\<rparr>) s' \<and> net_drv s' = net_drv s"
proof -
  let ?f = "eth_frame dmac smac 0x0800 (hdr @ uh @ body @ pad)"
  let ?Q = "\<lambda>b :: netbuf. \<lambda>h'. \<lambda>s'. table_ok (sockets s') \<and>
    received (sockets s' ! i) = received (sockets s ! i) @ [(body, src, sp)] \<and>
    (\<forall>j. j \<noteq> i \<longrightarrow> sockets s' ! j = sockets s ! j) \<and> net_heap s' = h' \<and>
    same_stack (s\<lparr>net_heap := net_heap s', sockets := sockets s'\<rparr>) s' \<and> net_drv s' = net_drv s"
  have n: "length ?f = 22 + length hdr + length body + length pad" and hl: "20 \<le> length hdr"
    using f(1-4) by (simp_all add: eth_frame_def ip_header_def udp_header_def)
  have "\<exists>b h' s'. rtl8139_rx_one io p cur s = Some (Some (of_nat (length ?f + 4)), s') \<and>
    owns b (heap_live (net_heap s)) h' \<and> ?Q b h' s'"
  proof (rule rx_one_handled [OF up h f(6), where Q = ?Q])
    fix b :: netbuf and h'
    assume b: "nb_data b = ?f" "unat (nb_len b) = length ?f" "rtl_ready io txst wire dev (s\<lparr>net_heap := h'\<rparr>)"
    obtain d where d: "net_devs (s\<lparr>net_heap := h'\<rparr>) dev = Some d" using b(3) by (auto simp: rtl_ready_def)
    have l: "34 \<le> unat (nb_len b)" "dev \<noteq> 0" "length body \<le> 1500" using b(2) n hl up f(5) by (simp_all add: nic_up_def)
    obtain ss s1 where s1: "netdev_rx (rtl8139_ops io) dev (Some b) (s\<lparr>net_heap := h'\<rparr>) = Some (0, Some (stripped b), s1)"
      "same_stack (s\<lparr>net_heap := h', sockets := ss\<rparr>) s1" "table_ok ss" "received (ss ! i) = received (sockets s ! i) @ [(body, src, sp)]"
      "\<forall>j. j \<noteq> i \<longrightarrow> ss ! j = sockets s ! j" "net_drv s1 = net_drv s"
      using udp_frame_delivered [OF d l(2) _ t(2) _ _ t(5) _ f(1,2) l(3) f(3,4) b(1) l(1), where ops = "rtl8139_ops io"] t by auto
    then show "\<exists>b' t s1. netdev_rx (rtl8139_ops io) dev (Some b) (s\<lparr>net_heap := h'\<rparr>) = Some (0, b', s1) \<and>
        same_stack t s1 \<and> net_devs t = net_devs s \<and> ?Q b h' s1"
      by (intro exI [of _ "Some (stripped b)"] exI [of _ "s\<lparr>net_heap := h', sockets := ss\<rparr>"] exI [of _ s1]) (simp add: same_stack_def)
  qed (use n hl f(5) in \<open>auto simp: same_stack_def\<close>)
  then show ?thesis unfolding n by (auto simp: add.commute)
qed

subsection \<open>A card to run on\<close>

text \<open>
  A concrete card at the I/O base 0xC000 that behaves as documented, and a machine with it: one device
  that is up, the kernel heap after boot, the ARP entry of the gateway, a socket bound to port 7, and a
  frame in the receive ring.
\<close>

record sim_nic =
  sn_tx :: transmitter
  sn_wire :: "u8 list list"

definition sim_outl :: "u16 \<Rightarrow> u32 \<Rightarrow> sim_nic machine \<Rightarrow> sim_nic machine" where
  "sim_outl port v m =
     (let t = sn_tx (mach_hw m) in
      if 0xC020 \<le> unat port \<and> unat port < 0xC030
      then m\<lparr>mach_hw := (mach_hw m)\<lparr>sn_tx := t\<lparr>tx_addr := (tx_addr t)((unat port - 0xC020) div 4 := v)\<rparr>\<rparr>\<rparr>
      else if 0xC010 \<le> unat port \<and> unat port < 0xC020 \<and> tx_on t \<and> tx_host t ((unat port - 0xC010) div 4) \<and> v AND 0x2000 = 0
      then m\<lparr>mach_hw := (mach_hw m)\<lparr>sn_wire := sn_wire (mach_hw m) @
             [map (\<lambda>k. mach_mem m (tx_addr t ((unat port - 0xC010) div 4) + of_nat k)) [0 ..< unat (v AND 0x1FFF)]]\<rparr>\<rparr>
      else m)"

definition sim_bus :: "sim_nic nic_bus" where
  "sim_bus = idle_bus\<lparr>bus_outl := sim_outl\<rparr>"

lemma sim_nic_tx: "nic_tx sim_bus 0xC000 sn_tx sn_wire"
  unfolding nic_tx_def
proof (intro allI impI)
  fix m :: "sim_nic machine" and v and e :: nat
  assume e: "e < 4" and t: "tx_on (sn_tx (mach_hw m)) \<and> tx_host (sn_tx (mach_hw m)) e"
  have "unat (of_nat (e * 4) :: u16) = e * 4" using e by (simp only: unsigned_of_nat) (simp add: take_bit_nat_eq_self)
  then have p: "unat (0xC020 + of_nat e * 4 :: u16) = 0xC020 + e * 4" "unat (0xC010 + of_nat e * 4 :: u16) = 0xC010 + e * 4"
    using unat_add_u16 [of "0xC020" "of_nat (e * 4)"] unat_add_u16 [of "0xC010" "of_nat (e * 4)"] e by simp_all
  show "(let m' = bus_outl sim_bus (0xC000 + 0x20 + of_nat (e * 4)) v m; t = sn_tx (mach_hw m')
         in mach_mem m' = mach_mem m \<and> sn_wire (mach_hw m') = sn_wire (mach_hw m) \<and> tx_on t \<and> tx_host t e \<and> tx_addr t e = v) \<and>
        (v AND 0x2000 = 0 \<and> unat (v AND 0x1FFF) \<le> 1792 \<longrightarrow>
           sn_wire (mach_hw (bus_outl sim_bus (0xC000 + 0x10 + of_nat (e * 4)) v m)) = sn_wire (mach_hw m) @
             [map (\<lambda>k. mach_mem m (tx_addr (sn_tx (mach_hw m)) e + of_nat k)) [0 ..< unat (v AND 0x1FFF)]])"
    using e t by (simp add: sim_bus_def sim_outl_def p Let_def)
qed

definition demo_rtl :: rtl8139 where
  "demo_rtl = zero_rtl8139\<lparr>rt_netdev := 0x1100000, rt_iobase := 0xC000, rt_rx_ring := 0x1400000, rt_rx_buf_len := 8192,
     rt_tx_buffer := map (\<lambda>i. 0x1402010 + of_nat (i * 1536)) [0 ..< 4], rt_tx_flag := 0x80000\<rparr>"

definition demo_mem :: "u8 list \<Rightarrow> mem" where
  "demo_mem f = mem_write (wr32 (\<lambda>_. 0) 0x1400000 (push_bit 16 (of_nat (length f + 4)) OR 1)) 0x1400004 f"

definition demo_net :: "u8 list \<Rightarrow> sim_nic nst" where
  "demo_net f =
     \<lparr>net_heap = the (kheap_init (\<lambda>_. 0) four_blocks),
      net_devs = [0x1100000 \<mapsto> zero_netdev\<lparr>nd_hwaddr := [0x52, 0x54, 0, 0x12, 0x34, 0x56], nd_ops := 0x100000, nd_driver_data := 0x1200000\<rparr>],
      netdevs = [0x1100000, 0, 0, 0, 0, 0, 0, 0], netdev_count = 1, eth_counter = 1,
      net_arp_cache = \<lparr>ac_ip = [10, 0, 2, 15], ac_mac = [0x52, 0x55, 10, 0, 2, 2], ac_valid = 1\<rparr> #
        replicate 15 \<lparr>ac_ip = replicate 4 0, ac_mac = replicate 6 0, ac_valid = 0\<rparr>,
      net_arp_next = 1, ip_id_counter = 1, sockets = echo_table,
      net_drv = \<lparr>drv_rtl = [0x1200000 \<mapsto> demo_rtl],
        drv_mach = \<lparr>mach_hw = \<lparr>sn_tx = \<lparr>tx_on = True, tx_host = (\<lambda>_. True), tx_addr = (\<lambda>_. 0)\<rparr>, sn_wire = []\<rparr>, mach_mem = demo_mem f\<rparr>,
        drv_callbacks = replicate 512 None, drv_pci = \<lparr>pci_devices = [], pci_device_count = 0\<rparr>\<rparr>\<rparr>"

lemma demo_up: "nic_up sim_bus sn_tx sn_wire 0x1100000 0x1200000 demo_rtl (demo_net f)"
proof -
  have "rtl_ring_ok demo_rtl"
    by (simp add: rtl_ring_ok_def demo_rtl_def zero_rtl8139_def ring_size_def TX_BUF_SIZE_def NUM_TX_DESC_def)
  then show ?thesis
    using sim_nic_tx
    by (simp add: nic_up_def rtl_ready_def demo_net_def get_rtl_def) (simp add: demo_rtl_def zero_rtl8139_def)
qed

lemma demo_heap: "heap_ok (net_heap (demo_net f))" "free_blocks (net_heap (demo_net f)) = 25600"
proof -
  show "heap_ok (net_heap (demo_net f))"
    using kheap_init_eq [of "\<lambda>_. 0" four_blocks] kheap_init_ok [of "\<lambda>_. 0" four_blocks] by (simp add: demo_net_def)
  have "{b \<in> {0 ..< 25600}. True} = {0 ..< 25600 :: int}" by auto
  then show "free_blocks (net_heap (demo_net f)) = 25600"
    by (simp add: demo_net_def kheap_init_eq free_blocks_def entry_defs)
qed

lemma demo_arp: "arp_ok (demo_net f)" "arp_map (demo_net f) [10, 0, 2, 15] = Some [0x52, 0x55, 10, 0, 2, 2]"
  by (auto simp: arp_ok_def demo_net_def arp_map_def nth_Cons' split: if_splits)

lemma demo_facts:
  "rtl_sent sn_wire dev (demo_net f) = []" "mac_of 0x1100000 (demo_net f) = [0x52, 0x54, 0, 0x12, 0x34, 0x56]"
  "ip_id_counter (demo_net f) = 1" "sockets (demo_net f) = echo_table" "netdev_get_by_index (demo_net f) 0 = Some 0x1100000"
  by (simp_all add: rtl_sent_def mac_of_def demo_net_def netdev_get_by_index_def rd_def)

lemma demo_frame:
  assumes "length f \<le> 1536"
  shows "frame_in_ring demo_rtl (mach_mem (drv_mach (net_drv (demo_net f)))) 0 f"
proof -
  let ?m = "demo_mem f" and ?st = "push_bit 16 (of_nat (length f + 4)) OR 1 :: u32"
  have n: "unat (0x1400004 :: u32) + length f \<le> 2 ^ 32" using assms by simp
  have "?m a = wr32 (\<lambda>_. 0) 0x1400000 ?st a" if "unat a < 0x1400004" for a
    unfolding demo_mem_def mem_write_nth [OF n] using that by simp
  then have "rd32 ?m 0x1400000 = rd32 (wr32 (\<lambda>_. 0) 0x1400000 ?st) 0x1400000" by (simp add: rd32_def)
  then have st: "rd32 ?m 0x1400000 = ?st" by simp
  have b: "bit (of_nat (length f + 4) :: u32) k \<Longrightarrow> k < 16" for k
  proof -
    have "take_bit 16 (of_nat (length f + 4) :: u32) = of_nat (length f + 4)"
      using assms by (intro word_eq_unatI) (simp only: unsigned_take_bit_eq unsigned_of_nat, simp add: take_bit_nat_eq_self)
    then show "bit (of_nat (length f + 4) :: u32) k \<Longrightarrow> k < 16" by (metis bit_take_bit_iff)
  qed
  have "drop_bit 16 ?st = of_nat (length f + 4)"
    by (rule bit_word_eqI) (use b in \<open>auto simp: bit_simps\<close>)
  moreover have "?st AND 0x8000 = 0"
  proof -
    have "bit (push_bit 15 1 :: u32) k \<longleftrightarrow> k = 15" for k unfolding bit_push_bit_iff bit_1_iff by auto
    then have k: "bit (0x8000 :: u32) k \<longleftrightarrow> k = 15" for k by simp
    show ?thesis
    proof (rule bit_word_eqI)
      fix n
      show "bit (?st AND 0x8000) n = bit (0 :: u32) n"
        unfolding bit_and_iff k bit_or_iff bit_push_bit_iff bit_1_iff by auto
    qed
  qed
  moreover have "ring_at demo_rtl ?m 4 (length f) = f"
    unfolding ring_at_def demo_mem_def
    by (intro nth_equalityI) (use assms n in \<open>auto simp: mem_write_nth demo_rtl_def unat_add_small\<close>)
  ultimately show ?thesis
    using st by (simp add: frame_in_ring_def demo_net_def demo_rtl_def Let_def)
qed

subsection \<open>Properties\<close>

text \<open>
  (C18) An echo request for this host in the receive ring is answered: the driver takes it from the ring, also
  where it continues at the start of the ring, and the reply is put on the wire, addressed to the
  sender, with the same identifier, sequence number and data and with correct checksums. The request may have any
  IPv4 header that verifies, options included. The hypotheses are a card that is up, room on the heap and an ARP
  entry for the sender.
\<close>

theorem ping_is_answered:
  assumes "nic_up io txst wire dev p r s" "heap_ok (net_heap s)" "8 \<le> free_blocks (net_heap s)"
    and "arp_ok s" "arp_map s src = Some mac" "length src = 4"
    and "length dmac = 6" "length smac = 6" "4 \<le> length body" "ip_header 1 src our_ip (4 + length body) hdr"
      "18 + length hdr + length body + length pad \<le> 1536"
    and "frame_in_ring r (mach_mem (drv_mach (net_drv s))) cur (eth_frame dmac smac 0x0800 (hdr @ icmp_echo 8 body @ pad))"
  shows "\<exists>s'. rtl8139_rx_one io p cur s = Some (Some (of_nat (22 + length hdr + length body + length pad)), s') \<and>
    on_wire (rtl_sent wire dev s) (rtl_sent wire dev s')
      (eth_frame mac (mac_of dev s) 0x0800 (ip_packet (ip_id_counter s) 1 our_ip src (icmp_echo 0 body)))"
  using assms by (rule ping_from_ring)

definition demo_ping_header :: "u8 list" where
  "demo_ping_header = [0x45, 0, 0, 31, 0, 7, 0, 0, 128, 1, 0x22, 0xBA, 10, 0, 2, 15, 10, 0, 2, 15]"

definition demo_ping :: "u8 list" where
  "demo_ping = eth_frame [0x52, 0x54, 0, 0x12, 0x34, 0x56] [0x52, 0x55, 10, 0, 2, 2] 0x0800
     (demo_ping_header @ icmp_echo 8 [0, 1, 0, 1, 97, 98, 99] @ [])"

lemma verifies_by_sum: "rfc1071 bs = 0 \<longleftrightarrow> oc_rep (word_sum bs) = 65535"
  using oc_rep_le [of "word_sum bs"] rfc1071_eq [of bs] by (simp add: word_unat_eq_iff)

lemma demo_ping_header_ok: "ip_header 1 [10, 0, 2, 15] our_ip 11 demo_ping_header"
  by (simp add: ip_header_def demo_ping_header_def net_short_def our_ip_def verifies_by_sum word_sum_def unat_bytes_word oc_rep_def)

theorem ping_is_answered_witness:
  "\<exists>s'. rtl8139_rx_one sim_bus 0x1200000 0 (demo_net demo_ping) = Some (Some 49, s') \<and>
    on_wire [] (rtl_sent sn_wire 0x1100000 s')
      (eth_frame [0x52, 0x55, 10, 0, 2, 2] [0x52, 0x54, 0, 0x12, 0x34, 0x56] 0x0800
        (ip_packet 1 1 our_ip [10, 0, 2, 15] (icmp_echo 0 [0, 1, 0, 1, 97, 98, 99])))"
proof -
  have l: "length demo_ping_header = 20" by (simp add: demo_ping_header_def)
  have "frame_in_ring demo_rtl (mach_mem (drv_mach (net_drv (demo_net demo_ping)))) 0
      (eth_frame [0x52, 0x54, 0, 0x12, 0x34, 0x56] [0x52, 0x55, 10, 0, 2, 2] 0x0800
        (demo_ping_header @ icmp_echo 8 [0, 1, 0, 1, 97, 98, 99] @ []))"
    unfolding demo_ping_def [symmetric]
    by (rule demo_frame) (simp add: demo_ping_def eth_frame_def l icmp_echo_length)
  from ping_is_answered [OF demo_up demo_heap(1) _ demo_arp _ _ _ _ _ _ this]
  show ?thesis using demo_ping_header_ok by (simp add: demo_heap(2) demo_facts l)
qed

text \<open>
  (C23) An ARP request for this host in the receive ring is answered with the link-layer address of the
  device, and the sender's addresses are in the cache afterwards, where a lookup finds them.
\<close>

theorem arp_request_is_answered:
  assumes "nic_up io txst wire dev p r s" "heap_ok (net_heap s)" "6 \<le> free_blocks (net_heap s)"
    and "arp_ok s" "length sip = 4" "length smac = 6" "length tmac = 6"
    and "length dmac = 6" "length emac = 6" "length pad \<le> 1400"
    and "frame_in_ring r (mach_mem (drv_mach (net_drv s))) cur (eth_frame dmac emac 0x0806 (arp_packet 1 smac sip tmac our_ip @ pad))"
  shows "\<exists>s'. rtl8139_rx_one io p cur s = Some (Some (of_nat (46 + length pad)), s') \<and>
    on_wire (rtl_sent wire dev s) (rtl_sent wire dev s')
      (eth_frame smac (mac_of dev s) 0x0806 (arp_packet 2 (mac_of dev s) our_ip smac sip)) \<and>
    arp_cache_lookup sip (replicate 6 0) s' = Some (0, smac)"
proof -
  obtain s' where s': "rtl8139_rx_one io p cur s = Some (Some (of_nat (46 + length pad)), s')"
    "on_wire (rtl_sent wire dev s) (rtl_sent wire dev s')
      (eth_frame smac (mac_of dev s) 0x0806 (arp_packet 2 (mac_of dev s) our_ip smac sip))"
    "arp_ok s'" "arp_map s' sip = Some smac"
    using arp_from_ring [OF assms] by blast
  then have "arp_cache_lookup sip (replicate 6 0) s' = Some (0, smac)"
    using arp_lookup_eq [of s' sip "replicate 6 0"] assms(5) by simp
  then show ?thesis using s'(1,2) by blast
qed

definition demo_arp_request :: "u8 list" where
  "demo_arp_request = eth_frame (replicate 6 0xFF) [2, 0, 0, 0, 0, 9] 0x0806
     (arp_packet 1 [2, 0, 0, 0, 0, 9] [10, 0, 2, 9] (replicate 6 0) our_ip @ replicate 18 0)"

theorem arp_request_is_answered_witness:
  "\<exists>s'. rtl8139_rx_one sim_bus 0x1200000 0 (demo_net demo_arp_request) = Some (Some 64, s') \<and>
    arp_cache_lookup [10, 0, 2, 9] (replicate 6 0) s' = Some (0, [2, 0, 0, 0, 0, 9])"
proof -
  have "frame_in_ring demo_rtl (mach_mem (drv_mach (net_drv (demo_net demo_arp_request)))) 0
      (eth_frame (replicate 6 0xFF) [2, 0, 0, 0, 0, 9] 0x0806
        (arp_packet 1 [2, 0, 0, 0, 0, 9] [10, 0, 2, 9] (replicate 6 0) our_ip @ replicate 18 0))"
    unfolding demo_arp_request_def [symmetric]
    by (rule demo_frame) (simp add: demo_arp_request_def eth_frame_def arp_packet_def our_ip_def)
  from arp_request_is_answered [OF demo_up demo_heap(1) _ demo_arp(1) _ _ _ _ _ _ this]
  show ?thesis by (auto simp: demo_heap(2))
qed

text \<open>
  (C24) A UDP datagram for this host in the receive ring is appended to the queue of the socket bound to its
  port, with the sender's address and port, and no other socket changes. Its IPv4 header may be any that
  verifies, options included, and its UDP checksum is not looked at. The buffer it was received in is not
  released: when the driver is done with the frame the two pages of the buffer are allocated in addition to what
  was allocated before, while the state of the driver, the device tables and the ARP cache are as they were, so
  that no pointer to the buffer is left.
\<close>

theorem udp_is_delivered_and_leaks:
  assumes "nic_up io txst wire dev p r s" "heap_ok (net_heap s)" "2 \<le> free_blocks (net_heap s)"
    and "socket_step\<^sup>*\<^sup>* (replicate 16 zero_socket) (sockets s)" "i < 16" "so_in_use (sockets s ! i) \<noteq> 0"
      "so_bound_port (sockets s ! i) = dp" "dp \<noteq> 0" "length (received (sockets s ! i)) < 8"
    and "length dmac = 6" "length smac = 6" "ip_header 17 src our_ip (8 + length body) hdr" "udp_header sp dp (length body) uh"
      "22 + length hdr + length body + length pad \<le> 1536"
    and "frame_in_ring r (mach_mem (drv_mach (net_drv s))) cur (eth_frame dmac smac 0x0800 (hdr @ uh @ body @ pad))"
  shows "\<exists>(b :: netbuf) s'. rtl8139_rx_one io p cur s = Some (Some (of_nat (26 + length hdr + length body + length pad)), s') \<and>
    received (sockets s' ! i) = received (sockets s ! i) @ [(body, src, sp)] \<and>
    (\<forall>j. j \<noteq> i \<longrightarrow> sockets s' ! j = sockets s ! j) \<and>
    heap_live (net_heap s') = heap_live (net_heap s) \<union> {(nb_addr b, 4096), (nb_data_addr b, 4096)} \<and>
    (nb_addr b, 4096) \<notin> heap_live (net_heap s) \<and> (nb_data_addr b, 4096) \<notin> heap_live (net_heap s) \<and>
    net_drv s' = net_drv s \<and> netdevs s' = netdevs s \<and> net_arp_cache s' = net_arp_cache s \<and>
    (\<forall>a. map_option (\<lambda>d. d\<lparr>nd_stats := zero_stats\<rparr>) (net_devs s' a) = map_option (\<lambda>d. d\<lparr>nd_stats := zero_stats\<rparr>) (net_devs s a))"
proof -
  obtain b s' where s': "rtl8139_rx_one io p cur s = Some (Some (of_nat (26 + length hdr + length body + length pad)), s')"
    "received (sockets s' ! i) = received (sockets s ! i) @ [(body, src, sp)]"
    "\<forall>j. j \<noteq> i \<longrightarrow> sockets s' ! j = sockets s ! j" "owns b (heap_live (net_heap s)) (net_heap s')"
    "same_stack (s\<lparr>net_heap := net_heap s', sockets := sockets s'\<rparr>) s'" "net_drv s' = net_drv s"
    using udp_from_ring [OF assms(1-3) socket_reach_table [OF assms(4)] assms(5-)] by blast
  have "heap_live (net_heap s') = heap_live (net_heap s) \<union> {(nb_addr b, 4096), (nb_data_addr b, 4096)}"
    "(nb_addr b, 4096) \<notin> heap_live (net_heap s)" "(nb_data_addr b, 4096) \<notin> heap_live (net_heap s)"
    using s'(4) by (auto simp: owns_def)
  then show ?thesis using s' by (intro exI [of _ b] exI [of _ s']) (simp add: same_stack_def)
qed

text \<open>A datagram with a type of service, options, another time to live and a checksum.\<close>

definition demo_udp_header :: "u8 list" where
  "demo_udp_header = [0x46, 0x10, 0, 34, 0x12, 0x34, 0, 0, 128, 17, 0x0D, 0x76, 10, 0, 2, 2, 10, 0, 2, 15, 1, 1, 1, 0]"

definition demo_udp :: "u8 list" where
  "demo_udp = eth_frame [0x52, 0x54, 0, 0x12, 0x34, 0x56] [0x52, 0x55, 10, 0, 2, 2] 0x0800
     (demo_udp_header @ [0x0F, 0xA0, 0, 7, 0, 10, 0xBE, 0xEF] @ [104, 105] @ replicate 16 0)"

lemma demo_udp_header_ok:
  "ip_header 17 [10, 0, 2, 2] our_ip 10 demo_udp_header" "udp_header 4000 7 2 [0x0F, 0xA0, 0, 7, 0, 10, 0xBE, 0xEF]"
  by (simp_all add: ip_header_def udp_header_def demo_udp_header_def net_short_def our_ip_def verifies_by_sum word_sum_def
      unat_bytes_word oc_rep_def)

theorem udp_is_delivered_and_leaks_witness:
  "\<exists>(b :: netbuf) s'. rtl8139_rx_one sim_bus 0x1200000 0 (demo_net demo_udp) = Some (Some 68, s') \<and>
    received (sockets s' ! 0) = [([104, 105], [10, 0, 2, 2], 4000)] \<and>
    heap_live (net_heap s') = heap_live (net_heap (demo_net demo_udp)) \<union> {(nb_addr b, 4096), (nb_data_addr b, 4096)}"
proof -
  let ?u = "[0x0F, 0xA0, 0, 7, 0, 10, 0xBE, 0xEF] :: u8 list" and ?s = "demo_net demo_udp"
  have l: "length demo_udp_header = 24" by (simp add: demo_udp_header_def)
  have f: "frame_in_ring demo_rtl (mach_mem (drv_mach (net_drv ?s))) 0
      (eth_frame [0x52, 0x54, 0, 0x12, 0x34, 0x56] [0x52, 0x55, 10, 0, 2, 2] 0x0800
        (demo_udp_header @ ?u @ [104, 105] @ replicate 16 0))"
    unfolding demo_udp_def [symmetric] by (rule demo_frame) (simp add: demo_udp_def eth_frame_def l)
  have reach: "socket_step\<^sup>*\<^sup>* (replicate 16 zero_socket) (sockets ?s)" using echo_table_reach by (simp only: demo_facts)
  have ok: "ip_header 17 [10, 0, 2, 2] our_ip (8 + length [104 :: u8, 105]) demo_udp_header" "udp_header 4000 7 (length [104 :: u8, 105]) ?u"
    using demo_udp_header_ok by (simp_all add: numeral_2_eq_2)
  obtain b :: netbuf and s' where "rtl8139_rx_one sim_bus 0x1200000 0 ?s = Some (Some (of_nat (26 + 24 + 2 + 16)), s')"
    "received (sockets s' ! 0) = received (sockets ?s ! 0) @ [([104, 105], [10, 0, 2, 2], 4000)]"
    "heap_live (net_heap s') = heap_live (net_heap ?s) \<union> {(nb_addr b, 4096), (nb_data_addr b, 4096)}"
    using udp_is_delivered_and_leaks [OF demo_up demo_heap(1) _ reach _ _ _ _ _ _ _ ok _ f, where i = 0]
      l by (auto simp: demo_heap(2) demo_facts echo_table_first)
  then show ?thesis by (intro exI [of _ b] exI [of _ s']) (simp add: demo_facts echo_table_first)
qed

text \<open>
  (C21) What one machine sends through a socket arrives at another: \<open>socket_sendto\<close> accepts a message of up to
  1480 bytes and puts one frame on the wire, and when this frame is in the receive ring of a machine with a
  socket bound to the destination port, its driver delivers the message to this socket, complete and with
  the sender's address and port. The address of both machines is the one compiled into the kernel.
\<close>

theorem udp_send_receive:
  fixes sA :: "'a nst" and sB :: "'b nst"
  assumes A: "rtl_ready ioA txstA wireA devA sA" "devA \<noteq> 0" "netdev_get_by_index sA 0 = Some devA"
      "heap_ok (net_heap sA)" "8 \<le> free_blocks (net_heap sA)" "arp_ok sA" "arp_map sA our_ip = Some mac"
      "socket_get fd (sockets sA) = Some (Some so)" "b \<noteq> []" "length b \<le> 1480"
    and B: "nic_up ioB txstB wireB devB p r sB" "heap_ok (net_heap sB)" "2 \<le> free_blocks (net_heap sB)"
      "socket_step\<^sup>*\<^sup>* (replicate 16 zero_socket) (sockets sB)" "i < 16" "so_in_use (sockets sB ! i) \<noteq> 0"
      "so_bound_port (sockets sB ! i) = dp" "dp \<noteq> 0" "length (received (sockets sB ! i)) < 8"
  defines "w \<equiv> eth_frame mac (mac_of devA sA) 0x0800
      (ip_packet (ip_id_counter sA) 17 our_ip our_ip (udp_packet (so_bound_port so) dp b))"
  shows "\<exists>sA' pad. socket_sendto (rtl8139_ops ioA) fd (Some b) (int (length b)) our_ip dp sA = Some (int (length b), sA') \<and>
    rtl_sent wireA devA sA' = rtl_sent wireA devA sA @ [w @ pad] \<and> length pad = 60 - length w \<and>
    (frame_in_ring r (mach_mem (drv_mach (net_drv sB))) cur (w @ pad) \<longrightarrow>
      (\<exists>n sB'. rtl8139_rx_one ioB p cur sB = Some (Some n, sB') \<and>
         received (sockets sB' ! i) = received (sockets sB ! i) @ [(b, our_ip, so_bound_port so)]))"
proof -
  have ip: "length our_ip = 4" by (simp add: our_ip_def)
  have mac: "length mac = 6" "length (mac_of devA sA) = 6" using arp_map_length [OF A(6,7)] rtl.ready_mac [OF A(1)] by simp_all
  obtain sA' where sA': "socket_sendto (rtl8139_ops ioA) fd (Some b) (int (length b)) our_ip dp sA = Some (int (length b), sA')"
    "on_wire (rtl_sent wireA devA sA) (rtl_sent wireA devA sA') w"
    using rtl.sendto_ok [OF A(1-5,8,9) _ _ A(6), of our_ip mac dp] A(7,10) ip by (auto simp: w_def)
  then obtain pad where pad: "length pad = 60 - length w" "rtl_sent wireA devA sA' = rtl_sent wireA devA sA @ [w @ pad]"
    by (auto simp: on_wire_def)
  have w: "w @ pad = eth_frame mac (mac_of devA sA) 0x0800
      (ip_packet (ip_id_counter sA) 17 our_ip our_ip (udp_packet (so_bound_port so) dp b) @ pad)"
    by (simp add: w_def eth_frame_def)
  have "length w = 42 + length b" using mac ip by (simp add: w_def eth_frame_def ip_packet_length udp_packet_length)
  then have small: "42 + length b + length pad \<le> 1536" using pad(1) A(10) by simp
  obtain uh where uh: "udp_packet (so_bound_port so) dp b = uh @ b" "udp_header (so_bound_port so) dp (length b) uh"
    by (rule udp_packet_header [of b]) (use A(10) in auto)
  obtain hdr where hdr: "ip_packet (ip_id_counter sA) 17 our_ip our_ip (uh @ b) = hdr @ uh @ b" "length hdr = 20"
    "ip_header 17 our_ip our_ip (length (uh @ b)) hdr"
    by (rule ip_packet_header [OF ip ip, of "uh @ b"]) (use A(10) uh(2) in \<open>simp_all add: udp_header_def\<close>)
  have w': "w @ pad = eth_frame mac (mac_of devA sA) 0x0800 (hdr @ uh @ b @ pad)" using w uh(1) hdr(1) by simp
  have h: "ip_header 17 our_ip our_ip (8 + length b) hdr" using hdr(3) uh(2) by (simp add: udp_header_def)
  have "\<exists>n sB'. rtl8139_rx_one ioB p cur sB = Some (Some n, sB') \<and>
      received (sockets sB' ! i) = received (sockets sB ! i) @ [(b, our_ip, so_bound_port so)]"
    if "frame_in_ring r (mach_mem (drv_mach (net_drv sB))) cur (w @ pad)"
    using udp_from_ring [OF B(1-3) socket_reach_table [OF B(4)] B(5-9) mac h uh(2) _ that [unfolded w']] small hdr(2) by auto
  then show ?thesis using sA'(1) pad by blast
qed

definition demo_sent :: "u8 list" where
  "demo_sent = eth_frame [0x52, 0x55, 10, 0, 2, 2] [0x52, 0x54, 0, 0x12, 0x34, 0x56] 0x0800
     (ip_packet 1 17 our_ip our_ip (udp_packet 7 7 (replicate 20 65)))"

theorem udp_send_receive_witness:
  "\<exists>sA' n sB'. socket_sendto (rtl8139_ops sim_bus) 0 (Some (replicate 20 65)) 20 our_ip 7 (demo_net []) = Some (20, sA') \<and>
    rtl_sent sn_wire 0x1100000 sA' = [demo_sent] \<and>
    rtl8139_rx_one sim_bus 0x1200000 0 (demo_net demo_sent) = Some (Some n, sB') \<and>
    received (sockets sB' ! 0) = [(replicate 20 65, our_ip, 7)]"
proof -
  have l: "length demo_sent = 62" by (simp add: demo_sent_def eth_frame_def ip_packet_length our_ip_def udp_packet_length)
  have f: "frame_in_ring demo_rtl (mach_mem (drv_mach (net_drv (demo_net demo_sent)))) 0 demo_sent"
    by (rule demo_frame) (simp add: l)
  have up: "rtl_ready sim_bus sn_tx sn_wire 0x1100000 (demo_net [])" using demo_up [of "[]"] by (simp add: nic_up_def)
  have sock: "socket_get 0 (sockets (demo_net [])) = Some (Some (echo_table ! 0))"
    by (simp add: demo_facts socket_get_def MAX_SOCKETS_def rd_def echo_table_first) (simp add: echo_table_def)
  have reach: "socket_step\<^sup>*\<^sup>* (replicate 16 zero_socket) (sockets (demo_net demo_sent))"
    using echo_table_reach by (simp only: demo_facts)
  have arp: "arp_map (demo_net []) our_ip = Some [0x52, 0x55, 10, 0, 2, 2]" using demo_arp(2) by (simp add: our_ip_def)
  obtain sA' pad where s: "socket_sendto (rtl8139_ops sim_bus) 0 (Some (replicate 20 65)) 20 our_ip 7 (demo_net []) = Some (20, sA')"
    "rtl_sent sn_wire 0x1100000 sA' = [demo_sent @ pad]" "length pad = 60 - length demo_sent"
    "frame_in_ring demo_rtl (mach_mem (drv_mach (net_drv (demo_net demo_sent)))) 0 (demo_sent @ pad) \<longrightarrow>
      (\<exists>n sB'. rtl8139_rx_one sim_bus 0x1200000 0 (demo_net demo_sent) = Some (Some n, sB') \<and>
         received (sockets sB' ! 0) = [(replicate 20 65, our_ip, 7)])"
    using udp_send_receive [OF up _ _ demo_heap(1) _ demo_arp(1) arp sock, of "replicate 20 65" sim_bus sn_tx sn_wire "0x1100000"
        "0x1200000" demo_rtl "demo_net demo_sent" 0 7 0]
    by (auto simp: demo_heap demo_facts demo_up reach [unfolded demo_facts] echo_table_first demo_sent_def)
  then show ?thesis using f l by auto
qed

text \<open>
  (C31) None of the socket calls \<open>socket_create\<close>, \<open>socket_bind\<close>, \<open>socket_sendto\<close>, \<open>socket_deliver_udp\<close>,
  \<open>socket_recvfrom\<close> and \<open>socket_close\<close> on a reachable table reads or writes outside the table, the queues, the
  caller's buffers and the buffers of the driver, for any descriptor, port and type, with any of the optional pointers
  null, as long as the buffers are as long as the caller says. Sending is with no device, or with a device that is
  ready and room on the heap, and of up to 1494 bytes or more than the limit of 1500, which is refused; between these
  the frame is longer than the driver's buffer.
\<close>

theorem socket_calls_in_bounds:
  assumes "socket_step\<^sup>*\<^sup>* (replicate 16 zero_socket) (sockets s)"
    and "0 \<le> len" "nat len \<le> length data" "4 \<le> length ip"
    and "\<forall>x. b = Some x \<longrightarrow> nat m \<le> length x" "\<forall>x. ib = Some x \<longrightarrow> 4 \<le> length x"
    and "\<forall>x. sb = Some x \<longrightarrow> nat n \<le> length x" "n \<le> 1494 \<or> 1500 < n" "4 \<le> length dst"
    and "netdev_get_by_index s 0 = Some dev" "dev = 0 \<or> rtl_ready io txst wire dev s"
      "heap_ok (net_heap s)" "8 \<le> free_blocks (net_heap s)" "arp_ok s"
  shows "socket_create ty (sockets s) \<noteq> None \<and> socket_bind fd port (sockets s) \<noteq> None \<and> socket_close fd (sockets s) \<noteq> None \<and>
    socket_deliver_udp port data len ip sp (sockets s) \<noteq> None \<and>
    socket_recvfrom fd b m ib pb (sockets s) \<noteq> None \<and>
    socket_sendto (rtl8139_ops io) fd sb n dst dp s \<noteq> None"
proof (intro conjI)
  note t = socket_reach_table [OF assms(1)]
  show "socket_create ty (sockets s) \<noteq> None" "socket_bind fd port (sockets s) \<noteq> None" "socket_close fd (sockets s) \<noteq> None"
    using socket_create_ok [OF t] socket_bind_ok [OF t] socket_close_ok [OF t] by (metis option.distinct(1))+
  show "socket_deliver_udp port data len ip sp (sockets s) \<noteq> None"
    using socket_deliver_ok [OF t assms(2-4), of port sp] by auto
  show "socket_recvfrom fd b m ib pb (sockets s) \<noteq> None"
    by (rule socket_recvfrom_total [OF t]) (use assms(5,6) in auto)
  show "socket_sendto (rtl8139_ops io) fd sb n dst dp s \<noteq> None"
    by (rule rtl.sendto_total [OF assms(10) _ t assms(12-14,9)]) (use assms(7,8,11) in auto)
qed

theorem socket_calls_in_bounds_witness:
  "socket_create 2 echo_table \<noteq> None \<and> socket_deliver_udp 7 [1, 2, 3] 3 [10, 0, 2, 2] 9 echo_table \<noteq> None \<and>
   socket_recvfrom 0 (Some [0, 0]) 2 None (Some 0) echo_table \<noteq> None \<and>
   socket_sendto (rtl8139_ops sim_bus) 0 (Some [104, 105]) 2 our_ip 7 (demo_net []) \<noteq> None"
proof -
  have reach: "socket_step\<^sup>*\<^sup>* (replicate 16 zero_socket) (sockets (demo_net []))" using echo_table_reach by (simp only: demo_facts)
  have up: "0x1100000 = 0 \<or> rtl_ready sim_bus sn_tx sn_wire 0x1100000 (demo_net [])" using demo_up [of "[]"] by (simp add: nic_up_def)
  show ?thesis
    using socket_calls_in_bounds [OF reach _ _ _ _ _ _ _ _ demo_facts(5) up demo_heap(1) _ demo_arp(1),
        of 3 "[1, 2, 3]" "[10, 0, 2, 2]" "Some [0, 0]" 2 None "Some [104, 105]" 2 our_ip 2 0 7 9 "Some 0" 7]
    by (simp add: demo_heap(2) demo_facts our_ip_def)
qed

text \<open>
  (C25) A frame is taken from the receive ring byte for byte: the one or two copies of the driver give the
  bytes of the ring from the end of the header on, continuing at the start of the ring, for every position
  of the header and every frame that fits into the ring.
\<close>

theorem rx_copy_follows_ring:
  assumes "rt_rx_ring r \<noteq> 0" "off + 4 \<le> unat (rt_rx_buf_len r)" "n \<le> unat (rt_rx_buf_len r)" "unat (rt_rx_buf_len r) \<le> 65536"
  shows "rx_copy r (of_nat off) (of_nat (n + 4)) (int n) m (replicate n 0) =
    Some (map (\<lambda>k. m (rt_rx_ring r + of_nat ((off + 4 + k) mod unat (rt_rx_buf_len r)))) [0 ..< n])"
  using rx_copy_ok [OF assms] by (simp add: ring_at_def)

theorem rx_copy_follows_ring_witness:
  "rx_copy demo_rtl 8184 10 6 (\<lambda>a. ucast a) (replicate 6 0) = Some [0xFC, 0xFD, 0xFE, 0xFF, 0, 1]"
  using rx_copy_follows_ring [of demo_rtl 8184 6 "\<lambda>a. ucast a"] by (simp add: demo_rtl_def upt_rec)

end
