(* ===== verification/Pci_Boot.thy ===== *)
theory Pci_Boot
  imports Rtl8139
begin

section \<open>Enumerating the PCI bus with the network driver\<close>

text \<open>
  The enumeration of \<^theory_text>\<open>Pci\<close> as the kernel runs it, with the initialisation of \<^theory_text>\<open>Rtl8139\<close>, the only driver
  it calls. What enumeration relies on of this initialisation is proved here: it returns in every state of the
  stack it can be called in, and it changes the configuration of its own card only.
\<close>

subsection \<open>The bus under the network stack\<close>

definition net_bus :: "'h nic_bus \<Rightarrow> 'h nst bus" where
  "net_bus io = \<lparr>bus_outb = (\<lambda>p v. upd_mach (bus_outb io p v)), bus_outw = (\<lambda>p v. upd_mach (bus_outw io p v)),
     bus_outl = (\<lambda>p v. upd_mach (bus_outl io p v)), bus_insb = (\<lambda>p. on_mach (bus_insb io p)),
     bus_insw = (\<lambda>p. on_mach (bus_insw io p)), bus_insl = (\<lambda>p. on_mach (bus_insl io p))\<rparr>"

definition mach_of :: "'h nst \<Rightarrow> 'h machine" where
  "mach_of s = drv_mach (net_drv s)"

lemma mach_of_upd [simp]: "mach_of (upd_mach f s) = f (mach_of s)" "mach_of (s\<lparr>net_heap := h\<rparr>) = mach_of s"
  by (simp_all add: mach_of_def upd_mach_def)

lemma on_mach_eq: "on_mach f s = (fst (f (mach_of s)), upd_mach (\<lambda>_. snd (f (mach_of s))) s)"
  by (simp add: on_mach_def mach_of_def case_prod_beta)

lemma net_host: "pci_host io conf addr \<Longrightarrow> pci_host (net_bus io) (\<lambda>s. conf (mach_of s)) (\<lambda>s. addr (mach_of s))"
  by (simp add: pci_host_def net_bus_def on_mach_eq)

text \<open>The tables the initialisation of a card relies on: the device registry and the counter of names.\<close>

definition registry_ready :: "'h nst \<Rightarrow> bool" where
  "registry_ready s \<longleftrightarrow>
     length (netdevs s) = 8 \<and> 0 \<le> netdev_count s \<and> - (2 ^ 31) \<le> eth_counter s \<and> eth_counter s < 2 ^ 31"

lemma registry_ready_upd [simp]:
  "registry_ready (upd_mach f s) = registry_ready s" "registry_ready (s\<lparr>net_heap := h\<rparr>) = registry_ready s"
  "registry_ready (s\<lparr>net_drv := x\<rparr>) = registry_ready s" "registry_ready (s\<lparr>net_devs := y\<rparr>) = registry_ready s"
  by (simp_all add: registry_ready_def upd_mach_def)

lemma net_reads_keep: "config_reads_keep (net_bus io) registry_ready"
  by (simp add: config_reads_keep_def net_bus_def on_mach_eq)

subsection \<open>The registers of a card\<close>

text \<open>
  A register of the card at \<open>l\<close>: accesses to its port do not change the configuration of any other device.
\<close>

definition others :: "nat \<times> nat \<Rightarrow> config_space \<Rightarrow> config_space \<Rightarrow> bool" where
  "others l c c' \<longleftrightarrow> (\<forall>b dv f. (b, dv) \<noteq> l \<longrightarrow> c' b dv f = c b dv f)"

definition card_register :: "'h nic_bus \<Rightarrow> ('h machine \<Rightarrow> config_space) \<Rightarrow> nat \<times> nat \<Rightarrow> u16 \<Rightarrow> bool" where
  "card_register io conf l port \<longleftrightarrow>
     (\<forall>m v. others l (conf m) (conf (bus_outb io port v m)) \<and> others l (conf m) (conf (snd (bus_insb io port m))) \<and>
        others l (conf m) (conf (snd (bus_insl io port m))))"

lemma others_refl: "others l c c"
  by (simp add: others_def)

lemma others_trans: "others l a b \<Longrightarrow> others l b c \<Longrightarrow> others l a c"
  by (simp add: others_def)

lemma card_registerD:
  assumes "card_register io conf l port" "others l c (conf m)"
  shows "others l c (conf (bus_outb io port v m))" "others l c (conf (snd (bus_insb io port m)))"
    "others l c (conf (eeprom_delay io port m))"
  using assms others_trans unfolding card_register_def eeprom_delay_def by blast+

lemma register_command:
  "card_register io conf l port \<Longrightarrow> others l c (conf m) \<Longrightarrow> others l c (conf (eeprom_command io port cmd ks m))"
  by (induction ks arbitrary: m) (simp_all add: Let_def card_registerD)

lemma register_data:
  "card_register io conf l port \<Longrightarrow> others l c (conf m) \<Longrightarrow> others l c (conf (snd (eeprom_data io port n v m)))"
  by (induction n arbitrary: v m) (simp_all add: Let_def case_prod_beta card_registerD)

lemma register_eeprom:
  "card_register io conf l (base + 0x50) \<Longrightarrow> others l c (conf m) \<Longrightarrow>
   others l c (conf (snd (rtl8139_read_eeprom io base loc n m)))"
  by (simp add: rtl8139_read_eeprom_def Cfg9346_def Let_def case_prod_beta card_registerD register_command register_data)

lemma mac_loop_local:
  assumes reg: "card_register io conf l (rt_iobase r + 0x50)"
  shows "\<forall>i \<in> set ks. i < 3 \<Longrightarrow> get_rtl p s = Some r \<Longrightarrow> net_devs s (rt_netdev r) = Some d \<Longrightarrow> length (nd_hwaddr d) = 6 \<Longrightarrow>
    others l c (conf (mach_of s)) \<Longrightarrow> registry_ready s \<Longrightarrow>
    \<exists>s' d'. rtl8139_mac_loop io p ks s = Some s' \<and> net_devs s' (rt_netdev r) = Some d' \<and>
      others l c (conf (mach_of s')) \<and> registry_ready s'"
proof (induction ks arbitrary: s d)
  case (Cons k ks)
  define m where "m = snd (rtl8139_read_eeprom io (rt_iobase r) (of_nat (k + 7)) 8 (mach_of s))"
  define w where "w = (ucast (fst (rtl8139_read_eeprom io (rt_iobase r) (of_nat (k + 7)) 8 (mach_of s))) :: u16)"
  define hw where "hw = (nd_hwaddr d)[k * 2 := ucast (w AND 0xff), k * 2 + 1 := ucast (drop_bit 8 w AND 0xff)]"
  let ?s = "(upd_mach (\<lambda>_. m) s)\<lparr>net_devs := (net_devs s)(rt_netdev r \<mapsto> d\<lparr>nd_hwaddr := hw\<rparr>)\<rparr>"
  have k: "k * 2 + 1 < 6" using Cons.prems(1) by simp
  have "rtl8139_mac_loop io p (k # ks) s = rtl8139_mac_loop io p ks ?s"
    using Cons.prems(2-4) k
    by (simp add: on_mach_eq m_def w_def Let_def get_rtl_def upd_mach_def upd_dev_def wr_def hw_def)
  moreover have "others l c (conf (mach_of ?s))"
    using register_eeprom [OF reg Cons.prems(5), of "of_nat (k + 7)" 8] by (simp add: m_def mach_of_def upd_mach_def)
  moreover have "get_rtl p ?s = Some r" using Cons.prems(2) by (simp add: get_rtl_def upd_mach_def)
  moreover have "length hw = 6" using Cons.prems(4) by (simp add: hw_def)
  ultimately show ?case
    using Cons.IH [of ?s "d\<lparr>nd_hwaddr := hw\<rparr>"] Cons.prems(1,6) by simp
qed auto

subsection \<open>The initialisation of a card\<close>

lemma generate_eth_name:
  assumes "- (2 ^ 31) \<le> ctr" "ctr < 2 ^ 31"
  obtains nm ctr' where "generate_device_name (nd_name zero_netdev) [101, 116, 104, 0] ctr = Some (nm, ctr')"
    "- (2 ^ 31) \<le> ctr'" "ctr' < 2 ^ 31"
proof -
  define n where "n = (if ctr < 0 then [45] else []) @ (if ctr = 0 then [48] else dec_digits (nat \<bar>ctr\<bar>)) @ [0 :: u8]"
  have i: "itoa ctr = Some n" unfolding n_def by (rule itoa_eq [OF assms])
  have "length (dec_digits (nat \<bar>ctr\<bar>)) \<le> 10" by (rule length_dec_digits) (use assms in simp)
  then have l: "length n \<le> 12" by (cases "ctr < 0"; cases "ctr = 0") (simp_all add: n_def)
  have n0: "0 \<in> set n" by (simp add: n_def)
  let ?d = "[101, 116, 104] @ 0 # replicate 28 0 :: u8 list"
  have cp: "strcpy (nd_name zero_netdev) [101, 116, 104, 0] = Some ?d"
    by (simp add: strcpy_eq zero_netdev_def NETDEV_NAME_MAX_def)
  obtain x where "strcat ?d n = Some x"
    using strcat_eq [of ?d n] n0 l length_c_str_le [of n] by simp
  then obtain nm k where "strcat ?d n = Some (nm, k)" by (cases x) auto
  then have "generate_device_name (nd_name zero_netdev) [101, 116, 104, 0] ctr = Some (nm, to_int (ctr + 1))"
    using i cp by (simp add: generate_device_name_def strncmp_def strncmp_loop_eq)
  moreover have "- (2 ^ 31) \<le> to_int (ctr + 1)" "to_int (ctr + 1) < 2 ^ 31"
    using sint_greater_eq [of "word_of_int (ctr + 1) :: u32"] sint_less [of "word_of_int (ctr + 1) :: u32"]
    by (simp_all add: to_int_def)
  ultimately show thesis by (rule that)
qed

text \<open>Registering a device never faults; when it fails it returns a null pointer.\<close>

lemma netdev_create_total:
  assumes "registry_ready s" "pd_bar pci \<noteq> []"
  obtains s' where "netdev_create [101, 116, 104, 0] ops (Some (i, pci)) p s = Some (0, s')" "registry_ready s'" "net_drv s' = net_drv s"
  | dev d s' where "netdev_create [101, 116, 104, 0] ops (Some (i, pci)) p s = Some (dev, s')" "dev \<noteq> 0" "registry_ready s'"
      "net_drv s' = net_drv s" "net_devs s' dev = Some d" "length (nd_hwaddr d) = 6"
proof -
  note r = assms(1) [unfolded registry_ready_def]
  obtain nm ctr' where g: "generate_device_name (nd_name zero_netdev) [101, 116, 104, 0] (eth_counter s) = Some (nm, ctr')"
    "- (2 ^ 31) \<le> ctr'" "ctr' < 2 ^ 31"
    using generate_eth_name r by blast
  consider (full) "MAX_NETDEVS \<le> netdev_count s"
    | (nomem) h where "\<not> MAX_NETDEVS \<le> netdev_count s" "kzalloc 120 (net_heap s) = (None, h)"
    | (found) dev z h where "\<not> MAX_NETDEVS \<le> netdev_count s" "kzalloc 120 (net_heap s) = (Some (dev, z), h)"
    by (metis not_None_eq surj_pair)
  then show thesis
  proof cases
    case full
    then show ?thesis using that(1) [of s] assms(1) by (simp add: netdev_create_def)
  next
    case nomem
    then show ?thesis using that(1) [of "s\<lparr>net_heap := h\<rparr>"] assms(1) by (simp add: netdev_create_def)
  next
    case found
    have ptr: "dev \<noteq> 0" using found(2) by (auto simp: kzalloc_def Let_def split: prod.splits if_splits)
    have c: "nat (netdev_count s) < length (netdevs s)" using found(1) r by (simp add: MAX_NETDEVS_def)
    define d where "d = zero_netdev\<lparr>nd_name := nm, nd_flags := 0, nd_state := NETDEV_STATE_DOWN, nd_pci_dev := Some i, nd_ops := ops,
      nd_driver_data := p, nd_iobase := ucast (pd_bar pci ! 0 AND 0xFFFFFFFC), nd_irq := pd_interrupt_line pci, nd_stats := zero_stats\<rparr>"
    define s' where "s' = s\<lparr>net_heap := h, eth_counter := ctr', net_devs := (net_devs s)(dev \<mapsto> d),
      netdevs := (netdevs s)[nat (netdev_count s) := dev], netdev_count := netdev_count s + 1\<rparr>"
    have "netdev_create [101, 116, 104, 0] ops (Some (i, pci)) p s = Some (dev, s')"
      using found g(1) c assms(2) by (simp add: netdev_create_def Let_def wr_def rd_def d_def s'_def)
    then show ?thesis
      by (rule that(2) [where d = d]) (use ptr g r in \<open>simp_all add: s'_def d_def registry_ready_def zero_netdev_def ETH_ADDR_LEN_def\<close>)
  qed
qed

definition io_base :: "pci_device \<Rightarrow> u16" where
  "io_base dev = ucast (pd_bar dev ! 0 AND 0xFFFFFFFC)"

lemma rtl8139_init_local:
  assumes host: "pci_host io conf addr" and reg: "card_register io conf (b, dv) (io_base pci + 0x50)"
    and pci: "unat (pd_bus pci) = b" "unat (pd_device pci) = dv" "dv < 32" "pd_bar pci \<noteq> []" and s: "registry_ready s"
  shows "\<exists>res s'. rtl8139_init io ops (i, pci) s = Some (res, s') \<and> registry_ready s' \<and> others (b, dv) (conf (mach_of s)) (conf (mach_of s'))"
proof -
  let ?rd = "pci_config_read_32 io (pd_bus pci) (pd_device pci) (pd_function pci) PCI_COMMAND_OFFSET"
  let ?wr = "pci_config_write_32 io (pd_bus pci) (pd_device pci) (pd_function pci) PCI_COMMAND_OFFSET"
  have rd: "conf (snd (?rd m)) = conf m" for m
  proof -
    obtain m' where "?rd m = (conf m (unat (pd_bus pci)) (unat (pd_device pci) mod 32) (unat (pd_function pci) mod 8)
        (4 * (unat PCI_COMMAND_OFFSET div 4)), m')" "conf m' = conf m"
      by (rule pci_hostE [OF host, of "\<lambda>_. True"]) (simp_all add: config_reads_keep_def)
    then show ?thesis by simp
  qed
  have wr: "others (b, dv) (conf m) (conf (?wr v m))" for v m
    unfolding others_def using pci_config_write_host [OF host, of _ _ _ "pd_bus pci" "pd_device pci" "pd_function pci"] pci(1-3) by auto
  define cmd where "cmd = (fst (?rd (mach_of s)) OR PCI_COMMAND_IO OR PCI_COMMAND_MASTER) AND NOT PCI_COMMAND_INTX_DISABLE"
  define m where "m = snd (?rd (?wr cmd (snd (?rd (mach_of s)))))"
  let ?s = "upd_mach (\<lambda>_. m) s"
  have m: "others (b, dv) (conf (mach_of s)) (conf m)"
    using wr [of "snd (?rd (mach_of s))" cmd] rd by (simp add: m_def)
  have up: "upd_mach f (upd_mach g s) = upd_mach (\<lambda>x. f (g x)) s" for f g and s :: "'a nst" by (simp add: upd_mach_def)
  have heap: "net_heap (upd_mach f s) = net_heap s" for f and s :: "'a nst" by (simp add: upd_mach_def)
  have bar: "rd (pd_bar pci) 0 = Some (pd_bar pci ! 0)" using pci(4) by (simp add: rd_def)
  have init: "rtl8139_init io ops (i, pci) s =
      (case kzalloc 120 (net_heap s) of (None, h) \<Rightarrow> Some (-1, ?s\<lparr>net_heap := h\<rparr>)
       | (Some (p, _), h) \<Rightarrow>
          do { let s = ?s\<lparr>net_heap := h, net_drv := (net_drv ?s)\<lparr>drv_rtl := (drv_rtl (net_drv ?s))(p \<mapsto> zero_rtl8139)\<rparr>\<rparr>;
               (dev, s) \<leftarrow> netdev_create [101, 116, 104, 0] ops (Some (i, pci)) p s;
               if dev = 0
               then Some (-1, s\<lparr>net_heap := kfree p (net_heap s),
                               net_drv := (net_drv s)\<lparr>drv_rtl := (drv_rtl (net_drv s))(p := None)\<rparr>\<rparr>)
               else do {
                 s \<leftarrow> upd_rtl p (\<lambda>r. r\<lparr>rt_netdev := dev, rt_iobase := io_base pci, rt_irq := pd_interrupt_line pci, rt_flags := RTL8139_CAPS,
                        rt_full_duplex := 0, rt_duplex_lock := 0, rt_max_interrupt_work := max_interrupt_work,
                        rt_multicast_filter_limit := multicast_filter_limit, rt_phys := [32, -1, -1, -1]\<rparr>) s;
                 s \<leftarrow> rtl8139_get_mac_address io p s;
                 s \<leftarrow> upd_dev dev (\<lambda>d. d\<lparr>nd_state := NETDEV_STATE_DOWN, nd_iobase := io_base pci, nd_irq := pd_interrupt_line pci\<rparr>) s;
                 Some (0, s) } })"
    unfolding rtl8139_init_def io_base_def using bar
    by (simp add: on_mach_eq Let_def up m_def cmd_def heap cong: prod.case_cong option.case_cong)
  show ?thesis
  proof (cases "kzalloc 120 (net_heap s)")
    case (Pair z h)
    show ?thesis
    proof (cases z)
      case None
      then show ?thesis unfolding init Pair using m s by (simp add: mach_of_def upd_mach_def)
    next
      case (Some y)
      obtain p w where y: "y = (p, w)" by force
      let ?t = "?s\<lparr>net_heap := h, net_drv := (net_drv ?s)\<lparr>drv_rtl := (drv_rtl (net_drv ?s))(p \<mapsto> zero_rtl8139)\<rparr>\<rparr>"
      have t: "registry_ready ?t" "mach_of ?t = m" "get_rtl p ?t = Some zero_rtl8139"
        using s by (simp_all add: mach_of_def upd_mach_def get_rtl_def)
      show ?thesis
      proof (cases rule: netdev_create_total [OF t(1) pci(4), of ops i p])
        case (1 s')
        then show ?thesis unfolding init Pair Some y using m t(2) by (simp add: Let_def mach_of_def)
      next
        case (2 dev d s')
        define r where "r = zero_rtl8139\<lparr>rt_netdev := dev, rt_iobase := io_base pci, rt_irq := pd_interrupt_line pci, rt_flags := RTL8139_CAPS,
            rt_full_duplex := 0, rt_duplex_lock := 0, rt_max_interrupt_work := max_interrupt_work,
            rt_multicast_filter_limit := multicast_filter_limit, rt_phys := [32, -1, -1, -1]\<rparr>"
        let ?u = "s'\<lparr>net_drv := (net_drv s')\<lparr>drv_rtl := (drv_rtl (net_drv s'))(p \<mapsto> r)\<rparr>\<rparr>"
        have g: "get_rtl p s' = Some zero_rtl8139" using t(3) 2(4) by (simp add: get_rtl_def)
        have u: "get_rtl p ?u = Some r" "rt_netdev r = dev" "rt_iobase r = io_base pci" "mach_of ?u = m"
          using 2(4) t(2) by (simp_all add: get_rtl_def r_def mach_of_def)
        obtain s2 d2 where s2: "rtl8139_mac_loop io p [0 ..< 3] ?u = Some s2" "net_devs s2 dev = Some d2"
          "others (b, dv) (conf (mach_of s)) (conf (mach_of s2))" "registry_ready s2"
          using mac_loop_local [of io conf "(b, dv)" r "[0 ..< 3]" p ?u d "conf (mach_of s)"] reg u m 2(3,5,6) by auto
        then show ?thesis
          unfolding init Pair Some y using 2(1,2) g
          by (simp add: Let_def upd_rtl_def r_def rtl8139_get_mac_address_def upd_dev_def mach_of_def)
      qed
    qed
  qed
qed

subsection \<open>Enumeration with the driver\<close>

lemma net_init_local:
  assumes host: "pci_host io conf addr"
    and regs: "\<forall>l \<in> set (filter (present c) locations). is_rtl8139 (device_info c l) \<longrightarrow>
      card_register io conf l (io_base (device_info c l) + 0x50)"
  shows "init_local (\<lambda>s. conf (mach_of s)) registry_ready (cards c locations) (\<lambda>i dev. rtl8139_init io ops (i, dev))"
  unfolding init_local_def
proof (intro allI ballI impI)
  fix i s dev
  assume dev: "dev \<in> cards c locations" and s: "registry_ready (s :: 'a nst)"
  obtain b dv where l: "(b, dv) \<in> set (filter (present c) locations)" "dev = device_info c (b, dv)" "is_rtl8139 dev"
    using dev by (auto simp: cards_def)
  have bd: "b < 256" "dv < 32" using l(1) valid_locations by (auto simp: valid_locs_def)
  then have u: "unat (pd_bus dev) = b" "unat (pd_device dev) = dv" using l(2) by (simp_all add: unat_of_nat)
  have "length (pd_bar dev) = 6" using l(2) by simp
  then have bar: "pd_bar dev \<noteq> []" by auto
  have reg: "card_register io conf (b, dv) (io_base dev + 0x50)" using regs l by blast
  show "\<exists>res s'. rtl8139_init io ops (i, dev) s = Some (res, s') \<and> registry_ready s' \<and>
      (\<forall>b dv f. (b, dv) \<noteq> (unat (pd_bus dev), unat (pd_device dev)) \<longrightarrow> conf (mach_of s') b dv f = conf (mach_of s) b dv f)"
    using rtl8139_init_local [OF host reg u bd(2) bar s, of ops i] unfolding u others_def .
qed

text \<open>A machine with a host bridge and a single device, a RTL8139 at bus 0, device 3; the hardware is the latched address.\<close>

definition one_card :: config_space where
  "one_card b dv f off =
     (if b = 0 \<and> dv = 3 \<and> f = 0
      then (if off = 0 then 0x813910EC else if off = 0x10 then 0xC001 else 0) else 0xFFFFFFFF)"

definition one_card_bus :: "u32 nic_bus" where
  "one_card_bus = idle_bus\<lparr>
     bus_outl := (\<lambda>p v m. if p = 0xCF8 then m\<lparr>mach_hw := v\<rparr> else m),
     bus_insl := (\<lambda>p m. (if p = 0xCFC then (case addressed (unat (mach_hw m)) of (b, dv, f) \<Rightarrow>
                            one_card b dv f (4 * (unat (mach_hw m) div 4 mod 64))) else 0, m))\<rparr>"

definition boot_net :: "u32 nst" where
  "boot_net =
     \<lparr>net_heap = the (kheap_init (\<lambda>_. 0) four_blocks), net_devs = Map.empty, netdevs = replicate 8 0, netdev_count = 0, eth_counter = 0,
      net_arp_cache = [], net_arp_next = 0, ip_id_counter = 1, sockets = replicate 16 zero_socket,
      net_drv = \<lparr>drv_rtl = Map.empty, drv_mach = \<lparr>mach_hw = 0, mach_mem = (\<lambda>_. 0)\<rparr>,
        drv_callbacks = replicate 512 None, drv_pci = empty_registry\<rparr>\<rparr>"

lemma one_card_host: "pci_host one_card_bus (\<lambda>_. one_card) mach_hw"
  by (simp add: pci_host_def one_card_bus_def case_prod_beta)

lemma distinct_singleton: "distinct xs \<Longrightarrow> set xs = {x} \<Longrightarrow> xs = [x]"
  by (cases xs; cases "tl xs") auto

lemma one_card_present: "filter (present one_card) locations = [(0, 3)]"
proof -
  have "present one_card (b, dv) \<longleftrightarrow> b = 0 \<and> dv = 3" for b dv by (simp add: present_def one_card_def)
  then have set: "set (filter (present one_card) locations) = {(0, 3)}"
    by (auto simp: locations_def kernel_consts simp del: upt_rec_numeral)
  have "distinct (filter (present one_card) locations)" using valid_locations by (simp add: valid_locs_def)
  then show ?thesis using set by (rule distinct_singleton)
qed

subsection \<open>The property\<close>

text \<open>
  (C22) With at most 16 devices on the bus that answer at function 0, \<open>pci_enumerate_devices\<close> with the driver
  initialisation \<open>rtl8139_init\<close> returns their number and records exactly them, in bus order, each with the contents
  its configuration space had before; the other functions of a device are not looked at. The initialisation of a
  card may fail, but it does not stop the enumeration. The hypotheses are a host bridge that
  follows the documentation, that the EEPROM register of a card belongs to it, and the bounds of the device table.
\<close>

theorem pci_enumerate_complete:
  fixes s :: "'h nst" and conf :: "'h machine \<Rightarrow> config_space"
  defines "c \<equiv> conf (drv_mach (net_drv s))"
  assumes "pci_host io conf addr"
    and "\<forall>l \<in> set (filter (present c) locations). is_rtl8139 (device_info c l) \<longrightarrow>
      card_register io conf l (io_base (device_info c l) + 0x50)"
    and "length (netdevs s) = 8" "0 \<le> netdev_count s" "- (2 ^ 31) \<le> eth_counter s" "eth_counter s < 2 ^ 31"
    and "length (pd_bar dev) = 6" "length (pci_devices r) = 16"
    and "length (filter (present c) locations) \<le> 16"
  shows "\<exists>r' s'. pci_enumerate_devices (net_bus io) (\<lambda>i dev. rtl8139_init io ops (i, dev)) dev r s =
      Some (int (length (filter (present c) locations)), r', s') \<and>
    pci_device_count r' = int (length (filter (present c) locations)) \<and>
    take (length (filter (present c) locations)) (pci_devices r') =
      map (device_info c) (filter (present c) locations)"
proof -
  have ready: "registry_ready s" using assms(4-7) by (simp add: registry_ready_def)
  have c: "c = conf (mach_of s)" by (simp add: c_def mach_of_def)
  show ?thesis
    using pci_enumerate_spec [OF net_host [OF assms(2)] net_reads_keep net_init_local [OF assms(2)] ready assms(8,9), of ops]
      assms(3,10) unfolding c by auto
qed

theorem pci_enumerate_complete_witness:
  "\<exists>r' s'. pci_enumerate_devices (net_bus one_card_bus) (\<lambda>i dev. rtl8139_init one_card_bus 0x100000 (i, dev))
      blank_device empty_registry boot_net = Some (1, r', s') \<and>
    pci_device_count r' = 1 \<and> take 1 (pci_devices r') = [device_info one_card (0, 3)]"
proof -
  have "card_register one_card_bus (\<lambda>_. one_card) l port" for l port by (simp add: card_register_def others_refl)
  then show ?thesis
    using pci_enumerate_complete [OF one_card_host, of boot_net blank_device empty_registry "0x100000"]
    by (simp add: one_card_present) (simp add: boot_net_def blank_device_def empty_registry_def)
qed

end
