(* ===== verification/Fat_Files.thy ===== *)
theory Fat_Files
  imports Fat16
begin

section \<open>Files of a FAT16 volume\<close>

text \<open>
  A file is the chain of its clusters in the allocation table, and its contents are the bytes of those
  clusters one after the other. Reading a file from a position at the start of a cluster delivers
  exactly these bytes, on a drive that follows the ATA protocol.
\<close>

subsection \<open>The contents of a file\<close>

definition entry_pos :: "u8 list \<Rightarrow> nat \<Rightarrow> nat" where
  "entry_pos hdr c = nat (reserved_sectors hdr) * 512 + 2 * c"

definition fat_entry :: "ata \<Rightarrow> u8 list \<Rightarrow> nat \<Rightarrow> nat" where
  "fat_entry a hdr c = unat (field16 (disk_bytes a (entry_pos hdr c) 2) 0)"

definition cluster_size :: "u8 list \<Rightarrow> nat" where
  "cluster_size hdr = nat (sectors_per_cluster hdr) * 512"

text \<open>\<open>e\<close> is the first sector behind the root directory, where cluster 2 starts.\<close>

definition cluster_pos :: "u8 list \<Rightarrow> nat \<Rightarrow> nat \<Rightarrow> nat" where
  "cluster_pos hdr e c = e * 512 + (c - 2) * cluster_size hdr"

definition file_bytes :: "ata \<Rightarrow> u8 list \<Rightarrow> nat \<Rightarrow> nat list \<Rightarrow> u8 list" where
  "file_bytes a hdr e cs = concat (map (\<lambda>c. disk_bytes a (cluster_pos hdr e c) (cluster_size hdr)) cs)"

text \<open>The values \<open>fat16_get_cluster_for_offset\<close> takes for something else than the next cluster.\<close>

definition end_marks :: "nat set" where
  "end_marks = {0, 0xff0, 0xff6, 0xff7, 0xff8, 0xfff}"

definition on_disk :: "ata \<Rightarrow> nat \<Rightarrow> bool" where
  "on_disk a p \<longleftrightarrow> p < 2 ^ 31 \<and> p < 512 * ata_capacity a"

definition chain_ok :: "ata \<Rightarrow> u8 list \<Rightarrow> nat \<Rightarrow> nat list \<Rightarrow> bool" where
  "chain_ok a hdr e cs \<longleftrightarrow> 0 < cluster_size hdr \<and>
     (\<forall>c \<in> set cs. 2 \<le> c \<and> on_disk a (cluster_pos hdr e c + cluster_size hdr) \<and> on_disk a (entry_pos hdr c + 2)) \<and>
     (\<forall>i. Suc i < length cs \<longrightarrow> fat_entry a hdr (cs ! i) = cs ! Suc i \<and> cs ! Suc i \<notin> end_marks)"

subsection \<open>The streams of a mounted volume\<close>

definition mounted :: "('d \<Rightarrow> ata) \<Rightarrow> u8 list \<Rightarrow> nat \<Rightarrow> ('d, 'z) fs_state_scheme \<Rightarrow> bool" where
  "mounted \<alpha> hdr e s \<longleftrightarrow> sector_size (the_disk s) = 512 \<and> drive_ok (\<alpha> (fs_dev s)) \<and>
     (\<exists>p x y. fs_private (the_disk s) = Some p \<and> fat_header p = hdr \<and> dir_ending_sector_pos (root_directory p) = int e \<and>
        cluster_read_stream p = Some x \<and> ds_disk x = The_Disk \<and> fat_read_stream p = Some y \<and> ds_disk y = The_Disk)"

lemma same_disk_refl: "drive_ok a \<Longrightarrow> same_disk a a"
  by (simp add: same_disk_def drive_ok_def)

lemma same_disk_trans: "same_disk a b \<Longrightarrow> same_disk b c \<Longrightarrow> same_disk a c"
  by (simp add: same_disk_def)

lemma same_disk_file:
  assumes "same_disk a b"
  shows "file_bytes b = file_bytes a" "chain_ok b = chain_ok a"
proof -
  have b: "disk_bytes b = disk_bytes a" "ata_capacity b = ata_capacity a"
    using disk_bytes_same [OF assms] assms by (simp_all add: same_disk_def)
  then show "file_bytes b = file_bytes a" by (simp add: file_bytes_def fun_eq_iff)
  show "chain_ok b = chain_ok a" using b by (simp add: chain_ok_def fat_entry_def on_disk_def fun_eq_iff)
qed

lemma seek_read_ok:
  assumes dev: "ata_device io \<alpha>" and m: "mounted \<alpha> hdr e s" and w: "w \<noteq> Directory_stream"
    and p: "on_disk (\<alpha> (fs_dev s)) (pos + n)" "n \<le> length out"
  obtains s1 s2 where "fat_seek w (int pos) s = Some (OK, s1)"
    "fat_read io w out (int n) s1 = Some (OK, disk_bytes (\<alpha> (fs_dev s)) pos n @ drop n out, s2)"
    "mounted \<alpha> hdr e s2" "same_disk (\<alpha> (fs_dev s)) (\<alpha> (fs_dev s2))"
proof -
  obtain pv x where pv: "fs_private (the_disk s) = Some pv" "get_stream w pv = Some x" "ds_disk x = The_Disk"
    using m w by (cases w) (auto simp: mounted_def)
  have d: "drive_ok (\<alpha> (fs_dev s))" using m by (simp add: mounted_def)
  let ?x = "x\<lparr>ds_pos := int pos\<rparr>"
  obtain d' where d': "streamer_read io ?x out (int n) (replicate 512 0) (fs_dev s) =
      Some (OK, disk_bytes (\<alpha> (fs_dev s)) pos n @ drop n out, ?x\<lparr>ds_pos := int (pos + n)\<rparr>, d')"
      "same_disk (\<alpha> (fs_dev s)) (\<alpha> d')"
    using streamer_read_bytes [OF dev d, of ?x pos n out "replicate 512 0"] pv(3) p by (auto simp: on_disk_def)
  let ?s1 = "set_private (Some (set_stream w (Some ?x) pv)) s"
  let ?s2 = "set_private (Some (set_stream w (Some (?x\<lparr>ds_pos := int (pos + n)\<rparr>)) (set_stream w (Some ?x) pv))) (?s1\<lparr>fs_dev := d'\<rparr>)"
  have "fat_seek w (int pos) s = Some (OK, ?s1)" using pv by (simp add: fat_seek_def streamer_seek_def)
  moreover have "fat_read io w out (int n) ?s1 = Some (OK, disk_bytes (\<alpha> (fs_dev s)) pos n @ drop n out, ?s2)"
    using d'(1) by (cases w) (simp_all add: fat_read_def set_private_def)
  moreover have "mounted \<alpha> hdr e ?s2"
    using m pv same_disk_ok [OF d'(2)] by (cases w) (auto simp: mounted_def set_private_def)
  ultimately show thesis using that [of ?s1 ?s2] d'(2) by (simp add: set_private_def)
qed

subsection \<open>Clusters\<close>

lemma header_bounds: "0 \<le> reserved_sectors hdr" "0 \<le> sectors_per_cluster hdr" "sectors_per_cluster hdr < 256"
  using uint_bounded [of "hdr ! 13"] by (simp_all add: reserved_sectors_def sectors_per_cluster_def)

lemma fat_entry_position_eq:
  assumes "mounted \<alpha> hdr e s" "fs_private (the_disk s) = Some p" "entry_pos hdr c < 2 ^ 31"
  shows "fat_entry_position p s (int c) = int (entry_pos hdr c)"
proof -
  have h: "fat_header p = hdr" "sector_size (the_disk s) = 512" using assms(1,2) by (auto simp: mounted_def)
  have "fat_entry_position p s (int c) = to_int (reserved_sectors hdr * 512 + int c * 2)"
    by (simp add: fat_entry_position_def fat16_get_first_fat_sector_def h to_int_def TOYOS_FAT16_FAT_ENTRY_SIZE_def)
  also have "reserved_sectors hdr * 512 + int c * 2 = int (entry_pos hdr c)" using header_bounds(1) by (simp add: entry_pos_def)
  also have "to_int (int (entry_pos hdr c)) = int (entry_pos hdr c)" using assms(3) by (intro to_int_id) simp_all
  finally show ?thesis .
qed

lemma get_fat_entry_ok:
  assumes dev: "ata_device io \<alpha>" and m: "mounted \<alpha> hdr e s" and p: "on_disk (\<alpha> (fs_dev s)) (entry_pos hdr c + 2)"
  obtains s' where "fat16_get_fat_entry io (int c) s = Some (int (fat_entry (\<alpha> (fs_dev s)) hdr c), s')"
    "mounted \<alpha> hdr e s'" "same_disk (\<alpha> (fs_dev s)) (\<alpha> (fs_dev s'))"
proof -
  obtain pv x where pv: "fs_private (the_disk s) = Some pv" "fat_read_stream pv = Some x" using m by (auto simp: mounted_def)
  have pos: "fat_entry_position pv s (int c) = int (entry_pos hdr c)"
    using fat_entry_position_eq [OF m pv(1)] p by (simp add: on_disk_def)
  obtain s1 s2 where r: "fat_seek Table_stream (int (entry_pos hdr c)) s = Some (OK, s1)"
    "fat_read io Table_stream [0, 0] (int 2) s1 = Some (OK, disk_bytes (\<alpha> (fs_dev s)) (entry_pos hdr c) 2 @ drop 2 [0, 0], s2)"
    "mounted \<alpha> hdr e s2" "same_disk (\<alpha> (fs_dev s)) (\<alpha> (fs_dev s2))"
    by (rule seek_read_ok [OF dev m _ p, of Table_stream "[0, 0]"]) auto
  have "fat16_get_fat_entry io (int c) s = Some (int (fat_entry (\<alpha> (fs_dev s)) hdr c), s2)"
    using pv r(1,2) pos by (simp add: fat16_get_fat_entry_def fat_entry_def kernel_consts)
  then show thesis using that r(3,4) by blast
qed

lemma cluster_loop_ok:
  assumes dev: "ata_device io \<alpha>"
  shows "mounted \<alpha> hdr e s \<Longrightarrow> chain_ok (\<alpha> (fs_dev s)) hdr e cs \<Longrightarrow> i + j < length cs \<Longrightarrow>
    \<exists>s'. cluster_loop io j (int (cs ! i)) s = Some (int (cs ! (i + j)), s') \<and> mounted \<alpha> hdr e s' \<and>
      same_disk (\<alpha> (fs_dev s)) (\<alpha> (fs_dev s'))"
proof (induction j arbitrary: i s)
  case 0
  then show ?case by (simp add: same_disk_refl mounted_def)
next
  case (Suc j)
  have e: "on_disk (\<alpha> (fs_dev s)) (entry_pos hdr (cs ! i) + 2)" "fat_entry (\<alpha> (fs_dev s)) hdr (cs ! i) = cs ! Suc i" "cs ! Suc i \<notin> end_marks"
    using Suc.prems(2,3) by (auto simp: chain_ok_def)
  obtain s1 where s1: "fat16_get_fat_entry io (int (cs ! i)) s = Some (int (cs ! Suc i), s1)" "mounted \<alpha> hdr e s1"
      "same_disk (\<alpha> (fs_dev s)) (\<alpha> (fs_dev s1))"
    by (rule get_fat_entry_ok [OF dev Suc.prems(1) e(1)]) (simp add: e(2))
  have "chain_ok (\<alpha> (fs_dev s1)) hdr e cs" using same_disk_file(2) [OF s1(3)] Suc.prems(2) by simp
  then obtain s2 where s2: "cluster_loop io j (int (cs ! Suc i)) s1 = Some (int (cs ! (Suc i + j)), s2)" "mounted \<alpha> hdr e s2"
      "same_disk (\<alpha> (fs_dev s1)) (\<alpha> (fs_dev s2))"
    using Suc.IH [OF s1(2), of "Suc i"] Suc.prems(3) by auto
  have "cluster_loop io (Suc j) (int (cs ! i)) s = cluster_loop io j (int (cs ! Suc i)) s1"
    using s1(1) e(3) by (auto simp: end_marks_def kernel_consts)
  then show ?case using s2 same_disk_trans [OF s1(3) s2(3)] by simp
qed

lemma length_file_bytes: "length (file_bytes a hdr e cs) = length cs * cluster_size hdr"
  by (induction cs) (simp_all add: file_bytes_def)

lemma drop_file_bytes:
  assumes "j < length cs"
  shows "drop (j * cluster_size hdr) (file_bytes a hdr e cs) =
    disk_bytes a (cluster_pos hdr e (cs ! j)) (cluster_size hdr) @ drop (Suc j * cluster_size hdr) (file_bytes a hdr e cs)"
  using assms
proof (induction cs arbitrary: j)
  case (Cons c cs)
  have f: "file_bytes a hdr e (c # cs) = disk_bytes a (cluster_pos hdr e c) (cluster_size hdr) @ file_bytes a hdr e cs"
    by (simp add: file_bytes_def)
  show ?case
  proof (cases j)
    case (Suc k)
    then show ?thesis using Cons.IH [of k] Cons.prems by (simp add: f)
  qed (simp add: f)
qed simp

lemma cluster_start:
  assumes "mounted \<alpha> hdr e s" "fs_private (the_disk s) = Some p" "2 \<le> c" "cluster_pos hdr e c + cluster_size hdr < 2 ^ 31"
  shows "to_int (fat16_cluster_to_sector p (int c) * sector_size (the_disk s) + 0) = int (cluster_pos hdr e c)"
proof -
  have h: "fat_header p = hdr" "sector_size (the_disk s) = 512" "dir_ending_sector_pos (root_directory p) = int e"
    using assms(1,2) by (auto simp: mounted_def)
  obtain n where n: "n = e + (c - 2) * nat (sectors_per_cluster hdr)" by blast
  have m: "n * 512 = cluster_pos hdr e c" by (simp add: n cluster_pos_def cluster_size_def algebra_simps)
  have "int e + (int c - 2) * sectors_per_cluster hdr = int n" using assms(3) header_bounds(2) by (simp add: n of_nat_diff)
  moreover have "to_int (int n) = int n" using assms(4) m by (intro to_int_id) simp_all
  ultimately have "fat16_cluster_to_sector p (int c) = int n" by (simp only: fat16_cluster_to_sector_def h)
  then have "fat16_cluster_to_sector p (int c) * sector_size (the_disk s) + 0 = int (cluster_pos hdr e c)" using h(2) by (simp flip: m)
  then show ?thesis using assms(4) by (simp add: to_int_id)
qed

lemma size_of_cluster_eq:
  assumes "mounted \<alpha> hdr e s" "fs_private (the_disk s) = Some p"
  shows "size_of_cluster_bytes p s = int (cluster_size hdr)"
proof -
  have h: "fat_header p = hdr" "sector_size (the_disk s) = 512" using assms by (auto simp: mounted_def)
  have "to_int (sectors_per_cluster hdr * 512) = sectors_per_cluster hdr * 512" using header_bounds(2,3) [of hdr] by (intro to_int_id) simp_all
  then show ?thesis using header_bounds(2) [of hdr] by (simp add: size_of_cluster_bytes_def h cluster_size_def)
qed

lemma cluster_offset:
  assumes "0 < z"
  shows "int (j * z) sdiv int z = int j" "int (j * z) smod int z = 0"
proof -
  show d: "int (j * z) sdiv int z = int j" using assms by (cases "j = 0") (simp_all add: signed_divide_int_def sgn_mult)
  show "int (j * z) smod int z = 0" unfolding signed_modulo_int_def d by simp
qed

lemma on_disk_le: "q \<le> p \<Longrightarrow> on_disk a p \<Longrightarrow> on_disk a q"
  by (auto simp: on_disk_def)

lemma cluster_for_offset_ok:
  assumes "ata_device io \<alpha>" "mounted \<alpha> hdr e s" "chain_ok (\<alpha> (fs_dev s)) hdr e cs" "j < length cs"
  obtains s' where "fat16_get_cluster_for_offset io (int (cs ! 0)) (int (j * cluster_size hdr)) s = Some (int (cs ! j), s')"
    "mounted \<alpha> hdr e s'" "same_disk (\<alpha> (fs_dev s)) (\<alpha> (fs_dev s'))"
proof -
  obtain p where p: "fs_private (the_disk s) = Some p" using assms(2) by (auto simp: mounted_def)
  have z: "0 < cluster_size hdr" using assms(3) by (simp add: chain_ok_def)
  show thesis
    using cluster_offset(1) [OF z] cluster_loop_ok [OF assms(1-3), of 0 j] assms(4) z that p size_of_cluster_eq [OF assms(2) p]
    by (auto simp: fat16_get_cluster_for_offset_def simp del: of_nat_mult)
qed

text \<open>One round of the reading loop: a whole cluster, or what is left.\<close>

lemma read_cluster_step:
  assumes dev: "ata_device io \<alpha>" and m: "mounted \<alpha> hdr e s" and ch: "chain_ok (\<alpha> (fs_dev s)) hdr e cs" and j: "j < length cs"
    and n: "n \<le> length out"
  defines "z \<equiv> cluster_size hdr" and "k \<equiv> min n (cluster_size hdr)"
    and "b \<equiv> disk_bytes (\<alpha> (fs_dev s)) (cluster_pos hdr e (cs ! j)) (min n (cluster_size hdr))"
  obtains s' where "fat16_read_internal_from_stream io Cluster_stream (int (cs ! 0)) (int (j * z)) (int n) out s =
      (if int n - int k > 0
       then do { (res, rest, s) \<leftarrow> fat16_read_internal_from_stream io Cluster_stream (int (cs ! 0)) (int (j * z) + int k)
                   (int n - int k) (drop k (b @ drop k out)) s';
                 Some (res, take k (b @ drop k out) @ rest, s) }
       else Some (OK, b @ drop k out, s'))"
    "mounted \<alpha> hdr e s'" "same_disk (\<alpha> (fs_dev s)) (\<alpha> (fs_dev s'))"
proof -
  let ?a = "\<alpha> (fs_dev s)" and ?c = "cs ! j"
  obtain p where p: "fs_private (the_disk s) = Some p" using m by (auto simp: mounted_def)
  have c: "2 \<le> ?c" "on_disk ?a (cluster_pos hdr e ?c + z)" "0 < z" using ch j by (auto simp: chain_ok_def z_def)
  obtain s1 where s1: "fat16_get_cluster_for_offset io (int (cs ! 0)) (int (j * z)) s = Some (int ?c, s1)" "mounted \<alpha> hdr e s1"
      "same_disk ?a (\<alpha> (fs_dev s1))"
    by (rule cluster_for_offset_ok [OF dev m ch j, folded z_def])
  have b1: "disk_bytes (\<alpha> (fs_dev s1)) = disk_bytes ?a" "\<And>q. on_disk (\<alpha> (fs_dev s1)) q = on_disk ?a q"
    using disk_bytes_same [OF s1(3)] s1(3) by (simp_all add: on_disk_def same_disk_def)
  have pos: "to_int (fat16_cluster_to_sector p (int ?c) * sector_size (the_disk s1) + int (j * z) smod int z) = int (cluster_pos hdr e ?c)"
    unfolding cluster_offset(2) [OF c(3)]
    using cluster_start [OF m p c(1)] c(2) m s1(2) by (simp add: on_disk_def mounted_def z_def)
  have on: "on_disk (\<alpha> (fs_dev s1)) (cluster_pos hdr e ?c + k)"
    unfolding b1(2) by (rule on_disk_le [OF _ c(2)]) (simp add: k_def z_def)
  obtain s2 s3 where s3: "fat_seek Cluster_stream (int (cluster_pos hdr e ?c)) s1 = Some (OK, s2)"
      "fat_read io Cluster_stream out (int k) s2 = Some (OK, b @ drop k out, s3)"
      "mounted \<alpha> hdr e s3" "same_disk (\<alpha> (fs_dev s1)) (\<alpha> (fs_dev s3))"
    by (rule seek_read_ok [OF dev s1(2) _ on, of Cluster_stream out]) (use n b1(1) in \<open>auto simp: b_def k_def\<close>)
  have sz: "size_of_cluster_bytes p s = int z" unfolding z_def by (rule size_of_cluster_eq [OF m p])
  have k: "(if int z < int n then int z else int n) = int k" by (auto simp: k_def z_def)
  note unfold = fat16_read_internal_from_stream.simps [of io Cluster_stream "int (cs ! 0)" "int (j * z)" "int n" out s]
  show thesis
    by (rule that [OF _ s3(3) same_disk_trans [OF s1(3) s3(4)]])
      (unfold unfold p sz s1(1) bind.bind_lunit Let_def split_conv k pos s3(1,2), simp add: s3(1,2) kernel_consts)
qed

lemma read_clusters_ok:
  assumes dev: "ata_device io \<alpha>"
  shows "mounted \<alpha> hdr e s \<Longrightarrow> chain_ok (\<alpha> (fs_dev s)) hdr e cs \<Longrightarrow> j < length cs \<Longrightarrow>
    n \<le> (length cs - j) * cluster_size hdr \<Longrightarrow> n \<le> length out \<Longrightarrow>
    \<exists>s'. fat16_read_internal_from_stream io Cluster_stream (int (cs ! 0)) (int (j * cluster_size hdr)) (int n) out s =
      Some (OK, take n (drop (j * cluster_size hdr) (file_bytes (\<alpha> (fs_dev s)) hdr e cs)) @ drop n out, s') \<and>
      mounted \<alpha> hdr e s' \<and> same_disk (\<alpha> (fs_dev s)) (\<alpha> (fs_dev s'))"
proof (induction "length cs - j" arbitrary: j n out s rule: less_induct)
  case less
  let ?a = "\<alpha> (fs_dev s)" and ?z = "cluster_size hdr" and ?c = "cs ! j"
  let ?k = "min n ?z"
  obtain s3 where step: "fat16_read_internal_from_stream io Cluster_stream (int (cs ! 0)) (int (j * ?z)) (int n) out s =
      (if int n - int ?k > 0
       then do { (res, rest, s) \<leftarrow> fat16_read_internal_from_stream io Cluster_stream (int (cs ! 0)) (int (j * ?z) + int ?k)
                   (int n - int ?k) (drop ?k (disk_bytes ?a (cluster_pos hdr e ?c) ?k @ drop ?k out)) s3;
                 Some (res, take ?k (disk_bytes ?a (cluster_pos hdr e ?c) ?k @ drop ?k out) @ rest, s) }
       else Some (OK, disk_bytes ?a (cluster_pos hdr e ?c) ?k @ drop ?k out, s3))"
      and s3: "mounted \<alpha> hdr e s3" and sd: "same_disk ?a (\<alpha> (fs_dev s3))"
    by (rule read_cluster_step [OF dev less.prems(1-3,5)])
  show ?case
  proof (cases "n \<le> ?z")
    case True
    have "take n (drop (j * ?z) (file_bytes ?a hdr e cs)) = take n (disk_bytes ?a (cluster_pos hdr e ?c) ?z)"
      unfolding drop_file_bytes [OF less.prems(3)] using True by simp
    also have "\<dots> = disk_bytes ?a (cluster_pos hdr e ?c) n" using True by (simp add: disk_bytes_def take_map)
    finally show ?thesis using step True s3 sd by (simp add: min_def)
  next
    case False
    have m: "length cs - j = Suc (length cs - Suc j)" using less.prems(3) by simp
    then have r: "n \<le> ?z + (length cs - Suc j) * ?z" using less.prems(4) by simp
    then have j: "Suc j < length cs" "n - ?z \<le> (length cs - Suc j) * ?z"
      using False by (cases "length cs - Suc j"; simp)+
    have ch: "chain_ok (\<alpha> (fs_dev s3)) hdr e cs" "file_bytes (\<alpha> (fs_dev s3)) = file_bytes ?a"
      using same_disk_file [OF sd] less.prems(2) by simp_all
    have kz: "?k = ?z" "int (j * ?z) + int ?z = int (Suc j * ?z)" "int n - int ?z = int (n - ?z)" using False by simp_all
    let ?out = "drop ?z (disk_bytes ?a (cluster_pos hdr e ?c) ?z @ drop ?z out)"
    have lo: "n - ?z \<le> length ?out" and lt: "length cs - Suc j < length cs - j" using less.prems(5) m by simp_all
    obtain s4 where s4: "fat16_read_internal_from_stream io Cluster_stream (int (cs ! 0)) (int (Suc j * ?z)) (int (n - ?z)) ?out s3 =
        Some (OK, take (n - ?z) (drop (Suc j * ?z) (file_bytes ?a hdr e cs)) @ drop (n - ?z) ?out, s4)"
        "mounted \<alpha> hdr e s4" "same_disk (\<alpha> (fs_dev s3)) (\<alpha> (fs_dev s4))"
      using less.hyps [OF lt s3 ch(1) j lo] unfolding ch(2) by blast
    have "take n (drop (j * ?z) (file_bytes ?a hdr e cs)) = disk_bytes ?a (cluster_pos hdr e ?c) ?z @
        take (n - ?z) (drop (Suc j * ?z) (file_bytes ?a hdr e cs))"
      unfolding drop_file_bytes [OF less.prems(3)] using False by simp
    moreover have "drop (n - ?z) ?out = drop n out" using False by simp
    ultimately show ?thesis
      using step s4 False same_disk_trans [OF sd s4(3)] unfolding kz by simp
  qed
qed

subsection \<open>Properties of files\<close>

text \<open>
  (C9) On a drive that follows the ATA protocol and is ready, \<open>fat16_read\<close> of one block of any length, from a position at the
  start of a cluster, follows the chain of the file through the allocation table and delivers exactly the bytes of
  the file, in order and across clusters wherever they lie. It leaves the rest of the output and the disk as
  they are, and returns one block read. This is how programs are loaded.
\<close>

theorem fat16_read_delivers_file:
  assumes "ata_device io \<alpha>" "mounted \<alpha> hdr e s" "chain_ok (\<alpha> (fs_dev s)) hdr e cs"
    and "descriptor_item fd = Some (ia, item)" "sint (fat16_get_first_cluster item) = int (cs ! 0)"
    and "sint (ffd_pos fd) = int (j * cluster_size hdr)" "j < length cs"
    and "unat n < 2 ^ 31" "unat n \<le> (length cs - j) * cluster_size hdr" "unat n \<le> length out"
  shows "\<exists>s'. fat16_read io The_Disk fd n 1 out s =
      Some (1, take (unat n) (drop (j * cluster_size hdr) (file_bytes (\<alpha> (fs_dev s)) hdr e cs)) @ drop (unat n) out, s') \<and>
    mounted \<alpha> hdr e s' \<and> same_disk (\<alpha> (fs_dev s)) (\<alpha> (fs_dev s'))"
proof -
  have u: "uint n = int (unat n)" by simp
  have "int (unat n) < int (2 ^ 31)" using assms(8) by (simp only: of_nat_less_iff)
  then have "uint n < 2 ^ 31" unfolding u by (simp only: of_nat_power of_nat_numeral)
  then have n: "sint n = int (unat n)" unfolding u [symmetric] by (rule sint_eq_uint_u32)
  obtain s' where "fat16_read_internal_from_stream io Cluster_stream (int (cs ! 0)) (int (j * cluster_size hdr)) (int (unat n)) out s =
      Some (OK, take (unat n) (drop (j * cluster_size hdr) (file_bytes (\<alpha> (fs_dev s)) hdr e cs)) @ drop (unat n) out, s')"
      "mounted \<alpha> hdr e s'" "same_disk (\<alpha> (fs_dev s)) (\<alpha> (fs_dev s'))"
    using read_clusters_ok [OF assms(1-3,7,9,10)] by blast
  then show ?thesis
    unfolding fat16_read_def using assms(4) by (simp add: fat16_read_internal_def assms(5,6) n kernel_consts del: of_nat_mult)
qed

lemma disk_bytes_sector: "length (ata_sectors a k) = 512 \<Longrightarrow> disk_bytes a (512 * k) 512 = ata_sectors a k"
  by (rule nth_equalityI) (simp_all add: disk_bytes_def disk_byte_def)

text \<open>A small volume: one table at sector 1, data from sector 3 on, and a file in the clusters 2 and 4.\<close>

definition sample_header :: "u8 list" where
  "sample_header = (replicate 62 0)[13 := 1, 14 := 1]"

definition sample_disk :: ata where
  "sample_disk = \<lparr>ata_capacity = 16, ata_sectors = (\<lambda>lba. if lba = 1 then (replicate 512 0)[4 := 4]
     else if lba = 3 then replicate 512 65 else if lba = 5 then replicate 512 66 else replicate 512 0),
     ata_count = 0, ata_lba_low = 0, ata_lba_mid = 0, ata_lba_high = 0, ata_drive = 0, ata_phase = Idle, ata_busy = False\<rparr>"

definition sample_volume :: "(ata \<times> nat) fs_state" where
  "sample_volume = \<lparr>fs_heap = boot_heap, fs_dev = (sample_disk, 0), the_disk = \<lparr>disk_type = DISK_TYPE_REAL, sector_size = 512,
     disk_id = 0, disk_fs = Some Fat16_fs, fs_private = Some \<lparr>fp_addr = 0x1400000, fat_header = sample_header,
       root_directory = \<lparr>dir_item = None, dir_total = 0, dir_sector_pos = 2, dir_ending_sector_pos = 3\<rparr>,
       cluster_read_stream = Some \<lparr>ds_addr = 0x1401000, ds_pos = 0, ds_disk = The_Disk\<rparr>,
       fat_read_stream = Some \<lparr>ds_addr = 0x1402000, ds_pos = 0, ds_disk = The_Disk\<rparr>,
       directory_stream = Some \<lparr>ds_addr = 0x1403000, ds_pos = 0, ds_disk = The_Disk\<rparr>\<rparr>\<rparr>\<rparr>"

definition sample_fd :: fat_file_descriptor where
  "sample_fd = \<lparr>ffd_addr = 0x1404000, ffd_item = \<lparr>fi_addr = 0x1405000,
     fi_union = Fat_file (Some (0x1406000, (replicate 32 0)[26 := 2]))\<rparr>, ffd_pos = 0\<rparr>"

lemma sample_volume_ok:
  "mounted fst sample_header 3 sample_volume" "cluster_size sample_header = 512" "fs_dev sample_volume = (sample_disk, 0)"
  "chain_ok sample_disk sample_header 3 [2, 4]"
  "file_bytes sample_disk sample_header 3 [2, 4] = replicate 512 65 @ replicate 512 66"
proof -
  show z: "cluster_size sample_header = 512" by (simp add: cluster_size_def sample_header_def sectors_per_cluster_def)
  show "fs_dev sample_volume = (sample_disk, 0)" by (simp add: sample_volume_def)
  show "mounted fst sample_header 3 sample_volume"
    by (simp add: mounted_def sample_volume_def drive_ok_def sectors_ok_def sample_disk_def ata_ready_def in_transfer_def)
  have p: "cluster_pos sample_header 3 2 = 512 * 3" "cluster_pos sample_header 3 4 = 512 * 5" by (simp_all add: cluster_pos_def z)
  have r: "entry_pos sample_header c = 512 + 2 * c" for c
    by (simp add: entry_pos_def reserved_sectors_def sample_header_def field16_def bytes_word_def)
  have "disk_bytes sample_disk 516 2 = [4, 0]" by (simp add: disk_bytes_def disk_byte_def sample_disk_def upt_rec)
  then have "fat_entry sample_disk sample_header 2 = 4" by (simp add: fat_entry_def r field16_def bytes_word_def)
  then show "chain_ok sample_disk sample_header 3 [2, 4]"
    by (simp add: chain_ok_def z p r on_disk_def end_marks_def sample_disk_def less_Suc_eq)
  show "file_bytes sample_disk sample_header 3 [2, 4] = replicate 512 65 @ replicate 512 66"
    using disk_bytes_sector [of sample_disk 3] disk_bytes_sector [of sample_disk 5]
    by (simp add: file_bytes_def z p) (simp add: sample_disk_def)
qed

theorem fat16_read_delivers_file_witness:
  "\<exists>s'. fat16_read sim_bus The_Disk sample_fd 700 1 (replicate 700 0) sample_volume =
     Some (1, replicate 512 65 @ replicate 188 66, s')"
proof -
  have "\<exists>s'. fat16_read sim_bus The_Disk sample_fd 700 1 (replicate 700 0) sample_volume =
      Some (1, take (unat (700 :: u32)) (drop (0 * cluster_size sample_header) (file_bytes (fst (fs_dev sample_volume)) sample_header 3 [2, 4])) @
        drop (unat (700 :: u32)) (replicate 700 0), s') \<and>
      mounted fst sample_header 3 s' \<and> same_disk (fst (fs_dev sample_volume)) (fst (fs_dev s'))"
    by (rule fat16_read_delivers_file [OF sim_bus_device sample_volume_ok(1), where ia = "0x1406000" and item = "(replicate 32 0)[26 := 2]"])
      (use sample_volume_ok in \<open>simp_all add: sample_fd_def descriptor_item_def fat16_get_first_cluster_def
        high_16_bits_first_cluster_def low_16_bits_first_cluster_def field16_def bytes_word_def\<close>)
  then show ?thesis using sample_volume_ok by auto
qed

end
