(* ===== verification/Address_Spaces.thy ===== *)
theory Address_Spaces
  imports Paging
begin

section \<open>Several address spaces\<close>

text \<open>
  What the operations of \<^verbatim>\<open>paging.c\<close> on one address space leave alone: creating a space writes only to the
  pages it allocates, and mapping pages writes only to the tables of its own space.
\<close>

lemma paging_new_4gb_frame:
  assumes ok: "heap_ok h" and room: "1026 \<le> free_blocks h"
    and run: "paging_new_4gb flags h m = (chunk, h', m')"
    and q: "paging_is_aligned q" "(q, k) \<in> heap_live h" "j < 1024"
  shows "rd32 m' (word_at q j) = rd32 m (word_at q j)"
proof -
  have r0: "0 < free_blocks h" using room by simp
  obtain dir h1 where dir: "kmalloc 4096 h = (dir, h1)" "dir \<noteq> 0" "heap_ok h1"
      "heap_live h1 = insert (dir, 4096) (heap_live h)" "free_blocks h = Suc (free_blocks h1)"
      "4096 dvd unat dir" and dfresh: "\<And>q k. (q, k) \<in> heap_live h \<Longrightarrow> dir \<noteq> q"
    using kernel_pages.page_alloc_ok [OF ok page_size_ok r0] by metis
  have ad: "paging_is_aligned dir" using dir(6) by (simp add: paging_is_aligned_iff)
  define m1 where "m1 = mem_fill m dir 0 4096"
  obtain h2 m2 off where st: "fold (new_table dir flags) [0 ..< 1024] (h1, m1, 0) = (h2, m2, off)"
    using prod_cases3 by blast
  have "1024 \<le> free_blocks h1" using dir(5) room by simp
  then have I: "tables_inv (heap_live h1) m1 dir flags (free_blocks h1) 1024 (h2, m2, off)"
    using tables_inv_fold [OF dir(3) refl refl _ ad, of 1024 m1 flags] dir(4) st by simp
  then have ok2: "heap_ok h2" and r2: "0 < free_blocks h2"
    and live2: "heap_live h2 = heap_live h1 \<union> (\<lambda>i. (table_of m2 dir i, 4096)) ` {..< 1024}"
    and fresh2: "\<And>i. i < 1024 \<Longrightarrow> table_of m2 dir i \<noteq> q"
    and frame: "q \<noteq> dir \<Longrightarrow> (\<forall>i < 1024. table_of m2 dir i \<noteq> q) \<Longrightarrow> rd32 m2 (word_at q j) = rd32 m1 (word_at q j)"
    using dir(4,5) room q unfolding tables_inv_def by (simp_all, blast+)
  have four: "0 < unat (4 :: u32)" "unat (4 :: u32) \<le> 4096" by simp_all
  obtain c h3 where c: "kmalloc 4 h2 = (c, h3)" "c \<noteq> 0" "4096 dvd unat c"
      and cfresh: "\<And>q k. (q, k) \<in> heap_live h2 \<Longrightarrow> c \<noteq> q"
    using kernel_pages.page_alloc_ok [OF ok2 four r2] by metis
  have ac: "paging_is_aligned c" using c(3) by (simp add: paging_is_aligned_iff)
  have m': "m' = wr32 (mem_fill m2 c 0 4) (word_at c 0) dir"
    using run dir(1,2) c(1,2) st by (auto simp: paging_new_4gb_def kzalloc_mem_def m1_def
        PAGING_TOTAL_ENTRIES_PER_TABLE_def)
  have "c \<noteq> q" using cfresh [of q k] live2 dir(4) q(2) by simp
  then have "rd32 m' (word_at q j) = rd32 m2 (word_at q j)"
    using q ac by (simp add: m' rd32_wr32_word_at rd32_mem_fill_other del: word_at_0)
  also have "\<dots> = rd32 m1 (word_at q j)" using frame fresh2 dfresh [OF q(2)] by blast
  also have "\<dots> = rd32 m (word_at q j)"
    unfolding m1_def using dfresh [OF q(2)] q ad by (intro rd32_mem_fill_other) auto
  finally show ?thesis .
qed

lemma space_pages_aligned: "chunk_ok m c \<Longrightarrow> p \<in> set (space_pages m c) \<Longrightarrow> paging_is_aligned p"
  using chunk_okD [of m c] directory_okD(2) [of m "directory_entry m c"] by (auto simp: space_pages_def)

lemma space_pages_cong:
  assumes "chunk_ok m c" and same: "\<And>q j. q \<in> set (space_pages m c) \<Longrightarrow> j < 1024 \<Longrightarrow> rd32 m' (word_at q j) = rd32 m (word_at q j)"
  shows "space_pages m' c = space_pages m c \<and> chunk_ok m' c"
proof -
  have de: "directory_entry m' c = directory_entry m c"
    using same [of c 0] by (simp add: space_pages_def directory_entry_def)
  have t: "table_of m' (directory_entry m c) i = table_of m (directory_entry m c) i" if "i < 1024" for i
    using same [of "directory_entry m c" i] that by (simp add: space_pages_def table_of_def)
  then show ?thesis using assms(1) de by (simp add: space_pages_def chunk_ok_def directory_ok_def)
qed

lemma paging_map_pages:
  assumes "chunk_ok m c" "paging_map c v p flags m = (res, m')"
  shows "chunk_ok m' c \<and> space_pages m' c = space_pages m c \<and>
    (\<forall>q j. paging_is_aligned q \<and> q \<notin> set (space_pages m c) \<and> j < 1024 \<longrightarrow> rd32 m' (word_at q j) = rd32 m (word_at q j))"
proof (cases "m' = m")
  case False
  let ?dir = "directory_entry m c"
  have al: "paging_is_aligned v" "v \<noteq> 0" and set: "paging_set ?dir v (p OR word_of_int flags) m = (res, m')"
    using False assms(2) by (auto simp: paging_map_def paging_set_def paging_is_aligned_def split: if_splits)
  note keep = chunk_ok_paging_set [OF assms(1) al(2,1) set]
  have m': "m' = wr32 m (pte_at m ?dir v) (p OR word_of_int flags)"
    using set al chunk_okD(2) [OF assms(1)] directory_okD(1) by (simp add: paging_set_eq)
  have dir: "directory_ok m ?dir" using chunk_okD(2) [OF assms(1)] .
  have "table_of m' ?dir i = table_of m ?dir i" if "i < 1024" for i
    unfolding m' pte_at_def using dir that directory_okD(2,3) [OF dir] by (intro table_of_wr32) auto
  then have "space_pages m' c = space_pages m c" by (simp add: space_pages_def keep(2))
  moreover have "rd32 m' (word_at q j) = rd32 m (word_at q j)"
    if "paging_is_aligned q" "q \<notin> set (space_pages m c)" "j < 1024" for q j
    unfolding m' pte_at_def using that by (subst rd32_wr32_word_at) (auto simp: space_pages_def)
  ultimately show ?thesis using keep(1) by blast
qed (use assms in simp)

lemma map_range_loop_pages:
  assumes "chunk_ok m c" "map_range_loop c v p n flags m = (res, m')"
  shows "chunk_ok m' c \<and> space_pages m' c = space_pages m c \<and>
    (\<forall>q j. paging_is_aligned q \<and> q \<notin> set (space_pages m c) \<and> j < 1024 \<longrightarrow> rd32 m' (word_at q j) = rd32 m (word_at q j))"
  using assms
proof (induction n arbitrary: v p m)
  case (Suc n)
  obtain r m1 where m1: "paging_map c v p flags m = (r, m1)" by force
  note one = paging_map_pages [OF Suc.prems(1) m1]
  show ?case
  proof (cases "r < 0")
    case True
    then show ?thesis using Suc.prems(2) m1 one by simp
  next
    case False
    then have "map_range_loop c (v + PAGING_PAGE_SIZE) (p + PAGING_PAGE_SIZE) n flags m1 = (res, m')"
      using Suc.prems(2) m1 by simp
    then show ?thesis using Suc.IH [of m1] one by simp
  qed
qed simp

lemma paging_map_to_pages:
  assumes "chunk_ok m c" "paging_map_to c v p e flags m = (res, m')"
  shows "chunk_ok m' c \<and> space_pages m' c = space_pages m c \<and>
    (\<forall>q j. paging_is_aligned q \<and> q \<notin> set (space_pages m c) \<and> j < 1024 \<longrightarrow> rd32 m' (word_at q j) = rd32 m (word_at q j))"
  using assms map_range_loop_pages [OF assms(1), of v p _ flags res m']
  by (auto simp: paging_map_to_def paging_map_range_def Let_def split: if_splits)

end
