(* ===== verification/Task_List.thy ===== *)
theory Task_List
  imports Syscalls Address_Spaces
begin

section \<open>The task list and the scheduler\<close>

text \<open>
  The doubly linked list of tasks as a list of addresses, the address spaces of the tasks, and what
  the clock interrupt does to them. \<open>tasks_ok s ts\<close> is the invariant: the pointers form the list \<open>ts\<close>, the
  current task is one of them, and every task owns its node and the pages of its address space.
\<close>

subsection \<open>Segments of a doubly linked list\<close>

fun dseg :: "(u32 \<rightharpoonup> task) \<Rightarrow> u32 \<Rightarrow> u32 list \<Rightarrow> u32 \<Rightarrow> bool" where
  "dseg T p [] n \<longleftrightarrow> True"
| "dseg T p (t # ts) n \<longleftrightarrow> t \<noteq> 0 \<and>
     (\<exists>k. T t = Some k \<and> task_prev_ptr k = p \<and> task_next_ptr k = hd (ts @ [n])) \<and> dseg T t ts n"

lemma dseg_append: "dseg T p (xs @ ys) n \<longleftrightarrow> dseg T p xs (hd (ys @ [n])) \<and> dseg T (last (p # xs)) ys n"
  by (induction xs arbitrary: p) (auto simp: hd_append)

lemma dseg_cong: "(\<And>t. t \<in> set ts \<Longrightarrow> T' t = T t) \<Longrightarrow> dseg T' p ts n \<longleftrightarrow> dseg T p ts n"
  by (induction ts arbitrary: p) auto

lemma dseg_dom: "dseg T p ts n \<Longrightarrow> t \<in> set ts \<Longrightarrow> t \<noteq> 0 \<and> (\<exists>k. T t = Some k)"
  by (induction ts arbitrary: p) auto

text \<open>Everything but the two pointers of a node may change.\<close>

lemma dseg_update:
  assumes "T t = Some k" "task_prev_ptr k' = task_prev_ptr k" "task_next_ptr k' = task_next_ptr k"
  shows "dseg (T(t \<mapsto> k')) p ts n \<longleftrightarrow> dseg T p ts n"
  using assms by (induction ts arbitrary: p) auto

lemma dseg_last_next:
  assumes "dseg T p (xs @ [t]) n" "T t = Some k" "t \<notin> set xs"
  shows "dseg (T(t \<mapsto> k\<lparr>task_next_ptr := m\<rparr>)) p (xs @ [t]) m"
proof -
  have "dseg (T(t \<mapsto> k\<lparr>task_next_ptr := m\<rparr>)) p xs t \<longleftrightarrow> dseg T p xs t"
    using assms(3) by (intro dseg_cong) auto
  then show ?thesis using assms(1,2) by (simp add: dseg_append)
qed

lemma dseg_first_prev:
  assumes "dseg T p (t # ts) n" "T t = Some k" "t \<notin> set ts"
  shows "dseg (T(t \<mapsto> k\<lparr>task_prev_ptr := q\<rparr>)) q (t # ts) n"
proof -
  have "dseg (T(t \<mapsto> k\<lparr>task_prev_ptr := q\<rparr>)) t ts n \<longleftrightarrow> dseg T t ts n"
    using assms(3) by (intro dseg_cong) auto
  then show ?thesis using assms(1,2) by simp
qed

subsection \<open>The list of the state\<close>

definition task_list :: "('d, 'z) task_state_scheme \<Rightarrow> u32 list \<Rightarrow> bool" where
  "task_list s ts \<longleftrightarrow> distinct ts \<and> dseg (tasks s) 0 ts 0 \<and> task_head s = hd (ts @ [0]) \<and> task_tail s = last (0 # ts)"

lemma task_append_ok:
  assumes "task_list s ts" "tasks s t = Some k" "t \<noteq> 0" "t \<notin> set ts" "task_next_ptr k = 0" "task_prev_ptr k = 0"
  shows "\<exists>s'. task_append t s = Some s' \<and> task_list s' (ts @ [t]) \<and>
    (\<forall>u. map_option page_directory (tasks s' u) = map_option page_directory (tasks s u)) \<and>
    current_task s' = (if ts = [] then t else current_task s) \<and> fs_heap s' = fs_heap s \<and> phys s' = phys s"
proof (cases "ts = []")
  case True
  then show ?thesis using assms by (auto simp: task_append_def task_list_def)
next
  case False
  then obtain us u where ts: "ts = us @ [u]" by (metis append_butlast_last_id)
  have d: "distinct (us @ [u])" "dseg (tasks s) 0 (us @ [u]) 0" "task_tail s = u" "task_head s = hd (us @ [u])"
    using assms(1) by (simp_all add: task_list_def ts hd_append)
  then obtain l where l: "tasks s u = Some l" "u \<noteq> 0" using dseg_dom [OF d(2), of u] by auto
  have "task_head s \<noteq> 0" using d(4) dseg_dom [OF d(2), of "hd (us @ [u])"] by (simp add: hd_append split: if_splits)
  let ?T = "(tasks s)(u \<mapsto> l\<lparr>task_next_ptr := t\<rparr>, t \<mapsto> k\<lparr>task_prev_ptr := u\<rparr>)"
  have "dseg ((tasks s)(u \<mapsto> l\<lparr>task_next_ptr := t\<rparr>)) 0 (us @ [u]) t"
    using dseg_last_next [OF d(2) l(1)] d(1) by simp
  then have "dseg ?T 0 (us @ [u]) t" by (subst dseg_cong [of _ _ "(tasks s)(u \<mapsto> l\<lparr>task_next_ptr := t\<rparr>)"]) (use assms(4) ts in auto)
  then have "dseg ?T 0 ((us @ [u]) @ [t]) 0" using assms(3,5) by (subst dseg_append) simp
  moreover have "t \<noteq> u" using assms(4) ts by auto
  ultimately show ?thesis
    using d l assms(2,4) ts \<open>task_head s \<noteq> 0\<close>
    by (auto simp: task_append_def set_next_def set_prev_def task_list_def hd_append)
qed

lemma set_next_ok:
  assumes "dseg (tasks s) p xs n" "distinct xs" "xs \<noteq> []"
  shows "\<exists>k. tasks s (last xs) = Some k \<and> set_next (last xs) m s = Some (s\<lparr>tasks := (tasks s)(last xs \<mapsto> k\<lparr>task_next_ptr := m\<rparr>)\<rparr>) \<and>
    dseg ((tasks s)(last xs \<mapsto> k\<lparr>task_next_ptr := m\<rparr>)) p xs m"
proof -
  obtain us u where xs: "xs = us @ [u]" using assms(3) by (metis append_butlast_last_id)
  then obtain k where "tasks s u = Some k" using dseg_dom [OF assms(1), of u] by auto
  then show ?thesis using dseg_last_next [of "tasks s" p us u n k m] assms xs by (simp add: set_next_def)
qed

lemma set_prev_ok:
  assumes "dseg (tasks s) p ys n" "distinct ys" "ys \<noteq> []"
  shows "\<exists>k. tasks s (hd ys) = Some k \<and> set_prev (hd ys) q s = Some (s\<lparr>tasks := (tasks s)(hd ys \<mapsto> k\<lparr>task_prev_ptr := q\<rparr>)\<rparr>) \<and>
    dseg ((tasks s)(hd ys \<mapsto> k\<lparr>task_prev_ptr := q\<rparr>)) q ys n"
proof -
  obtain u us where ys: "ys = u # us" using assms(3) by (cases ys) auto
  then obtain k where "tasks s u = Some k" using dseg_dom [OF assms(1), of u] by auto
  then show ?thesis using dseg_first_prev [of "tasks s" p u us n k q] assms ys by (simp add: set_prev_def)
qed

text \<open>The state differs in its tasks only, and not in the address spaces they have.\<close>

definition same_but_links :: "('d, 'z) task_state_scheme \<Rightarrow> ('d, 'z) task_state_scheme \<Rightarrow> bool" where
  "same_but_links s s' \<longleftrightarrow> s' = s\<lparr>tasks := tasks s'\<rparr> \<and>
     (\<forall>u. map_option page_directory (tasks s' u) = map_option page_directory (tasks s u))"

lemma same_but_linksD:
  assumes "same_but_links s s'"
  shows "task_head s' = task_head s" "task_tail s' = task_tail s" "current_task s' = current_task s"
    "fs_heap s' = fs_heap s" "phys s' = phys s"
    "map_option page_directory (tasks s' u) = map_option page_directory (tasks s u)"
proof -
  have s: "s' = s\<lparr>tasks := tasks s'\<rparr>" using assms by (simp add: same_but_links_def)
  show "task_head s' = task_head s" by (subst s) simp
  show "task_tail s' = task_tail s" by (subst s) simp
  show "current_task s' = current_task s" by (subst s) simp
  show "fs_heap s' = fs_heap s" by (subst s) simp
  show "phys s' = phys s" by (subst s) simp
  show "map_option page_directory (tasks s' u) = map_option page_directory (tasks s u)"
    using assms by (simp add: same_but_links_def)
qed

lemma unlink_next:
  assumes "dseg (tasks s) 0 xs n" "distinct xs"
  shows "\<exists>s'. (if last (0 # xs) \<noteq> 0 then set_next (last (0 # xs)) m s else Some s) = Some s' \<and>
    dseg (tasks s') 0 xs m \<and> (\<forall>u. u \<notin> set xs \<longrightarrow> tasks s' u = tasks s u) \<and> same_but_links s s'"
proof (cases "xs = []")
  case False
  have "last xs \<noteq> 0" using dseg_dom [OF assms(1), of "last xs"] False by simp
  then show ?thesis using set_next_ok [OF assms False, of m] False by (auto simp: same_but_links_def)
qed (simp add: same_but_links_def)

lemma unlink_prev:
  assumes "dseg (tasks s) p ys 0" "distinct ys"
  shows "\<exists>s'. (if hd (ys @ [0]) \<noteq> 0 then set_prev (hd (ys @ [0])) q s else Some s) = Some s' \<and>
    dseg (tasks s') q ys 0 \<and> (\<forall>u. u \<notin> set ys \<longrightarrow> tasks s' u = tasks s u) \<and> same_but_links s s'"
proof (cases "ys = []")
  case False
  have "hd ys \<noteq> 0" using dseg_dom [OF assms(1), of "hd ys"] False by simp
  then show ?thesis using set_prev_ok [OF assms False, of q] False by (auto simp: same_but_links_def)
qed (simp add: same_but_links_def)

lemma task_list_split:
  assumes "task_list s (xs @ t # ys)"
  shows "distinct (xs @ ys)" "t \<notin> set (xs @ ys)" "t \<noteq> 0" "dseg (tasks s) 0 xs t" "dseg (tasks s) t ys 0"
    "task_head s = hd (xs @ [t])" "task_tail s = last (t # ys)"
    "\<exists>k. tasks s t = Some k \<and> task_prev_ptr k = last (0 # xs) \<and> task_next_ptr k = hd (ys @ [0])"
  using assms by (auto simp: task_list_def dseg_append hd_append)

lemma task_list_remove_ok:
  assumes "task_list s (xs @ t # ys)"
  shows "\<exists>s'. task_list_remove t s = Some s' \<and> task_list s' (xs @ ys) \<and>
    (\<forall>u. map_option page_directory (tasks s' u) = map_option page_directory (tasks s u)) \<and>
    current_task s' = (if current_task s = t then hd (ys @ xs @ [t]) else current_task s) \<and>
    fs_heap s' = fs_heap s \<and> phys s' = phys s"
proof -
  note l = task_list_split [OF assms]
  obtain k where k: "tasks s t = Some k" "task_prev_ptr k = last (0 # xs)" "task_next_ptr k = hd (ys @ [0])"
    using l(8) by blast
  have dx: "distinct xs" "distinct ys" using l(1) by simp_all
  obtain s1 where s1: "(if last (0 # xs) \<noteq> 0 then set_next (last (0 # xs)) (hd (ys @ [0])) s else Some s) = Some s1"
    "dseg (tasks s1) 0 xs (hd (ys @ [0]))" "\<forall>u. u \<notin> set xs \<longrightarrow> tasks s1 u = tasks s u" "same_but_links s s1"
    using unlink_next [OF l(4) dx(1), of "hd (ys @ [0])"] by blast
  have y1: "dseg (tasks s1) t ys 0" using l(1,5) s1(3) by (subst dseg_cong [of _ _ "tasks s"]) auto
  obtain s2 where s2: "(if hd (ys @ [0]) \<noteq> 0 then set_prev (hd (ys @ [0])) (last (0 # xs)) s1 else Some s1) = Some s2"
    "dseg (tasks s2) (last (0 # xs)) ys 0" "\<forall>u. u \<notin> set ys \<longrightarrow> tasks s2 u = tasks s1 u" "same_but_links s1 s2"
    using unlink_prev [OF y1 dx(2), of "last (0 # xs)"] by blast
  have "dseg (tasks s2) 0 xs (hd (ys @ [0]))"
    using s1(2) l(1) s2(3) by (subst dseg_cong [of _ _ "tasks s1"]) auto
  then have dseg: "dseg (tasks s2) 0 (xs @ ys) 0" using s2(2) by (simp add: dseg_append)
  have hd: "(t = hd (xs @ [t])) = (xs = [])" using l(2) by (cases xs) auto
  have tl: "(t = last (t # ys)) = (ys = [])" using l(2) by (cases ys rule: rev_cases) auto
  have nz: "(hd (ys @ [0]) = 0) = (ys = [])" using dseg_dom [OF l(5), of "hd ys"] by (cases ys) auto
  note same = same_but_linksD [OF s1(4)] same_but_linksD [OF s2(4)]
  define s3 where "s3 = (if xs = [] then s2\<lparr>task_head := hd (ys @ [0])\<rparr> else s2)"
  define s4 where "s4 = (if ys = [] then s3\<lparr>task_tail := last (0 # xs)\<rparr> else s3)"
  define s5 where "s5 = (if t = current_task s then s4\<lparr>current_task := hd (ys @ xs @ [t])\<rparr> else s4)"
  define n where "n = (if t = current_task s then (if hd (ys @ [0]) \<noteq> 0 then hd (ys @ [0]) else task_head s) else 0)"
  have "(if t = task_head s2 then s2\<lparr>task_head := hd (ys @ [0])\<rparr> else s2) = s3"
    using same(1,7) l(6) hd by (simp add: s3_def)
  moreover have "(if t = task_tail s3 then s3\<lparr>task_tail := last (0 # xs)\<rparr> else s3) = s4"
  proof -
    have "task_tail s3 = task_tail s" using same(2,8) by (simp add: s3_def)
    then show ?thesis using l(7) tl by (simp add: s4_def)
  qed
  moreover have "(if t = current_task s4 then s4\<lparr>current_task := n\<rparr> else s4) = s5"
  proof -
    have "current_task s4 = current_task s" using same(3,9) by (simp add: s3_def s4_def)
    moreover have "hd (ys @ xs @ [t]) = (if hd (ys @ [0]) \<noteq> 0 then hd (ys @ [0]) else task_head s)"
      using nz l(6) by (cases ys) auto
    ultimately show ?thesis by (simp only: s5_def n_def if_cancel) simp
  qed
  ultimately have "task_list_remove t s = Some s5"
    using s1(1) s2(1) by (simp only: task_list_remove_def k n_def [symmetric] Option.bind.simps l(3) if_False Let_def)
  moreover have "task_list s5 (xs @ ys)"
    using dseg l(1,6,7) same by (auto simp: task_list_def s3_def s4_def s5_def hd_append)
  ultimately show ?thesis
    using same by (intro exI [of _ s5]) (simp add: s3_def s4_def s5_def)
qed

subsection \<open>Tasks own their address spaces\<close>

definition space_of :: "('d, 'z) task_state_scheme \<Rightarrow> u32 \<Rightarrow> u32" where
  "space_of s t = page_directory (the (tasks s t))"

definition task_pages :: "('d, 'z) task_state_scheme \<Rightarrow> u32 \<Rightarrow> u32 list" where
  "task_pages s t = t # space_pages (phys s) (space_of s t)"

definition tasks_ok :: "('d, 'z) task_state_scheme \<Rightarrow> u32 list \<Rightarrow> bool" where
  "tasks_ok s ts \<longleftrightarrow> task_list s ts \<and> (ts \<noteq> [] \<longrightarrow> current_task s \<in> set ts) \<and> heap_ok (fs_heap s) \<and>
     distinct (concat (map (task_pages s) ts)) \<and>
     (\<forall>t \<in> set ts. chunk_ok (phys s) (space_of s t) \<and> (\<forall>p \<in> set (task_pages s t). (p, 4096) \<in> heap_live (fs_heap s)))"

lemma tasks_okD:
  assumes "tasks_ok s ts"
  shows "task_list s ts" "ts \<noteq> [] \<Longrightarrow> current_task s \<in> set ts" "heap_ok (fs_heap s)"
    "distinct (concat (map (task_pages s) ts))" "t \<in> set ts \<Longrightarrow> chunk_ok (phys s) (space_of s t)"
    "t \<in> set ts \<Longrightarrow> p \<in> set (task_pages s t) \<Longrightarrow> (p, 4096) \<in> heap_live (fs_heap s)"
  using assms unfolding tasks_ok_def by blast+

lemma task_list_node: "task_list s ts \<Longrightarrow> t \<in> set ts \<Longrightarrow> t \<noteq> 0 \<and> (\<exists>k. tasks s t = Some k \<and> space_of s t = page_directory k)"
  using dseg_dom [of "tasks s" 0 ts 0 t] by (auto simp: task_list_def space_of_def)

text \<open>The address spaces stay as they are when their pages are not written to.\<close>

lemma task_pages_cong:
  assumes "chunk_ok (phys s) (space_of s t)" "space_of s' t = space_of s t"
    "\<And>q j. q \<in> set (task_pages s t) \<Longrightarrow> paging_is_aligned q \<Longrightarrow> j < 1024 \<Longrightarrow>
       rd32 (phys s') (word_at q j) = rd32 (phys s) (word_at q j)"
  shows "task_pages s' t = task_pages s t \<and> chunk_ok (phys s') (space_of s' t)"
  using space_pages_cong [OF assms(1), of "phys s'"] assms(2,3) space_pages_aligned [OF assms(1)]
  by (simp add: task_pages_def)

definition fresh_task :: "u32 \<Rightarrow> u32 \<Rightarrow> u32 \<Rightarrow> task" where
  "fresh_task chunk ip process = zero_task\<lparr>page_directory := chunk, task_registers := zero_registers\<lparr>r_ip := ip,
     r_ss := TOYOS_USER_DATA_SEGMENT, r_cs := TOYOS_USER_CODE_SEGMENT,
     r_esp := TOYOS_PROGRAM_VIRTUAL_STACK_ADDRESS_START\<rparr>, task_process := process\<rparr>"

lemma fresh_task_simps [simp]:
  "page_directory (fresh_task chunk ip process) = chunk" "task_next_ptr (fresh_task chunk ip process) = 0"
  "task_prev_ptr (fresh_task chunk ip process) = 0" "task_process (fresh_task chunk ip process) = process"
  by (simp_all add: fresh_task_def zero_task_def)

lemma task_init_eq:
  assumes "task \<noteq> 0" "process \<noteq> 0" "procs s process = Some p"
    "filetype p = PROCESS_FILETYPE_ELF \<longrightarrow> elf_files s (proc_ptr p) \<noteq> None"
    "paging_new_4gb 5 (fs_heap s) (phys s) = (chunk, h, m)" "chunk \<noteq> 0"
  shows "\<exists>ip. task_init task process s =
    Some (OK, s\<lparr>fs_heap := h, phys := m, tasks := (tasks s)(task \<mapsto> fresh_task chunk ip process)\<rparr>)"
proof -
  have f: "ucast (PAGING_IS_PRESENT OR PAGING_ACCESS_FROM_ALL) = (5 :: u8)" by (simp add: kernel_consts)
  show ?thesis
  proof (cases "filetype p = PROCESS_FILETYPE_ELF")
    case True
    then obtain e where "elf_files s (proc_ptr p) = Some e" using assms(4) by blast
    then show ?thesis
      using assms True by (intro exI [of _ "e_entry m (elf_header e)"]) (simp add: task_init_def f fresh_task_def)
  next
    case False
    then show ?thesis
      using assms by (intro exI [of _ TOYOS_PROGRAM_VIRTUAL_ADDRESS]) (simp add: task_init_def f fresh_task_def)
  qed
qed

lemma concat_pages_cong: "(\<And>u. u \<in> set ts \<Longrightarrow> task_pages s' u = task_pages s u) \<Longrightarrow>
    concat (map (task_pages s') ts) = concat (map (task_pages s) ts)"
  by (metis (mono_tags, lifting) map_eq_conv)

lemma space_of_cong: "map_option page_directory (tasks s' u) = map_option page_directory (tasks s u) \<Longrightarrow>
    tasks s u \<noteq> None \<Longrightarrow> space_of s' u = space_of s u"
  by (auto simp: space_of_def)

lemma task_list_cong:
  "task_list s ts \<Longrightarrow> (\<And>u. u \<in> set ts \<Longrightarrow> tasks s' u = tasks s u) \<Longrightarrow> task_head s' = task_head s \<Longrightarrow>
    task_tail s' = task_tail s \<Longrightarrow> task_list s' ts"
  using dseg_cong [of ts "tasks s'" "tasks s" 0 0] by (simp add: task_list_def)

lemma fresh_not_task: "tasks_ok s ts \<Longrightarrow> (t, 4096) \<notin> heap_live (fs_heap s) \<Longrightarrow> t \<notin> set ts"
  using tasks_okD(6) by (fastforce simp: task_pages_def)

text \<open>The address space of a task that is added is made of pages that no task had.\<close>

lemma tasks_ok_append:
  assumes "tasks_ok s ts" "task_list s' (ts @ [t])" "current_task s' = (if ts = [] then t else current_task s)"
    "heap_ok (fs_heap s')" "heap_live (fs_heap s') = heap_live (fs_heap s) \<union> (\<lambda>p. (p, 4096)) ` set (task_pages s' t)"
    "distinct (task_pages s' t)" "\<And>p. p \<in> set (task_pages s' t) \<Longrightarrow> (p, 4096) \<notin> heap_live (fs_heap s)"
    "chunk_ok (phys s') (space_of s' t)"
    "\<And>u. u \<in> set ts \<Longrightarrow> task_pages s' u = task_pages s u \<and> chunk_ok (phys s') (space_of s' u)"
  shows "tasks_ok s' (ts @ [t])"
proof -
  have c: "concat (map (task_pages s') ts) = concat (map (task_pages s) ts)"
    using assms(9) by (intro concat_pages_cong) blast
  have "set (concat (map (task_pages s) ts)) \<inter> set (task_pages s' t) = {}"
    using tasks_okD(6) [OF assms(1)] assms(7) by fastforce
  then have d: "distinct (concat (map (task_pages s') (ts @ [t])))"
    using c assms(6) tasks_okD(4) [OF assms(1)] by simp
  have cur: "current_task s' \<in> set (ts @ [t])" using assms(3) tasks_okD(2) [OF assms(1)] by simp
  have "chunk_ok (phys s') (space_of s' u) \<and> (\<forall>p \<in> set (task_pages s' u). (p, 4096) \<in> heap_live (fs_heap s'))"
    if "u \<in> set (ts @ [t])" for u
  proof (cases "u \<in> set ts")
    case True
    then show ?thesis using assms(5,9) tasks_okD(6) [OF assms(1)] by simp
  next
    case False
    then show ?thesis using that assms(5,8) by simp
  qed
  then show ?thesis unfolding tasks_ok_def using assms(2,4) d cur by blast
qed

lemma task_new_eq:
  assumes ok: "tasks_ok s ts" and room: "1027 \<le> free_blocks (fs_heap s)"
    and p: "process \<noteq> 0" "procs s process = Some p"
      "filetype p = PROCESS_FILETYPE_ELF \<longrightarrow> elf_files s (proc_ptr p) \<noteq> None"
  obtains t c h h' m ip where "kzalloc 64 (fs_heap s) = (Some (t, replicate 64 0), h)" "t \<noteq> 0" "t \<notin> set ts"
    "heap_ok h" "heap_live h = insert (t, 4096) (heap_live (fs_heap s))" "(t, 4096) \<notin> heap_live (fs_heap s)"
    "1026 \<le> free_blocks h" "paging_new_4gb 5 h (phys s) = (c, h', m)"
    "task_new process s = do { s \<leftarrow> task_append t (s\<lparr>fs_heap := h', phys := m,
       tasks := (tasks s)(t \<mapsto> fresh_task c ip process)\<rparr>); Some (t, s) }"
proof -
  obtain t h where kz: "kzalloc 64 (fs_heap s) = (Some (t, replicate (unat (64 :: u32)) 0), h)"
      "(t, 4096) \<notin> heap_live (fs_heap s)" "heap_live h = insert (t, 4096) (heap_live (fs_heap s))" "heap_ok h"
      "free_blocks (fs_heap s) = Suc (free_blocks h)" "t \<noteq> 0"
    by (rule kzalloc_page_free [OF tasks_okD(3) [OF ok], of 64]) (use room in auto)
  let ?s = "s\<lparr>fs_heap := h, tasks := (tasks s)(t \<mapsto> zero_task)\<rparr>"
  obtain c h' m where new: "paging_new_4gb 5 h (phys s) = (c, h', m)" using prod_cases3 by blast
  have c: "c \<noteq> 0" using paging_new_4gb_pages [OF kz(4) _ new] room kz(5) by simp
  obtain ip where init: "task_init t process ?s =
      Some (OK, ?s\<lparr>fs_heap := h', phys := m, tasks := (tasks ?s)(t \<mapsto> fresh_task c ip process)\<rparr>)"
    using task_init_eq [OF kz(6) p(1), of ?s p c h' m] p(2,3) new c by auto
  have "task_new process s = do { s \<leftarrow> task_append t (s\<lparr>fs_heap := h', phys := m,
       tasks := (tasks s)(t \<mapsto> fresh_task c ip process)\<rparr>); Some (t, s) }"
    unfolding task_new_def kz(1) using p(1) by (simp add: init)
  then show thesis
    using that [of t h c h' m ip] kz new room fresh_not_task [OF ok kz(2)] by simp
qed

lemma task_new_ok:
  assumes "tasks_ok s ts" "1027 \<le> free_blocks (fs_heap s)" "process \<noteq> 0" "procs s process = Some p"
    "filetype p = PROCESS_FILETYPE_ELF \<longrightarrow> elf_files s (proc_ptr p) \<noteq> None"
  shows "\<exists>t s'. task_new process s = Some (t, s') \<and> tasks_ok s' (ts @ [t]) \<and> (\<forall>u \<in> set ts. task_pages s' u = task_pages s u)"
proof -
  obtain t c h h' m ip where t: "t \<noteq> 0" "t \<notin> set ts"
      "heap_ok h" "heap_live h = insert (t, 4096) (heap_live (fs_heap s))" "(t, 4096) \<notin> heap_live (fs_heap s)"
      "1026 \<le> free_blocks h" and new: "paging_new_4gb 5 h (phys s) = (c, h', m)"
      and run: "task_new process s = do { s \<leftarrow> task_append t (s\<lparr>fs_heap := h', phys := m,
         tasks := (tasks s)(t \<mapsto> fresh_task c ip process)\<rparr>); Some (t, s) }"
    by (rule task_new_eq [OF assms])
  let ?s = "s\<lparr>fs_heap := h', phys := m, tasks := (tasks s)(t \<mapsto> fresh_task c ip process)\<rparr>"
  note pg = paging_new_4gb_pages [OF t(3,6) new]
  have tl: "task_list ?s ts" by (rule task_list_cong [OF tasks_okD(1) [OF assms(1)]]) (use t(2) in auto)
  obtain s' where s': "task_append t ?s = Some s'" "task_list s' (ts @ [t])"
      "\<And>u. map_option page_directory (tasks s' u) = map_option page_directory (tasks ?s u)"
      "current_task s' = (if ts = [] then t else current_task ?s)" "fs_heap s' = fs_heap ?s" "phys s' = phys ?s"
    using task_append_ok [OF tl, of t "fresh_task c ip process"] t(1,2) by auto
  have h: "fs_heap s' = h'" "phys s' = m" using s'(5,6) by simp_all
  have st: "space_of s' t = c" using s'(3) [of t] by (auto simp: space_of_def)
  have old: "task_pages s' u = task_pages s u \<and> chunk_ok (phys s') (space_of s' u)" if u: "u \<in> set ts" for u
  proof (rule task_pages_cong)
    show "chunk_ok (phys s) (space_of s u)" using tasks_okD(5) [OF assms(1) u] .
    show "space_of s' u = space_of s u"
      using s'(3) [of u] t(2) u task_list_node [OF tasks_okD(1) [OF assms(1)] u] by (intro space_of_cong) auto
    show "rd32 (phys s') (word_at q j) = rd32 (phys s) (word_at q j)"
      if "q \<in> set (task_pages s u)" "paging_is_aligned q" "j < 1024" for q j
      using paging_new_4gb_frame [OF t(3,6) new that(2) _ that(3), of 4096] tasks_okD(6) [OF assms(1) u that(1)] t(4) h(2) by simp
  qed
  have pt: "task_pages s' t = t # space_pages m c" using st h by (simp add: task_pages_def)
  have "tasks_ok s' (ts @ [t])"
    by (rule tasks_ok_append [OF assms(1) s'(2)]) (use s'(4) h st pt pg t(4,5) old in auto)
  then show ?thesis using run s'(1) old by auto
qed

lemma task_free_ok:
  assumes ok: "tasks_ok s (xs @ t # ys)" and other: "xs @ ys \<noteq> []"
  shows "\<exists>s'. task_free t s = Some (OK, s') \<and> tasks_ok s' (xs @ ys) \<and>
    (\<forall>u \<in> set (xs @ ys). task_pages s' u = task_pages s u) \<and>
    heap_live (fs_heap s') = heap_live (fs_heap s) - (\<lambda>p. (p, 4096)) ` set (task_pages s t)"
proof -
  note o = tasks_okD [OF ok]
  have tin: "t \<in> set (xs @ t # ys)" by simp
  obtain k where k: "t \<noteq> 0" "tasks s t = Some k" "space_of s t = page_directory k"
    using task_list_node [OF o(1) tin] by blast
  have nt: "t \<notin> set (xs @ ys)" using o(1) by (auto simp: task_list_def)
  let ?h = "paging_free_4gb (phys s) (page_directory k) (fs_heap s)" let ?s = "s\<lparr>fs_heap := ?h\<rparr>"
  have "task_list ?s (xs @ t # ys)" by (rule task_list_cong [OF o(1)]) simp_all
  then obtain s1 where s1: "task_list_remove t ?s = Some s1" "task_list s1 (xs @ ys)"
      "\<And>u. map_option page_directory (tasks s1 u) = map_option page_directory (tasks s u)"
      "current_task s1 = (if current_task s = t then hd (ys @ xs @ [t]) else current_task s)" "fs_heap s1 = ?h" "phys s1 = phys s"
    using task_list_remove_ok by fastforce
  let ?s' = "s1\<lparr>fs_heap := kfree t (fs_heap s1), tasks := (tasks s1)(t := None)\<rparr>"
  have run: "task_free t s = Some (OK, ?s')" unfolding task_free_def k(2) using k(1) s1(1) by simp
  have P: "set (xs @ t # ys) = insert t (set (xs @ ys))" by auto
  have fold: "kfree t ?h = fold kfree (space_pages (phys s) (page_directory k) @ [t]) (fs_heap s)"
    by (simp add: paging_free_4gb_fold)
  have perm: "set (space_pages (phys s) (page_directory k) @ [t]) = set (task_pages s t)"
      "distinct (space_pages (phys s) (page_directory k) @ [t]) = distinct (task_pages s t)"
    using k(3) by (auto simp: task_pages_def)
  have fr: "heap_ok (kfree t ?h) \<and> heap_live (kfree t ?h) = heap_live (fs_heap s) - (\<lambda>p. (p, 4096)) ` set (task_pages s t)"
    unfolding fold by (rule kernel_allocator.release_many [OF o(3)]) (use o(4) o(6) [OF tin] perm in auto)
  have pgs: "task_pages ?s' u = task_pages s u \<and> chunk_ok (phys ?s') (space_of ?s' u)" if u: "u \<in> set (xs @ ys)" for u
  proof -
    have uin: "u \<in> set (xs @ t # ys)" using u by auto
    have "space_of ?s' u = space_of s u"
      using s1(3) [of u] u nt task_list_node [OF o(1) uin] by (intro space_of_cong) auto
    then show ?thesis using o(5) [OF uin] s1(6) by (simp add: task_pages_def)
  qed
  have tl: "task_list ?s' (xs @ ys)" by (rule task_list_cong [OF s1(2)]) (use nt in auto)
  have cur: "current_task ?s' \<in> set (xs @ ys)"
    using s1(4) o(2) other P by (cases ys; cases xs) auto
  have dis: "distinct (concat (map (task_pages ?s') (xs @ ys)))"
      "\<And>u p. u \<in> set (xs @ ys) \<Longrightarrow> p \<in> set (task_pages s u) \<Longrightarrow> p \<notin> set (task_pages s t)"
    using o(4) concat_pages_cong [of "xs @ ys" ?s' s] pgs by auto
  have "(p, 4096) \<in> heap_live (fs_heap ?s')" if "u \<in> set (xs @ ys)" "p \<in> set (task_pages ?s' u)" for u p
    using that pgs [OF that(1)] dis(2) [OF that(1)] o(6) [of u p] fr s1(5) by auto
  then have "tasks_ok ?s' (xs @ ys)"
    unfolding tasks_ok_def using tl cur dis(1) pgs fr s1(5) by simp
  then show ?thesis using run pgs fr s1(5) by (intro exI [of _ ?s']) simp
qed

end
