(* ===== verification/Scheduler.thy ===== *)
theory Scheduler
  imports Task_List
begin

section \<open>Scheduling\<close>

text \<open>
  What the clock interrupt does to the list of tasks: it saves the registers of the interrupted task and
  returns to the next one of the list, round robin. The runs of the system that the properties are about
  are sequences of clock interrupts, of steps of user code, and of tasks being created and freed.
\<close>

subsection \<open>The next task\<close>

lemma dseg_nth: "dseg T p ts n \<Longrightarrow> i < length ts \<Longrightarrow> \<exists>k. T (ts ! i) = Some k \<and> ts ! i \<noteq> 0 \<and>
    task_next_ptr k = (if Suc i < length ts then ts ! Suc i else n)"
proof (induction ts arbitrary: p i)
  case (Cons t ts)
  show ?case
  proof (cases i)
    case 0
    then show ?thesis using Cons.prems by (cases ts) auto
  next
    case (Suc j)
    then show ?thesis using Cons.IH [of t j] Cons.prems by (auto split: if_splits)
  qed
qed simp

lemma task_list_head: "task_list s ts \<Longrightarrow> ts \<noteq> [] \<Longrightarrow> task_head s = ts ! 0"
  by (cases ts) (simp_all add: task_list_def)

lemma task_get_next_ok:
  assumes "task_list s ts" "i < length ts" "current_task s = ts ! i"
  shows "task_get_next s = Some (ts ! (Suc i mod length ts))"
proof -
  obtain k where k: "tasks s (ts ! i) = Some k" "task_next_ptr k = (if Suc i < length ts then ts ! Suc i else 0)"
    using dseg_nth [of "tasks s" 0 ts 0 i] assms(1,2) by (auto simp: task_list_def)
  show ?thesis
  proof (cases "Suc i < length ts")
    case True
    then have "ts ! Suc i \<noteq> 0" using dseg_nth [of "tasks s" 0 ts 0 "Suc i"] assms(1) by (auto simp: task_list_def)
    then show ?thesis using True k assms(3) by (simp add: task_get_next_def)
  next
    case False
    then have "Suc i = length ts" using assms(2) by simp
    then have "Suc i mod length ts = 0" by simp
    moreover have "ts \<noteq> []" using assms(2) by auto
    ultimately show ?thesis using False k assms task_list_head by (simp add: task_get_next_def)
  qed
qed

text \<open>The invariant does not see the registers of a task, the processor or the device.\<close>

lemma tasks_ok_cong:
  assumes "tasks_ok s ts" "\<And>u. u \<in> set ts \<Longrightarrow> \<exists>r. tasks s' u = map_option (\<lambda>k. k\<lparr>task_registers := r\<rparr>) (tasks s u)"
    "task_head s' = task_head s" "task_tail s' = task_tail s" "current_task s' \<in> set ts" "fs_heap s' = fs_heap s"
    "\<And>q j. q \<in> set (concat (map (task_pages s) ts)) \<Longrightarrow> paging_is_aligned q \<Longrightarrow> j < 1024 \<Longrightarrow>
       rd32 (phys s') (word_at q j) = rd32 (phys s) (word_at q j)"
  shows "tasks_ok s' ts \<and> (\<forall>u \<in> set ts. task_pages s' u = task_pages s u)"
proof -
  note o = tasks_okD [OF assms(1)]
  have ds: "dseg (tasks s') p us n" if "dseg (tasks s) p us n" "set us \<subseteq> set ts" for us p n
    using that
  proof (induction us arbitrary: p)
    case (Cons u us)
    obtain k where k: "tasks s u = Some k" using Cons.prems(1) by auto
    obtain r where "tasks s' u = Some (k\<lparr>task_registers := r\<rparr>)" using assms(2) [of u] Cons.prems(2) k by auto
    then show ?case using Cons k by auto
  qed simp
  have tl: "task_list s' ts" using o(1) assms(3,4) ds [of 0 ts 0] by (simp add: task_list_def)
  have pg: "task_pages s' u = task_pages s u \<and> chunk_ok (phys s') (space_of s' u)" if u: "u \<in> set ts" for u
  proof (rule task_pages_cong [OF o(5) [OF u]])
    show "space_of s' u = space_of s u"
      using assms(2) [OF u] task_list_node [OF o(1) u] by (auto simp: space_of_def)
    show "rd32 (phys s') (word_at q j) = rd32 (phys s) (word_at q j)"
      if "q \<in> set (task_pages s u)" "paging_is_aligned q" "j < 1024" for q j
      using assms(7) [of q j] that u by auto
  qed
  have "distinct (concat (map (task_pages s') ts))" using o(4) concat_pages_cong [of ts s' s] pg by simp
  then have "tasks_ok s' ts" unfolding tasks_ok_def using tl assms(5,6) o(3,6) pg by simp
  then show ?thesis using pg by blast
qed

subsection \<open>The clock interrupt\<close>

definition clock_installed :: "('d, 'z) kbd_state_scheme \<Rightarrow> bool" where
  "clock_installed s \<longleftrightarrow> rdi (interrupt_callbacks s) 0x20 = Some (Some Cb_clock)"

lemma save_registers_frame: "save_registers frame r = frame_registers frame"
  by (simp add: save_registers_def frame_registers_def)

lemma restore_saved:
  "(restore_general_purpose_registers regs r)\<lparr>r_ss := r_ss regs, r_esp := r_esp regs, r_flags := fl, r_cs := r_cs regs,
     r_ip := r_ip regs\<rparr> = regs\<lparr>r_flags := fl\<rparr>"
  by (simp add: restore_general_purpose_registers_def)

lemma task_next_eq:
  assumes "task_get_next s = Some t" "t \<noteq> 0" "tasks s t = Some k"
  shows "task_next eflags s = Some (s\<lparr>current_task := t, pregs := paging_switch (phys s) (page_directory k) (pregs s),
    data_segments := r_ss (task_registers k), user_regs := (task_registers k)\<lparr>r_flags := eflags OR 0x200\<rparr>\<rparr>)"
  unfolding task_next_def task_switch_def task_return_def switch_to_def restore_saved assms(1)
  using assms(2,3) by simp

text \<open>The tasks after the registers of the current one have been saved.\<close>

definition saved :: "interrupt_frame \<Rightarrow> ('d, 'z) task_state_scheme \<Rightarrow> u32 \<rightharpoonup> task" where
  "saved frame s = (tasks s)(current_task s := map_option (\<lambda>k. k\<lparr>task_registers := frame_registers frame\<rparr>) (tasks s (current_task s)))"

lemma clock_interrupt_eq:
  assumes "clock_installed s" "current_task s \<noteq> 0" "tasks s (current_task s) \<noteq> None"
  shows "interrupt_handler io nic eflags 0x20 frame s =
    task_next eflags ((kernel_page s)\<lparr>tasks := saved frame s, fs_dev := pic_send_eoi io 0 (fs_dev s)\<rparr>)"
proof -
  obtain k where k: "tasks s (current_task s) = Some k" using assms(3) by blast
  let ?s = "kernel_page s"
  have kp: "interrupt_callbacks ?s = interrupt_callbacks s" "current_task ?s = current_task s" "tasks ?s = tasks s" "fs_dev ?s = fs_dev s"
    by (simp_all add: kernel_page_def switch_to_def kernel_registers_def)
  have "task_current_save_state (Some frame) ?s = Some (?s\<lparr>tasks := saved frame s\<rparr>)"
    using assms(2) k kp by (simp add: task_current_save_state_def task_save_state_def saved_def save_registers_frame)
  then show ?thesis
    unfolding interrupt_handler_def Let_def kp(1) using assms(1) kp
    by (simp add: clock_installed_def idt_clock_def split: option.splits)
qed

definition sched_inv :: "('d, 'z) kbd_state_scheme \<Rightarrow> u32 list \<Rightarrow> bool" where
  "sched_inv s ts \<longleftrightarrow> tasks_ok s ts \<and> (ts = [] \<longrightarrow> current_task s = 0) \<and> clock_installed s"

lemma saved_simps:
  "tasks s (current_task s) = Some k \<Longrightarrow> u \<noteq> current_task s \<Longrightarrow> saved frame s u = tasks s u"
  "tasks s (current_task s) = Some k \<Longrightarrow> saved frame s (current_task s) = Some (k\<lparr>task_registers := frame_registers frame\<rparr>)"
  "\<exists>r. saved frame s u = map_option (\<lambda>k. k\<lparr>task_registers := r\<rparr>) (tasks s u)"
proof -
  show "\<exists>r. saved frame s u = map_option (\<lambda>k. k\<lparr>task_registers := r\<rparr>) (tasks s u)"
  proof (cases "u = current_task s")
    case False
    then show ?thesis by (cases "tasks s u") (auto simp: saved_def intro: exI [of _ "task_registers (the (tasks s u))"])
  qed (auto simp: saved_def)
qed (simp_all add: saved_def)

lemma clock_tick:
  assumes inv: "sched_inv s ts" and i: "i < length ts" "current_task s = ts ! i"
  defines "t \<equiv> ts ! (Suc i mod length ts)"
  shows "\<exists>s' k. interrupt_handler io nic eflags 0x20 frame s = Some s' \<and> sched_inv s' ts \<and> current_task s' = t \<and>
    tasks s' = saved frame s \<and> saved frame s t = Some k \<and> user_regs s' = (task_registers k)\<lparr>r_flags := eflags OR 0x200\<rparr> \<and>
    cr3 (pregs s') = directory_entry (phys s) (page_directory k) \<and> phys s' = phys s \<and>
    (\<forall>u \<in> set ts. task_pages s' u = task_pages s u)"
proof -
  have ok: "tasks_ok s ts" and ci: "clock_installed s" using inv by (simp_all add: sched_inv_def)
  have cin: "current_task s \<in> set ts" and tin: "t \<in> set ts" using i by (auto simp: t_def intro!: nth_mem mod_less_divisor)
  obtain c where c: "current_task s \<noteq> 0" "tasks s (current_task s) = Some c" using task_list_node [OF tasks_okD(1) [OF ok] cin] by blast
  obtain k0 where k0: "t \<noteq> 0" "tasks s t = Some k0" using task_list_node [OF tasks_okD(1) [OF ok] tin] by blast
  obtain r where k: "saved frame s t = Some (k0\<lparr>task_registers := r\<rparr>)" using saved_simps(3) [of frame s t] k0(2) by auto
  let ?k = "k0\<lparr>task_registers := r\<rparr>"
  let ?s = "(kernel_page s)\<lparr>tasks := saved frame s, fs_dev := pic_send_eoi io 0 (fs_dev s)\<rparr>"
  have s: "tasks ?s = saved frame s" "task_head ?s = task_head s" "task_tail ?s = task_tail s" "current_task ?s = current_task s"
      "fs_heap ?s = fs_heap s" "phys ?s = phys s" "interrupt_callbacks ?s = interrupt_callbacks s"
    by (simp_all add: kernel_page_def switch_to_def kernel_registers_def)
  have ok1: "tasks_ok ?s ts" using tasks_ok_cong [OF ok, of ?s] saved_simps(3) [of frame s] s cin by metis
  have gn: "task_get_next ?s = Some t" unfolding t_def by (rule task_get_next_ok [OF tasks_okD(1) [OF ok1] i(1)]) (simp only: s i)
  have kk: "tasks ?s t = Some ?k" using k s(1) by simp
  let ?s' = "?s\<lparr>current_task := t, pregs := paging_switch (phys ?s) (page_directory ?k) (pregs ?s),
    data_segments := r_ss (task_registers ?k), user_regs := (task_registers ?k)\<lparr>r_flags := eflags OR 0x200\<rparr>\<rparr>"
  have run: "interrupt_handler io nic eflags 0x20 frame s = Some ?s'"
    unfolding clock_interrupt_eq [OF ci c(1) not_None_eq [THEN iffD2, OF exI, OF c(2)]] by (rule task_next_eq [OF gn k0(1) kk])
  have s': "tasks ?s' = saved frame s" "task_head ?s' = task_head s" "task_tail ?s' = task_tail s" "current_task ?s' = t"
      "fs_heap ?s' = fs_heap s" "phys ?s' = phys s" "interrupt_callbacks ?s' = interrupt_callbacks s"
      "user_regs ?s' = (task_registers ?k)\<lparr>r_flags := eflags OR 0x200\<rparr>" "cr3 (pregs ?s') = directory_entry (phys s) (page_directory ?k)"
    using s by (simp_all add: paging_switch_def)
  have "tasks_ok ?s' ts \<and> (\<forall>u \<in> set ts. task_pages ?s' u = task_pages s u)"
    using tasks_ok_cong [OF ok, of ?s'] saved_simps(3) [of frame s] s' tin by metis
  moreover have "clock_installed ?s'" "ts \<noteq> []" using ci s'(7) tin by (auto simp: clock_installed_def)
  ultimately show ?thesis using run s' k by (intro exI [of _ ?s'] exI [of _ ?k]) (simp add: sched_inv_def)
qed

subsection \<open>Runs of the system\<close>

text \<open>
  A step is a clock interrupt, a step of the program of a task, a mapping in the address space of a task,
  a new task, or the end of a task that is not the only one. A program changes its registers and the memory
  it may write to; that this is not the memory of the page tables is the protection of the processor.
\<close>

inductive sched :: "'d bus \<Rightarrow> ('n net \<Rightarrow> 'n net option) \<Rightarrow> ('d, 'n) kernel \<Rightarrow> u32 list \<Rightarrow> ('d, 'n) kernel \<Rightarrow> u32 list \<Rightarrow> bool"
  for io nic where
  clock: "interrupt_handler io nic eflags 0x20 frame s = Some s' \<Longrightarrow> sched io nic s ts s' ts"
| program: "(\<And>q j. q \<in> set (concat (map (task_pages s) ts)) \<Longrightarrow> j < 1024 \<Longrightarrow> rd32 m (word_at q j) = rd32 (phys s) (word_at q j)) \<Longrightarrow>
    sched io nic s ts (s\<lparr>phys := m, user_regs := r\<rparr>) ts"
| map_memory: "t \<in> set ts \<Longrightarrow> tasks s t = Some k \<Longrightarrow> paging_map_to (page_directory k) v p e flags (phys s) = (res, m) \<Longrightarrow>
    sched io nic s ts (s\<lparr>phys := m\<rparr>) ts"
| new_task: "1027 \<le> free_blocks (fs_heap s) \<Longrightarrow> process \<noteq> 0 \<Longrightarrow> procs s process = Some p \<Longrightarrow>
    (filetype p = PROCESS_FILETYPE_ELF \<longrightarrow> elf_files s (proc_ptr p) \<noteq> None) \<Longrightarrow>
    task_new process s = Some (t, s') \<Longrightarrow> sched io nic s ts s' (ts @ [t])"
| end_task: "xs @ ys \<noteq> [] \<Longrightarrow> task_free t s = Some (res, s') \<Longrightarrow> sched io nic s (xs @ t # ys) s' (xs @ ys)"

inductive_cases schedE: "sched io nic s ts s' ts'"

inductive sched_run :: "'d bus \<Rightarrow> ('n net \<Rightarrow> 'n net option) \<Rightarrow> ('d, 'n) kernel \<Rightarrow> u32 list \<Rightarrow> ('d, 'n) kernel \<Rightarrow> u32 list \<Rightarrow> bool"
  for io nic s ts where
  start: "sched_run io nic s ts s ts"
| more: "sched_run io nic s ts s1 ts1 \<Longrightarrow> sched io nic s1 ts1 s2 ts2 \<Longrightarrow> sched_run io nic s ts s2 ts2"

text \<open>The steps that are not about the tasks keep the interrupt callbacks.\<close>

lemma set_next_callbacks: "set_next t v s = Some s' \<Longrightarrow> interrupt_callbacks s' = interrupt_callbacks s"
  by (auto simp: set_next_def split: Option.bind_splits)

lemma set_prev_callbacks: "set_prev t v s = Some s' \<Longrightarrow> interrupt_callbacks s' = interrupt_callbacks s"
  by (auto simp: set_prev_def split: Option.bind_splits)

lemma task_append_callbacks: "task_append t s = Some s' \<Longrightarrow> interrupt_callbacks s' = interrupt_callbacks s"
  by (auto simp: task_append_def split: Option.bind_splits if_splits dest!: set_next_callbacks set_prev_callbacks)

lemma task_list_remove_callbacks: "task_list_remove t s = Some s' \<Longrightarrow> interrupt_callbacks s' = interrupt_callbacks s"
  by (auto simp: task_list_remove_def Let_def split: Option.bind_splits if_splits dest!: set_next_callbacks set_prev_callbacks)

lemma task_free_callbacks: "task_free t s = Some (r, s') \<Longrightarrow> interrupt_callbacks s' = interrupt_callbacks s"
  by (auto simp: task_free_def split: Option.bind_splits if_splits dest!: task_list_remove_callbacks)

lemma task_init_callbacks: "task_init t p s = Some (r, s') \<Longrightarrow> interrupt_callbacks s' = interrupt_callbacks s"
  by (auto simp: task_init_def Let_def split: Option.bind_splits if_splits prod.splits)

lemma task_new_callbacks: "task_new p s = Some (t, s') \<Longrightarrow> interrupt_callbacks s' = interrupt_callbacks s"
  by (auto simp: task_new_def split: Option.bind_splits if_splits prod.splits option.splits
      dest!: task_append_callbacks task_free_callbacks task_init_callbacks)

lemma current_index: "tasks_ok s ts \<Longrightarrow> ts \<noteq> [] \<Longrightarrow> \<exists>i < length ts. current_task s = ts ! i"
  using tasks_okD(2) by (metis in_set_conv_nth)

lemma sched_inv_no_tasks: "sched_inv s [] \<Longrightarrow> interrupt_handler io nic eflags 0x20 frame s = None"
  by (auto simp: sched_inv_def clock_installed_def interrupt_handler_def task_current_save_state_def kernel_page_def
      switch_to_def kernel_registers_def)

lemma distinct_concat_disjoint:
  "distinct (concat (map f ts)) \<Longrightarrow> u \<in> set ts \<Longrightarrow> t \<in> set ts \<Longrightarrow> u \<noteq> t \<Longrightarrow> set (f u) \<inter> set (f t) = {}"
  by (induction ts) auto

lemma sched_inv_memory:
  assumes "sched_inv s ts" "s' = s\<lparr>phys := m, user_regs := r\<rparr>"
    "\<And>q j. q \<in> set (concat (map (task_pages s) ts)) \<Longrightarrow> paging_is_aligned q \<Longrightarrow> j < 1024 \<Longrightarrow>
       rd32 m (word_at q j) = rd32 (phys s) (word_at q j)"
  shows "sched_inv s' ts"
proof (cases "ts = []")
  case True
  then show ?thesis using assms(1,2) by (auto simp: sched_inv_def tasks_ok_def task_list_def clock_installed_def)
next
  case False
  have ok: "tasks_ok s ts" using assms(1) by (simp add: sched_inv_def)
  have s': "tasks s' = tasks s" "task_head s' = task_head s" "task_tail s' = task_tail s" "current_task s' = current_task s"
      "fs_heap s' = fs_heap s" "phys s' = m" "interrupt_callbacks s' = interrupt_callbacks s"
    using assms(2) by simp_all
  have same: "\<exists>r. tasks s' u = map_option (\<lambda>k. k\<lparr>task_registers := r\<rparr>) (tasks s u)" for u
    unfolding s'(1) by (cases "tasks s u") (auto intro: exI [of _ "task_registers (the (tasks s u))"])
  have "tasks_ok s' ts"
    using tasks_ok_cong [OF ok same s'(2,3) _ s'(5)] s'(4,6) assms(3) tasks_okD(2) [OF ok False] by simp
  then show ?thesis using assms(1) s'(7) False by (simp add: sched_inv_def clock_installed_def)
qed

text \<open>A mapping in one address space writes to a table of that address space; the others have other pages.\<close>

lemma tasks_ok_map:
  assumes ok: "tasks_ok s ts" and t: "t \<in> set ts" "tasks s t = Some k"
    and run: "paging_map_to (page_directory k) v p e flags (phys s) = (res, m)"
  shows "tasks_ok (s\<lparr>phys := m\<rparr>) ts \<and> (\<forall>u \<in> set ts. task_pages (s\<lparr>phys := m\<rparr>) u = task_pages s u)"
proof -
  let ?s' = "s\<lparr>phys := m\<rparr>"
  note o = tasks_okD [OF ok]
  have sp: "space_of s t = page_directory k" using t(2) by (simp add: space_of_def)
  have sp': "space_of ?s' u = space_of s u" for u by (simp add: space_of_def)
  have ck: "chunk_ok (phys s) (page_directory k)" using o(5) [OF t(1)] sp by simp
  note mp = paging_map_to_pages [OF ck run]
  have pg: "task_pages ?s' u = task_pages s u \<and> chunk_ok m (space_of s u)" if u: "u \<in> set ts" for u
  proof (cases "u = t")
    case True
    then show ?thesis using mp sp sp' by (simp add: task_pages_def)
  next
    case False
    then have "set (task_pages s u) \<inter> set (task_pages s t) = {}"
      using distinct_concat_disjoint [OF o(4) u t(1)] False by blast
    then have "rd32 m (word_at q j) = rd32 (phys s) (word_at q j)"
      if "q \<in> set (task_pages s u)" "paging_is_aligned q" "j < 1024" for q j
      using mp that sp by (auto simp: task_pages_def)
    then show ?thesis using task_pages_cong [OF o(5) [OF u], of ?s'] sp' by simp
  qed
  have "task_list ?s' ts" by (rule task_list_cong [OF o(1)]) simp_all
  then have "tasks_ok ?s' ts"
    unfolding tasks_ok_def using o(2,3,4,6) pg concat_pages_cong [of ts ?s' s] sp' by simp
  then show ?thesis using pg by blast
qed

lemma sched_inv_step:
  assumes "sched io nic s ts s' ts'" "sched_inv s ts"
  shows "sched_inv s' ts'"
  using assms(1)
proof (cases rule: sched.cases)
  case (clock eflags frame)
  have "ts \<noteq> []" using sched_inv_no_tasks [of s] assms(2) clock(2) by auto
  then obtain i where "i < length ts" "current_task s = ts ! i" using current_index assms(2) unfolding sched_inv_def by blast
  from clock_tick [OF assms(2) this, of io nic eflags frame] show ?thesis using clock by auto
next
  case (program m r)
  show ?thesis unfolding program(2) by (rule sched_inv_memory [OF assms(2) program(1)]) (rule program(3))
next
  case (map_memory t k v p e flags res m)
  then have "tasks_ok s' ts" using tasks_ok_map [OF _ map_memory(3-5)] assms(2) by (simp add: sched_inv_def)
  moreover have "current_task s' = current_task s" "interrupt_callbacks s' = interrupt_callbacks s" using map_memory(1) by simp_all
  ultimately show ?thesis using assms(2) map_memory(2) by (simp add: sched_inv_def clock_installed_def)
next
  case (new_task process p t)
  have "tasks_ok s' ts'" using task_new_ok [OF _ new_task(2-5), of ts] assms(2) new_task(1,6) by (auto simp: sched_inv_def)
  then show ?thesis using task_new_callbacks [OF new_task(6)] assms(2) new_task(1) by (simp add: sched_inv_def clock_installed_def)
next
  case (end_task xs ys t res)
  have "tasks_ok s' ts'" using task_free_ok [OF _ end_task(3), of s t] assms(2) end_task(1,2,4) by (auto simp: sched_inv_def)
  then show ?thesis using task_free_callbacks [OF end_task(4)] assms(2) end_task(2,3) by (auto simp add: sched_inv_def clock_installed_def)
qed

fun clock_ticks :: "'d bus \<Rightarrow> ('n net \<Rightarrow> 'n net option) \<Rightarrow> u32 \<Rightarrow> interrupt_frame list \<Rightarrow> ('d, 'n) kernel \<Rightarrow> ('d, 'n) kernel option" where
  "clock_ticks io nic eflags [] s = Some s"
| "clock_ticks io nic eflags (frame # frames) s =
     do { s \<leftarrow> interrupt_handler io nic eflags 0x20 frame s; clock_ticks io nic eflags frames s }"

text \<open>The processor runs the current task: its registers but for the flags, and its address space.\<close>

definition loaded :: "u32 \<Rightarrow> ('d, 'z) task_state_scheme \<Rightarrow> bool" where
  "loaded eflags s \<longleftrightarrow> user_regs s = (task_registers (the (tasks s (current_task s))))\<lparr>r_flags := eflags OR 0x200\<rparr> \<and>
     cr3 (pregs s) = directory_entry (phys s) (space_of s (current_task s))"

lemma clock_tick_loaded:
  assumes "sched_inv s ts" "i < length ts" "current_task s = ts ! i"
  obtains s' where "interrupt_handler io nic eflags 0x20 frame s = Some s'" "sched_inv s' ts"
    "current_task s' = ts ! (Suc i mod length ts)" "tasks s' = saved frame s" "loaded eflags s'" "phys s' = phys s"
    "\<And>u. space_of s' u = space_of s u"
proof -
  obtain s' k where s': "interrupt_handler io nic eflags 0x20 frame s = Some s'" "sched_inv s' ts"
      "current_task s' = ts ! (Suc i mod length ts)" "tasks s' = saved frame s"
      "saved frame s (ts ! (Suc i mod length ts)) = Some k" "user_regs s' = (task_registers k)\<lparr>r_flags := eflags OR 0x200\<rparr>"
      "cr3 (pregs s') = directory_entry (phys s) (page_directory k)" "phys s' = phys s"
    using clock_tick [OF assms, of io nic eflags frame] by blast
  have "space_of s' u = space_of s u" for u
    using saved_simps(3) [of frame s u] s'(4) by (cases "tasks s u") (auto simp: space_of_def saved_def)
  then show thesis using that [OF s'(1-4) _ s'(8)] s'(3-8) by (simp add: loaded_def space_of_def)
qed

lemma clock_ticks_ok:
  assumes "sched_inv s ts" "i < length ts" "current_task s = ts ! i" "loaded eflags s"
  shows "\<exists>s'. clock_ticks io nic eflags frames s = Some s' \<and> sched_inv s' ts \<and> loaded eflags s' \<and> phys s' = phys s \<and>
    current_task s' = ts ! ((i + length frames) mod length ts) \<and> (\<forall>u. space_of s' u = space_of s u) \<and>
    (\<forall>j < length ts. (\<forall>m < length frames. (i + m) mod length ts \<noteq> j) \<longrightarrow> tasks s' (ts ! j) = tasks s (ts ! j))"
  using assms
proof (induction frames arbitrary: s i)
  case (Cons f frames)
  obtain s1 where s1: "interrupt_handler io nic eflags 0x20 f s = Some s1" "sched_inv s1 ts"
      "current_task s1 = ts ! (Suc i mod length ts)" "tasks s1 = saved f s" "loaded eflags s1" "phys s1 = phys s"
      "\<And>u. space_of s1 u = space_of s u"
    by (rule clock_tick_loaded [OF Cons.prems(1-3), of io nic eflags f]) blast
  have lt: "Suc i mod length ts < length ts" using Cons.prems(2) by (intro mod_less_divisor) linarith
  obtain s2 where s2: "clock_ticks io nic eflags frames s1 = Some s2" "sched_inv s2 ts" "loaded eflags s2" "phys s2 = phys s1"
      "current_task s2 = ts ! ((Suc i mod length ts + length frames) mod length ts)" "\<And>u. space_of s2 u = space_of s1 u"
      "\<And>j. j < length ts \<Longrightarrow> \<forall>m < length frames. (Suc i mod length ts + m) mod length ts \<noteq> j \<Longrightarrow> tasks s2 (ts ! j) = tasks s1 (ts ! j)"
    using Cons.IH [OF s1(2) lt s1(3,5)] by blast
  have "tasks s2 (ts ! j) = tasks s (ts ! j)" if j: "j < length ts" "\<forall>m < Suc (length frames). (i + m) mod length ts \<noteq> j" for j
  proof -
    have "distinct ts" using Cons.prems(1) by (simp add: sched_inv_def tasks_ok_def task_list_def)
    then have "ts ! j \<noteq> current_task s"
      using j(2) [rule_format, of 0] Cons.prems(2,3) j(1) by (simp add: nth_eq_iff_index_eq)
    then have "tasks s1 (ts ! j) = tasks s (ts ! j)" unfolding s1(4) saved_def by simp
    moreover have "\<forall>m < length frames. (Suc i mod length ts + m) mod length ts \<noteq> j"
      using j(2) by (metis Suc_less_eq add_Suc add_Suc_right mod_add_left_eq)
    ultimately show ?thesis using s2(7) [OF j(1)] by simp
  qed
  then show ?case using s1 s2 by (simp add: mod_add_left_eq)
qed simp

subsection \<open>A kernel with two tasks, for the concrete instances\<close>

lemma paging_new_4gb_room:
  assumes ok: "heap_ok h" and room: "1026 \<le> free_blocks h" and run: "paging_new_4gb flags h m = (chunk, h', m')"
  shows "free_blocks h = free_blocks h' + 1026"
proof -
  have r0: "0 < free_blocks h" using room by simp
  obtain dir h1 where dir: "kmalloc 4096 h = (dir, h1)" "dir \<noteq> 0" "heap_ok h1"
      "heap_live h1 = insert (dir, 4096) (heap_live h)" "free_blocks h = Suc (free_blocks h1)" "4096 dvd unat dir"
    using kernel_pages.page_alloc_ok [OF ok page_size_ok r0] by metis
  have ad: "paging_is_aligned dir" using dir(6) by (simp add: paging_is_aligned_iff)
  define m1 where "m1 = mem_fill m dir 0 4096"
  obtain h2 m2 off where st: "fold (new_table dir flags) [0 ..< 1024] (h1, m1, 0) = (h2, m2, off)"
    using prod_cases3 by blast
  have "1024 \<le> free_blocks h1" using dir(5) room by simp
  then have "tables_inv (heap_live h1) m1 dir flags (free_blocks h1) 1024 (h2, m2, off)"
    using tables_inv_fold [OF dir(3) refl refl _ ad, of 1024 m1 flags] dir(4) st by simp
  then have ok2: "heap_ok h2" and r2: "free_blocks h2 + 1024 = free_blocks h1" unfolding tables_inv_def by simp_all
  have four: "0 < unat (4 :: u32)" "unat (4 :: u32) \<le> 4096" by simp_all
  have r3: "0 < free_blocks h2" using r2 dir(5) room by linarith
  obtain c h3 where c: "kmalloc 4 h2 = (c, h3)" "c \<noteq> 0" "free_blocks h2 = Suc (free_blocks h3)"
    using kernel_pages.page_alloc_ok [OF ok2 four r3] by metis
  have "h' = h3"
    using run dir(1,2) c(1,2) st by (auto simp: paging_new_4gb_def kzalloc_mem_def m1_def PAGING_TOTAL_ENTRIES_PER_TABLE_def)
  then show ?thesis using dir(5) r2 c(3) by simp
qed

definition sample_process :: process where
  "sample_process = \<lparr>proc_id = 0, proc_filename = replicate 108 0, proc_task = 0, allocations = [], proc_stack = 0, proc_size = 0,
     keyboard = \<lparr>kb_buffer = replicate 1024 0, kb_tail = 0, kb_head = 0\<rparr>, filetype = PROCESS_FILETYPE_BINARY, proc_ptr = 0,
     proc_argc = 0, proc_argv = 0\<rparr>"

definition sample_kernel :: "(unit, unit) kernel" where
  "sample_kernel = \<lparr>fs_heap = boot_heap, fs_dev = (), the_disk = \<lparr>disk_type = 0, sector_size = 512, disk_id = 0, disk_fs = None,
     fs_private = None\<rparr>, filesystems = [], file_descriptors = [], phys = (\<lambda>_. 0), elf_files = Map.empty,
     pregs = \<lparr>current_directory = 0, cr3 = 0\<rparr>, data_segments = 0x10, user_regs = zero_registers, kernel_chunk = 0, tasks = Map.empty,
     current_task = 0, task_tail = 0, task_head = 0, procs = [1 \<mapsto> sample_process, 2 \<mapsto> sample_process], current_process = 1, processes = [1, 2],
     interrupt_callbacks = replicate 512 (Some Cb_clock), capslock_state = 0, keyboard_next = None, keyboard_list_head = None,
     keyboard_list_last = None, sys_commands = [], lock = 0, terminal = demo_term,
     network = \<lparr>net_heap = boot_heap, net_devs = Map.empty, netdevs = [], netdev_count = 0, eth_counter = 0, net_arp_cache = [],
       net_arp_next = 0, ip_id_counter = 0, sockets = [], net_drv = ()\<rparr>\<rparr>"

lemma sample_kernel_inv: "sched_inv sample_kernel []" "25600 = free_blocks (fs_heap sample_kernel)" "procs sample_kernel 1 = Some sample_process" "procs sample_kernel 2 = Some sample_process"
proof -
  obtain h where h: "kheap_init (\<lambda>_. 0) four_blocks = Some h" using kheap_init_eq by blast
  then show "25600 = free_blocks (fs_heap sample_kernel)"
    using kernel_heap_free_blocks [OF h] by (simp add: sample_kernel_def boot_heap_def)
  show "sched_inv sample_kernel []" using boot_heap_ok(1)
    by (simp add: sample_kernel_def sched_inv_def tasks_ok_def task_list_def clock_installed_def rdi_def rd_def)
qed (simp_all add: sample_kernel_def)

lemma set_link_keeps:
  "set_next t v s = Some s' \<Longrightarrow> fs_heap s' = fs_heap s \<and> procs s' = procs s"
  "set_prev t v s = Some s' \<Longrightarrow> fs_heap s' = fs_heap s \<and> procs s' = procs s"
  by (auto simp: set_next_def set_prev_def split: Option.bind_splits)

lemma task_append_keeps: "task_append t s = Some s' \<Longrightarrow> fs_heap s' = fs_heap s \<and> procs s' = procs s"
  by (auto simp: task_append_def split: Option.bind_splits if_splits dest!: set_link_keeps)

lemma task_new_room:
  assumes "tasks_ok s ts" "1027 \<le> free_blocks (fs_heap s)" "process \<noteq> 0" "procs s process = Some p"
    "filetype p = PROCESS_FILETYPE_ELF \<longrightarrow> elf_files s (proc_ptr p) \<noteq> None" "task_new process s = Some (t, s')"
  shows "free_blocks (fs_heap s) = free_blocks (fs_heap s') + 1027 \<and> procs s' = procs s"
proof -
  obtain t0 c h h' m ip where kz: "kzalloc 64 (fs_heap s) = (Some (t0, replicate 64 0), h)" "heap_ok h" "1026 \<le> free_blocks h"
      "paging_new_4gb 5 h (phys s) = (c, h', m)"
      and run: "task_new process s = do { s \<leftarrow> task_append t0 (s\<lparr>fs_heap := h', phys := m,
         tasks := (tasks s)(t0 \<mapsto> fresh_task c ip process)\<rparr>); Some (t0, s) }"
    by (rule task_new_eq [OF assms(1-5)])
  have r: "0 < free_blocks (fs_heap s)" using assms(2) by simp
  have "free_blocks (fs_heap s) = Suc (free_blocks h)"
    by (rule kzalloc_page_free [OF tasks_okD(3) [OF assms(1)] _ _ r, of 64]) (use kz(1) in auto)
  moreover have "fs_heap s' = h' \<and> procs s' = procs s"
    using run assms(6) by (auto split: Option.bind_splits dest!: task_append_keeps)
  ultimately show ?thesis using paging_new_4gb_room [OF kz(2-4)] by simp
qed

lemma two_tasks: "\<exists>s t u. sched_run idle_bus Some sample_kernel [] s [t, u] \<and> sched_inv s [t, u] \<and> t \<noteq> u"
proof -
  let ?s0 = sample_kernel
  have b: "filetype sample_process = PROCESS_FILETYPE_ELF \<longrightarrow> elf_files s (proc_ptr sample_process) \<noteq> None" for s :: "(unit, unit) kernel"
    by (simp add: sample_process_def kernel_consts)
  have ok0: "tasks_ok ?s0 []" and r0: "1027 \<le> free_blocks (fs_heap ?s0)" and z: "(1 :: u32) \<noteq> 0" "(2 :: u32) \<noteq> 0"
    using sample_kernel_inv(1,2) by (simp_all add: sched_inv_def)
  obtain t s1 where s1: "task_new 1 ?s0 = Some (t, s1)" "tasks_ok s1 ([] @ [t])"
    using task_new_ok [OF ok0 r0 z(1) sample_kernel_inv(3) b] by blast
  have k1: "free_blocks (fs_heap ?s0) = free_blocks (fs_heap s1) + 1027 \<and> procs s1 = procs ?s0"
    by (rule task_new_room [OF ok0 r0 z(1) sample_kernel_inv(3) b s1(1)])
  then have r1: "1027 \<le> free_blocks (fs_heap s1)" and p1: "procs s1 2 = Some sample_process"
    using sample_kernel_inv(2,4) by simp_all
  obtain u s2 where s2: "task_new 2 s1 = Some (u, s2)" "tasks_ok s2 (([] @ [t]) @ [u])"
    using task_new_ok [OF s1(2) r1 z(2) p1 b] by blast
  have a: "sched idle_bus Some ?s0 [] s1 ([] @ [t])" "sched idle_bus Some s1 ([] @ [t]) s2 (([] @ [t]) @ [u])"
    using sched.new_task [OF r0 z(1) sample_kernel_inv(3) b s1(1)] sched.new_task [OF r1 z(2) p1 b s2(1)] by blast+
  then have "sched_run idle_bus Some ?s0 [] s2 (([] @ [t]) @ [u])" by (blast intro: sched_run.intros)
  moreover have "sched_inv s2 (([] @ [t]) @ [u])" using sched_inv_step a sample_kernel_inv(1) by blast
  moreover have "t \<noteq> u" using s2(2) by (auto simp: tasks_ok_def task_list_def)
  ultimately show ?thesis by auto
qed

subsection \<open>Properties of scheduling\<close>

lemma sched_run_inv: "sched_run io nic s ts s' ts' \<Longrightarrow> sched_inv s ts \<Longrightarrow> sched_inv s' ts'"
  by (induction rule: sched_run.induct) (auto intro: sched_inv_step)

definition clock_step :: "'d bus \<Rightarrow> ('n net \<Rightarrow> 'n net option) \<Rightarrow> ('d, 'n) kernel \<Rightarrow> ('d, 'n) kernel \<Rightarrow> bool" where
  "clock_step io nic s s' \<longleftrightarrow> (\<exists>eflags frame. interrupt_handler io nic eflags 0x20 frame s = Some s')"

lemma other_step_current: "sched io nic s ts s' ts \<Longrightarrow> \<not> clock_step io nic s s' \<Longrightarrow> current_task s' = current_task s"
  by (elim schedE) (auto simp: clock_step_def)

lemma clock_step_current:
  assumes "clock_step io nic s s'" "sched_inv s ts" "i < length ts" "current_task s = ts ! i"
  shows "current_task s' = ts ! (Suc i mod length ts)"
proof -
  obtain eflags frame where "interrupt_handler io nic eflags 0x20 frame s = Some s'" using assms(1) by (auto simp: clock_step_def)
  then show ?thesis using clock_tick [OF assms(2-4), of io nic eflags frame] by auto
qed

text \<open>Until the next clock interrupt the current task stays; \<open>d\<close> interrupts later it is the \<open>d\<close>th after it.\<close>

lemma next_clock:
  assumes "\<And>n. sched io nic (\<sigma> n) ts (\<sigma> (Suc n)) ts" "\<forall>n. \<exists>m \<ge> n. clock_step io nic (\<sigma> m) (\<sigma> (Suc m))"
  shows "\<exists>m \<ge> n. clock_step io nic (\<sigma> m) (\<sigma> (Suc m)) \<and> current_task (\<sigma> m) = current_task (\<sigma> n)"
proof -
  define m where "m = (LEAST m. n \<le> m \<and> clock_step io nic (\<sigma> m) (\<sigma> (Suc m)))"
  have m: "n \<le> m \<and> clock_step io nic (\<sigma> m) (\<sigma> (Suc m))" unfolding m_def by (rule LeastI_ex) (use assms(2) in blast)
  have "current_task (\<sigma> k) = current_task (\<sigma> n)" if "n \<le> k" "k \<le> m" for k
    using that
  proof (induction k rule: dec_induct)
    case (step k)
    then have "k < m" by simp
    then have "\<not> clock_step io nic (\<sigma> k) (\<sigma> (Suc k))" using not_less_Least [OF \<open>k < m\<close> [unfolded m_def]] step(1) by blast
    then show ?case using other_step_current [OF assms(1)] step by simp
  qed simp
  then show ?thesis using m by blast
qed

lemma clock_reaches:
  assumes inv: "\<And>n. sched_inv (\<sigma> n) ts" and st: "\<And>n. sched io nic (\<sigma> n) ts (\<sigma> (Suc n)) ts"
    and fair: "\<forall>n. \<exists>m \<ge> n. clock_step io nic (\<sigma> m) (\<sigma> (Suc m))" and "i < length ts" "current_task (\<sigma> n) = ts ! i"
  shows "\<exists>m \<ge> n. current_task (\<sigma> m) = ts ! ((i + d) mod length ts)"
proof (induction d)
  case 0
  then show ?case using assms(4,5) by (intro exI [of _ n]) simp
next
  case (Suc d)
  then obtain m where m: "n \<le> m" "current_task (\<sigma> m) = ts ! ((i + d) mod length ts)" by blast
  obtain k where k: "m \<le> k" "clock_step io nic (\<sigma> k) (\<sigma> (Suc k))" "current_task (\<sigma> k) = current_task (\<sigma> m)"
    using next_clock [of io nic \<sigma> ts, OF st fair, of m] by blast
  have "(i + d) mod length ts < length ts" using assms(4) by (intro mod_less_divisor) linarith
  then have "current_task (\<sigma> (Suc k)) = ts ! (Suc (i + d) mod length ts)"
    using clock_step_current [OF k(2) inv] k(3) m(2) by (simp add: mod_Suc_eq)
  then show ?case using m(1) k(1) by (intro exI [of _ "Suc k"]) simp
qed

text \<open>
  (C5) In every run of the kernel, from boot on, through clock interrupts, running programs, mappings, new
  tasks and tasks that end, the tasks form a well-linked list with the current task in it, and each task owns
  its node and all pages of its address space: no page belongs to two tasks, and none is free memory of the
  kernel heap.
\<close>

theorem tasks_own_their_pages:
  assumes "heap_ok (fs_heap boot)" "task_head boot = 0" "task_tail boot = 0" "current_task boot = 0" "clock_installed boot"
    and "sched_run io nic boot [] s ts" "t \<in> set ts"
  shows "task_list s ts \<and> current_task s \<in> set ts \<and> chunk_ok (phys s) (space_of s t) \<and>
    (\<forall>p \<in> set (task_pages s t). (p, 4096) \<in> heap_live (fs_heap s) \<and> (\<forall>u \<in> set ts - {t}. p \<notin> set (task_pages s u)))"
proof -
  have "sched_inv boot []" using assms(1-5) by (simp add: sched_inv_def tasks_ok_def task_list_def)
  then have ok: "tasks_ok s ts" using sched_run_inv [OF assms(6)] by (simp add: sched_inv_def)
  have "set (task_pages s t) \<inter> set (task_pages s u) = {}" if "u \<in> set ts - {t}" for u
    using distinct_concat_disjoint [OF tasks_okD(4) [OF ok] assms(7), of u] that by blast
  moreover have "ts \<noteq> []" using assms(7) by auto
  ultimately show ?thesis using tasks_okD(1,2,5,6) [OF ok] assms(7) by blast
qed

theorem tasks_own_their_pages_witness:
  "\<exists>s t u. sched_run idle_bus Some sample_kernel [] s [t, u] \<and> t \<noteq> u \<and> task_list s [t, u] \<and>
     (\<forall>p \<in> set (task_pages s t). p \<notin> set (task_pages s u))"
proof -
  obtain s t u where r: "sched_run idle_bus Some sample_kernel [] s [t, u]" "t \<noteq> u" using two_tasks by blast
  have b: "heap_ok (fs_heap sample_kernel)" "task_head sample_kernel = 0" "task_tail sample_kernel = 0"
      "current_task sample_kernel = 0" "clock_installed sample_kernel"
    using sample_kernel_inv(1) by (simp_all add: sched_inv_def tasks_ok_def task_list_def)
  show ?thesis using tasks_own_their_pages [OF b r(1), of t] r by auto
qed

text \<open>
  (C7) A task that is interrupted by the clock resumes where it was: after one interrupt for every task
  the processor has its registers as they were saved, in its own address space. The flags are the exception, which
  \<open>task_return\<close> takes from the kernel.
\<close>

theorem task_resumes:
  assumes "sched_inv s ts" "ts \<noteq> []" "length frames = length ts - 1"
  shows "\<exists>s'. clock_ticks io nic eflags (frame # frames) s = Some s' \<and> current_task s' = current_task s \<and>
    user_regs s' = (frame_registers frame)\<lparr>r_flags := eflags OR 0x200\<rparr> \<and>
    cr3 (pregs s') = directory_entry (phys s) (space_of s (current_task s))"
proof -
  let ?n = "length ts"
  have ok: "tasks_ok s ts" using assms(1) by (simp add: sched_inv_def)
  obtain i where i: "i < ?n" "current_task s = ts ! i" using current_index [OF ok assms(2)] by blast
  obtain k where k: "tasks s (current_task s) = Some k" using task_list_node [OF tasks_okD(1) [OF ok], of "ts ! i"] i by auto
  obtain s1 where s1: "interrupt_handler io nic eflags 0x20 frame s = Some s1" "sched_inv s1 ts"
      "current_task s1 = ts ! (Suc i mod ?n)" "tasks s1 = saved frame s" "loaded eflags s1" "phys s1 = phys s"
      "\<And>u. space_of s1 u = space_of s u"
    by (rule clock_tick_loaded [OF assms(1) i, of io nic eflags frame]) blast
  have lt: "Suc i mod ?n < ?n" using i(1) by (intro mod_less_divisor) linarith
  have e: "Suc i + length frames = i + ?n" using i(1) assms(3) by simp
  have around: "(Suc i mod ?n + length frames) mod ?n = i" unfolding mod_add_left_eq e using i(1) by simp
  have away: "(Suc i mod ?n + m) mod ?n \<noteq> i" if "m < length frames" for m
  proof (cases "Suc i + m < ?n")
    case False
    then have "(Suc i + m) mod ?n = Suc i + m - ?n" using i(1) that assms(3) by (simp add: mod_if)
    then show ?thesis using False that assms(3) by (simp add: mod_add_left_eq)
  qed (simp add: mod_add_left_eq)
  obtain s2 where s2: "clock_ticks io nic eflags frames s1 = Some s2" "loaded eflags s2" "phys s2 = phys s1"
      "current_task s2 = ts ! i" "\<And>u. space_of s2 u = space_of s1 u" "tasks s2 (ts ! i) = tasks s1 (ts ! i)"
    using clock_ticks_ok [OF s1(2) lt s1(3,5), of io nic frames] around away i(1) by auto
  have "tasks s2 (current_task s2) = Some (k\<lparr>task_registers := frame_registers frame\<rparr>)"
    using s2(4,6) s1(4) saved_simps(2) [OF k] i(2) by simp
  then show ?thesis using s1 s2 i(2) by (simp add: loaded_def)
qed

definition sample_frame :: interrupt_frame where
  "sample_frame = \<lparr>f_edi = 1, f_esi = 2, f_ebp = 3, f_reserved = 0, f_ebx = 4, f_edx = 5, f_ecx = 6, f_eax = 7,
     f_ip = 0x400000, f_cs = 0x1b, f_flags = 0x202, f_esp = 0x3ff000, f_ss = 0x23\<rparr>"

theorem task_resumes_witness:
  "\<exists>s t u s'. t \<noteq> u \<and> sched_inv s [t, u] \<and>
     clock_ticks idle_bus Some 2 [sample_frame, sample_frame\<lparr>f_eax := 8\<rparr>] s = Some (s' :: (unit, unit) kernel) \<and>
     current_task s' = current_task s \<and> r_eax (user_regs s') = 7 \<and> r_flags (user_regs s') = 0x202"
proof -
  obtain s :: "(unit, unit) kernel" and t u where s: "sched_inv s [t, u]" "t \<noteq> u" using two_tasks by metis
  show ?thesis
    using task_resumes [OF s(1), of "[sample_frame\<lparr>f_eax := 8\<rparr>]" idle_bus Some 2 sample_frame] s
    by (fastforce simp: sample_frame_def frame_registers_def save_registers_def)
qed

text \<open>
  (C6) The scheduler starves no task: in every infinite run with a fixed set of tasks in which clock interrupts keep
  coming, whatever the programs do in between, every task becomes the current task again and again.
\<close>

theorem every_task_runs_again:
  assumes "sched_inv (\<sigma> 0) ts" "\<And>n. sched io nic (\<sigma> n) ts (\<sigma> (Suc n)) ts"
    "\<forall>n. \<exists>m \<ge> n. clock_step io nic (\<sigma> m) (\<sigma> (Suc m))" "t \<in> set ts"
  shows "\<exists>m \<ge> n. current_task (\<sigma> m) = t"
proof -
  have inv: "sched_inv (\<sigma> k) ts" for k by (induction k) (use assms(1,2) sched_inv_step in blast)+
  obtain j where j: "j < length ts" "t = ts ! j" using assms(4) by (metis in_set_conv_nth)
  obtain i where i: "i < length ts" "current_task (\<sigma> n) = ts ! i"
    using current_index [of "\<sigma> n" ts] inv [of n] assms(4) unfolding sched_inv_def by (metis empty_iff set_empty)
  have "(i + (j + length ts - i)) mod length ts = j" using i(1) j(1) by simp
  then show ?thesis using clock_reaches [of \<sigma> ts, OF inv assms(2,3) i, of "j + length ts - i"] j(2) by simp
qed

text \<open>A run of two tasks that does nothing but clock interrupts.\<close>

definition tick :: "(unit, unit) kernel \<Rightarrow> (unit, unit) kernel" where
  "tick s = the (interrupt_handler idle_bus Some 2 0x20 sample_frame s)"

lemma tick_step:
  assumes "sched_inv s ts" "ts \<noteq> []"
  shows "sched idle_bus Some s ts (tick s) ts \<and> clock_step idle_bus Some s (tick s) \<and> sched_inv (tick s) ts"
proof -
  obtain i where "i < length ts" "current_task s = ts ! i" using current_index assms unfolding sched_inv_def by blast
  from clock_tick [OF assms(1) this, of idle_bus Some 2 "sample_frame"]
  have "interrupt_handler idle_bus Some 2 0x20 sample_frame s = Some (tick s)"
    by (auto simp: tick_def)
  then have "sched idle_bus Some s ts (tick s) ts" "clock_step idle_bus Some s (tick s)"
    by (auto simp: clock_step_def intro: sched.clock)
  then show ?thesis using sched_inv_step assms(1) by blast
qed

theorem every_task_runs_again_witness:
  "\<exists>(\<sigma> :: nat \<Rightarrow> (unit, unit) kernel) t u. t \<noteq> u \<and> (\<forall>n. \<exists>m \<ge> n. current_task (\<sigma> m) = t) \<and> (\<forall>n. \<exists>m \<ge> n. current_task (\<sigma> m) = u)"
proof -
  obtain s :: "(unit, unit) kernel" and t u where s: "sched_inv s [t, u]" "t \<noteq> u" using two_tasks by metis
  let ?\<sigma> = "\<lambda>n. (tick ^^ n) s"
  have inv: "sched_inv (?\<sigma> n) [t, u]" for n by (induction n) (use s(1) tick_step in auto)
  have st: "sched idle_bus Some (?\<sigma> n) [t, u] (?\<sigma> (Suc n)) [t, u]" "clock_step idle_bus Some (?\<sigma> n) (?\<sigma> (Suc n))" for n
    using tick_step [OF inv [of n]] by simp_all
  then have fair: "\<forall>n. \<exists>m \<ge> n. clock_step idle_bus Some (?\<sigma> m) (?\<sigma> (Suc m))" by blast
  have "\<exists>m \<ge> n. current_task (?\<sigma> m) = v" if "v \<in> set [t, u]" for n v
    using every_task_runs_again [of ?\<sigma>, OF inv st(1) fair that] .
  then show ?thesis using s(2) by (intro exI [of _ ?\<sigma>] exI [of _ t] exI [of _ u]) simp
qed

end
