(* ===== verification/Key_Events.thy ===== *)
theory Key_Events
  imports Scheduler
begin

section \<open>The key buffer is a queue\<close>

text \<open>
  The two indices of a key buffer run freely and wrap at 32 bits; a slot is empty exactly when it holds
  zero. The buffer is an instance of the bounded queue, whatever the indices are, and so the keys
  typed for a process are read by it in the same order.
\<close>

definition slot :: "u32 \<Rightarrow> nat \<Rightarrow> nat" where
  "slot h i = (unat h + i) mod 1024"

definition key_head :: "keyboard_buffer \<Rightarrow> u32" where
  "key_head k = word_of_int (kb_head k)"

definition key_count :: "keyboard_buffer \<Rightarrow> nat" where
  "key_count k = unat (word_of_int (kb_tail k) - key_head k)"

definition keys :: "keyboard_buffer \<Rightarrow> u8 list" where
  "keys k = map (\<lambda>i. kb_buffer k ! slot (key_head k) i) [0 ..< key_count k]"

definition kb_ok :: "keyboard_buffer \<Rightarrow> bool" where
  "kb_ok k \<longleftrightarrow> length (kb_buffer k) = 1024 \<and> key_count k \<le> 1024 \<and>
     (\<forall>i < 1024. kb_buffer k ! slot (key_head k) i = 0 \<longleftrightarrow> key_count k \<le> i)"

lemma word_of_int_to_int: "word_of_int (to_int x) = (word_of_int x :: u32)"
  by (simp add: to_int_def)

lemma slot_less [simp]: "slot h i < 1024"
  by (simp add: slot_def)

lemma slot_eq_iff: "i < 1024 \<Longrightarrow> j < 1024 \<Longrightarrow> slot h i = slot h j \<longleftrightarrow> i = j"
  using mod_add_cong [of i 1024 j "unat h" ] nat_mod_eq_iff [of "unat h + i" 1024 "unat h + j"]
  by (auto simp: slot_def) (metis add_left_cancel mod_less mod_add_left_eq nat_mod_eq_iff)

lemma unat_mod_1024: "unat (h + of_nat i :: u32) mod 1024 = slot h i"
proof -
  have "(1024 :: nat) dvd 2 ^ 32" by simp
  then show ?thesis
    by (simp add: slot_def unat_word_ariths unsigned_of_nat take_bit_eq_mod mod_mod_cancel mod_simps)
qed

lemma slot_Suc: "slot (h + 1) i = slot h (Suc i)"
  using unat_mod_1024 [of "h + 1" i] unat_mod_1024 [of h "Suc i"] by (simp add: ac_simps)

lemma tail_eq: "word_of_int (kb_tail k) = key_head k + of_nat (key_count k)"
  by (simp add: key_count_def)

lemma buffer_index_tail: "kb_ok k \<Longrightarrow> buffer_index (kb_tail k) k = slot (key_head k) (key_count k)"
  using unat_mod_1024 [of "key_head k" "key_count k"] by (simp add: buffer_index_def tail_eq kb_ok_def)

lemma buffer_index_head: "kb_ok k \<Longrightarrow> buffer_index (kb_head k) k = slot (key_head k) 0"
  using unat_mod_1024 [of "key_head k" 0] by (simp add: buffer_index_def kb_ok_def key_head_def)

lemma buffer_push_ok:
  assumes "kb_ok k" "c \<noteq> 0" "key_count k < 1024"
  shows "\<exists>k'. buffer_push c k = Some k' \<and> kb_ok k' \<and> keys k' = keys k @ [c]"
proof -
  let ?b = "(kb_buffer k)[slot (key_head k) (key_count k) := c]"
  let ?k = "k\<lparr>kb_buffer := ?b, kb_tail := to_int (kb_tail k + 1)\<rparr>"
  have len: "length (kb_buffer k) = 1024" using assms(1) by (simp add: kb_ok_def)
  have h: "key_head ?k = key_head k" by (simp add: key_head_def)
  have "word_of_int (kb_tail k + 1) - key_head k = of_nat (Suc (key_count k))"
    using tail_eq [of k] by simp
  moreover have "key_count ?k = unat (word_of_int (kb_tail k + 1) - key_head k)"
    by (simp add: key_count_def key_head_def word_of_int_to_int)
  ultimately have n: "key_count ?k = Suc (key_count k)"
    using assms(3) by (simp add: unsigned_of_nat take_bit_nat_eq_self del: of_nat_Suc)
  have b: "?b ! slot (key_head k) i = (if i = key_count k then c else kb_buffer k ! slot (key_head k) i)"
    if "i < 1024" for i
    using that assms(3) len slot_eq_iff [of i "key_count k" "key_head k"] by (simp add: nth_list_update_if)
  have "kb_ok ?k" unfolding kb_ok_def h n using assms b len by (auto simp: kb_ok_def)
  moreover have "keys ?k = keys k @ [c]"
    unfolding keys_def h n using assms(3) b by (auto intro!: nth_equalityI simp: nth_append)
  ultimately show ?thesis
    using buffer_index_tail [OF assms(1)] len by (intro exI [of _ ?k]) (simp add: buffer_push_def wr_def)
qed

lemma buffer_pop_ok:
  assumes "kb_ok k" "keys k = c # cs"
  shows "\<exists>k'. buffer_pop k = Some (c, k') \<and> kb_ok k' \<and> keys k' = cs"
proof -
  let ?b = "(kb_buffer k)[slot (key_head k) 0 := 0]"
  let ?k = "k\<lparr>kb_buffer := ?b, kb_head := to_int (kb_head k + 1)\<rparr>"
  have len: "length (kb_buffer k) = 1024" and le: "key_count k \<le> 1024" using assms(1) by (simp_all add: kb_ok_def)
  have pos: "0 < key_count k" and c: "c = kb_buffer k ! slot (key_head k) 0"
    and cs: "cs = map (\<lambda>i. kb_buffer k ! slot (key_head k) i) [Suc 0 ..< key_count k]"
    using assms(2) by (cases "key_count k"; simp add: keys_def upt_rec)+
  have h: "key_head ?k = key_head k + 1" by (simp add: key_head_def word_of_int_to_int)
  have "word_of_int (kb_tail k) - (key_head k + 1) = of_nat (key_count k - 1)"
    using tail_eq [of k] pos by (cases "key_count k") simp_all
  then have n: "key_count ?k = key_count k - 1"
    using le unfolding key_count_def h by (simp add: unsigned_of_nat take_bit_nat_eq_self)
  have b: "?b ! slot (key_head k) (Suc i) = (if i = 1023 then 0 else kb_buffer k ! slot (key_head k) (Suc i))"
    if "i < 1024" for i
  proof (cases "i = 1023")
    case True
    then have "slot (key_head k) (Suc i) = slot (key_head k) 0" by (simp add: slot_def)
    then show ?thesis using True len by simp
  next
    case False
    then have "slot (key_head k) (Suc i) \<noteq> slot (key_head k) 0" using that by (subst slot_eq_iff) auto
    then show ?thesis using False len by simp
  qed
  have "kb_ok ?k" unfolding kb_ok_def h n slot_Suc using assms(1) b len pos by (auto simp: kb_ok_def)
  moreover have "keys ?k = cs"
    unfolding keys_def h n slot_Suc cs using le b
    by (auto intro!: nth_equalityI simp: nth_append)
  moreover have "c \<noteq> 0" using assms(1) pos by (simp add: kb_ok_def c)
  ultimately show ?thesis
    using buffer_index_head [OF assms(1)] len
    by (intro exI [of _ ?k]) (simp add: buffer_pop_def wr_def rd_def c)
qed

definition get_key :: "keyboard_buffer \<Rightarrow> (u8 \<times> keyboard_buffer) option" where
  "get_key k = do { (c, k) \<leftarrow> buffer_pop k; if c = 0 then None else Some (c, k) }"

interpretation key_fifo: bounded_fifo buffer_push get_key keys kb_ok "\<lambda>c. c \<noteq> 0" 1024
proof
  fix k and c :: u8
  assume "kb_ok k" "c \<noteq> 0" "length (keys k) < 1024"
  then show "\<exists>k'. buffer_push c k = Some k' \<and> kb_ok k' \<and> keys k' = keys k @ [c]"
    by (intro buffer_push_ok) (simp_all add: keys_def)
next
  fix k c cs
  assume k: "kb_ok k" "keys k = c # cs"
  have "0 < key_count k" using k(2) by (cases "key_count k") (simp_all add: keys_def)
  then have "c \<noteq> 0" using k by (auto simp: keys_def kb_ok_def upt_rec)
  then show "\<exists>k'. get_key k = Some (c, k') \<and> kb_ok k' \<and> keys k' = cs"
    using buffer_pop_ok [OF k] by (auto simp: get_key_def)
qed (simp add: kb_ok_def keys_def)

subsection \<open>Keys of a process\<close>

primrec push_keys :: "u8 list \<Rightarrow> ('d, 'z) task_state_scheme \<Rightarrow> ('d, 'z) task_state_scheme option" where
  "push_keys [] s = Some s"
| "push_keys (c # cs) s = Option.bind (keyboard_push c s) (push_keys cs)"

primrec pop_keys :: "nat \<Rightarrow> ('d, 'z) task_state_scheme \<Rightarrow> (u8 list \<times> ('d, 'z) task_state_scheme) option" where
  "pop_keys 0 s = Some ([], s)"
| "pop_keys (Suc n) s = do { (c, s) \<leftarrow> keyboard_pop s; (cs, s) \<leftarrow> pop_keys n s; Some (c # cs, s) }"

definition with_keys :: "u32 \<Rightarrow> process \<Rightarrow> keyboard_buffer \<Rightarrow> ('d, 'z) task_state_scheme \<Rightarrow> ('d, 'z) task_state_scheme" where
  "with_keys p x k s = set_process p (x\<lparr>keyboard := k\<rparr>) s"

lemma with_keys_simps [simp]:
  "procs (with_keys p x k s) p = Some (x\<lparr>keyboard := k\<rparr>)" "current_process (with_keys p x k s) = current_process s"
  "tasks (with_keys p x k s) = tasks s" "current_task (with_keys p x k s) = current_task s"
  "set_process p (x\<lparr>keyboard := k'\<rparr>) (with_keys p x k s) = with_keys p x k' s"
  by (simp_all add: with_keys_def set_process_def)

lemma push_keys_eq:
  "key_fifo.put_all cs k = Some k' \<Longrightarrow> p \<noteq> 0 \<Longrightarrow> current_process s = p \<Longrightarrow>
   push_keys cs (with_keys p x k s) = Some (with_keys p x k' s)"
  by (induction cs arbitrary: k) (auto simp: keyboard_push_def bind_eq_Some_conv)

lemma pop_keys_eq:
  "key_fifo.get_n n k = Some (cs, k') \<Longrightarrow> current_task s \<noteq> 0 \<Longrightarrow> tasks s (current_task s) = Some t \<Longrightarrow>
   task_process t = p \<Longrightarrow> pop_keys n (with_keys p x k s) = Some (cs, with_keys p x k' s)"
  by (induction n arbitrary: k cs) (fastforce simp: keyboard_pop_def get_key_def bind_eq_Some_conv split: if_splits)+

subsection \<open>Properties\<close>

text \<open>
  (C14) The keys pushed for the current process, up to 1024 of them, are popped by the current task in the same
  order and nothing is lost, wherever the two indices of the buffer stand and also when they wrap around.
\<close>

theorem keys_arrive_in_order:
  assumes "current_process s = p" "p \<noteq> 0" "procs s p = Some x" "kb_ok (keyboard x)" "keys (keyboard x) = []"
    "current_task s \<noteq> 0" "tasks s (current_task s) = Some t" "task_process t = p"
    "\<forall>c \<in> set cs. c \<noteq> 0" "length cs \<le> 1024"
  shows "\<exists>s1 s2. push_keys cs s = Some s1 \<and> pop_keys (length cs) s1 = Some (cs, s2)"
proof -
  obtain k1 k2 where k: "key_fifo.put_all cs (keyboard x) = Some k1" "key_fifo.get_n (length cs) k1 = Some (cs, k2)"
    using key_fifo.fifo_order [OF assms(4,5), of cs] assms(9,10) by blast
  have s: "with_keys p x (keyboard x) s = s" using assms(3) by (simp add: with_keys_def set_process_def fun_upd_idem)
  show ?thesis
    using push_keys_eq [OF k(1) assms(2,1), of x] pop_keys_eq [OF k(2) assms(6-8), of x] s by metis
qed

definition key_kernel :: "(unit, unit) kernel" where
  "key_kernel = sample_kernel\<lparr>current_task := 0x5000, tasks := [0x5000 \<mapsto> zero_task\<lparr>task_process := 1\<rparr>],
     procs := [1 \<mapsto> sample_process\<lparr>keyboard := \<lparr>kb_buffer = replicate 1024 0, kb_tail = 1022, kb_head = 1022\<rparr>\<rparr>]\<rparr>"

theorem keys_arrive_in_order_witness:
  "\<exists>s1 s2. push_keys [104, 101, 108, 108, 111] key_kernel = Some s1 \<and> pop_keys 5 s1 = Some ([104, 101, 108, 108, 111], s2)"
proof -
  let ?k = "\<lparr>kb_buffer = replicate 1024 0, kb_tail = 1022, kb_head = 1022\<rparr> :: keyboard_buffer"
  let ?x = "sample_process\<lparr>keyboard := ?k\<rparr>" let ?t = "zero_task\<lparr>task_process := 1\<rparr>"
  have k: "current_process key_kernel = 1" "(1 :: u32) \<noteq> 0" "procs key_kernel 1 = Some ?x" "kb_ok (keyboard ?x)" "keys (keyboard ?x) = []"
      "current_task key_kernel \<noteq> 0" "tasks key_kernel (current_task key_kernel) = Some ?t" "task_process ?t = 1"
    by (simp_all add: key_kernel_def sample_kernel_def kb_ok_def keys_def key_count_def key_head_def slot_def)
  have five: "length [104 :: u8, 101, 108, 108, 111] = 5" by simp
  have "\<exists>s1 s2. push_keys [104, 101, 108, 108, 111] key_kernel = Some s1 \<and>
      pop_keys (length [104 :: u8, 101, 108, 108, 111]) s1 = Some ([104, 101, 108, 108, 111], s2)"
    by (rule keys_arrive_in_order [OF k]) simp_all
  then show ?thesis unfolding five .
qed

end
