(* ===== verification/Process_Memory.thy ===== *)
theory Process_Memory
  imports Scheduler
begin

section \<open>Memory of processes\<close>

text \<open>
  What the system calls \<open>malloc\<close> and \<open>free\<close> do for a program: a page of the kernel heap is cleared, mapped in the
  address space of the process so that the program can use it, and recorded in its table; freeing it undoes all of this.
\<close>

subsection \<open>One page\<close>

definition heap_below_4gb :: "heap \<Rightarrow> bool" where
  "heap_below_4gb h \<longleftrightarrow> unat (h_saddr h) + nat (total_blocks h) * 4096 < 2 ^ 32"

lemma align_in_page:
  assumes "4096 dvd unat p" "0 < unat n" "unat n \<le> 4096" "unat p + 4096 < 2 ^ 32"
  shows "paging_align_address (p + n) = p + 4096"
proof -
  have u: "unat (p + n) = unat p + unat n" using unat_add_small [of p "unat n"] assms(3,4) by simp
  have v: "unat (p + 4096) = unat p + 4096" using unat_add_small [of p 4096] assms(4) by simp
  have m: "unat ((p + n) mod 4096) = unat n mod 4096" using assms(1) by (auto simp: unat_mod u elim!: dvdE)
  show ?thesis
  proof (cases "unat n = 4096")
    case True
    then have "n = 4096" by (intro word_eq_unatI) simp
    then show ?thesis using m by (simp add: paging_align_address_def PAGING_PAGE_SIZE_def word_eq_unatI)
  next
    case False
    then have "(p + n) mod 4096 = n" using m assms(3) by (intro word_eq_unatI) simp
    moreover have "n \<noteq> 0" using assms(2) by auto
    ultimately show ?thesis by (simp add: paging_align_address_def PAGING_PAGE_SIZE_def)
  qed
qed

lemma map_one_page:
  assumes "chunk_ok m c" "directory_entry m c = dir" "paging_is_aligned p" "p \<noteq> 0" "unat p + 4096 < 2 ^ 32"
  obtains m' where "paging_map_to c p p (p + 4096) flags m = (OK, m')" "paging_get dir p m' = p OR word_of_int flags"
    "m' = wr32 m (pte_at m dir p) (p OR word_of_int flags)"
proof -
  have al: "p mod 4096 = 0" "(p + 4096) mod 4096 = 0"
    using assms(3) paging_is_aligned_next [of p] by (simp_all add: paging_is_aligned_def PAGING_PAGE_SIZE_def)
  have "unat (p + 4096) = unat p + 4096" using unat_add_small [of p 4096] assms(5) by simp
  then have le: "\<not> p + 4096 < p" by (simp add: word_less_nat_alt)
  have one: "p + 4096 - p = (4096 :: u32)" "sint ((4096 :: u32) div 4096) = 1" by simp_all
  obtain r m' where set: "paging_set dir p (p OR word_of_int flags) m = (r, m')" by force
  have dok: "directory_ok m dir" "dir \<noteq> 0" using assms(1,2) by (auto simp: chunk_ok_def directory_ok_def)
  note g = paging_get_after_set [OF dok(1) assms(4,3,4,3) set]
  have "paging_map_to c p p (p + 4096) flags m = (OK, m')"
    using al le g(1) set assms(2) by (simp add: paging_map_to_def paging_map_range_def PAGING_PAGE_SIZE_def one paging_map_def kernel_consts)
  moreover have "m' = wr32 m (pte_at m dir p) (p OR word_of_int flags)"
    using set dok(2) by (simp add: paging_set_eq [OF dok(2) assms(4,3)])
  ultimately show thesis using that g(3) by simp
qed

lemma pte_outside_page:
  assumes "paging_is_aligned p" "table_of m dir (dir_index p) \<noteq> p" "j < 4096"
  shows "wr32 m (pte_at m dir p) v (p + of_nat j) = m (p + of_nat j)"
proof (rule wr32_other_byte)
  let ?t = "table_of m dir (dir_index p)"
  have u: "unat (pte_at m dir p) = unat ?t + 4 * table_index p" by (simp add: pte_at_def unat_word_at)
  have "unat p + j < 2 ^ 32" using aligned_lt [OF assms(1)] assms(3) by simp
  then have "unat (p + of_nat j) = unat p + j" by (rule unat_add_small)
  then show "unat (p + of_nat j) < unat (pte_at m dir p) \<or> unat (pte_at m dir p) + 4 \<le> unat (p + of_nat j)"
    using aligned_disjoint [OF assms(1) aligned_table assms(2) [symmetric]] table_index_less [of p] u assms(3) by arith
qed simp

lemma tasks_ok_heap:
  assumes "tasks_ok s ts" "heap_ok h" "\<And>t p. t \<in> set ts \<Longrightarrow> p \<in> set (task_pages s t) \<Longrightarrow> (p, 4096) \<in> heap_live h"
  shows "tasks_ok (s\<lparr>fs_heap := h\<rparr>) ts"
proof -
  have "task_pages (s\<lparr>fs_heap := h\<rparr>) = task_pages s" "space_of (s\<lparr>fs_heap := h\<rparr>) = space_of s"
    by (simp_all add: task_pages_def space_of_def fun_eq_iff)
  moreover have "task_list (s\<lparr>fs_heap := h\<rparr>) ts" by (rule task_list_cong [OF tasks_okD(1) [OF assms(1)]]) simp_all
  ultimately show ?thesis using assms by (simp add: tasks_ok_def)
qed

lemma tasks_ok_set_process: "tasks_ok (set_process p x s) ts \<longleftrightarrow> tasks_ok s ts"
proof -
  have "task_pages (set_process p x s) = task_pages s" "space_of (set_process p x s) = space_of s"
    by (simp_all add: task_pages_def space_of_def set_process_def fun_eq_iff)
  moreover have "task_list (set_process p x s) ts \<longleftrightarrow> task_list s ts" by (simp add: task_list_def set_process_def)
  moreover have "current_task (set_process p x s) = current_task s" "fs_heap (set_process p x s) = fs_heap s" "phys (set_process p x s) = phys s"
    by (simp_all add: set_process_def)
  ultimately show ?thesis by (simp add: tasks_ok_def)
qed

text \<open>Clearing a page of the heap that no task has.\<close>

lemma tasks_ok_clear:
  assumes ok: "tasks_ok s ts" and p: "paging_is_aligned p" "n \<le> 4096" "\<And>q k. (q, k) \<in> heap_live (fs_heap s) \<Longrightarrow> p \<noteq> q"
  shows "tasks_ok (s\<lparr>phys := mem_fill (phys s) p c n\<rparr>) ts \<and>
    (\<forall>u \<in> set ts. task_pages (s\<lparr>phys := mem_fill (phys s) p c n\<rparr>) u = task_pages s u)"
proof (cases "ts = []")
  case True
  then show ?thesis using ok by (simp add: tasks_ok_def task_list_def)
next
  case False
  show ?thesis
  proof (rule tasks_ok_cong [OF ok])
    show "\<exists>r. tasks (s\<lparr>phys := mem_fill (phys s) p c n\<rparr>) u = map_option (\<lambda>k. k\<lparr>task_registers := r\<rparr>) (tasks s u)" for u
      by (cases "tasks s u") (auto intro: exI [of _ "task_registers (the (tasks s u))"])
    show "rd32 (phys (s\<lparr>phys := mem_fill (phys s) p c n\<rparr>)) (word_at q j) = rd32 (phys s) (word_at q j)"
      if "q \<in> set (concat (map (task_pages s) ts))" "paging_is_aligned q" "j < 1024" for q j
      using rd32_mem_fill_other [OF p(1) that(2) _ p(2) that(3)] p(3) tasks_okD(6) [OF ok] that(1) by fastforce
  qed (use tasks_okD(2) [OF ok False] in simp_all)
qed

lemma find_alloc_Some: "find_alloc ptr as = Some i \<Longrightarrow> i < length as \<and> alloc_ptr (as ! i) = ptr"
  by (induction as arbitrary: i) (auto split: if_splits)

lemma find_alloc_update:
  "i < length as \<Longrightarrow> \<forall>a \<in> set as. alloc_ptr a \<noteq> ptr \<Longrightarrow> alloc_ptr x = ptr \<Longrightarrow> find_alloc ptr (as[i := x]) = Some i"
proof (induction as arbitrary: i)
  case (Cons a as)
  then show ?case by (cases i) auto
qed simp

lemma space_pages_directory: "space_pages m' c = space_pages m c \<Longrightarrow> directory_entry m' c = directory_entry m c"
  by (simp add: space_pages_def)

text \<open>Both calls change one entry of the tables of the process; \<open>dir\<close> is its directory.\<close>

lemma map_in_process_page:
  assumes ok: "tasks_ok s ts" and t: "t \<in> set ts" "procs s process = Some p" "proc_task p = t"
    and ptr: "paging_is_aligned ptr" "ptr \<noteq> 0" "unat ptr + 4096 < 2 ^ 32" "\<forall>u \<in> set ts. ptr \<notin> set (task_pages s u)"
  defines "dir \<equiv> directory_entry (phys s) (space_of s t)"
  obtains m where "map_in_process process ptr ptr (ptr + 4096) flags s = Some (OK, s\<lparr>phys := m\<rparr>)" "tasks_ok (s\<lparr>phys := m\<rparr>) ts"
    "\<And>u. u \<in> set ts \<Longrightarrow> task_pages (s\<lparr>phys := m\<rparr>) u = task_pages s u" "directory_entry m (space_of s t) = dir"
    "paging_get dir ptr m = ptr OR word_of_int flags" "\<And>j. j < 4096 \<Longrightarrow> m (ptr + of_nat j) = phys s (ptr + of_nat j)"
proof -
  obtain k where k: "tasks s t = Some k" "space_of s t = page_directory k" using task_list_node [OF tasks_okD(1) [OF ok] t(1)] by blast
  have ch: "chunk_ok (phys s) (page_directory k)" using tasks_okD(5) [OF ok t(1)] k(2) by simp
  have de: "directory_entry (phys s) (page_directory k) = dir" by (simp add: dir_def k(2))
  obtain m where m: "paging_map_to (page_directory k) ptr ptr (ptr + 4096) flags (phys s) = (OK, m)"
      "paging_get dir ptr m = ptr OR word_of_int flags" "m = wr32 (phys s) (pte_at (phys s) dir ptr) (ptr OR word_of_int flags)"
    by (rule map_one_page [OF ch de ptr(1-3)])
  have run: "map_in_process process ptr ptr (ptr + 4096) flags s = Some (OK, s\<lparr>phys := m\<rparr>)"
    using t(2,3) k(1) m(1) by (simp add: map_in_process_def)
  note keep = tasks_ok_map [OF ok t(1) k(1) m(1)]
  have "space_pages m (page_directory k) = space_pages (phys s) (page_directory k)"
    using keep t(1) k by (auto simp: task_pages_def space_of_def)
  from space_pages_directory [OF this] have d: "directory_entry m (space_of s t) = dir" using de k(2) by simp
  have "table_of (phys s) dir (dir_index ptr) \<in> set (task_pages s t)"
    using k(2) de by (auto simp: task_pages_def space_pages_def)
  then have "table_of (phys s) dir (dir_index ptr) \<noteq> ptr" using ptr(4) t(1) by auto
  note z = pte_outside_page [OF ptr(1) this]
  show thesis using that [OF run _ _ d m(2)] keep z m(3) by auto
qed

lemma process_malloc_ok:
  assumes ok: "tasks_ok s ts" and t: "t \<in> set ts" "procs s process = Some p" "proc_task p = t"
    and n: "0 < unat n" "unat n \<le> 4096" "0 < free_blocks (fs_heap s)" "heap_below_4gb (fs_heap s)"
    and i: "find_alloc 0 (allocations p) = Some i"
  defines "dir \<equiv> directory_entry (phys s) (space_of s t)"
  obtains ptr s' where "process_malloc process n s = Some (ptr, s')" "ptr \<noteq> 0" "paging_is_aligned ptr" "unat ptr + 4096 < 2 ^ 32"
    "\<And>k. (ptr, k) \<notin> heap_live (fs_heap s)" "heap_live (fs_heap s') = insert (ptr, 4096) (heap_live (fs_heap s))" "tasks_ok s' ts"
    "\<And>u. u \<in> set ts \<Longrightarrow> task_pages s' u = task_pages s u" "space_of s' t = space_of s t" "directory_entry (phys s') (space_of s t) = dir"
    "paging_get dir ptr (phys s') = ptr OR 7" "\<And>j. j < unat n \<Longrightarrow> phys s' (ptr + of_nat j) = 0"
    "procs s' process = Some (p\<lparr>allocations := (allocations p)[i := \<lparr>alloc_ptr = ptr, alloc_size = n\<rparr>]\<rparr>)"
proof -
  obtain ptr h where a: "kmalloc n (fs_heap s) = (ptr, h)" "ptr \<noteq> 0" "heap_live h = insert (ptr, 4096) (heap_live (fs_heap s))" "heap_ok h"
      "4096 dvd unat ptr" and fresh: "\<And>q k. (q, k) \<in> heap_live (fs_heap s) \<Longrightarrow> ptr \<noteq> q"
    using kernel_pages.page_alloc_ok [OF tasks_okD(3) [OF ok] n(1-3)] by metis
  have al: "paging_is_aligned ptr" using a(5) by (simp add: paging_is_aligned_iff)
  have "h_saddr h = h_saddr (fs_heap s) \<and> total_blocks h = total_blocks (fs_heap s)"
    using malloc_frame [of "fs_heap s" n] a(1) by (simp add: kmalloc_def)
  then have top: "unat ptr + 4096 < 2 ^ 32" using heap_live_within [OF a(4), of ptr 4096] a(3) n(4) by (simp add: heap_below_4gb_def)
  let ?m = "mem_fill (phys s) ptr 0 (unat n)" let ?s1 = "s\<lparr>fs_heap := h, phys := ?m\<rparr>"
  have clr: "tasks_ok (s\<lparr>phys := ?m\<rparr>) ts \<and> (\<forall>u \<in> set ts. task_pages (s\<lparr>phys := ?m\<rparr>) u = task_pages s u)"
    by (rule tasks_ok_clear [OF ok al n(2)]) (rule fresh)
  have s1: "?s1 = s\<lparr>phys := ?m\<rparr>\<lparr>fs_heap := h\<rparr>" by simp
  have tp: "task_pages ?s1 u = task_pages (s\<lparr>phys := ?m\<rparr>) u" "space_of ?s1 u = space_of s u" for u by (simp_all add: task_pages_def space_of_def)
  have ok1: "tasks_ok ?s1 ts" unfolding s1
    by (rule tasks_ok_heap [OF conjunct1 [OF clr] a(4)]) (use clr tasks_okD(6) [OF ok] a(3) in auto)
  have out: "\<forall>u \<in> set ts. ptr \<notin> set (task_pages ?s1 u)" using clr tp tasks_okD(6) [OF ok] fresh by fastforce
  have p1: "procs ?s1 process = Some p" using t(2) by simp
  have "space_pages ?m (space_of s t) = space_pages (phys s) (space_of s t)" using clr t(1) by (auto simp: task_pages_def space_of_def)
  from space_pages_directory [OF this] have d1: "directory_entry ?m (space_of s t) = dir" by (simp add: dir_def)
  obtain m where m: "map_in_process process ptr ptr (ptr + 4096) USER_RW ?s1 = Some (OK, ?s1\<lparr>phys := m\<rparr>)" "tasks_ok (?s1\<lparr>phys := m\<rparr>) ts"
    "\<And>u. u \<in> set ts \<Longrightarrow> task_pages (?s1\<lparr>phys := m\<rparr>) u = task_pages ?s1 u" "directory_entry m (space_of s t) = dir"
    "paging_get dir ptr m = ptr OR word_of_int USER_RW" "\<And>j. j < 4096 \<Longrightarrow> m (ptr + of_nat j) = ?m (ptr + of_nat j)"
    by (rule map_in_process_page [OF ok1 t(1) p1 t(3) al a(2) top out, of USER_RW]) (use d1 tp(2) in auto)
  let ?p = "p\<lparr>allocations := (allocations p)[i := \<lparr>alloc_ptr = ptr, alloc_size = n\<rparr>]\<rparr>" let ?s' = "set_process process ?p (?s1\<lparr>phys := m\<rparr>)"
  have ix: "process_find_free_allocation_index p = int i" using i by (simp add: process_find_free_allocation_index_def)
  have kz: "kzalloc_phys n s = (ptr, ?s1)" using a(1,2) by (simp add: kzalloc_phys_def kzalloc_mem_def)
  have run: "process_malloc process n s = Some (ptr, ?s')"
    unfolding process_malloc_def kz align_in_page [OF a(5) n(1,2) top]
    using a(2) p1 m(1) ix align_in_page [OF a(5) n(1,2) top] by (simp add: kernel_consts)
  have rw: "word_of_int USER_RW = (7 :: u32)" by (simp add: USER_RW_def kernel_consts)
  have z: "m (ptr + of_nat j) = 0" if j: "j < unat n" for j
  proof -
    have "unat (ptr + of_nat j) = unat ptr + j" using top j n(2) by (intro unat_add_small) simp
    then show ?thesis using m(6) [of j] j n(2) top mem_fill_eq [of ptr "unat n" "phys s" 0] by simp
  qed
  show thesis
  proof (rule that [OF run a(2) al top])
    show "(ptr, k) \<notin> heap_live (fs_heap s)" for k using fresh by blast
    show "tasks_ok ?s' ts" using m(2) by (simp only: tasks_ok_set_process)
    show "task_pages ?s' u = task_pages s u" if "u \<in> set ts" for u
      using m(3) [OF that] tp(1) [of u] clr that by (simp add: task_pages_def space_of_def set_process_def)
  qed (use a(3) m(4,5) z rw in \<open>simp_all add: set_process_def space_of_def\<close>)
qed

lemma process_free_ok:
  assumes ok: "tasks_ok s ts" and t: "t \<in> set ts" "procs s process = Some p" "proc_task p = t"
    and ptr: "paging_is_aligned ptr" "ptr \<noteq> 0" "unat ptr + 4096 < 2 ^ 32" "(ptr, 4096) \<in> heap_live (fs_heap s)"
      "\<forall>u \<in> set ts. ptr \<notin> set (task_pages s u)"
    and i: "find_alloc ptr (allocations p) = Some i" "alloc_size (allocations p ! i) = n" "0 < unat n" "unat n \<le> 4096"
  defines "dir \<equiv> directory_entry (phys s) (space_of s t)"
  obtains s' where "process_free process ptr s = Some s'" "tasks_ok s' ts" "heap_live (fs_heap s') = heap_live (fs_heap s) - {(ptr, 4096)}"
    "paging_get dir ptr (phys s') = ptr" "directory_entry (phys s') (space_of s' t) = dir"
    "procs s' process = Some (process_allocation_unjoin p ptr)" "\<And>u. u \<in> set ts \<Longrightarrow> task_pages s' u = task_pages s u"
proof -
  have al: "process_get_allocation_by_addr p ptr = Some (allocations p ! i)" "alloc_ptr (allocations p ! i) = ptr"
    using i(1) find_alloc_Some [OF i(1)] by (simp_all add: process_get_allocation_by_addr_def)
  have page: "paging_align_address (ptr + n) = ptr + 4096"
    by (rule align_in_page [OF _ i(3,4) ptr(3)]) (use ptr(1) in \<open>simp add: paging_is_aligned_iff\<close>)
  obtain m where m: "map_in_process process ptr ptr (ptr + 4096) 0 s = Some (OK, s\<lparr>phys := m\<rparr>)" "tasks_ok (s\<lparr>phys := m\<rparr>) ts"
    "\<And>u. u \<in> set ts \<Longrightarrow> task_pages (s\<lparr>phys := m\<rparr>) u = task_pages s u" "directory_entry m (space_of s t) = dir"
    "paging_get dir ptr m = ptr OR word_of_int 0"
    unfolding dir_def by (rule map_in_process_page [OF ok t ptr(1-3,5), of 0]) blast
  let ?s1 = "set_process process (process_allocation_unjoin p ptr) (s\<lparr>phys := m\<rparr>)" let ?h = "kfree ptr (fs_heap s)"
  have run: "process_free process ptr s = Some (?s1\<lparr>fs_heap := ?h\<rparr>)"
    unfolding process_free_def using t(2) al i(2) page m(1) by (simp add: kernel_consts set_process_def)
  have h: "heap_ok ?h \<and> heap_live ?h = heap_live (fs_heap s) - {(ptr, 4096)}"
    using kernel_allocator.release_ok [OF tasks_okD(3) [OF ok] ptr(4)] by blast
  have ok1: "tasks_ok ?s1 ts" using m(2) by (simp only: tasks_ok_set_process)
  have tp: "task_pages ?s1 u = task_pages (s\<lparr>phys := m\<rparr>) u" for u by (simp add: task_pages_def space_of_def set_process_def)
  have live: "(q, 4096) \<in> heap_live ?h" if "u \<in> set ts" "q \<in> set (task_pages ?s1 u)" for u q
    using that tp [of u] m(3) [of u] tasks_okD(6) [OF ok, of u q] ptr(5) h by auto
  have ok2: "tasks_ok (?s1\<lparr>fs_heap := ?h\<rparr>) ts" by (rule tasks_ok_heap [OF ok1 conjunct1 [OF h] live])
  show thesis
  proof (rule that [OF run ok2])
    show "task_pages (?s1\<lparr>fs_heap := ?h\<rparr>) u = task_pages s u" if "u \<in> set ts" for u
      using m(3) [OF that] tp [of u] by (simp add: task_pages_def space_of_def)
  qed (use h m(4,5) in \<open>simp_all add: set_process_def space_of_def\<close>)
qed

subsection \<open>Property\<close>

text \<open>
  (C8) A program that asks for \<open>n\<close> bytes, from 1 to a page, while its table has a free entry gets a page that was not
  allocated, with its first \<open>n\<close> bytes cleared (the rest of the page keeps what it held), mapped in its address space
  present, writable and accessible to it. Giving it back unmaps the page, clears the entry of the table, and leaves the
  heap with the allocations it had. After either call every task's directory and tables are the pages they were, and all
  the address spaces are still well formed.
\<close>

theorem process_malloc_free:
  assumes "tasks_ok s ts" "t \<in> set ts" "procs s process = Some p" "proc_task p = t"
    and "0 < unat n" "unat n \<le> 4096" "0 < free_blocks (fs_heap s)" "heap_below_4gb (fs_heap s)"
    and "find_alloc 0 (allocations p) = Some i" "\<forall>a \<in> set (allocations p). alloc_ptr a = 0 \<or> (\<exists>k. (alloc_ptr a, k) \<in> heap_live (fs_heap s))"
  shows "\<exists>ptr s1 s2. process_malloc process n s = Some (ptr, s1) \<and> tasks_ok s1 ts \<and>
    (\<forall>k. (ptr, k) \<notin> heap_live (fs_heap s)) \<and> (\<forall>j < unat n. phys s1 (ptr + of_nat j) = 0) \<and>
    paging_get (directory_entry (phys s) (space_of s t)) ptr (phys s1) = ptr OR 7 \<and>
    process_free process ptr s1 = Some s2 \<and> tasks_ok s2 ts \<and> heap_live (fs_heap s2) = heap_live (fs_heap s) \<and>
    paging_get (directory_entry (phys s) (space_of s t)) ptr (phys s2) = ptr \<and>
    procs s2 process = Some (p\<lparr>allocations := (allocations p)[i := \<lparr>alloc_ptr = 0, alloc_size = 0\<rparr>]\<rparr>) \<and>
    (\<forall>u \<in> set ts. task_pages s1 u = task_pages s u \<and> task_pages s2 u = task_pages s u)"
proof -
  let ?dir = "directory_entry (phys s) (space_of s t)"
  obtain ptr s1 where a: "process_malloc process n s = Some (ptr, s1)" "ptr \<noteq> 0" "paging_is_aligned ptr" "unat ptr + 4096 < 2 ^ 32"
    "\<And>k. (ptr, k) \<notin> heap_live (fs_heap s)" "heap_live (fs_heap s1) = insert (ptr, 4096) (heap_live (fs_heap s))" "tasks_ok s1 ts"
    "\<And>u. u \<in> set ts \<Longrightarrow> task_pages s1 u = task_pages s u" "space_of s1 t = space_of s t" "directory_entry (phys s1) (space_of s t) = ?dir"
    "paging_get ?dir ptr (phys s1) = ptr OR 7" "\<And>j. j < unat n \<Longrightarrow> phys s1 (ptr + of_nat j) = 0"
    "procs s1 process = Some (p\<lparr>allocations := (allocations p)[i := \<lparr>alloc_ptr = ptr, alloc_size = n\<rparr>]\<rparr>)"
    by (rule process_malloc_ok [OF assms(1-9)]) blast
  let ?as = "(allocations p)[i := \<lparr>alloc_ptr = ptr, alloc_size = n\<rparr>]"
  have il: "i < length (allocations p)" using find_alloc_Some [OF assms(9)] by blast
  have other: "\<forall>a \<in> set (allocations p). alloc_ptr a \<noteq> ptr" using assms(10) a(2,5) by metis
  have f: "find_alloc ptr ?as = Some i" by (rule find_alloc_update [OF il other]) simp
  have pages: "\<forall>u \<in> set ts. ptr \<notin> set (task_pages s1 u)" using a(5,8) tasks_okD(6) [OF assms(1)] by metis
  have live: "(ptr, 4096) \<in> heap_live (fs_heap s1)" using a(6) by simp
  let ?p = "p\<lparr>allocations := ?as\<rparr>"
  have q: "proc_task ?p = t" "find_alloc ptr (allocations ?p) = Some i" "alloc_size (allocations ?p ! i) = n" using assms(4) f il by simp_all
  obtain s2 where b: "process_free process ptr s1 = Some s2" "tasks_ok s2 ts" "heap_live (fs_heap s2) = heap_live (fs_heap s1) - {(ptr, 4096)}"
    "paging_get (directory_entry (phys s1) (space_of s1 t)) ptr (phys s2) = ptr" "procs s2 process = Some (process_allocation_unjoin ?p ptr)"
    "\<And>u. u \<in> set ts \<Longrightarrow> task_pages s2 u = task_pages s1 u"
    by (rule process_free_ok [OF a(7) assms(2) a(13) q(1) a(3,2,4) live pages q(2,3) assms(5,6)]) blast
  have "map (\<lambda>a. if alloc_ptr a = ptr then \<lparr>alloc_ptr = 0, alloc_size = 0\<rparr> else a) ?as = (allocations p)[i := \<lparr>alloc_ptr = 0, alloc_size = 0\<rparr>]"
    using other by (simp add: map_update map_idI)
  then have u: "process_allocation_unjoin ?p ptr = p\<lparr>allocations := (allocations p)[i := \<lparr>alloc_ptr = 0, alloc_size = 0\<rparr>]\<rparr>"
    by (simp add: process_allocation_unjoin_def)
  have "heap_live (fs_heap s2) = heap_live (fs_heap s)" using b(3) a(5,6) by auto
  then show ?thesis
    using a(1,5,7,8,11,12) b(1,2,4,5,6) u a(9,10) by (intro exI [of _ ptr] exI [of _ s1] exI [of _ s2]) simp
qed

lemma kmalloc_below: "heap_below_4gb (snd (kmalloc sz h)) = heap_below_4gb h"
  using malloc_frame [of h sz] by (simp add: heap_below_4gb_def kmalloc_def)

lemma kzalloc_mem_below: "kzalloc_mem sz h m = (p, h', m') \<Longrightarrow> heap_below_4gb h' = heap_below_4gb h"
  using kmalloc_below [of sz h] by (auto simp: kzalloc_mem_def split: prod.splits if_splits)

lemma paging_new_4gb_below:
  assumes "paging_new_4gb flags h m = (c, h', m')"
  shows "heap_below_4gb h' = heap_below_4gb h"
proof -
  have f: "heap_below_4gb (fst (fold (new_table d flags) js st)) = heap_below_4gb (fst st)" for d js st
  proof (induction js arbitrary: st)
    case (Cons i js)
    have "heap_below_4gb (fst (new_table d flags i st)) = heap_below_4gb (fst st)"
      using kzalloc_mem_below by (cases st) (auto simp: new_table_def Let_def split: prod.splits)
    then show ?case using Cons by simp
  qed simp
  obtain d h1 m1 where d: "kzalloc_mem (4 * of_nat PAGING_TOTAL_ENTRIES_PER_TABLE) h m = (d, h1, m1)" using prod_cases3 by blast
  obtain h2 m2 off where t: "fold (new_table d flags) [0 ..< PAGING_TOTAL_ENTRIES_PER_TABLE] (h1, m1, 0) = (h2, m2, off)" using prod_cases3 by blast
  obtain e h3 m3 where e: "kzalloc_mem 4 h2 m2 = (e, h3, m3)" using prod_cases3 by blast
  have "h' = h3" using assms by (simp add: paging_new_4gb_def d t e)
  then show ?thesis using kzalloc_mem_below [OF d] f [of d _ "(h1, m1, 0)"] t kzalloc_mem_below [OF e] by (metis fst_conv)
qed

lemma sample_heap_below: "heap_below_4gb (fs_heap sample_kernel)"
proof -
  obtain h where h: "kheap_init (\<lambda>_. 0) four_blocks = Some h" using kheap_init_eq by blast
  then have "heap_below_4gb h" by (auto simp: kheap_init_eq heap_below_4gb_def)
  then show ?thesis using h by (simp add: sample_kernel_def boot_heap_def)
qed

text \<open>A process with one task, in the kernel of the concrete instances.\<close>

definition memory_process :: "u32 \<Rightarrow> process" where
  "memory_process t = sample_process\<lparr>proc_task := t, allocations := replicate 1024 \<lparr>alloc_ptr = 0, alloc_size = 0\<rparr>\<rparr>"

lemma memory_kernel: "\<exists>s t. tasks_ok (s :: (unit, unit) kernel) [t] \<and> 0 < free_blocks (fs_heap s) \<and> heap_below_4gb (fs_heap s)"
proof -
  let ?s0 = sample_kernel
  have b: "filetype sample_process = PROCESS_FILETYPE_ELF \<longrightarrow> elf_files ?s0 (proc_ptr sample_process) \<noteq> None"
    by (simp add: sample_process_def kernel_consts)
  have ok0: "tasks_ok ?s0 []" and r0: "1027 \<le> free_blocks (fs_heap ?s0)" and z: "(1 :: u32) \<noteq> 0"
    using sample_kernel_inv(1,2) by (simp_all add: sched_inv_def)
  obtain t s1 where s1: "task_new 1 ?s0 = Some (t, s1)" "tasks_ok s1 ([] @ [t])"
    using task_new_ok [OF ok0 r0 z sample_kernel_inv(3) b] by blast
  have room: "0 < free_blocks (fs_heap s1)"
    using task_new_room [OF ok0 r0 z sample_kernel_inv(3) b s1(1)] sample_kernel_inv(2) by simp
  obtain t0 c h h' m ip where kz: "kzalloc 64 (fs_heap ?s0) = (Some (t0, replicate 64 0), h)" "paging_new_4gb 5 h (phys ?s0) = (c, h', m)"
      and run: "task_new 1 ?s0 = do { s \<leftarrow> task_append t0 (?s0\<lparr>fs_heap := h', phys := m,
         tasks := (tasks ?s0)(t0 \<mapsto> fresh_task c ip 1)\<rparr>); Some (t0, s) }"
    by (rule task_new_eq [OF ok0 r0 z sample_kernel_inv(3) b])
  have "snd (kmalloc 64 (fs_heap ?s0)) = h" using kz(1) by (auto simp: kzalloc_def split: prod.splits if_splits)
  then have "heap_below_4gb h'" using paging_new_4gb_below [OF kz(2)] kmalloc_below [of 64 "fs_heap ?s0"] sample_heap_below by simp
  moreover have "fs_heap s1 = h'" using run s1(1) by (auto split: Option.bind_splits dest!: task_append_keeps)
  ultimately show ?thesis using s1(2) room by auto
qed

theorem process_malloc_free_witness:
  "\<exists>(s :: (unit, unit) kernel) ptr s1 s2. process_malloc 1 100 s = Some (ptr, s1) \<and> (\<forall>k. (ptr, k) \<notin> heap_live (fs_heap s)) \<and>
     process_free 1 ptr s1 = Some s2 \<and> heap_live (fs_heap s2) = heap_live (fs_heap s)"
proof -
  obtain s :: "(unit, unit) kernel" and t where s: "tasks_ok s [t]" "0 < free_blocks (fs_heap s)" "heap_below_4gb (fs_heap s)"
    using memory_kernel by blast
  let ?p = "memory_process t" let ?s = "set_process 1 ?p s"
  have k: "fs_heap ?s = fs_heap s" "procs ?s 1 = Some ?p" by (simp_all add: set_process_def)
  have ok: "tasks_ok ?s [t]" using s(1) by (simp only: tasks_ok_set_process)
  have "replicate 1024 x = x # replicate 1023 x" for x :: process_allocation by (simp add: numeral_eq_Suc)
  then have al: "find_alloc 0 (allocations ?p) = Some 0" "\<forall>a \<in> set (allocations ?p). alloc_ptr a = 0 \<or> (\<exists>k. (alloc_ptr a, k) \<in> heap_live (fs_heap ?s))"
      "proc_task ?p = t"
    by (simp_all add: memory_process_def)
  show ?thesis
    by (rule exI [of _ ?s]) (use process_malloc_free [OF ok _ k(2) al(3), of 100, OF _ _ _ _ _ al(1,2)] s(2,3) k(1) in auto)
qed

end
