(* ===== verification/Spec2Isabelle.thy ===== *)
theory Spec2Isabelle
  imports User_Library Kernel_Main Nic_Frames Pci_Boot Fat_Files Key_Events Process_Memory
begin

text \<open>
  \<^bold>\<open>A verification of the toyos kernel.\<close> Toyos is a small operating system for the 80386 in C and assembly: a heap and
  paging, tasks that are switched by the clock, processes loaded from a FAT16 disk, a keyboard and a text screen, and a
  network stack with a driver for the RTL8139 card. The theories of this directory hold one model for every component, with
  the names of the source, and the theorems about it. Paths below are relative to \<^verbatim>\<open>src/src\<close>.

  \<^bold>\<open>How the code is modelled.\<close> A C function is a HOL function with the same branches. Machine integers are words
  (\<open>u8\<close>, \<open>u16\<close>, \<open>u32\<close>; pointers and \<open>size_t\<close> are \<open>u32\<close>), and so wrap around; C \<open>int\<close> is \<open>int\<close>, with \<open>to_int\<close> where the
  value may leave 32 bits. An array is the list of its elements from the pointer to the end of the object, and
  \<open>rd\<close>, \<open>wr\<close> and their relatives answer \<open>None\<close> outside of it. \<open>None\<close> stands for everything after which the kernel does not go
  on: an access outside an object, a null or stale pointer, a division by zero, a loop that does not end, a panic.
  A function that only computes under such conditions is therefore proved to return \<open>Some\<close>, never assumed to.
  Loops are structural recursion or have a termination proof; the loops that may run forever (polling the disk, counting
  directory entries, reading a cluster chain, waiting for a key) are \<open>partial_function (option)\<close>, and there is no fuel, with
  the exception of the two loops of \<open>strtok\<close>, bounded by the length of the string they run over.
  Hardware is a parameter, a record of the functions that read and write ports (\<open>Port_Bus\<close>), and what the code relies on is a
  predicate over it, at the level of ports and bits: \<open>ata_device\<close> for a drive with its busy and data request bits, \<open>pci_host\<close>
  for the configuration ports, \<open>card_register\<close> for a register of a card, \<open>nic_tx\<close> for the transmitter of the card. Every
  property with such a hypothesis has a witness with a concrete device.

  \<^bold>\<open>State.\<close> The state of the kernel grows along the components as extensible records, so that a function runs on any
  larger state: \<open>fs_state\<close> (heap, hardware, disk), \<open>file_state\<close> (file systems and descriptors), \<open>elf_state\<close> (physical memory, loaded
  programs), \<open>task_state\<close> (processor, tasks, processes), \<open>kbd_state\<close> (interrupt callbacks, keyboards) and \<open>kernel\<close> (system calls,
  lock, terminal, network).

  \<^bold>\<open>Foundations.\<close>
  \<^item> \<open>Kernel_Prelude\<close>: word types, checked access to arrays, generic lemmas. \<open>Kernel_Config\<close>: \<^verbatim>\<open>config.h\<close> and \<^verbatim>\<open>status.h\<close>.
  \<^item> \<open>C_String\<close>: \<^verbatim>\<open>stdlib/string.c\<close> and \<^verbatim>\<open>memory/memory.c\<close>. Each loop is shown equal to a function on lists; \<open>strncpy\<close> stays in
    bounds, \<open>itoa\<close> prints a number that reads back, \<open>istrncmp\<close> compares up to the case of the letters of the two alphabets.
  \<^item> \<open>User_Library\<close>: the functions of \<^verbatim>\<open>programs/stdlib\<close> that the kernel does not have.

  \<^bold>\<open>Memory.\<close>
  \<^item> \<open>Block_Allocator\<close>: the contract of an allocator as the locales \<open>block_allocator\<close> and \<open>page_allocator\<close>, with what follows for
    clients that allocate and release many blocks.
  \<^item> \<open>Kernel_Heap\<close>: \<^verbatim>\<open>memory/heap/heap.c\<close> and \<^verbatim>\<open>kheap.c\<close>. The table of block entries is well formed in every run, allocation is
    first fit, live blocks do not overlap, release undoes allocation; this interprets both locales.
  \<^item> \<open>Phys_Mem\<close>, \<open>Paging\<close>, \<open>Address_Spaces\<close>: \<^verbatim>\<open>memory/paging/paging.c\<close> on physical memory. A new address space is the identity, a
    mapped range translates as asked and nothing else changes, release returns every page; operations on one address
    space leave the pages of the others alone.

  \<^bold>\<open>Tasks and processes.\<close>
  \<^item> \<open>Gdt\<close>: \<^verbatim>\<open>gdt/gdt.c\<close>; the processor reads back the segments that were encoded. \<open>Interrupts\<close>: the tables of \<^verbatim>\<open>idt/idt.c\<close> and
    \<^verbatim>\<open>drivers/pic\<close>.
  \<^item> \<open>Task\<close>, \<open>Process\<close>: \<^verbatim>\<open>task/task.c\<close>, \<^verbatim>\<open>task.asm\<close> and \<^verbatim>\<open>task/process.c\<close>; \<open>Elf\<close>: \<^verbatim>\<open>loader/formats\<close>.
  \<^item> \<open>Keyboard\<close>: \<^verbatim>\<open>keyboard/keyboard.c\<close> and \<^verbatim>\<open>drivers/keyboards/ps2.c\<close>. \<open>Key_Events\<close>: the key buffer of a process is an instance of the
    queue of \<open>Bounded_Fifo\<close>, and keys arrive in order.
  \<^item> \<open>Syscalls\<close>: \<^verbatim>\<open>sys\<close>, the handlers of \<^verbatim>\<open>idt/idt.c\<close> and \<open>int80h\<close>; \<^verbatim>\<open>locks/spinlock.c\<close>. \<open>Kernel_Main\<close>: \<^verbatim>\<open>kernel.c\<close>, the start of the kernel.
  \<^item> \<open>Task_List\<close>: the pointers of the task list as a list, and the invariant \<open>tasks_ok\<close>: every task owns its node and the
    pages of its address space. \<open>task_new\<close> and \<open>task_free\<close> keep it.
  \<^item> \<open>Scheduler\<close>: the step relation \<open>sched\<close> (clock interrupt, program, mapping, new task, end of a task) keeps the invariant; a
    task resumes with its registers; no task starves.
  \<^item> \<open>Process_Memory\<close>: \<open>malloc\<close> and \<open>free\<close> of programs; of a new page only the bytes asked for are cleared.

  \<^bold>\<open>Files.\<close>
  \<^item> \<open>Port_Bus\<close>, \<open>Disk_Stream\<close>: \<^verbatim>\<open>disk/disk.c\<close> and \<^verbatim>\<open>streamer.c\<close> against the ATA protocol. A stream delivers exactly the bytes of the
    disk, and what is written inside a sector is read back. The code does not wait for the drive to become ready for the next
    command, so a write that goes on into the next sector is not covered. A read that ends at the end of the disk polls forever.
  \<^item> \<open>Path_Parser\<close>: \<^verbatim>\<open>fs/path_parser.c\<close>; parsing inverts printing and freeing returns the memory.
  \<^item> \<open>Fat16\<close>, \<open>File\<close>: \<^verbatim>\<open>fs/fat/fat16.c\<close> and \<^verbatim>\<open>fs/file.c\<close>. \<open>Fat_Files\<close>: a file is its chain of clusters, and a read from the start of
    a cluster delivers its bytes.

  \<^bold>\<open>Terminal and network.\<close>
  \<^item> \<open>Terminal\<close>: \<^verbatim>\<open>terminal/terminal.c\<close> and \<^verbatim>\<open>stdlib/printf.c\<close> refine a screen of characters that scrolls.
  \<^item> \<open>Pci\<close>: \<^verbatim>\<open>drivers/pci/pci.c\<close>; the enumeration looks at function 0 of every device, and overruns its table when more than 16
    answer. \<open>Pci_Boot\<close>: the enumeration with the initialisation of the RTL8139 driver, which returns in every state and touches only
    its own card; all devices are recorded.
  \<^item> \<open>Net_Base\<close>, \<open>Net_Checksum\<close>, \<open>Net_Socket\<close>, \<open>Net_Stack\<close>: \<^verbatim>\<open>sys/net\<close>. The checksum is that of RFC 1071, the socket table keeps its
    invariant, every socket is a queue of datagrams (\<open>bounded_fifo\<close>).
  \<^item> \<open>Net_Wire\<close>: the frames the stack sends, for any driver that meets the locale \<open>net_driver\<close>.
  \<^item> \<open>Rtl8139\<close>, \<open>Nic_Frames\<close>: \<^verbatim>\<open>drivers/net/rtl8139.c\<close>; the driver interprets \<open>net_driver\<close>. A ping and an ARP request in the receive
    ring are answered on the wire, a datagram with any header that verifies reaches its socket, what one machine sends the other
    receives, and the socket calls stay inside their buffers.

  \<^bold>\<open>Bounds.\<close> Positions on the disk are below two to the 31st and strictly inside the drive, as the code computes them in \<open>int\<close> and reads one
  sector more at a sector boundary. Memory of programs is treated for requests of up to one page, and for a heap that ends below
  the last page of the address space, as that of the kernel does. New tasks in the step relation need 1027 free blocks: one
  for the task, 1024 tables, the directory and the chunk. Requests to the heap are of 1 to two to the 32nd minus 4096 bytes where
  its blocks are counted. A message of 1495 to 1500 bytes passes the check of \<open>socket_sendto\<close> but not the buffer of the driver.

  \<^bold>\<open>Not modelled.\<close> The boot loader, the entry code and the call stubs are assembly that runs before or below the modelled
  functions; of the assembly only what changes modelled state is a definition (loading segments and paging registers, the return to
  user mode, \<open>int80h\<close>). User programs are not run: between two interrupts user code may change its registers and any memory
  but the pages of the address spaces, which the protection of the processor keeps from it. The driver in
  \<^verbatim>\<open>sanos_rtl8139.c\<close> is not part of the build, nor are the tests. Interrupts do not nest and there is one processor.
  The error code that the processor pushes for some exceptions, and that the entry stubs do not remove, is not modelled: an exception is
  seen as its handler sees it. The order of evaluation, alignment and the layout of structures are those of the compiler for the 80386 where the code depends on
  them. Constants of one line are not listed one by one in the map.
\<close>

end
